(* ===== verification/Prelude.thy ===== *)
theory Prelude
  imports Main "HOL-Library.AList" "HOL-Library.Char_ord" "HOL-Library.List_Lexorder"
begin

section \<open>Shared vocabulary of the development\<close>

text \<open>
  What every component of the model uses: results that are an error or a value, the
  loops of the Go code that stop at the first error, Go maps as association lists with
  distinct keys, and the generic list lemmas the component proofs share.

  A Go function \<open>func f(\<dots>) (T, error)\<close> becomes a HOL function into
  \<open>'e + T\<close>: \<open>Inl\<close> is the error return, \<open>Inr\<close> the success.
  The Go idiom \<open>if err != nil { return err }\<close> is \<open>bindR\<close>.
\<close>

named_theorems res_simps \<open>rewriting the sequencing of fallible calls\<close>

subsection \<open>Fallible calls in sequence\<close>

definition bindR :: "'e + 'a \<Rightarrow> ('a \<Rightarrow> 'e + 'b) \<Rightarrow> 'e + 'b" where
  "bindR r f = (case r of Inl e \<Rightarrow> Inl e | Inr x \<Rightarrow> f x)"

lemma bindR_simps [simp, res_simps]:
  "bindR (Inl e) f = Inl e"
  "bindR (Inr x) f = f x"
  by (simp_all add: bindR_def)

lemma bindR_Inr_iff [res_simps]:
  "bindR r f = Inr y \<longleftrightarrow> (\<exists>x. r = Inr x \<and> f x = Inr y)"
  by (cases r) auto

lemma bindR_Inl_iff [res_simps]:
  "bindR r f = Inl e \<longleftrightarrow> r = Inl e \<or> (\<exists>x. r = Inr x \<and> f x = Inl e)"
  by (cases r) auto

lemma bindR_cong [fundef_cong]:
  "r = r' \<Longrightarrow> (\<And>x. r' = Inr x \<Longrightarrow> f x = g x) \<Longrightarrow> bindR r f = bindR r' g"
  by (cases r') auto

lemma sum_cases_ex: "(\<exists>e. r = Inl e) \<or> (\<exists>x. r = Inr x)"
  by (cases r) auto

lemma not_Inl_iff [res_simps]: "(\<forall>e. r \<noteq> Inl e) \<longleftrightarrow> (\<exists>x. r = Inr x)"
  by (cases r) auto

text \<open>A loop that converts each element and stops at the first error.\<close>

fun mapR :: "('a \<Rightarrow> 'e + 'b) \<Rightarrow> 'a list \<Rightarrow> 'e + 'b list" where
  "mapR f [] = Inr []"
| "mapR f (x # xs) = bindR (f x) (\<lambda>y. bindR (mapR f xs) (\<lambda>ys. Inr (y # ys)))"

lemma mapR_Inr_iff:
  "mapR f xs = Inr ys \<longleftrightarrow> list_all2 (\<lambda>x y. f x = Inr y) xs ys"
  by (induction xs arbitrary: ys) (auto simp: res_simps list_all2_Cons1)

lemma mapR_length: "mapR f xs = Inr ys \<Longrightarrow> length ys = length xs"
  by (auto simp: mapR_Inr_iff dest: list_all2_lengthD)

lemma mapR_Inl_ex: "mapR f xs = Inl e \<Longrightarrow> \<exists>x \<in> set xs. f x = Inl e"
  by (induction xs) (auto simp: res_simps)

lemma mapR_total: "(\<And>x. x \<in> set xs \<Longrightarrow> f x = Inr (g x)) \<Longrightarrow> mapR f xs = Inr (map g xs)"
  by (induction xs) auto

text \<open>A loop that only checks each element and stops at the first error.\<close>

fun checkR :: "('a \<Rightarrow> 'e option) \<Rightarrow> 'a list \<Rightarrow> 'e option" where
  "checkR f [] = None"
| "checkR f (x # xs) = (case f x of Some e \<Rightarrow> Some e | None \<Rightarrow> checkR f xs)"

lemma checkR_None_iff: "checkR f xs = None \<longleftrightarrow> (\<forall>x \<in> set xs. f x = None)"
  by (induction xs) (auto split: option.splits)

lemma checkR_Some_ex: "checkR f xs = Some e \<Longrightarrow> \<exists>x \<in> set xs. f x = Some e"
  by (induction xs) (auto split: option.splits)

subsection \<open>Go maps as association lists\<close>

text \<open>
  A Go map is an association list with distinct keys; \<open>m[k]\<close> is \<open>map_of m k\<close>,
  \<open>m[k] = v\<close> is \<open>AList.update k v m\<close> and \<open>delete(m, k)\<close> is
  \<open>AList.delete k m\<close>. The order of the list is the model's own: Go leaves the
  iteration order of a map open, and the theorems speak about lookups.
\<close>

type_synonym ('k, 'v) gomap = "('k \<times> 'v) list"

abbreviation wf_map :: "('k, 'v) gomap \<Rightarrow> bool" where
  "wf_map m \<equiv> distinct (map fst m)"

lemma map_of_update [simp]: "map_of (AList.update k v m) k' = (if k' = k then Some v else map_of m k')"
  by (simp add: update_conv)

lemma map_of_delete [simp]: "map_of (AList.delete k m) k' = (if k' = k then None else map_of m k')"
  by (simp add: delete_conv)

lemma wf_map_update: "wf_map m \<Longrightarrow> wf_map (AList.update k v m)"
  by (rule distinct_update)

lemma wf_map_delete: "wf_map m \<Longrightarrow> wf_map (AList.delete k m)"
  by (rule distinct_delete)

lemma update_same: "wf_map m \<Longrightarrow> map_of m k = Some v \<Longrightarrow> AList.update k v m = m"
proof (induction m)
  case Nil
  then show ?case by simp
next
  case (Cons p m)
  obtain a b where p: "p = (a, b)" by (cases p)
  show ?case
  proof (cases "a = k")
    case True
    with Cons.prems p show ?thesis by simp
  next
    case False
    with Cons p show ?thesis by simp
  qed
qed

lemma delete_absent: "map_of m k = None \<Longrightarrow> AList.delete k m = m"
  by (induction m) (auto split: if_splits)

text \<open>The first position holding an element, as \<open>slices.IndexFunc\<close> returns it.\<close>

fun index_where :: "('a \<Rightarrow> bool) \<Rightarrow> 'a list \<Rightarrow> nat option" where
  "index_where P [] = None"
| "index_where P (x # xs) = (if P x then Some 0 else map_option Suc (index_where P xs))"

lemma index_where_None_iff: "index_where P xs = None \<longleftrightarrow> (\<forall>x \<in> set xs. \<not> P x)"
  by (induction xs) auto

lemma index_where_Some:
  "index_where P xs = Some i \<Longrightarrow> i < length xs \<and> P (xs ! i) \<and> (\<forall>j < i. \<not> P (xs ! j))"
proof (induction xs arbitrary: i)
  case Nil
  then show ?case by simp
next
  case (Cons x xs)
  show ?case
  proof (cases "P x")
    case True
    with Cons.prems show ?thesis by simp
  next
    case False
    with Cons.prems obtain k where k: "index_where P xs = Some k" "i = Suc k" by auto
    with Cons.IH[of k] False show ?thesis by (auto simp: less_Suc_eq_0_disj)
  qed
qed

subsection \<open>Lists\<close>

text \<open>
  \<open>before xs a b\<close>: some occurrence of \<open>a\<close> stands strictly before some occurrence of
  \<open>b\<close> in \<open>xs\<close>.
\<close>

definition before :: "'a list \<Rightarrow> 'a \<Rightarrow> 'a \<Rightarrow> bool" where
  "before xs a b \<longleftrightarrow> (\<exists>us vs. xs = us @ b # vs \<and> a \<in> set us)"

lemma before_in_set: "before xs a b \<Longrightarrow> a \<in> set xs \<and> b \<in> set xs"
  by (auto simp: before_def)

lemma before_snoc: "a \<in> set xs \<Longrightarrow> before (xs @ [b]) a b"
  by (auto simp: before_def)

lemma before_append: "before xs a b \<Longrightarrow> before (xs @ ys) a b"
  by (force simp: before_def)

lemma before_asym:
  assumes d: "distinct xs" and ab: "before xs a b"
  shows "\<not> before xs b a"
proof
  assume ba: "before xs b a"
  from ab obtain us vs where 1: "xs = us @ b # vs" "a \<in> set us"
    by (auto simp: before_def)
  from ba obtain us' vs' where 2: "xs = us' @ a # vs'" "b \<in> set us'"
    by (auto simp: before_def)
  have "(\<exists>ws. us = us' @ ws \<and> ws @ b # vs = a # vs') \<or>
      (\<exists>ws. us @ ws = us' \<and> b # vs = ws @ a # vs')"
    using 1(1) 2(1) by (auto simp: append_eq_append_conv2)
  then show False
    using 1 2 d by (auto simp: Cons_eq_append_conv)
qed

end
