(* ===== verification/GoStrings.thy ===== *)
theory GoStrings
  imports Prelude "HOL-Library.Sublist"
begin

section \<open>The parts of Go's string library the program calls\<close>

text \<open>
  A Go string is a byte sequence; a HOL \<open>string\<close> is a list of 8-bit characters, so it is
  the same thing. The functions below are the ones of the packages \<open>strings\<close>,
  \<open>strconv\<close>, \<open>unicode\<close> and \<open>path\<close> that the repository calls, on the cases it
  calls them with. Runes are decoded from UTF-8 where the Go function works on runes
  (\<open>strings.TrimSpace\<close>, \<open>range\<close> over a string).
\<close>

subsection \<open>Prefixes, suffixes, cutting and splitting\<close>

definition has_prefix :: "string \<Rightarrow> string \<Rightarrow> bool" where
  "has_prefix s p \<longleftrightarrow> take (length p) s = p"

definition has_suffix :: "string \<Rightarrow> string \<Rightarrow> bool" where
  "has_suffix s p \<longleftrightarrow> has_prefix (rev s) (rev p)"

text \<open>\<open>strings.Cut\<close>: around the first occurrence of the separator, if there is one.\<close>

fun cut :: "string \<Rightarrow> string \<Rightarrow> (string \<times> string) option" where
  "cut [] sep = (if sep = [] then Some ([], []) else None)"
| "cut (c # cs) sep =
     (if has_prefix (c # cs) sep then Some ([], drop (length sep) (c # cs))
      else map_option (\<lambda>(a, b). (c # a, b)) (cut cs sep))"

definition contains :: "string \<Rightarrow> string \<Rightarrow> bool" where
  "contains s sub \<longleftrightarrow> cut s sub \<noteq> None"

definition contains_char :: "string \<Rightarrow> char \<Rightarrow> bool" where
  "contains_char s c \<longleftrightarrow> c \<in> set s"

text \<open>\<open>strings.Split\<close> on a one-byte separator, and \<open>strings.Join\<close>.\<close>

fun split_on :: "char \<Rightarrow> string \<Rightarrow> string list" where
  "split_on d [] = [[]]"
| "split_on d (c # cs) =
     (if c = d then [] # split_on d cs
      else (case split_on d cs of [] \<Rightarrow> [[c]] | l # ls \<Rightarrow> (c # l) # ls))"

fun join_with :: "char \<Rightarrow> string list \<Rightarrow> string" where
  "join_with d [] = []"
| "join_with d [l] = l"
| "join_with d (l # ls) = l @ d # join_with d ls"

lemma has_prefix_alt: "has_prefix s p \<longleftrightarrow> (\<exists>r. s = p @ r)"
  by (metis append_eq_conv_conj append_take_drop_id has_prefix_def)

lemma has_prefix_Nil [simp]: "has_prefix s []"
  by (simp add: has_prefix_def)

lemma has_prefix_Cons [simp]:
  "has_prefix [] (p # ps) = False"
  "has_prefix (c # cs) (p # ps) \<longleftrightarrow> c = p \<and> has_prefix cs ps"
  by (simp_all add: has_prefix_def)

lemma has_prefix_append [simp]: "has_prefix (p @ r) p"
  by (simp add: has_prefix_def)

lemma has_prefix_trans_len: "has_prefix s p \<Longrightarrow> length p \<le> length s"
  by (auto simp: has_prefix_alt)

lemma has_suffix_alt: "has_suffix s p \<longleftrightarrow> (\<exists>r. s = r @ p)"
proof -
  have "has_suffix s p \<longleftrightarrow> (\<exists>r. rev s = rev p @ r)"
    by (simp add: has_suffix_def has_prefix_alt)
  also have "\<dots> \<longleftrightarrow> (\<exists>r. s = r @ p)"
    by (metis rev_append rev_rev_ident)
  finally show ?thesis .
qed

lemma cut_Some: "cut s sep = Some (a, b) \<Longrightarrow> s = a @ sep @ b"
proof (induction s arbitrary: a b)
  case Nil
  then show ?case by (simp split: if_splits)
next
  case (Cons c cs)
  show ?case
  proof (cases "has_prefix (c # cs) sep")
    case True
    with Cons.prems show ?thesis by (auto simp: has_prefix_alt)
  next
    case False
    with Cons show ?thesis by auto
  qed
qed

lemma cut_None_iff: "cut s sep = None \<longleftrightarrow> (\<nexists>a b. s = a @ sep @ b)"
proof (induction s)
  case Nil
  then show ?case by auto
next
  case (Cons c cs)
  have "(\<exists>a b. c # cs = a @ sep @ b) \<longleftrightarrow> has_prefix (c # cs) sep \<or> (\<exists>a b. cs = a @ sep @ b)"
  proof
    assume "\<exists>a b. c # cs = a @ sep @ b"
    then obtain a b where "c # cs = a @ sep @ b" by blast
    then show "has_prefix (c # cs) sep \<or> (\<exists>a b. cs = a @ sep @ b)"
      by (cases a) (auto simp: has_prefix_alt)
  next
    assume "has_prefix (c # cs) sep \<or> (\<exists>a b. cs = a @ sep @ b)"
    then show "\<exists>a b. c # cs = a @ sep @ b"
      by (metis append_Cons append_Nil has_prefix_alt)
  qed
  with Cons show ?case by auto
qed

lemma contains_iff: "contains s sub \<longleftrightarrow> (\<exists>a b. s = a @ sub @ b)"
  using cut_None_iff [of s sub] by (simp add: contains_def)

text \<open>\<open>strings.Cut\<close> cuts at the first occurrence: the part before has none.\<close>

lemma cut_char_first: "cut s [d] = Some (a, b) \<Longrightarrow> d \<notin> set a"
  by (induction s arbitrary: a b) (auto split: if_splits)

lemma cut_char_None_iff: "cut s [d] = None \<longleftrightarrow> d \<notin> set s"
  by (induction s) auto

lemma split_on_not_Nil [simp]: "split_on d s \<noteq> []"
  by (cases s) (auto split: list.split)

lemma join_with_Cons: "ls \<noteq> [] \<Longrightarrow> join_with d (l # ls) = l @ d # join_with d ls"
  by (cases ls) auto

lemma join_split [simp]: "join_with d (split_on d s) = s"
proof (induction s)
  case Nil
  then show ?case by simp
next
  case (Cons c cs)
  obtain l ls where e: "split_on d cs = l # ls"
    by (cases "split_on d cs") auto
  with Cons show ?case
    by (cases ls) auto
qed

lemma split_on_no_sep: "d \<notin> set l \<Longrightarrow> split_on d l = [l]"
  by (induction l) auto

lemma split_on_append: "d \<notin> set l \<Longrightarrow> split_on d (l @ d # s) = l # split_on d s"
  by (induction l) auto

lemma split_join:
  "ls \<noteq> [] \<Longrightarrow> (\<forall>l \<in> set ls. d \<notin> set l) \<Longrightarrow> split_on d (join_with d ls) = ls"
proof (induction ls)
  case Nil
  then show ?case by simp
next
  case (Cons l ls)
  then show ?case
    by (cases ls) (auto simp: split_on_no_sep split_on_append)
qed

lemma split_on_pieces: "l \<in> set (split_on d s) \<Longrightarrow> d \<notin> set l"
  by (induction s arbitrary: l) (auto split: if_splits list.splits)

subsection \<open>Runes\<close>

text \<open>
  The first rune of a byte string and its width, as \<open>utf8.DecodeRune\<close>: an invalid or
  truncated sequence is the replacement rune of width 1.
\<close>

definition rune_error :: nat where
  "rune_error = 65533"

definition cont_byte :: "char \<Rightarrow> bool" where
  "cont_byte c \<longleftrightarrow> 128 \<le> (of_char c :: nat) \<and> (of_char c :: nat) < 192"

fun decode_rune :: "string \<Rightarrow> nat \<times> nat" where
  "decode_rune [] = (rune_error, 0)"
| "decode_rune (c # cs) =
     (let b0 = (of_char c :: nat);
          b = (\<lambda>i. (of_char (cs ! i) :: nat) mod 64);
          conts = (\<lambda>n. n \<le> length cs \<and> list_all cont_byte (take n cs));
          r2 = (b0 mod 32) * 64 + b 0;
          r3 = (b0 mod 16) * 4096 + b 0 * 64 + b 1;
          r4 = (b0 mod 8) * 262144 + b 0 * 4096 + b 1 * 64 + b 2
      in if b0 < 128 then (b0, 1)
         else if 194 \<le> b0 \<and> b0 < 224 \<and> conts 1 then (r2, 2)
         else if 224 \<le> b0 \<and> b0 < 240 \<and> conts 2 \<and> 2048 \<le> r3 \<and> \<not> (55296 \<le> r3 \<and> r3 < 57344)
         then (r3, 3)
         else if 240 \<le> b0 \<and> b0 < 245 \<and> conts 3 \<and> 65536 \<le> r4 \<and> r4 < 1114112 then (r4, 4)
         else (rune_error, 1))"

lemma decode_rune_width: "s \<noteq> [] \<Longrightarrow> 0 < snd (decode_rune s) \<and> snd (decode_rune s) \<le> length s"
  by (cases s) (auto simp: Let_def)

text \<open>The byte sequences of the runes of a string, in order.\<close>

function rune_chunks :: "string \<Rightarrow> string list" where
  "rune_chunks s =
     (if s = [] then []
      else take (snd (decode_rune s)) s # rune_chunks (drop (snd (decode_rune s)) s))"
  by pat_completeness auto
termination
proof (relation "measure length")
  show "wf (measure (length :: string \<Rightarrow> nat))" by simp
next
  fix s :: string
  assume "s \<noteq> []"
  then show "(drop (snd (decode_rune s)) s, s) \<in> measure length"
    using decode_rune_width [of s] by auto
qed

declare rune_chunks.simps [simp del]

lemma rune_chunks_Nil [simp]: "rune_chunks [] = []"
  by (simp add: rune_chunks.simps)

lemma rune_chunks_ascii [simp]:
  "(of_char c :: nat) < 128 \<Longrightarrow> rune_chunks (c # cs) = [c] # rune_chunks cs"
  by (simp add: rune_chunks.simps [of "c # cs"])

lemma concat_rune_chunks [simp]: "concat (rune_chunks s) = s"
proof (induction s rule: rune_chunks.induct)
  case (1 s)
  then show ?case
    by (cases "s = []") (simp_all add: rune_chunks.simps [of s])
qed

definition runes :: "string \<Rightarrow> nat list" where
  "runes s = map (\<lambda>w. fst (decode_rune w)) (rune_chunks s)"

text \<open>\<open>unicode.IsSpace\<close> and \<open>unicode.IsControl\<close>.\<close>

definition is_space :: "nat \<Rightarrow> bool" where
  "is_space r \<longleftrightarrow> r \<in> {9, 10, 11, 12, 13, 32, 133, 160, 5760, 8232, 8233, 8239, 8287, 12288}
     \<or> (8192 \<le> r \<and> r \<le> 8202)"

definition is_control :: "nat \<Rightarrow> bool" where
  "is_control r \<longleftrightarrow> r < 32 \<or> (127 \<le> r \<and> r < 160)"

text \<open>\<open>strings.TrimSpace\<close>: drop leading and trailing white-space runes.\<close>

definition space_chunk :: "string \<Rightarrow> bool" where
  "space_chunk w \<longleftrightarrow> is_space (fst (decode_rune w))"

definition trim_space :: "string \<Rightarrow> string" where
  "trim_space s =
     concat (rev (dropWhile space_chunk (rev (dropWhile space_chunk (rune_chunks s)))))"

definition ascii :: "char \<Rightarrow> bool" where
  "ascii c \<longleftrightarrow> (of_char c :: nat) < 128"

lemma rune_chunks_all_ascii: "list_all ascii s \<Longrightarrow> rune_chunks s = map (\<lambda>c. [c]) s"
  by (induction s) (simp_all add: ascii_def)

lemma space_chunk_ascii: "ascii c \<Longrightarrow> space_chunk [c] \<longleftrightarrow> is_space (of_char c)"
  by (simp add: space_chunk_def ascii_def)

lemma trim_space_Nil [simp]: "trim_space [] = []"
  by (simp add: trim_space_def)

lemma trim_space_space [simp]: "trim_space (CHR '' '' # s) = trim_space s"
  by (simp add: trim_space_def space_chunk_def is_space_def)

lemma dropWhile_snoc: "\<not> P y \<Longrightarrow> dropWhile P (xs @ [y]) = dropWhile P xs @ [y]"
  by (induction xs) auto

lemma trim_space_hd:
  assumes "ascii c" "\<not> is_space (of_char c)"
  shows "\<exists>r. trim_space (c # s) = c # r"
proof -
  have c: "\<not> space_chunk [c]" using assms by (simp add: space_chunk_ascii)
  have "rune_chunks (c # s) = [c] # rune_chunks s" using assms(1) by (simp add: ascii_def)
  with c show ?thesis
    by (simp add: trim_space_def dropWhile_snoc)
qed

lemma trim_space_clean:
  assumes "list_all ascii s" "s \<noteq> []" "\<not> is_space (of_char (hd s))" "\<not> is_space (of_char (last s))"
  shows "trim_space s = s"
proof -
  let ?cs = "map (\<lambda>c. [c]) s"
  have h: "dropWhile space_chunk ?cs = ?cs"
    using assms by (cases s) (simp_all add: space_chunk_ascii)
  obtain xs y where s: "s = xs @ [y]" using assms(2) by (metis append_butlast_last_id)
  have "\<not> space_chunk [y]" using assms(1,4) s by (simp add: space_chunk_ascii)
  then have l: "dropWhile space_chunk (rev ?cs) = rev ?cs"
    by (simp add: s)
  show ?thesis
    unfolding trim_space_def rune_chunks_all_ascii [OF assms(1)] h l by (simp add: comp_def)
qed

subsection \<open>Decimal numbers\<close>

fun digits_of :: "nat \<Rightarrow> string" where
  "digits_of n =
     (if n < 10 then [char_of (48 + n)] else digits_of (n div 10) @ [char_of (48 + n mod 10)])"

declare digits_of.simps [simp del]

definition itoa :: "int \<Rightarrow> string" where
  "itoa i = (if i < 0 then CHR ''-'' # digits_of (nat (- i)) else digits_of (nat i))"

definition is_digit :: "char \<Rightarrow> bool" where
  "is_digit c \<longleftrightarrow> CHR ''0'' \<le> c \<and> c \<le> CHR ''9''"

definition is_lower :: "char \<Rightarrow> bool" where
  "is_lower c \<longleftrightarrow> CHR ''a'' \<le> c \<and> c \<le> CHR ''z''"

definition is_upper :: "char \<Rightarrow> bool" where
  "is_upper c \<longleftrightarrow> CHR ''A'' \<le> c \<and> c \<le> CHR ''Z''"

subsection \<open>Slash-separated paths\<close>

text \<open>\<open>path.Ext\<close>: the suffix from the last dot of the last element, the dot included.\<close>

definition path_last :: "string \<Rightarrow> string" where
  "path_last s = last (split_on CHR ''/'' s)"

definition path_ext :: "string \<Rightarrow> string" where
  "path_ext s =
     (let e = path_last s; t = takeWhile (\<lambda>c. c \<noteq> CHR ''.'') (rev e)
      in if CHR ''.'' \<in> set e then CHR ''.'' # rev t else [])"

text \<open>\<open>path.Base\<close>: the last element after trailing slashes are removed.\<close>

definition path_base :: "string \<Rightarrow> string" where
  "path_base s =
     (if s = [] then ''.''
      else (let t = rev (dropWhile (\<lambda>c. c = CHR ''/'') (rev s))
            in if t = [] then ''/'' else path_last t))"

subsection \<open>Hexadecimal\<close>

text \<open>\<open>hex.EncodeToString\<close>: two lower-case digits a byte.\<close>

definition hex_digit :: "nat \<Rightarrow> char" where
  "hex_digit n = ''0123456789abcdef'' ! n"

definition hex_encode :: "string \<Rightarrow> string" where
  "hex_encode s = concat (map (\<lambda>c. [hex_digit (of_char c div 16), hex_digit (of_char c mod 16)]) s)"

lemma hex_digit_inj: "m < 16 \<Longrightarrow> n < 16 \<Longrightarrow> hex_digit m = hex_digit n \<longleftrightarrow> m = n"
proof -
  have "distinct ''0123456789abcdef''" by simp
  then show "m < 16 \<Longrightarrow> n < 16 \<Longrightarrow> hex_digit m = hex_digit n \<longleftrightarrow> m = n"
    unfolding hex_digit_def by (subst nth_eq_iff_index_eq) simp_all
qed

lemma of_char_256: "(of_char c :: nat) < 256"
  using of_char_of [of "of_char c :: nat"] by (metis of_char_of of_char_mod_256 mod_less_divisor zero_less_numeral)

lemma hex_encode_inj: "hex_encode s = hex_encode t \<longleftrightarrow> s = t"
proof
  show "hex_encode s = hex_encode t \<Longrightarrow> s = t"
  proof (induction s arbitrary: t)
    case Nil
    then show ?case by (cases t) (simp_all add: hex_encode_def)
  next
    case (Cons c s)
    then obtain d t' where t: "t = d # t'" by (cases t) (simp_all add: hex_encode_def)
    with Cons.prems have "hex_digit (of_char c div 16) = hex_digit (of_char d div 16)"
      "hex_digit (of_char c mod 16) = hex_digit (of_char d mod 16)" "hex_encode s = hex_encode t'"
      by (simp_all add: hex_encode_def)
    then have "(of_char c :: nat) div 16 = of_char d div 16 \<and> (of_char c :: nat) mod 16 = of_char d mod 16"
      using of_char_256 [of c] of_char_256 [of d] by (simp add: hex_digit_inj less_mult_imp_div_less)
    then have "(of_char c :: nat) = of_char d" by (metis div_mult_mod_eq)
    then show ?case using t Cons.IH \<open>hex_encode s = hex_encode t'\<close> by simp
  qed
qed simp

lemma hex_encode_length: "length (hex_encode s) = 2 * length s"
  by (induction s) (simp_all add: hex_encode_def)

lemma hex_encode_chars:
  assumes "c \<in> set (hex_encode s)"
  shows "c \<in> set ''0123456789abcdef''"
proof -
  have h: "hex_digit n \<in> set ''0123456789abcdef''" if "n < 16" for n
    unfolding hex_digit_def using that by (intro nth_mem) simp
  from assms obtain x where "c = hex_digit (of_char x div 16) \<or> c = hex_digit (of_char x mod 16)"
    by (auto simp: hex_encode_def)
  moreover have "of_char x div 16 < (16 :: nat)" using of_char_256 [of x] by (simp add: less_mult_imp_div_less)
  moreover have "of_char x mod 16 < (16 :: nat)" by simp
  ultimately show ?thesis using h by blast
qed

subsection \<open>Quoting\<close>

definition bslash1 :: string where "bslash1 = [CHR 0x5C]"
definition em_dash :: string where "em_dash = [CHR 0xE2, CHR 0x80, CHR 0x94]"

text \<open>\<open>strconv.Quote\<close>, which \<open>%q\<close> prints; \<open>print r\<close> is \<open>strconv.IsPrint\<close> beyond ASCII.\<close>

definition hex_byte :: "nat \<Rightarrow> string" where
  "hex_byte n = [hex_digit (n div 16 mod 16), hex_digit (n mod 16)]"

definition quote_chunk :: "(nat \<Rightarrow> bool) \<Rightarrow> string \<Rightarrow> string" where
  "quote_chunk print c =
     (let r = fst (decode_rune c) in
      if length c = 1 \<and> r = rune_error then bslash1 @ ''x'' @ hex_byte (of_char (hd c))
      else if r = 34 \<or> r = 92 then bslash1 @ c
      else if (if r < 128 then 32 \<le> r \<and> r < 127 else print r) then c
      else if r = 7 then bslash1 @ ''a'' else if r = 8 then bslash1 @ ''b'' else if r = 12 then bslash1 @ ''f''
      else if r = 10 then bslash1 @ ''n'' else if r = 13 then bslash1 @ ''r'' else if r = 9 then bslash1 @ ''t'' else if r = 11 then bslash1 @ ''v''
      else if r < 32 \<or> r = 127 then bslash1 @ ''x'' @ hex_byte r
      else if r < 65536 then bslash1 @ ''u'' @ hex_byte (r div 256) @ hex_byte (r mod 256)
      else bslash1 @ ''U'' @ hex_byte (r div 16777216) @ hex_byte (r div 65536) @ hex_byte (r div 256) @ hex_byte (r mod 256))"

definition go_quote :: "(nat \<Rightarrow> bool) \<Rightarrow> string \<Rightarrow> string" where
  "go_quote print s = ''\"'' @ concat (map (quote_chunk print) (rune_chunks s)) @ ''\"''"

text \<open>A string of printable ASCII without a quote or a backslash is quoted as it stands.\<close>

definition plain_char :: "char \<Rightarrow> bool" where
  "plain_char c \<longleftrightarrow> (let n = (of_char c :: nat) in 32 \<le> n \<and> n < 127 \<and> n \<noteq> 34 \<and> n \<noteq> 92)"

lemma go_quote_plain: "list_all plain_char s \<Longrightarrow> go_quote print s = ''\"'' @ s @ ''\"''"
proof -
  have q: "quote_chunk print [c] = [c]" if "plain_char c" for c
    using that by (auto simp: plain_char_def quote_chunk_def Let_def rune_error_def)
  have "concat (map (quote_chunk print) (rune_chunks s)) = s" if "list_all plain_char s"
    using that by (induction s) (auto simp: q plain_char_def Let_def)
  then show "list_all plain_char s \<Longrightarrow> go_quote print s = ''\"'' @ s @ ''\"''"
    by (simp add: go_quote_def)
qed

end
