(* ===== verification/CubeErr.thy ===== *)
theory CubeErr
  imports GoStrings
begin

section \<open>Coded errors and the process exit code (\<open>internal/cubeerr\<close>)\<close>

text \<open>
  A Go error chain. \<open>Coded c ps cause\<close> is a \<open>*cubeerr.Coded\<close> with code \<open>c\<close> and cause
  \<open>cause\<close>; \<open>ps\<close> are the values its summary interpolates, in their order (the fixed text
  of summaries and remediations is not modelled: the code identifies the error, the
  interpolated values say about what). \<open>Wrapf ctx e\<close> is \<open>fmt.Errorf("ctx: %w", e)\<close>,
  which keeps \<open>e\<close> in the chain; \<open>Plain msg\<close> is an error without a cause.
\<close>

type_synonym code = string

datatype err =
    Coded code "string list" "err option"
  | Wrapf string err
  | Plain string

type_synonym 'a res = "err + 'a"

text \<open>\<open>cubeerr.Wrap\<close>.\<close>

definition wrap :: "code \<Rightarrow> string list \<Rightarrow> err option \<Rightarrow> err" where
  "wrap c ps cause = Coded c ps cause"

text \<open>\<open>(*Coded).Unwrap\<close> and the unwrapping of a wrapped error.\<close>

fun unwrap :: "err \<Rightarrow> err option" where
  "unwrap (Coded c ps cause) = cause"
| "unwrap (Wrapf m e) = Some e"
| "unwrap (Plain m) = None"

text \<open>\<open>errors.As(err, *Coded)\<close>: the first coded error of the chain.\<close>

fun as_coded :: "err \<Rightarrow> (code \<times> string list) option" where
  "as_coded (Coded c ps cause) = Some (c, ps)"
| "as_coded (Wrapf m e) = as_coded e"
| "as_coded (Plain m) = None"

definition err_code :: "err \<Rightarrow> code option" where
  "err_code e = map_option fst (as_coded e)"

lemma err_code_simps [simp]:
  "err_code (Coded c ps cause) = Some c"
  "err_code (Wrapf m e) = err_code e"
  "err_code (Plain m) = None"
  by (simp_all add: err_code_def)

lemma err_code_wrap [simp]: "err_code (wrap c ps cause) = Some c"
  by (simp add: wrap_def)

abbreviation is_coded :: "err \<Rightarrow> bool" where
  "is_coded e \<equiv> as_coded e \<noteq> None"

lemma is_coded_iff: "is_coded e \<longleftrightarrow> (\<exists>c. err_code e = Some c)"
  by (auto simp: err_code_def)

text \<open>The component tag of a code \<open>CUBE-TAG-NNN\<close>; empty for any other shape.\<close>

definition tag :: "code \<Rightarrow> string" where
  "tag c =
     (let parts = split_on CHR ''-'' c
      in if length parts \<noteq> 3 \<or> parts ! 0 \<noteq> ''CUBE'' then '''' else parts ! 1)"

definition ExitSuccess :: int where "ExitSuccess = 0"
definition ExitError :: int where "ExitError = 1"
definition ExitConfig :: int where "ExitConfig = 2"

text \<open>\<open>cubeerr.ExitCode\<close>; \<open>None\<close> is the nil error.\<close>

definition exit_code :: "err option \<Rightarrow> int" where
  "exit_code e =
     (case e of
        None \<Rightarrow> ExitSuccess
      | Some e \<Rightarrow>
          (case as_coded e of
             Some (c, ps) \<Rightarrow> if tag c = ''CFG'' then ExitConfig else ExitError
           | None \<Rightarrow> ExitError))"

lemma tag_shape:
  "CHR ''-'' \<notin> set t \<Longrightarrow> CHR ''-'' \<notin> set n \<Longrightarrow> tag (''CUBE-'' @ t @ CHR ''-'' # n) = t"
  by (simp add: tag_def split_on_append split_on_no_sep)

lemma tag_inv:
  assumes "tag c = t" and "t \<noteq> ''''"
  shows "\<exists>n. CHR ''-'' \<notin> set n \<and> c = ''CUBE-'' @ t @ CHR ''-'' # n"
proof -
  define parts where "parts = split_on CHR ''-'' c"
  have l: "length parts = 3" "parts ! 0 = ''CUBE''" "parts ! 1 = t"
    using assms by (auto simp: tag_def parts_def Let_def split: if_splits)
  then obtain n where p: "parts = [''CUBE'', t, n]"
    by (auto simp: length_Suc_conv numeral_3_eq_3)
  have "c = join_with CHR ''-'' parts"
    by (simp add: parts_def)
  moreover have "CHR ''-'' \<notin> set n"
    using split_on_pieces [of n "CHR ''-''" c] p by (simp add: parts_def [symmetric])
  ultimately show ?thesis
    using p by auto
qed

text \<open>
  The process exits with 2 exactly when the first coded error of the chain is a
  configuration error (\<open>CUBE-CFG-\<dots>\<close>), however deeply it is wrapped; every other error
  exits with 1 and success with 0.
\<close>

theorem exit_code_classifies:
  "exit_code None = 0
   \<and> exit_code (Some e) =
        (if \<exists>n. CHR ''-'' \<notin> set n \<and> err_code e = Some (''CUBE-CFG-'' @ n) then 2 else 1)"
proof -
  have "tag c = ''CFG'' \<longleftrightarrow> (\<exists>n. CHR ''-'' \<notin> set n \<and> c = ''CUBE-CFG-'' @ n)" for c
    using tag_inv [of c "''CFG''"] tag_shape [of "''CFG''"] by auto
  then show ?thesis
    by (auto simp: exit_code_def err_code_def ExitSuccess_def ExitError_def ExitConfig_def
        split: option.splits)
qed

text \<open>The exit code looks through \<open>fmt.Errorf\<close> wrapping.\<close>

lemma exit_code_Wrapf: "exit_code (Some (Wrapf m e)) = exit_code (Some e)"
  by (simp add: exit_code_def)

end
