(* ===== verification/JsonVal.thy ===== *)
theory JsonVal
  imports CubeErr
begin

section \<open>Decoded documents: Go's \<open>any\<close> over JSON, and Kubernetes objects\<close>

text \<open>
  What \<open>json.Unmarshal\<close> and the YAML decoder put into an \<open>any\<close>: a \<open>float64\<close> is kept
  exactly, as mantissa and binary exponent (\<open>VFloat m e\<close> is \<open>m * 2 ^ e\<close>; a decoded number
  is finite). \<open>VInt\<close> is an \<open>int64\<close>. A \<open>map[string]any\<close> is an association list; it is well
  formed when its keys are distinct, at every depth.
\<close>

datatype val =
    VNull
  | VBool bool
  | VInt int
  | VFloat int int
  | VStr string
  | VArr "val list"
  | VObj "(string \<times> val) list"

type_synonym obj = "(string, val) gomap"

fun wf_val :: "val \<Rightarrow> bool" where
  "wf_val (VArr xs) = list_all wf_val xs"
| "wf_val (VObj m) = (distinct (map fst m) \<and> list_all (\<lambda>(k, v). wf_val v) m)"
| "wf_val v = True"

abbreviation wf_obj :: "obj \<Rightarrow> bool" where
  "wf_obj m \<equiv> wf_val (VObj m)"

lemma wf_obj_set: "wf_obj m \<longleftrightarrow> wf_map m \<and> (\<forall>(k, v) \<in> set m. wf_val v)"
  by (simp add: list_all_iff)

lemma wf_obj_iff: "wf_obj m \<longleftrightarrow> wf_map m \<and> (\<forall>k v. map_of m k = Some v \<longrightarrow> wf_val v)"
  unfolding wf_obj_set by (rule conj_cong) auto

lemma wf_obj_lookup: "wf_obj m \<Longrightarrow> map_of m k = Some v \<Longrightarrow> wf_val v"
  unfolding wf_obj_iff by blast

text \<open>The dynamic type as \<open>%T\<close> prints it.\<close>

fun go_type :: "val \<Rightarrow> string" where
  "go_type VNull = ''<nil>''"
| "go_type (VBool b) = ''bool''"
| "go_type (VInt i) = ''int64''"
| "go_type (VFloat m e) = ''float64''"
| "go_type (VStr s) = ''string''"
| "go_type (VArr xs) = ''[]interface {}''"
| "go_type (VObj m) = ''map[string]interface {}''"

text \<open>The checked type assertions \<open>v.(string)\<close> and \<open>v.(map[string]any)\<close>, zero on failure.\<close>

fun as_string :: "val option \<Rightarrow> string" where
  "as_string (Some (VStr s)) = s"
| "as_string v = ''''"

fun as_obj :: "val option \<Rightarrow> obj" where
  "as_obj (Some (VObj m)) = m"
| "as_obj v = []"

lemma as_string_nonempty: "as_string v \<noteq> '''' \<Longrightarrow> v = Some (VStr (as_string v))"
  by (cases v rule: as_string.cases) auto

text \<open>An object with keys in the order given, and the lookup along a path of keys.\<close>

fun nested :: "string list \<Rightarrow> obj \<Rightarrow> val option" where
  "nested [] m = Some (VObj m)"
| "nested [k] m = map_of m k"
| "nested (k # ks) m = (case map_of m k of Some (VObj n) \<Rightarrow> nested ks n | _ \<Rightarrow> None)"

fun set_nested :: "string list \<Rightarrow> val \<Rightarrow> obj \<Rightarrow> obj" where
  "set_nested [] v m = m"
| "set_nested [k] v m = AList.update k v m"
| "set_nested (k # ks) v m = AList.update k (VObj (set_nested ks v (as_obj (map_of m k)))) m"

subsection \<open>Access to unstructured objects\<close>

text \<open>
  \<open>unstructured.Unstructured\<close> is a library type. What the repository calls on it is this
  record; the laws are its documented behaviour, and the locale states them once for every
  component that relies on them.
\<close>

record unstr =
  u_kind :: "obj \<Rightarrow> string"
  u_apiVersion :: "obj \<Rightarrow> string"
  u_name :: "obj \<Rightarrow> string"
  u_namespace :: "obj \<Rightarrow> string"
  u_set_namespace :: "string \<Rightarrow> obj \<Rightarrow> obj"
  u_nested_string :: "string list \<Rightarrow> obj \<Rightarrow> string"

locale unstructured_access =
  fixes U :: unstr
  assumes namespace_set: "ns \<noteq> '''' \<Longrightarrow> u_namespace U (u_set_namespace U ns o1) = ns"
    and kind_set: "u_kind U (u_set_namespace U ns o1) = u_kind U o1"
    and apiVersion_set: "u_apiVersion U (u_set_namespace U ns o1) = u_apiVersion U o1"
    and name_set: "u_name U (u_set_namespace U ns o1) = u_name U o1"
    and set_same: "ns \<noteq> '''' \<Longrightarrow> u_namespace U o1 = ns \<Longrightarrow> u_set_namespace U ns o1 = o1"
    and spec_set: "ks \<noteq> [] \<Longrightarrow> hd ks \<noteq> ''metadata'' \<Longrightarrow>
      u_nested_string U ks (u_set_namespace U ns o1) = u_nested_string U ks o1"
begin

lemma set_idem: "ns \<noteq> '''' \<Longrightarrow> u_set_namespace U ns (u_set_namespace U ns o1) = u_set_namespace U ns o1"
  by (rule set_same) (simp_all add: namespace_set)

end

text \<open>The library's accessors on the decoded document.\<close>

definition std_unstr :: unstr where
  "std_unstr =
     \<lparr>u_kind = (\<lambda>m. as_string (nested [''kind''] m)),
      u_apiVersion = (\<lambda>m. as_string (nested [''apiVersion''] m)),
      u_name = (\<lambda>m. as_string (nested [''metadata'', ''name''] m)),
      u_namespace = (\<lambda>m. as_string (nested [''metadata'', ''namespace''] m)),
      u_set_namespace = (\<lambda>ns m.
        if as_string (nested [''metadata'', ''namespace''] m) = ns then m
        else set_nested [''metadata'', ''namespace''] (VStr ns) m),
      u_nested_string = (\<lambda>ks m. as_string (nested ks m))\<rparr>"

lemma nested_other: "ks \<noteq> [] \<Longrightarrow> hd ks \<noteq> k \<Longrightarrow> nested ks (AList.update k v m) = nested ks m"
  by (cases "(ks, m)" rule: nested.cases) auto

lemma as_obj_name:
  "as_string (nested [''metadata'', ''name''] m) =
     as_string (map_of (as_obj (map_of m ''metadata'')) ''name'')"
  by (auto split: option.split val.split)

interpretation std: unstructured_access std_unstr
proof unfold_locales
  fix ns o1
  show "u_name std_unstr (u_set_namespace std_unstr ns o1) = u_name std_unstr o1"
    unfolding std_unstr_def by (auto simp only: unstr.select_convs as_obj_name) (auto split: if_splits)
qed (auto simp: std_unstr_def nested_other)

end
