(* ===== verification/PackErrors.thy ===== *)
theory PackErrors
  imports CubeErr
begin

section \<open>The coded errors of the pack component (\<open>internal/pack/errors.go\<close>)\<close>

text \<open>
  One definition per constructor. The list holds the values the summary interpolates; the
  fixed wording is left out. Constructors that share a code are told apart by those values.
\<close>

abbreviation CodeSourceUnreadable :: code where "CodeSourceUnreadable \<equiv> ''CUBE-PKG-001''"

definition newSourceUnreadableError :: "string \<Rightarrow> err \<Rightarrow> err" where
  "newSourceUnreadableError ref cause = wrap CodeSourceUnreadable [ref] (Some cause)"

definition newFileUnreadableError :: "string \<Rightarrow> err \<Rightarrow> err" where
  "newFileUnreadableError name cause = wrap CodeSourceUnreadable [name] (Some cause)"

definition NewRefUnsupportedError :: "string \<Rightarrow> string \<Rightarrow> err" where
  "NewRefUnsupportedError ref scheme = wrap CodeSourceUnreadable [ref, scheme] None"

abbreviation CodeMetadataCompile :: code where "CodeMetadataCompile \<equiv> ''CUBE-PKG-002''"

definition newMetadataCompileError :: "err \<Rightarrow> err" where
  "newMetadataCompileError cause = wrap CodeMetadataCompile [] (Some cause)"

abbreviation CodeMetadataSchema :: code where "CodeMetadataSchema \<equiv> ''CUBE-PKG-003''"

definition newMetadataSchemaError :: "err \<Rightarrow> err" where
  "newMetadataSchemaError cause = wrap CodeMetadataSchema [] (Some cause)"

definition newChartVersionError :: "string \<Rightarrow> err" where
  "newChartVersionError version = wrap CodeMetadataSchema [version] None"

definition newSchemaDriftError :: "string \<Rightarrow> err" where
  "newSchemaDriftError detail = wrap CodeMetadataSchema [detail] None"

abbreviation CodePayloadMismatch :: code where "CodePayloadMismatch \<equiv> ''CUBE-PKG-004''"

definition newPayloadMismatchError :: "string \<Rightarrow> string \<Rightarrow> err" where
  "newPayloadMismatchError t want = wrap CodePayloadMismatch [t, want] None"

definition newChartContentError :: "string \<Rightarrow> err" where
  "newChartContentError found = wrap CodePayloadMismatch [''helm'', found] None"

abbreviation CodeManifestParse :: code where "CodeManifestParse \<equiv> ''CUBE-PKG-005''"

definition newManifestParseError :: "string \<Rightarrow> err \<Rightarrow> err" where
  "newManifestParseError name cause = wrap CodeManifestParse [name] (Some cause)"

abbreviation CodeKustomizeBuild :: code where "CodeKustomizeBuild \<equiv> ''CUBE-PKG-006''"

definition newKustomizeBuildError :: "err \<Rightarrow> err" where
  "newKustomizeBuildError cause = wrap CodeKustomizeBuild [] (Some cause)"

abbreviation CodeEmptyRender :: code where "CodeEmptyRender \<equiv> ''CUBE-PKG-007''"

definition newEmptyRenderError :: "string \<Rightarrow> err" where
  "newEmptyRenderError name = wrap CodeEmptyRender [name] None"

abbreviation CodeNamespaceConflict :: code where "CodeNamespaceConflict \<equiv> ''CUBE-PKG-008''"

definition newNamespaceConflictError :: "string \<Rightarrow> string \<Rightarrow> string \<Rightarrow> string \<Rightarrow> err" where
  "newNamespaceConflictError kind name got want =
     wrap CodeNamespaceConflict [kind, name, got, want] None"

abbreviation CodeValuesOnRawPack :: code where "CodeValuesOnRawPack \<equiv> ''CUBE-PKG-009''"

definition newValuesOnRawPackError :: err where
  "newValuesOnRawPackError = wrap CodeValuesOnRawPack [] None"

abbreviation CodeValuesRejected :: code where "CodeValuesRejected \<equiv> ''CUBE-PKG-010''"

definition newValuesRejectedError :: "err \<Rightarrow> err" where
  "newValuesRejectedError cause = wrap CodeValuesRejected [] (Some cause)"

abbreviation CodeValuesNotFlat :: code where "CodeValuesNotFlat \<equiv> ''CUBE-PKG-011''"

definition newValuesNotFlatError :: "string \<Rightarrow> string \<Rightarrow> err" where
  "newValuesNotFlatError name go_type = wrap CodeValuesNotFlat [name, go_type] None"

abbreviation CodeSubstitutionMissing :: code where "CodeSubstitutionMissing \<equiv> ''CUBE-PKG-012''"

definition newSubstitutionError :: "string list \<Rightarrow> err" where
  "newSubstitutionError names = wrap CodeSubstitutionMissing names None"

text \<open>The detail is the document count, or says that the stream is no mapping.\<close>

abbreviation CodeValuesDocument :: code where "CodeValuesDocument \<equiv> ''CUBE-PKG-013''"

definition newValuesDocumentError :: "string \<Rightarrow> nat \<Rightarrow> err option \<Rightarrow> err" where
  "newValuesDocumentError ref count cause =
     (let detail = (if cause \<noteq> None then ''is not a YAML mapping'' else ''holds '' @ itoa (int count) @ '' documents'')
      in wrap CodeValuesDocument [ref, detail] cause)"

definition newInlineValuesError :: "err \<Rightarrow> err" where
  "newInlineValuesError cause = wrap CodeValuesDocument [] (Some cause)"

abbreviation CodeExternalManifest :: code where "CodeExternalManifest \<equiv> ''CUBE-PKG-014''"

definition newExternalManifestError :: "string \<Rightarrow> nat \<Rightarrow> err option \<Rightarrow> err" where
  "newExternalManifestError ref count cause =
     (let detail =
        (if cause \<noteq> None then ''is not a YAML mapping''
         else if count \<noteq> 1 then ''holds '' @ itoa (int count) @ '' documents''
         else ''has no apiVersion or kind'')
      in wrap CodeExternalManifest [ref, detail] cause)"

abbreviation CodeInstanceIDRequired :: code where "CodeInstanceIDRequired \<equiv> ''CUBE-PKG-015''"

definition newInstanceIDRequiredError :: "string \<Rightarrow> nat \<Rightarrow> err" where
  "newInstanceIDRequiredError name count = wrap CodeInstanceIDRequired [itoa (int count), name] None"

abbreviation CodeDuplicateInstanceID :: code where "CodeDuplicateInstanceID \<equiv> ''CUBE-PKG-016''"

definition newDuplicateInstanceIDError :: "string \<Rightarrow> nat \<Rightarrow> nat \<Rightarrow> err" where
  "newDuplicateInstanceIDError i first second =
     wrap CodeDuplicateInstanceID [itoa (int first), itoa (int second), i] None"

abbreviation CodeUnknownDependency :: code where "CodeUnknownDependency \<equiv> ''CUBE-PKG-017''"

definition newUnknownDependencyError :: "string \<Rightarrow> string \<Rightarrow> err" where
  "newUnknownDependencyError from_id target = wrap CodeUnknownDependency [from_id, target] None"

abbreviation CodeAmbiguousDependency :: code where "CodeAmbiguousDependency \<equiv> ''CUBE-PKG-018''"

definition newAmbiguousDependencyError :: "string \<Rightarrow> string \<Rightarrow> string list \<Rightarrow> err" where
  "newAmbiguousDependencyError from_id target candidates =
     wrap CodeAmbiguousDependency (from_id # target # candidates) None"

abbreviation CodeDependencyCycle :: code where "CodeDependencyCycle \<equiv> ''CUBE-PKG-019''"

definition newDependencyCycleError :: "string list \<Rightarrow> err" where
  "newDependencyCycleError members = wrap CodeDependencyCycle members None"

abbreviation CodeRemoteRef :: code where "CodeRemoteRef \<equiv> ''CUBE-PKG-021''"

definition newRemoteRefError :: "string \<Rightarrow> string \<Rightarrow> err" where
  "newRemoteRefError file ref = wrap CodeRemoteRef [file, ref] None"

abbreviation CodeTargetExists :: code where "CodeTargetExists \<equiv> ''CUBE-PKG-022''"

definition newTargetExistsError :: "string \<Rightarrow> err" where
  "newTargetExistsError d = wrap CodeTargetExists [d] None"

abbreviation CodeScaffoldFailed :: code where "CodeScaffoldFailed \<equiv> ''CUBE-PKG-023''"

definition newScaffoldFailedError :: "string \<Rightarrow> err \<Rightarrow> err" where
  "newScaffoldFailedError d cause = wrap CodeScaffoldFailed [d] (Some cause)"

definition newForkFailedError :: "string \<Rightarrow> err \<Rightarrow> err" where
  "newForkFailedError src cause = wrap CodeScaffoldFailed [src] (Some cause)"

definition newForkRenameError :: "string \<Rightarrow> string \<Rightarrow> err" where
  "newForkRenameError src name = wrap CodeScaffoldFailed [src, name] None"

definition newScaffoldTypeUnsupportedError :: "string \<Rightarrow> err" where
  "newScaffoldTypeUnsupportedError t = wrap CodeScaffoldFailed [t] None"

lemmas pack_error_defs =
  newSourceUnreadableError_def newFileUnreadableError_def NewRefUnsupportedError_def
  newMetadataCompileError_def newMetadataSchemaError_def newChartVersionError_def
  newSchemaDriftError_def newPayloadMismatchError_def newChartContentError_def
  newManifestParseError_def newKustomizeBuildError_def newEmptyRenderError_def
  newNamespaceConflictError_def newValuesOnRawPackError_def newValuesRejectedError_def
  newValuesNotFlatError_def newSubstitutionError_def newValuesDocumentError_def
  newInlineValuesError_def newExternalManifestError_def newInstanceIDRequiredError_def
  newDuplicateInstanceIDError_def newUnknownDependencyError_def
  newAmbiguousDependencyError_def newDependencyCycleError_def newRemoteRefError_def
  newTargetExistsError_def newScaffoldFailedError_def newForkFailedError_def
  newForkRenameError_def newScaffoldTypeUnsupportedError_def

end
