(* ===== verification/ConfigTypes.thy ===== *)
theory ConfigTypes
  imports CubeErr
begin

section \<open>The configuration document (\<open>api/config/v1alpha1\<close>, types and defaults)\<close>

text \<open>
  One record per Go struct, one field per struct field; an optional sub-struct (a Go
  pointer) is an \<open>option\<close>. \<open>runtime.RawExtension\<close> is opaque to this layer and is kept as
  its raw bytes. Of \<open>metadata\<close> only the name is honoured by the code, and only it is modelled.
\<close>

type_synonym raw_ext = string

record cluster_spec =
  cs_provider :: string
  cs_forProvider :: "raw_ext option"

record engine_source =
  es_kind :: string
  es_url :: string
  es_ref :: string
  es_path :: string
  es_interval :: string

record engine_spec =
  en_provider :: string
  en_version :: string
  en_source :: "engine_source option"

record gateway_spec =
  gw_domain :: string

record ca_spec =
  ca_provider :: string

record prereq_spec =
  pr_name :: string
  pr_ref :: string

record external_manifest =
  em_ref :: string
  em_manifest :: "raw_ext option"
  em_lifecycle :: string

record pack_spec =
  ps_id :: string
  ps_packRef :: string
  ps_valuesRef :: string
  ps_values :: "raw_ext option"
  ps_external :: "external_manifest list"
  ps_dependsOn :: "string list"

record config =
  cfg_apiVersion :: string
  cfg_kind :: string
  cfg_name :: string
  cfg_cluster :: "cluster_spec option"
  cfg_engine :: "engine_spec option"
  cfg_gateway :: "gateway_spec option"
  cfg_ca :: "ca_spec option"
  cfg_prereqs :: "prereq_spec list"
  cfg_packs :: "pack_spec list"

definition ClusterProviderKind :: string where "ClusterProviderKind = ''kind''"
definition EngineProviderFlux :: string where "EngineProviderFlux = ''flux''"
definition EngineSourceGit :: string where "EngineSourceGit = ''git''"
definition EngineSourceOCI :: string where "EngineSourceOCI = ''oci''"
definition CAProviderCube :: string where "CAProviderCube = ''cube''"
definition DefaultBaseDomain :: string where "DefaultBaseDomain = ''cube.test''"
definition LifecyclePre :: string where "LifecyclePre = ''pre''"
definition LifecycleWith :: string where "LifecycleWith = ''with''"
definition PrerequisiteGatewayPlatform :: string where
  "PrerequisiteGatewayPlatform = ''gateway-platform''"
definition PrerequisiteGatewayAPICRDs :: string where
  "PrerequisiteGatewayAPICRDs = ''gateway-api-crds''"
definition PrerequisiteCASecrets :: string where "PrerequisiteCASecrets = ''ca-secrets''"
definition PrerequisiteTraefikGateway :: string where
  "PrerequisiteTraefikGateway = ''traefik-gateway''"
definition api_group :: string where "api_group = ''cube-idp.dev''"
definition group_version :: string where "group_version = api_group @ ''/v1alpha1''"

lemmas config_consts =
  ClusterProviderKind_def EngineProviderFlux_def EngineSourceGit_def EngineSourceOCI_def
  CAProviderCube_def DefaultBaseDomain_def LifecyclePre_def LifecycleWith_def

lemmas prereq_consts =
  PrerequisiteGatewayPlatform_def PrerequisiteGatewayAPICRDs_def PrerequisiteCASecrets_def
  PrerequisiteTraefikGateway_def

subsection \<open>Prerequisite names\<close>

definition isBuiltInPrerequisite :: "string \<Rightarrow> bool" where
  "isBuiltInPrerequisite n \<longleftrightarrow> n = PrerequisiteGatewayPlatform \<or> n = PrerequisiteCASecrets"

definition isWellKnownPrerequisite :: "string \<Rightarrow> bool" where
  "isWellKnownPrerequisite n \<longleftrightarrow>
     isBuiltInPrerequisite n \<or> n = PrerequisiteGatewayAPICRDs \<or> n = PrerequisiteTraefikGateway"

definition defaultPrerequisites :: "prereq_spec list" where
  "defaultPrerequisites =
     map (\<lambda>n. \<lparr>pr_name = n, pr_ref = ''''\<rparr>)
       [PrerequisiteGatewayPlatform, PrerequisiteGatewayAPICRDs, PrerequisiteCASecrets,
        PrerequisiteTraefikGateway]"

subsection \<open>The cube name\<close>

text \<open>The regular expression \<open>^[a-z0-9][a-z0-9-]{0,30}$\<close>, as a predicate.\<close>

definition name_char :: "char \<Rightarrow> bool" where
  "name_char c \<longleftrightarrow> is_lower c \<or> is_digit c"

definition nameRE :: "string \<Rightarrow> bool" where
  "nameRE s = (case s of
      [] \<Rightarrow> False
    | c # cs \<Rightarrow> name_char c \<and> list_all (\<lambda>d. name_char d \<or> d = CHR ''-'') cs \<and> length cs \<le> 30)"

lemma nameRE_chars: "nameRE s \<Longrightarrow> c \<in> set s \<Longrightarrow> name_char c \<or> c = CHR ''-''"
  by (auto simp: nameRE_def list_all_iff split: list.splits)

lemma nameRE_length: "nameRE s \<Longrightarrow> 1 \<le> length s \<and> length s \<le> 31"
  by (auto simp: nameRE_def split: list.splits)

subsection \<open>Defaults (\<open>Config.Default\<close>)\<close>

definition defaultEngineSource :: "engine_source \<Rightarrow> engine_source" where
  "defaultEngineSource s =
     (let kind = (if es_kind s = '''' then EngineSourceGit else es_kind s);
          ref = (if es_ref s = '''' then (if kind = EngineSourceOCI then ''latest'' else ''main'')
                 else es_ref s);
          path = (if es_path s = '''' then ''./'' else es_path s);
          interval = (if es_interval s = '''' then ''10m'' else es_interval s)
      in s\<lparr>es_kind := kind, es_ref := ref, es_path := path, es_interval := interval\<rparr>)"

definition defaultGateway :: "gateway_spec \<Rightarrow> string \<Rightarrow> gateway_spec" where
  "defaultGateway g cubeName =
     (if gw_domain g \<noteq> '''' \<or> \<not> nameRE cubeName then g
      else g\<lparr>gw_domain := cubeName @ ''.'' @ DefaultBaseDomain\<rparr>)"

definition defaultManifest :: "external_manifest \<Rightarrow> external_manifest" where
  "defaultManifest m = (if em_lifecycle m = '''' then m\<lparr>em_lifecycle := LifecycleWith\<rparr> else m)"

definition defaultPack :: "pack_spec \<Rightarrow> pack_spec" where
  "defaultPack p = p\<lparr>ps_external := map defaultManifest (ps_external p)\<rparr>"

definition defaultCluster :: "cluster_spec \<Rightarrow> cluster_spec" where
  "defaultCluster c = (if cs_provider c = '''' then c\<lparr>cs_provider := ClusterProviderKind\<rparr> else c)"

definition defaultEngine :: "engine_spec \<Rightarrow> engine_spec" where
  "defaultEngine e =
     (let e1 = (if en_provider e = '''' then e\<lparr>en_provider := EngineProviderFlux\<rparr> else e)
      in e1\<lparr>en_source := map_option defaultEngineSource (en_source e1)\<rparr>)"

definition defaultCA :: "ca_spec \<Rightarrow> ca_spec" where
  "defaultCA c = (if ca_provider c = '''' then c\<lparr>ca_provider := CAProviderCube\<rparr> else c)"

definition config_default :: "config \<Rightarrow> config" where
  "config_default c =
     c\<lparr>cfg_cluster := map_option defaultCluster (cfg_cluster c),
       cfg_engine := map_option defaultEngine (cfg_engine c),
       cfg_gateway := map_option (\<lambda>g. defaultGateway g (cfg_name c)) (cfg_gateway c),
       cfg_ca := map_option defaultCA (cfg_ca c),
       cfg_prereqs := (if length (cfg_prereqs c) = 0 then defaultPrerequisites else cfg_prereqs c),
       cfg_packs := map defaultPack (cfg_packs c)\<rparr>"

subsection \<open>Defaulting once is enough\<close>

lemma defaultEngineSource_idem [simp]:
  "defaultEngineSource (defaultEngineSource s) = defaultEngineSource s"
proof -
  have "EngineSourceGit \<noteq> ''''" by (simp add: EngineSourceGit_def)
  then show ?thesis
    by (cases "es_kind s = ''''"; cases "es_ref s = ''''"; cases "es_path s = ''''";
        cases "es_interval s = ''''") (simp_all add: defaultEngineSource_def Let_def)
qed

lemma defaultEngine_idem [simp]: "defaultEngine (defaultEngine e) = defaultEngine e"
  by (cases "en_source e") (simp_all add: defaultEngine_def Let_def EngineProviderFlux_def)

lemma defaultGateway_idem [simp]: "defaultGateway (defaultGateway g n) n = defaultGateway g n"
  by (simp add: defaultGateway_def)

lemma defaultPack_idem [simp]: "defaultPack (defaultPack p) = defaultPack p"
  by (simp add: defaultPack_def defaultManifest_def LifecycleWith_def)

lemma defaultCluster_idem [simp]: "defaultCluster (defaultCluster c) = defaultCluster c"
  by (simp add: defaultCluster_def ClusterProviderKind_def)

lemma defaultCA_idem [simp]: "defaultCA (defaultCA c) = defaultCA c"
  by (simp add: defaultCA_def CAProviderCube_def)

text \<open>
  \<open>Default\<close> is idempotent, as its comment requires: a document that has been defaulted
  (and written out by \<open>config show\<close>) is unchanged when it is loaded and defaulted again.
\<close>

theorem config_default_idempotent: "config_default (config_default c) = config_default c"
  by (simp add: config_default_def option.map_comp comp_def defaultPrerequisites_def
      option.map_ident_strong)

end
