(* ===== verification/PackValues.thy ===== *)
theory PackValues
  imports JsonVal PackErrors ConfigTypes
begin

section \<open>Instance values (\<open>internal/pack/values.go\<close>)\<close>

text \<open>
  How the values of an instance come about: the base document its reference resolves to, the inline
  patch merged over it per RFC 7386, the normal form of numbers, and the validation against the
  pack's schema. The CUE evaluator and the JSON and YAML decoders are parameters.
\<close>

subsection \<open>The JSON merge patch\<close>

text \<open>
  A nil map is the empty association list. \<open>range\<close> over a Go map visits the entries in an
  order Go leaves open; the lookup theorem shows that the order does not matter.
\<close>

fun mergePatch :: "obj \<Rightarrow> obj \<Rightarrow> obj" where
  "mergePatch merged [] = merged"
| "mergePatch merged ((name, v) # patch) =
     mergePatch
       (case v of
          VNull \<Rightarrow> AList.delete name merged
        | VObj q \<Rightarrow> AList.update name (VObj (mergePatch (as_obj (map_of merged name)) q)) merged
        | w \<Rightarrow> AList.update name w merged)
       patch"

text \<open>The reference: \<open>MergePatch(Target, Patch)\<close> of RFC 7386, over any two values.\<close>

definition rfc_target :: "val option \<Rightarrow> obj" where
  "rfc_target t = (case t of Some (VObj m) \<Rightarrow> m | _ \<Rightarrow> [])"

fun rfc7386 :: "val option \<Rightarrow> val \<Rightarrow> val" where
  "rfc7386 t (VObj patch) =
     VObj (fold (\<lambda>(name, v) target.
       if v = VNull then AList.delete name target
       else AList.update name (rfc7386 (map_of target name) v) target) patch (rfc_target t))"
| "rfc7386 t v = v"

text \<open>One entry of the patch, as the loop body handles it.\<close>

definition patch_entry :: "obj \<Rightarrow> string \<Rightarrow> val \<Rightarrow> obj" where
  "patch_entry merged name v =
     (case v of
        VNull \<Rightarrow> AList.delete name merged
      | VObj q \<Rightarrow> AList.update name (VObj (mergePatch (as_obj (map_of merged name)) q)) merged
      | w \<Rightarrow> AList.update name w merged)"

lemma mergePatch_Cons: "mergePatch m ((k, v) # p) = mergePatch (patch_entry m k v) p"
  by (simp add: patch_entry_def)

declare mergePatch.simps(2) [simp del]

lemmas mergePatch_simps [simp] = mergePatch_Cons

text \<open>What the patch says about one key, given what the target has there.\<close>

fun patched :: "val option \<Rightarrow> val option \<Rightarrow> val option" where
  "patched t None = t"
| "patched t (Some VNull) = None"
| "patched t (Some (VObj q)) = Some (VObj (mergePatch (as_obj t) q))"
| "patched t (Some v) = Some v"

lemma patch_entry_lookup [simp]:
  "map_of (patch_entry m k v) n = (if n = k then patched (map_of m k) (Some v) else map_of m n)"
  by (cases v) (simp_all add: patch_entry_def)

lemma mergePatch_map_of:
  "wf_map p \<Longrightarrow> map_of (mergePatch m p) n = patched (map_of m n) (map_of p n)"
proof (induction p arbitrary: m)
  case Nil
  then show ?case by simp
next
  case (Cons e p)
  obtain k v where e: "e = (k, v)" by (cases e)
  show ?case
  proof (cases "n = k")
    case True
    with Cons.prems e have "map_of p n = None" by (simp add: map_of_eq_None_iff)
    with Cons True e show ?thesis by simp
  next
    case False
    with Cons e show ?thesis by simp
  qed
qed

lemma rfc_target_as_obj [simp]: "rfc_target t = as_obj t"
  by (cases t rule: as_obj.cases) (simp_all add: rfc_target_def)

lemma mergePatch_fold:
  assumes "\<And>t v. v \<in> snd ` set p \<Longrightarrow> rfc7386 t v =
     (case v of VObj q \<Rightarrow> VObj (mergePatch (as_obj t) q) | w \<Rightarrow> w)"
  shows "fold (\<lambda>(name, v) target.
       if v = VNull then AList.delete name target
       else AList.update name (rfc7386 (map_of target name) v) target) p m = mergePatch m p"
  using assms
proof (induction p arbitrary: m)
  case Nil
  then show ?case by simp
next
  case (Cons e p)
  obtain k v where e: "e = (k, v)" by (cases e)
  have "(if v = VNull then AList.delete k m else AList.update k (rfc7386 (map_of m k) v) m)
      = patch_entry m k v"
    using Cons.prems [of v "map_of m k"] e by (cases v) (simp_all add: patch_entry_def)
  with Cons e show ?case by (simp del: rfc7386.simps)
qed

lemma rfc7386_mergePatch:
  "rfc7386 t v = (case v of VObj q \<Rightarrow> VObj (mergePatch (as_obj t) q) | w \<Rightarrow> w)"
proof (induction v arbitrary: t)
  case (VObj patch)
  have "fold (\<lambda>(name, v) target.
       if v = VNull then AList.delete name target
       else AList.update name (rfc7386 (map_of target name) v) target) patch (as_obj t)
     = mergePatch (as_obj t) patch"
    by (rule mergePatch_fold) (use VObj in \<open>auto simp: snds.simps\<close>)
  then show ?case by simp
qed simp_all

lemma rfc7386_objects: "rfc7386 (Some (VObj base)) (VObj patch) = VObj (mergePatch base patch)"
  by (simp add: rfc7386_mergePatch del: rfc7386.simps)

text \<open>
  C38. The merge is RFC 7386: on a patch that is a mapping, \<open>mergePatch\<close> computes exactly
  \<open>MergePatch(Target, Patch)\<close> of the RFC.
\<close>

theorem mergePatch_rfc7386: "rfc7386 (Some (VObj base)) (VObj patch) = VObj (mergePatch base patch)"
  by (rule rfc7386_objects)

subsection \<open>The merge keeps documents well formed and settles\<close>

lemma wf_obj_as_obj: "wf_obj m \<Longrightarrow> wf_obj (as_obj (map_of m k))"
  using wf_obj_lookup [of m k] by (cases "map_of m k" rule: as_obj.cases) simp_all

lemma patch_entry_wf:
  assumes "wf_obj m" "wf_val v" "\<And>q. v = VObj q \<Longrightarrow> wf_obj (mergePatch (as_obj (map_of m k)) q)"
  shows "wf_obj (patch_entry m k v)"
proof -
  have u: "wf_obj (AList.update k w m)" if "wf_val w" for w
    using assms(1) that unfolding wf_obj_iff by (simp add: wf_map_update)
  have x: "wf_obj (AList.delete k m)"
    using assms(1) unfolding wf_obj_iff by (simp add: wf_map_delete)
  show ?thesis
    using assms(2,3) u x by (cases v) (simp_all add: patch_entry_def)
qed

lemma mergePatch_wf: "wf_obj p \<Longrightarrow> wf_obj m \<Longrightarrow> wf_obj (mergePatch m p)"
proof (induction m p rule: mergePatch.induct)
  case (1 merged)
  then show ?case by simp
next
  case (2 merged name v patch)
  have v: "wf_val v" and p: "wf_obj patch" using "2.prems"(1) by auto
  have "wf_obj (patch_entry merged name v)"
  proof (rule patch_entry_wf [OF "2.prems"(2) v])
    fix q assume "v = VObj q"
    with "2.IH"(1) v wf_obj_as_obj [OF "2.prems"(2)]
    show "wf_obj (mergePatch (as_obj (map_of merged name)) q)" by blast
  qed
  with "2.IH"(2) [folded patch_entry_def, OF p] show ?case by simp
qed

lemma settled:
  assumes "wf_map m" "\<And>k v. (k, v) \<in> set p \<Longrightarrow> patched (map_of m k) (Some v) = map_of m k"
  shows "mergePatch m p = m"
  using assms(2)
proof (induction p)
  case Nil
  then show ?case by simp
next
  case (Cons e p)
  obtain k v where e: "e = (k, v)" by (cases e)
  have k: "patched (map_of m k) (Some v) = map_of m k" using Cons.prems e by simp
  have "patch_entry m k v =
      (case patched (map_of m k) (Some v) of None \<Rightarrow> AList.delete k m | Some w \<Rightarrow> AList.update k w m)"
    by (cases v) (simp_all add: patch_entry_def)
  also have "\<dots> = (case map_of m k of None \<Rightarrow> AList.delete k m | Some w \<Rightarrow> AList.update k w m)"
    by (simp only: k)
  also have "\<dots> = m"
    by (cases "map_of m k") (simp_all add: delete_absent update_same [OF assms(1)])
  finally have "patch_entry m k v = m" .
  with Cons e show ?case by simp
qed

lemma mergePatch_twice: "wf_obj p \<Longrightarrow> wf_obj m \<Longrightarrow> mergePatch (mergePatch m p) p = mergePatch m p"
proof (induction "size (VObj p)" arbitrary: p m rule: less_induct)
  case less
  have w: "wf_map p" "wf_map (mergePatch m p)"
    using less.prems mergePatch_wf [OF less.prems] by (simp_all add: wf_obj_iff)
  show ?case
  proof (rule settled [OF w(2)])
    fix k v
    assume kv: "(k, v) \<in> set p"
    then have m: "map_of p k = Some v" using w(1) by simp
    have "mergePatch (mergePatch (as_obj (map_of m k)) q) q = mergePatch (as_obj (map_of m k)) q"
      if v: "v = VObj q" for q
    proof (rule less.hyps)
      show "size (VObj q) < size (VObj p)"
        using kv v size_list_estimation
            [OF kv, of "size_list (size_prod (\<lambda>x. 0) size) q" "size_prod (\<lambda>x. 0) size"] by simp
      show "wf_obj q" using wf_obj_lookup [OF less.prems(1) m] v by simp
      show "wf_obj (as_obj (map_of m k))" by (rule wf_obj_as_obj [OF less.prems(2)])
    qed
    then show "patched (map_of (mergePatch m p) k) (Some v) = map_of (mergePatch m p) k"
      using mergePatch_map_of [OF w(1)] m by (cases v) simp_all
  qed
qed

text \<open>
  The merged document is decided key by key, whatever order the Go map is ranged over:
  a null deletes, a mapping merges into the mapping there, anything else (an array included)
  replaces, and a key the patch does not name is kept. Applying the patch again changes
  nothing.
\<close>

theorem mergePatch_lookup:
  assumes "wf_obj base" and "wf_obj patch"
  shows "map_of (mergePatch base patch) =
      (\<lambda>k. case map_of patch k of
         None \<Rightarrow> map_of base k
       | Some VNull \<Rightarrow> None
       | Some (VObj q) \<Rightarrow> Some (VObj (mergePatch (as_obj (map_of base k)) q))
       | Some v \<Rightarrow> Some v) \<and>
    mergePatch (mergePatch base patch) patch = mergePatch base patch \<and>
    wf_obj (mergePatch base patch)"
proof -
  have "patched t p = (case p of None \<Rightarrow> t | Some VNull \<Rightarrow> None
       | Some (VObj q) \<Rightarrow> Some (VObj (mergePatch (as_obj t) q)) | Some v \<Rightarrow> Some v)" for t p
    by (cases "(t, p)" rule: patched.cases) simp_all
  then show ?thesis
    using mergePatch_map_of [of patch base] mergePatch_twice [OF assms(2,1)] mergePatch_wf [OF assms(2,1)]
      assms(2) by (auto simp add: fun_eq_iff)
qed

theorem mergePatch_lookup_witness:
  "map_of (mergePatch [(''a'', VInt 1), (''b'', VInt 2)] [(''a'', VNull), (''c'', VArr [])]) ''a'' = None \<and>
   map_of (mergePatch [(''a'', VInt 1), (''b'', VInt 2)] [(''a'', VNull), (''c'', VArr [])]) ''b'' = Some (VInt 2)"
proof -
  have "wf_obj [(''a'', VInt 1), (''b'', VInt 2)]" "wf_obj [(''a'', VNull), (''c'', VArr [])]" by simp_all
  from mergePatch_lookup [OF this] show ?thesis by simp
qed

subsection \<open>Numbers\<close>

definition maxExactInt :: int where "maxExactInt = 2 ^ 53"

text \<open>Whether \<open>m * 2 ^ e\<close> is whole, and the integer it then is.\<close>

definition whole :: "int \<Rightarrow> int \<Rightarrow> bool" where
  "whole m e \<longleftrightarrow> 0 \<le> e \<or> 2 ^ nat (- e) dvd m"

definition trunc :: "int \<Rightarrow> int \<Rightarrow> int" where
  "trunc m e = (if 0 \<le> e then m * 2 ^ nat e else m div 2 ^ nat (- e))"

fun normalizeNumbers :: "val \<Rightarrow> val" where
  "normalizeNumbers (VObj m) = VObj (map (\<lambda>(k, v). (k, normalizeNumbers v)) m)"
| "normalizeNumbers (VArr xs) = VArr (map normalizeNumbers xs)"
| "normalizeNumbers (VFloat m e) =
     (if whole m e \<and> \<bar>trunc m e\<bar> \<le> maxExactInt then VInt (trunc m e) else VFloat m e)"
| "normalizeNumbers v = v"

text \<open>
  \<open>same_value v w\<close>: the two documents have one shape and equal leaves, where a number may be
  an integer on one side and the float of the same value on the other.
\<close>

inductive same_value :: "val \<Rightarrow> val \<Rightarrow> bool" where
  sv_refl: "same_value v v"
| sv_num: "whole m e \<Longrightarrow> trunc m e = i \<Longrightarrow> same_value (VFloat m e) (VInt i)"
| sv_arr: "list_all2 same_value xs ys \<Longrightarrow> same_value (VArr xs) (VArr ys)"
| sv_obj: "list_all2 (\<lambda>p q. fst p = fst q \<and> same_value (snd p) (snd q)) xs ys \<Longrightarrow>
    same_value (VObj xs) (VObj ys)"

text \<open>No whole number within the exact range is left as a float.\<close>

fun normal_val :: "val \<Rightarrow> bool" where
  "normal_val (VObj m) = list_all (\<lambda>(k, v). normal_val v) m"
| "normal_val (VArr xs) = list_all normal_val xs"
| "normal_val (VFloat m e) = (\<not> whole m e \<or> maxExactInt < \<bar>trunc m e\<bar>)"
| "normal_val v = True"

text \<open>
  Normalisation changes the representation of numbers and nothing else: the document it
  returns has the same shape and values, every whole number a float can hold exactly is an
  integer in it, keys and their order are kept, and normalising twice is normalising once.
\<close>

theorem normalizeNumbers_spec:
  "same_value v (normalizeNumbers v) \<and> normal_val (normalizeNumbers v) \<and>
   normalizeNumbers (normalizeNumbers v) = normalizeNumbers v \<and> wf_val (normalizeNumbers v) = wf_val v"
proof (induction v)
  case (VObj m)
  then have IH: "same_value v (normalizeNumbers v) \<and> normal_val (normalizeNumbers v) \<and>
      normalizeNumbers (normalizeNumbers v) = normalizeNumbers v \<and> wf_val (normalizeNumbers v) = wf_val v"
    if "(k, v) \<in> set m" for k v
    using that by force
  have "same_value (VObj m) (normalizeNumbers (VObj m))"
    using IH by (auto intro!: sv_obj simp: list_all2_conv_all_nth split_beta) (metis nth_mem prod.collapse)
  moreover have "wf_val (normalizeNumbers (VObj m)) = wf_val (VObj m)"
    using IH by (auto simp: comp_def split_beta list_all_iff)
  ultimately show ?case
    using IH by (auto simp: list_all_iff)
next
  case (VArr xs)
  then have "same_value (VArr xs) (normalizeNumbers (VArr xs))"
    by (auto intro!: sv_arr simp: list_all2_conv_all_nth)
  with VArr show ?case by (auto simp: list_all_iff)
next
  case (VFloat m e)
  then show ?case by (auto intro: sv_refl sv_num)
qed (auto intro: sv_refl)

subsection \<open>Where the values come from\<close>

text \<open>
  The YAML decoder is a library: \<open>docs\<close> gives the mappings it decodes from a stream before
  its end, or before the error it stops at. \<open>decodeDocuments\<close> (\<open>render.go\<close>) drops empty ones.
\<close>

type_synonym yaml_docs = "string \<Rightarrow> obj list \<times> err option"

definition decodeDocuments :: "yaml_docs \<Rightarrow> string \<Rightarrow> obj list res" where
  "decodeDocuments docs data =
     (case docs data of
        (ds, Some e) \<Rightarrow> Inl e
      | (ds, None) \<Rightarrow> Inr (filter (\<lambda>d. length d \<noteq> 0) ds))"

text \<open>
  What instance values are assembled from: the reference resolver the caller injects, the
  YAML decoder, and \<open>json.Unmarshal\<close> into a map (\<open>None\<close> is the nil map of a JSON null).
\<close>

record values_env =
  v_resolve :: "string \<Rightarrow> string res"
  v_docs :: yaml_docs
  v_json :: "raw_ext \<Rightarrow> obj option res"

definition baseValues :: "values_env \<Rightarrow> string \<Rightarrow> obj res" where
  "baseValues V reference =
     (if reference = '''' then Inr []
      else case v_resolve V reference of
        Inl e \<Rightarrow> Inl (Wrapf ''valuesRef'' e)
      | Inr data \<Rightarrow>
          (case decodeDocuments (v_docs V) data of
             Inl e \<Rightarrow> Inl (newValuesDocumentError reference 0 (Some e))
           | Inr ds \<Rightarrow>
               if length ds \<noteq> 1 then Inl (newValuesDocumentError reference (length ds) None)
               else Inr (ds ! 0)))"

definition inlineValues :: "values_env \<Rightarrow> raw_ext option \<Rightarrow> obj option res" where
  "inlineValues V raw =
     (case raw of
        None \<Rightarrow> Inr None
      | Some r \<Rightarrow>
          if length r = 0 then Inr None
          else (case v_json V r of Inl e \<Rightarrow> Inl (newInlineValuesError e) | Inr d \<Rightarrow> Inr d))"

definition instanceValues :: "values_env \<Rightarrow> pack_spec \<Rightarrow> obj res" where
  "instanceValues V spec =
     bindR (baseValues V (ps_valuesRef spec)) (\<lambda>base.
     bindR (inlineValues V (ps_values spec)) (\<lambda>patch.
     Inr (as_obj (Some (normalizeNumbers
       (VObj (case patch of None \<Rightarrow> base | Some p \<Rightarrow> mergePatch base p)))))))"

subsection \<open>Values against \<open>#Values\<close>\<close>

text \<open>
  CUE is a library; a \<open>cue.Value\<close> is of any type \<open>'c\<close>. \<open>q_exists\<close>, \<open>q_unify\<close>,
  \<open>q_validate\<close> and \<open>q_decode\<close> are the calls the code makes on one, \<open>q_details\<close> renders an error.
\<close>

record 'c cue_lib =
  q_exists :: "'c \<Rightarrow> bool"
  q_unify :: "'c \<Rightarrow> obj \<Rightarrow> 'c"
  q_validate :: "'c \<Rightarrow> err option"
  q_decode :: "'c \<Rightarrow> obj res"
  q_details :: "err \<Rightarrow> string"

definition cueDetails :: "'c cue_lib \<Rightarrow> err \<Rightarrow> err" where
  "cueDetails Q e = Plain (q_details Q e)"

definition decodeValues :: "'c cue_lib \<Rightarrow> 'c \<Rightarrow> obj res" where
  "decodeValues Q v =
     (case q_decode Q v of
        Inl e \<Rightarrow> Inl (newValuesRejectedError (cueDetails Q e))
      | Inr out \<Rightarrow> Inr out)"

definition pack_defaults :: "'c cue_lib \<Rightarrow> 'c \<Rightarrow> obj res" where
  "pack_defaults Q schema =
     (if \<not> q_exists Q schema then Inr []
      else case q_validate Q schema of
        Some e \<Rightarrow> Inl (newValuesRejectedError (cueDetails Q e))
      | None \<Rightarrow> decodeValues Q schema)"

definition resolveValues :: "'c cue_lib \<Rightarrow> 'c \<Rightarrow> string \<Rightarrow> obj \<Rightarrow> obj res" where
  "resolveValues Q schema ptype values =
     (if length values = 0 then pack_defaults Q schema
      else if ptype = ''raw'' then Inl newValuesOnRawPackError
      else if \<not> q_exists Q schema then Inr values
      else (let unified = q_unify Q schema values in
        case q_validate Q unified of
          Some e \<Rightarrow> Inl (newValuesRejectedError (cueDetails Q e))
        | None \<Rightarrow> decodeValues Q unified))"

text \<open>
  The values of an instance are the normalised merge of its two sources: with a
  \<open>valuesRef\<close> that resolves to a single document and inline values that decode, the result
  is that document patched per RFC 7386, in normal form; a stream of any other number of
  documents is the values-document error and nothing is guessed.
\<close>

theorem instanceValues_spec:
  "instanceValues V spec =
    (case baseValues V (ps_valuesRef spec) of
       Inl e \<Rightarrow> Inl e
     | Inr base \<Rightarrow>
        (case inlineValues V (ps_values spec) of
           Inl e \<Rightarrow> Inl e
         | Inr patch \<Rightarrow>
             Inr (as_obj (Some (normalizeNumbers
               (rfc7386 (Some (VObj base)) (VObj (case patch of None \<Rightarrow> [] | Some p \<Rightarrow> p)))))))) \<and>
   (if ps_valuesRef spec = '''' then baseValues V (ps_valuesRef spec) = Inr []
    else (\<exists>ds. v_resolve V (ps_valuesRef spec) = Inr ds \<and> (\<exists>d. decodeDocuments (v_docs V) ds = Inr [d] \<and>
              baseValues V (ps_valuesRef spec) = Inr d)) \<or>
         (\<exists>e. baseValues V (ps_valuesRef spec) = Inl e))"
proof (intro conjI)
  show "instanceValues V spec =
    (case baseValues V (ps_valuesRef spec) of
       Inl e \<Rightarrow> Inl e
     | Inr base \<Rightarrow>
        (case inlineValues V (ps_values spec) of
           Inl e \<Rightarrow> Inl e
         | Inr patch \<Rightarrow>
             Inr (as_obj (Some (normalizeNumbers
               (rfc7386 (Some (VObj base)) (VObj (case patch of None \<Rightarrow> [] | Some p \<Rightarrow> p))))))))"
    unfolding instanceValues_def rfc7386_objects
    by (auto split: sum.split option.split)
qed (auto simp: baseValues_def length_Suc_conv split: sum.splits)

end
