(* ===== verification/PackSubst.thy ===== *)
theory PackSubst
  imports JsonVal PackErrors
begin

section \<open>Variable substitution (\<open>internal/pack/substitute.go\<close>)\<close>

text \<open>
  Kustomize packs are parametrised by textual substitution of \<open>${NAME}\<close> in string leaves.
  A Go string is a byte list, the index loop of \<open>expand\<close> is recursion on the remaining
  suffix, and the set \<open>missing\<close> (a map without values) is a duplicate-free list.
\<close>

definition var_start :: "char \<Rightarrow> bool" where
  "var_start c \<longleftrightarrow> is_lower c \<or> is_upper c \<or> c = CHR ''_''"

fun isVarName :: "string \<Rightarrow> bool" where
  "isVarName [] = False"
| "isVarName (c # cs) = (var_start c \<and> list_all (\<lambda>d. var_start d \<or> is_digit d) cs)"

definition reference :: "string \<Rightarrow> (string \<times> nat) option" where
  "reference s =
     (if \<not> has_prefix s ''${'' then None
      else case index_where (\<lambda>c. c = CHR ''}'') s of
        None \<Rightarrow> None
      | Some e \<Rightarrow>
          (let name = drop 2 (take e s)
           in if isVarName name then Some (name, e + 1) else None))"

type_synonym vars = "(string, string) gomap"

lemma reference_width: "reference s = Some (name, w) \<Longrightarrow> 0 < w"
  by (auto simp: reference_def Let_def split: if_splits option.splits)

function expand :: "vars \<Rightarrow> string \<Rightarrow> string list \<Rightarrow> string \<times> string list" where
  "expand vars [] missing = ([], missing)"
| "expand vars (c # cs) missing =
     (if c \<noteq> CHR ''$'' then apfst (Cons c) (expand vars cs missing)
      else if has_prefix (c # cs) ''$${'' then apfst (append ''${'') (expand vars (drop 2 cs) missing)
      else (case reference (c # cs) of
          None \<Rightarrow> apfst (Cons c) (expand vars cs missing)
        | Some (name, width) \<Rightarrow>
            (case map_of vars name of
               Some value \<Rightarrow> apfst (append value) (expand vars (drop width (c # cs)) missing)
             | None \<Rightarrow> expand vars (drop width (c # cs)) (List.insert name missing))))"
  by pat_completeness auto
termination
  by (relation "measure (\<lambda>(vars, s, missing). length s)") (auto dest: reference_width)

fun expandValue :: "vars \<Rightarrow> val \<Rightarrow> string list \<Rightarrow> val \<times> string list"
  and expandEntries :: "vars \<Rightarrow> obj \<Rightarrow> string list \<Rightarrow> obj \<times> string list"
  and expandItems :: "vars \<Rightarrow> val list \<Rightarrow> string list \<Rightarrow> val list \<times> string list" where
  "expandValue vars (VObj m) missing = apfst VObj (expandEntries vars m missing)"
| "expandValue vars (VArr xs) missing = apfst VArr (expandItems vars xs missing)"
| "expandValue vars (VStr s) missing = apfst VStr (expand vars s missing)"
| "expandValue vars v missing = (v, missing)"
| "expandEntries vars [] missing = ([], missing)"
| "expandEntries vars ((k, v) # m) missing =
     (let (v', missing') = expandValue vars v missing; (m', missing'') = expandEntries vars m missing'
      in ((k, v') # m', missing''))"
| "expandItems vars [] missing = ([], missing)"
| "expandItems vars (v # xs) missing =
     (let (v', missing') = expandValue vars v missing; (xs', missing'') = expandItems vars xs missing'
      in (v' # xs', missing''))"

definition sortedKeys :: "string list \<Rightarrow> string list" where
  "sortedKeys ks = sort ks"

fun substitute_loop :: "vars \<Rightarrow> obj list \<Rightarrow> string list \<Rightarrow> obj list \<times> string list" where
  "substitute_loop vars [] missing = ([], missing)"
| "substitute_loop vars (m # objs) missing =
     (let (m', missing') = expandEntries vars m missing;
          (objs', missing'') = substitute_loop vars objs missing'
      in (m' # objs', missing''))"

definition substitute :: "obj list \<Rightarrow> vars \<Rightarrow> obj list res" where
  "substitute objs vars =
     (let (objs', missing) = substitute_loop vars objs []
      in if length missing = 0 then Inr objs' else Inl (newSubstitutionError (sortedKeys missing)))"

fun flat_loop :: "obj \<Rightarrow> string list \<Rightarrow> vars res" where
  "flat_loop values [] = Inr []"
| "flat_loop values (name # names) =
     (case map_of values name of
        Some (VStr s) \<Rightarrow> bindR (flat_loop values names) (\<lambda>out. Inr ((name, s) # out))
      | Some v \<Rightarrow> Inl (newValuesNotFlatError name (go_type v))
      | None \<Rightarrow> Inl (newValuesNotFlatError name ''<nil>''))"

definition flatStringValues :: "obj \<Rightarrow> vars res" where
  "flatStringValues values =
     (if length values = 0 then Inr [] else flat_loop values (sortedKeys (map fst values)))"

subsection \<open>The grammar, apart from the variables\<close>

text \<open>The tokens of a scalar: a literal byte, the escape of \<open>${\<close>, a reference.\<close>

datatype token = Lit char | Esc | Ref string

function tokens :: "string \<Rightarrow> token list" where
  "tokens [] = []"
| "tokens (c # cs) =
     (if has_prefix (c # cs) ''$${'' then Esc # tokens (drop 2 cs)
      else case reference (c # cs) of
          None \<Rightarrow> Lit c # tokens cs
        | Some (name, width) \<Rightarrow> Ref name # tokens (drop width (c # cs)))"
  by pat_completeness auto
termination
  by (relation "measure length") (auto dest: reference_width)

fun render_token :: "vars \<Rightarrow> token \<Rightarrow> string" where
  "render_token vars (Lit c) = [c]"
| "render_token vars Esc = ''${''"
| "render_token vars (Ref n) = (case map_of vars n of None \<Rightarrow> '''' | Some v \<Rightarrow> v)"

definition expanded :: "vars \<Rightarrow> string \<Rightarrow> string" where
  "expanded vars s = concat (map (render_token vars) (tokens s))"

definition str_refs :: "string \<Rightarrow> string set" where
  "str_refs s = {n. Ref n \<in> set (tokens s)}"

definition undefined_refs :: "vars \<Rightarrow> string set \<Rightarrow> string set" where
  "undefined_refs vars R = {n \<in> R. map_of vars n = None}"

lemma undefined_refs_Un [simp]:
  "undefined_refs vars (A \<union> B) = undefined_refs vars A \<union> undefined_refs vars B"
  by (auto simp: undefined_refs_def)

lemma undefined_refs_insert:
  "undefined_refs vars (insert n A) =
     (if map_of vars n = None then insert n (undefined_refs vars A) else undefined_refs vars A)"
  by (auto simp: undefined_refs_def)

lemma reference_dollar: "reference (c # cs) = Some r \<Longrightarrow> c = CHR ''$''"
  by (auto simp: reference_def split: if_splits)

lemma expand_tokens:
  "distinct missing \<Longrightarrow>
   fst (expand vars s missing) = expanded vars s \<and>
   distinct (snd (expand vars s missing)) \<and>
   set (snd (expand vars s missing)) = set missing \<union> undefined_refs vars (str_refs s)"
proof (induction vars s missing rule: expand.induct)
  case (1 vars missing)
  then show ?case by (simp add: expanded_def str_refs_def undefined_refs_def)
next
  case (2 vars c cs missing)
  consider (lit) "c \<noteq> CHR ''$''" | (esc) "c = CHR ''$''" "has_prefix (c # cs) ''$${''"
    | (none) "c = CHR ''$''" "\<not> has_prefix (c # cs) ''$${''" "reference (c # cs) = None"
    | (ref) n w where "c = CHR ''$''" "\<not> has_prefix (c # cs) ''$${''" "reference (c # cs) = Some (n, w)"
    by (cases "reference (c # cs)") auto
  then show ?case
  proof cases
    case lit
    then have "reference (c # cs) = None" using reference_dollar by (cases "reference (c # cs)") auto
    with lit 2 show ?thesis by (simp add: expanded_def str_refs_def)
  next
    case esc
    with "2.IH"(2) "2.prems" show ?thesis by (simp add: expanded_def str_refs_def)
  next
    case none
    with "2.IH"(3) "2.prems" show ?thesis by (simp add: expanded_def str_refs_def)
  next
    case ref
    have t: "tokens (c # cs) = Ref n # tokens (drop w (c # cs))"
      using ref(2,3) by simp
    have r: "str_refs (c # cs) = insert n (str_refs (drop w (c # cs)))"
      unfolding str_refs_def t by auto
    show ?thesis
    proof (cases "map_of vars n")
      case None
      have e: "expand vars (c # cs) missing = expand vars (drop w (c # cs)) (List.insert n missing)"
        using ref None by simp
      have x: "expanded vars (c # cs) = expanded vars (drop w (c # cs))"
        unfolding expanded_def t using None by simp
      show ?thesis
        using "2.IH"(4) [of "(n, w)" n w] ref "2.prems" None
        unfolding e r x undefined_refs_insert by simp
    next
      case (Some v)
      have e: "expand vars (c # cs) missing = apfst (append v) (expand vars (drop w (c # cs)) missing)"
        using ref Some by simp
      have x: "expanded vars (c # cs) = v @ expanded vars (drop w (c # cs))"
        unfolding expanded_def t using Some by simp
      show ?thesis
        using "2.IH"(5) [of "(n, w)" n w v] ref "2.prems" Some
        unfolding e r x undefined_refs_insert by simp
    qed
  qed
qed

subsection \<open>Substitution over documents\<close>

fun map_leaves :: "(string \<Rightarrow> string) \<Rightarrow> val \<Rightarrow> val" where
  "map_leaves f (VObj m) = VObj (map (\<lambda>(k, v). (k, map_leaves f v)) m)"
| "map_leaves f (VArr xs) = VArr (map (map_leaves f) xs)"
| "map_leaves f (VStr s) = VStr (f s)"
| "map_leaves f v = v"

fun leaves :: "val \<Rightarrow> string list" where
  "leaves (VObj m) = concat (map (\<lambda>(k, v). leaves v) m)"
| "leaves (VArr xs) = concat (map leaves xs)"
| "leaves (VStr s) = [s]"
| "leaves v = []"

definition obj_map_leaves :: "(string \<Rightarrow> string) \<Rightarrow> obj \<Rightarrow> obj" where
  "obj_map_leaves f m = map (\<lambda>(k, v). (k, map_leaves f v)) m"

definition refs_in :: "string list \<Rightarrow> string set" where
  "refs_in ss = \<Union> (str_refs ` set ss)"

lemma refs_in_simps [simp]:
  "refs_in [] = {}" "refs_in (s # ss) = str_refs s \<union> refs_in ss"
  "refs_in (ss @ ts) = refs_in ss \<union> refs_in ts"
  by (auto simp: refs_in_def)

lemma undefined_refs_empty [simp]: "undefined_refs vars {} = {}"
  by (simp add: undefined_refs_def)

lemma expandValue_spec:
  "distinct ms \<Longrightarrow> fst (expandValue vars v ms) = map_leaves (expanded vars) v \<and>
     distinct (snd (expandValue vars v ms)) \<and>
     set (snd (expandValue vars v ms)) = set ms \<union> undefined_refs vars (refs_in (leaves v))"
  "distinct ms \<Longrightarrow> fst (expandEntries vars m ms) = obj_map_leaves (expanded vars) m \<and>
     distinct (snd (expandEntries vars m ms)) \<and>
     set (snd (expandEntries vars m ms)) = set ms \<union> undefined_refs vars (refs_in (leaves (VObj m)))"
  "distinct ms \<Longrightarrow> fst (expandItems vars xs ms) = map (map_leaves (expanded vars)) xs \<and>
     distinct (snd (expandItems vars xs ms)) \<and>
     set (snd (expandItems vars xs ms)) = set ms \<union> undefined_refs vars (refs_in (leaves (VArr xs)))"
  by (induction vars v ms and vars m ms and vars xs ms
      rule: expandValue_expandEntries_expandItems.induct)
    (auto simp: obj_map_leaves_def expand_tokens split: prod.splits)

lemma substitute_loop_spec:
  "distinct ms \<Longrightarrow> fst (substitute_loop vars objs ms) = map (obj_map_leaves (expanded vars)) objs \<and>
     distinct (snd (substitute_loop vars objs ms)) \<and>
     set (snd (substitute_loop vars objs ms)) =
       set ms \<union> undefined_refs vars (refs_in (concat (map (\<lambda>m. leaves (VObj m)) objs)))"
proof (induction objs arbitrary: ms)
  case Nil
  then show ?case by simp
next
  case (Cons m objs)
  obtain m' ms' where e: "expandEntries vars m ms = (m', ms')" by (cases "expandEntries vars m ms")
  with expandValue_spec(2) [OF Cons.prems, of vars m] Cons.IH [of ms'] show ?case
    by (auto split: prod.splits)
qed

text \<open>
  Substitution rewrites exactly the string leaves of every object, token by token, and
  keeps every key and the shape. It succeeds exactly when every reference anywhere in the
  objects has a value; otherwise one error names all the unresolved ones, sorted and each once.
\<close>

theorem substitute_spec:
  "substitute objs vars =
     (let M = undefined_refs vars (refs_in (concat (map (\<lambda>m. leaves (VObj m)) objs)))
      in if M = {} then Inr (map (obj_map_leaves (expanded vars)) objs)
         else Inl (newSubstitutionError (sorted_list_of_set M)))"
proof -
  obtain os ms where e: "substitute_loop vars objs [] = (os, ms)"
    by (cases "substitute_loop vars objs []")
  with substitute_loop_spec [of "[]" vars objs]
  have s: "os = map (obj_map_leaves (expanded vars)) objs" "distinct ms"
    "set ms = undefined_refs vars (refs_in (concat (map (\<lambda>m. leaves (VObj m)) objs)))"
    by auto
  have "sort ms = sorted_list_of_set (set ms)"
    using s(2) by (simp add: sorted_list_of_set_sort_remdups distinct_remdups_id)
  then show ?thesis
    unfolding substitute_def e Let_def s(3) [symmetric] sortedKeys_def
    by (cases ms) (simp_all add: s(1))
qed

subsection \<open>The escape\<close>

text \<open>What an author writes to keep a text literal.\<close>

function escape :: "string \<Rightarrow> string" where
  "escape [] = []"
| "escape (c # cs) = (if has_prefix (c # cs) ''${'' then ''$${'' @ escape (drop 1 cs) else c # escape cs)"
  by pat_completeness auto
termination by (relation "measure length") auto

lemma escape_hd: "escape s = CHR ''{'' # r \<Longrightarrow> \<exists>s'. s = CHR ''{'' # s'"
  by (cases s) (auto split: if_splits)

lemma escape_no_ref:
  assumes "\<not> has_prefix (c # cs) ''${''"
  shows "\<not> has_prefix (c # escape cs) ''${'' \<and> \<not> has_prefix (c # escape cs) ''$${''"
proof (cases cs)
  case (Cons d ds)
  show ?thesis
  proof (cases "has_prefix (d # ds) ''${''")
    case True
    with Cons show ?thesis by simp
  next
    case False
    with Cons assms show ?thesis
      by (cases "escape ds") (auto dest: escape_hd)
  qed
qed simp

lemma expand_escape: "expand vars (escape s) missing = (s, missing)"
proof (induction s arbitrary: missing rule: escape.induct)
  case 1
  then show ?case by simp
next
  case (2 c cs)
  show ?case
  proof (cases "has_prefix (c # cs) ''${''")
    case True
    then obtain ds where "c = CHR ''$''" "cs = CHR ''{'' # ds" by (cases cs) auto
    with True "2.IH"(1) show ?thesis by simp
  next
    case False
    then have "reference (c # escape cs) = None"
      using escape_no_ref [OF False] by (simp add: reference_def)
    with False escape_no_ref [OF False] "2.IH"(2) show ?thesis
      by (cases "c = CHR ''$''") simp_all
  qed
qed

text \<open>
  C39. \<open>$${\<close> is a complete escape: doubling the dollar of every \<open>${\<close> of any text makes
  substitution give the text back, whatever the values are, and report nothing missing.
\<close>

theorem expand_escape_roundtrip: "expand vars (escape s) [] = (s, [])"
  by (rule expand_escape)

subsection \<open>Flat values\<close>

lemma flat_loop_Inr:
  "flat_loop values names = Inr out \<longleftrightarrow>
     list_all2 (\<lambda>n p. fst p = n \<and> map_of values n = Some (VStr (snd p))) names out"
proof (induction names arbitrary: out)
  case Nil
  then show ?case by auto
next
  case (Cons n names)
  show ?case
  proof (cases "map_of values n")
    case None
    then show ?thesis by (auto simp: list_all2_Cons1)
  next
    case (Some v)
    with Cons.IH show ?thesis
      by (cases v) (auto simp: list_all2_Cons1 res_simps)
  qed
qed

lemma map_of_keys:
  "list_all2 (\<lambda>n p. fst p = n \<and> P n (snd p)) names out \<Longrightarrow>
    (map_of out n = None \<longleftrightarrow> n \<notin> set names) \<and> (\<forall>w. map_of out n = Some w \<longrightarrow> P n w)"
  by (induction rule: list_all2_induct) auto

text \<open>
  Values are narrowed to flat strings exactly when every one of them is a string, and
  then every name keeps its text; the first offending name in sorted order is reported
  otherwise, so the error does not depend on the order of the Go map.
\<close>

theorem flatStringValues_spec:
  "case flatStringValues values of
     Inr out \<Rightarrow> (\<lambda>n. map_option VStr (map_of out n)) = map_of values
   | Inl e \<Rightarrow> (\<exists>n v. map_of values n = Some v \<and> (\<nexists>s. v = VStr s) \<and>
        e = newValuesNotFlatError n (go_type v) \<and>
        {m \<in> dom (map_of values). m < n \<and> \<not> (\<exists>s. map_of values m = Some (VStr s))} = {})"
proof (cases "flatStringValues values")
  case (Inr out)
  show ?thesis
  proof (cases "values = []")
    case True
    with Inr show ?thesis by (simp add: flatStringValues_def)
  next
    case False
    with Inr have "flat_loop values (sort (map fst values)) = Inr out"
      by (simp add: flatStringValues_def sortedKeys_def)
    then have l: "list_all2 (\<lambda>n p. fst p = n \<and> map_of values n = Some (VStr (snd p)))
        (sort (map fst values)) out"
      by (simp add: flat_loop_Inr)
    have "map_option VStr (map_of out n) = map_of values n" for n
    proof (cases "map_of out n")
      case None
      with map_of_keys [OF l, of n] have "map_of values n = None"
        by (simp add: map_of_eq_None_iff)
      with None show ?thesis by simp
    next
      case (Some s)
      with map_of_keys [OF l, of n] show ?thesis by simp
    qed
    with Inr show ?thesis by auto
  qed
next
  case (Inl e)
  have "\<exists>n v. map_of values n = Some v \<and> (\<nexists>s. v = VStr s) \<and> e = newValuesNotFlatError n (go_type v) \<and>
        {m \<in> dom (map_of values). m < n \<and> \<not> (\<exists>s. map_of values m = Some (VStr s))} = {}"
    if "flat_loop values names = Inl e" "sorted names" "set names \<subseteq> dom (map_of values)"
      "{m \<in> dom (map_of values). m \<notin> set names \<and> \<not> (\<exists>s. map_of values m = Some (VStr s))} = {}" for names
    using that
  proof (induction names)
    case Nil
    then show ?case by simp
  next
    case (Cons n names)
    then obtain v where v: "map_of values n = Some v" by auto
    show ?case
    proof (cases "\<exists>s. v = VStr s")
      case True
      then obtain s where s: "v = VStr s" by blast
      show ?thesis
      proof (rule Cons.IH)
        show "flat_loop values names = Inl e"
          using Cons.prems(1) v s by (simp add: res_simps)
        show "{m \<in> dom (map_of values). m \<notin> set names \<and> \<not> (\<exists>s. map_of values m = Some (VStr s))} = {}"
          using Cons.prems(4) v s by auto
      qed (use Cons.prems in simp_all)
    next
      case False
      with Cons.prems v have "e = newValuesNotFlatError n (go_type v)" by (cases v) auto
      moreover have "{m \<in> dom (map_of values). m < n \<and> \<not> (\<exists>s. map_of values m = Some (VStr s))} = {}"
        using Cons.prems(2,4) by (auto dest: leD)
      ultimately show ?thesis using False v by blast
    qed
  qed
  from this [of "sort (map fst values)"] Inl show ?thesis
    by (auto simp: flatStringValues_def sortedKeys_def dom_map_of_conv_image_fst split: if_splits)
qed

end
