(* ===== verification/PackNamespace.thy ===== *)
theory PackNamespace
  imports JsonVal PackErrors
begin

section \<open>The pack namespace (\<open>internal/pack/namespace.go\<close>)\<close>

text \<open>
  A pack that declares a namespace forces every namespaced object it delivers into it. Scope
  is decided from the built-in kinds, then from the definitions the pack bundles, and last
  by a default. Kubernetes accessors are the library record \<open>U\<close>.
\<close>

definition clusterScopedKinds :: "string list" where
  "clusterScopedKinds =
     [''APIService'', ''CSIDriver'', ''CSINode'',
      ''CertificateSigningRequest'', ''ClusterRole'', ''ClusterRoleBinding'',
      ''ComponentStatus'', ''CustomResourceDefinition'', ''FlowSchema'',
      ''IngressClass'', ''MutatingWebhookConfiguration'', ''Namespace'',
      ''Node'', ''PersistentVolume'', ''PriorityClass'',
      ''PriorityLevelConfiguration'', ''RuntimeClass'', ''SelfSubjectAccessReview'',
      ''SelfSubjectRulesReview'', ''StorageClass'', ''SubjectAccessReview'',
      ''TokenReview'', ''ValidatingAdmissionPolicy'', ''ValidatingAdmissionPolicyBinding'',
      ''ValidatingWebhookConfiguration'', ''VolumeAttachment'']"

definition crdKind :: string where "crdKind = ''CustomResourceDefinition''"
definition crdGroup :: string where "crdGroup = ''apiextensions.k8s.io''"
definition scopeCluster :: string where "scopeCluster = ''Cluster''"
definition scopeNamespaced :: string where "scopeNamespaced = ''Namespaced''"

record resourceKey =
  rk_group :: string
  rk_kind :: string

type_synonym scopeIndex = "(resourceKey, bool) gomap"

definition apiGroup :: "string \<Rightarrow> string" where
  "apiGroup apiVersion = (case cut apiVersion ''/'' of None \<Rightarrow> '''' | Some (g, rest) \<Rightarrow> g)"

fun index_scopes :: "unstr \<Rightarrow> obj list \<Rightarrow> scopeIndex \<Rightarrow> scopeIndex" where
  "index_scopes U [] scopes = scopes"
| "index_scopes U (m # objs) scopes =
     (if u_kind U m \<noteq> crdKind \<or> apiGroup (u_apiVersion U m) \<noteq> crdGroup then index_scopes U objs scopes
      else (let g = u_nested_string U [''spec'', ''group''] m;
                kind = u_nested_string U [''spec'', ''names'', ''kind''] m;
                scope = u_nested_string U [''spec'', ''scope''] m
            in if kind = '''' \<or> scope \<noteq> scopeCluster \<and> scope \<noteq> scopeNamespaced
               then index_scopes U objs scopes
               else index_scopes U objs
                 (AList.update \<lparr>rk_group = g, rk_kind = kind\<rparr> (scope = scopeCluster) scopes)))"

definition indexCRDScopes :: "unstr \<Rightarrow> obj list \<Rightarrow> scopeIndex" where
  "indexCRDScopes U objs = index_scopes U objs []"

definition clusterScoped :: "unstr \<Rightarrow> scopeIndex \<Rightarrow> obj \<Rightarrow> bool" where
  "clusterScoped U x m =
     (if u_kind U m \<in> set clusterScopedKinds then True
      else case map_of x \<lparr>rk_group = apiGroup (u_apiVersion U m), rk_kind = u_kind U m\<rparr> of
          Some cluster \<Rightarrow> cluster
        | None \<Rightarrow> False)"

fun apply_ns_loop :: "unstr \<Rightarrow> obj list \<Rightarrow> string \<Rightarrow> scopeIndex \<Rightarrow> obj list res" where
  "apply_ns_loop U [] ns scopes = Inr []"
| "apply_ns_loop U (m # objs) ns scopes =
     (if clusterScoped U scopes m
      then bindR (apply_ns_loop U objs ns scopes) (\<lambda>rest. Inr (m # rest))
      else (let got = u_namespace U m in
        if got = '''' \<or> got = ns
        then bindR (apply_ns_loop U objs ns scopes) (\<lambda>rest. Inr (u_set_namespace U ns m # rest))
        else Inl (newNamespaceConflictError (u_kind U m) (u_name U m) got ns)))"

definition applyNamespace :: "unstr \<Rightarrow> obj list \<Rightarrow> string \<Rightarrow> scopeIndex \<Rightarrow> obj list res" where
  "applyNamespace U objs ns scopes = (if ns = '''' then Inr objs else apply_ns_loop U objs ns scopes)"

subsection \<open>What the transform does\<close>

definition conflicting :: "unstr \<Rightarrow> scopeIndex \<Rightarrow> string \<Rightarrow> obj \<Rightarrow> bool" where
  "conflicting U scopes ns m \<longleftrightarrow>
     \<not> clusterScoped U scopes m \<and> u_namespace U m \<noteq> '''' \<and> u_namespace U m \<noteq> ns"

definition placed :: "unstr \<Rightarrow> scopeIndex \<Rightarrow> string \<Rightarrow> obj \<Rightarrow> obj" where
  "placed U scopes ns m = (if clusterScoped U scopes m then m else u_set_namespace U ns m)"

lemma apply_ns_loop_Inr:
  "apply_ns_loop U objs ns scopes = Inr out \<longleftrightarrow>
     list_all (\<lambda>m. \<not> conflicting U scopes ns m) objs \<and> out = map (placed U scopes ns) objs"
  by (induction objs arbitrary: out) (auto simp: conflicting_def placed_def res_simps Let_def)

lemma apply_ns_loop_Inl:
  "apply_ns_loop U objs ns scopes = Inl e \<longleftrightarrow>
     (case find (conflicting U scopes ns) objs of
        None \<Rightarrow> False
      | Some m \<Rightarrow> e = newNamespaceConflictError (u_kind U m) (u_name U m) (u_namespace U m) ns)"
  by (induction objs) (auto simp: conflicting_def res_simps Let_def)

text \<open>
  A namespace transform is total and never overrides an author silently: with a
  namespace, it succeeds exactly when no namespaced object insists on another one, then sets
  the namespace of the namespaced objects and leaves the cluster-scoped ones alone, in order;
  otherwise the conflict names the first such object. Without a namespace nothing changes.
\<close>

theorem applyNamespace_spec:
  "applyNamespace U objs ns scopes =
     (if ns = '''' then Inr objs
      else case find (conflicting U scopes ns) objs of
          Some m \<Rightarrow> Inl (newNamespaceConflictError (u_kind U m) (u_name U m) (u_namespace U m) ns)
        | None \<Rightarrow> Inr (map (placed U scopes ns) objs))"
proof -
  have "find (conflicting U scopes ns) objs = None \<longleftrightarrow> list_all (\<lambda>m. \<not> conflicting U scopes ns m) objs"
    by (auto simp: find_None_iff list_all_iff)
  then show ?thesis
    using apply_ns_loop_Inr [of U objs ns scopes] apply_ns_loop_Inl [of U objs ns scopes]
    by (cases "apply_ns_loop U objs ns scopes") (auto simp: applyNamespace_def split: option.splits)
qed

context unstructured_access
begin

lemma scope_set: "clusterScoped U x (u_set_namespace U ns m) = clusterScoped U x m"
  by (simp add: clusterScoped_def kind_set apiVersion_set)

lemma index_set: "index_scopes U (map (placed U x ns) objs) scopes = index_scopes U objs scopes"
proof (induction objs arbitrary: scopes)
  case Nil
  then show ?case by simp
next
  case (Cons m objs)
  have e: "u_kind U (placed U x ns m) = u_kind U m"
    "u_apiVersion U (placed U x ns m) = u_apiVersion U m"
    "u_nested_string U (''spec'' # ks) (placed U x ns m) = u_nested_string U (''spec'' # ks) m" for ks
    by (simp_all add: placed_def kind_set apiVersion_set spec_set)
  show ?case by (simp add: Cons.IH e Let_def)
qed

lemma placed_result:
  assumes "ns \<noteq> ''''" "applyNamespace U objs ns scopes = Inr out"
  shows "applyNamespace U out ns scopes = Inr out"
    and "indexCRDScopes U out = indexCRDScopes U objs"
    and "\<forall>m \<in> set out. clusterScoped U scopes m \<or> u_namespace U m = ns"
proof -
  have o: "out = map (placed U scopes ns) objs"
    using assms by (auto simp: applyNamespace_def apply_ns_loop_Inr)
  have "\<not> conflicting U scopes ns (placed U scopes ns m)" for m
    using assms(1) by (simp add: conflicting_def placed_def scope_set namespace_set)
  moreover have "placed U scopes ns (placed U scopes ns m) = placed U scopes ns m" for m
    using assms(1) by (simp add: placed_def scope_set set_idem)
  ultimately show "applyNamespace U out ns scopes = Inr out"
    using assms(1) by (auto simp: applyNamespace_def apply_ns_loop_Inr o list_all_iff)
  show "indexCRDScopes U out = indexCRDScopes U objs"
    by (simp add: indexCRDScopes_def o index_set)
  show "\<forall>m \<in> set out. clusterScoped U scopes m \<or> u_namespace U m = ns"
    using assms(1) by (auto simp: o placed_def namespace_set)
qed

end

text \<open>
  After a pack forced its namespace, every object it delivers is cluster-scoped or in
  that namespace, the scopes its definitions declare are unchanged (so rebuilding the index
  from the plan, as the external manifests do, gives the same answers), and a second
  transform changes nothing.
\<close>

theorem applyNamespace_forces:
  assumes "unstructured_access U" and "ns \<noteq> ''''" and "applyNamespace U objs ns scopes = Inr out"
  shows "list_all (\<lambda>m. clusterScoped U scopes m \<or> u_namespace U m = ns) out \<and>
    indexCRDScopes U out = indexCRDScopes U objs \<and>
    applyNamespace U out ns scopes = Inr out"
  using unstructured_access.placed_result [OF assms] by (simp add: list_all_iff)

theorem applyNamespace_forces_witness:
  "list_all (\<lambda>m. clusterScoped std_unstr [] m \<or> u_namespace std_unstr m = ''apps'')
     [[(''kind'', VStr ''Node'')],
      [(''kind'', VStr ''Pod''), (''metadata'', VObj [(''namespace'', VStr ''apps'')])]]"
proof -
  have 1: "applyNamespace std_unstr [[(''kind'', VStr ''Node'')], [(''kind'', VStr ''Pod'')]] ''apps'' [] =
      Inr [[(''kind'', VStr ''Node'')],
        [(''kind'', VStr ''Pod''), (''metadata'', VObj [(''namespace'', VStr ''apps'')])]]"
    by code_simp
  show ?thesis
    using applyNamespace_forces [OF std.unstructured_access_axioms _ 1] by simp
qed

subsection \<open>Bundled definitions decide the scope\<close>

text \<open>The scope the last usable definition of a kind declares.\<close>

definition declares :: "unstr \<Rightarrow> resourceKey \<Rightarrow> obj \<Rightarrow> bool option" where
  "declares U k m =
     (if u_kind U m = crdKind \<and> apiGroup (u_apiVersion U m) = crdGroup \<and>
         rk_group k = u_nested_string U [''spec'', ''group''] m \<and>
         rk_kind k = u_nested_string U [''spec'', ''names'', ''kind''] m \<and> rk_kind k \<noteq> ''''
      then (let s = u_nested_string U [''spec'', ''scope''] m
            in if s = scopeCluster then Some True else if s = scopeNamespaced then Some False else None)
      else None)"

lemma index_scopes_lookup:
  "map_of (index_scopes U objs scopes) k =
     fold (\<lambda>m r. case declares U k m of Some b \<Rightarrow> Some b | None \<Rightarrow> r) objs (map_of scopes k)"
proof (induction U objs scopes rule: index_scopes.induct)
  case (1 U scopes)
  then show ?case by simp
next
  case (2 U m objs scopes)
  obtain g n where k: "k = \<lparr>rk_group = g, rk_kind = n\<rparr>" by (cases k)
  have "scopeCluster \<noteq> scopeNamespaced" by (simp add: scopeCluster_def scopeNamespaced_def)
  with 2 show ?case
    by (auto simp: declares_def k Let_def)
qed

text \<open>
  A pack that bundles the definition of a custom resource decides its scope, by group and
  kind together: an object whose kind is not built in is cluster-scoped exactly when the last
  usable definition the pack bundles for its group and kind says \<open>Cluster\<close>; without one it is
  treated as namespaced.
\<close>

theorem clusterScoped_bundled:
  "clusterScoped U (indexCRDScopes U objs) m =
     (if u_kind U m \<in> set clusterScopedKinds then True
      else fold (\<lambda>d r. case declares U \<lparr>rk_group = apiGroup (u_apiVersion U m), rk_kind = u_kind U m\<rparr> d of
                   Some b \<Rightarrow> Some b | None \<Rightarrow> r) objs None = Some True)"
  by (simp add: clusterScoped_def indexCRDScopes_def index_scopes_lookup split: option.split)

end
