(* ===== verification/GoFS.thy ===== *)
theory GoFS
  imports CubeErr
begin

section \<open>Read-only file systems (\<open>io/fs\<close>)\<close>

text \<open>
  An \<open>fs.FS\<close> as the code uses it: \<open>fs_stat p\<close> says whether \<open>p\<close> is a directory,
  \<open>fs_read\<close> reads a file, and \<open>fs_walk root\<close> is the sequence of calls \<open>fs.WalkDir\<close> makes
  to its callback, each with the name, whether it is a directory and the error met there.
  \<open>fs.WalkDir\<close> stops at the first error a callback returns; no callback here returns
  \<open>SkipDir\<close> or \<open>SkipAll\<close>.
\<close>

type_synonym walk_event = "string \<times> bool \<times> err option"

record gofs =
  fs_stat :: "string \<Rightarrow> bool res"
  fs_read :: "string \<Rightarrow> string res"
  fs_walk :: "string \<Rightarrow> walk_event list"

text \<open>A walk that only checks, and a walk that collects.\<close>

definition walk_check :: "gofs \<Rightarrow> string \<Rightarrow> (walk_event \<Rightarrow> err option) \<Rightarrow> err option" where
  "walk_check fs root f = checkR f (fs_walk fs root)"

definition walk_collect :: "gofs \<Rightarrow> string \<Rightarrow> (walk_event \<Rightarrow> 'a list res) \<Rightarrow> 'a list res" where
  "walk_collect fs root f = bindR (mapR f (fs_walk fs root)) (\<lambda>xss. Inr (concat xss))"

lemma walk_check_None: "walk_check fs root f = None \<longleftrightarrow> list_all (\<lambda>ev. f ev = None) (fs_walk fs root)"
  by (simp add: walk_check_def checkR_None_iff list_all_iff)

lemma walk_collect_Inr:
  "walk_collect fs root f = Inr out \<longleftrightarrow>
     (\<exists>xss. list_all2 (\<lambda>ev xs. f ev = Inr xs) (fs_walk fs root) xss \<and> out = concat xss)"
  by (auto simp: walk_collect_def res_simps mapR_Inr_iff)

end
