(* ===== verification/PackKustomize.thy ===== *)
theory PackKustomize
  imports GoFS JsonVal PackErrors
begin

section \<open>Kustomize packs (\<open>internal/pack/kustomize.go\<close>)\<close>

text \<open>
  Kustomize and its YAML library are outside the repository. \<open>kustomization\<close> has the fields
  of the library's struct the code reads, and the generator and transformer lists it does
  not read; \<open>kustomize_lib\<close> is the library: decoding a kustomization file, writing a file
  into the in-memory file system, and running the build over its files, which gives an error
  or the resources, each of which converts to an object or fails.
\<close>

record kustomization =
  k_resources :: "string list"
  k_components :: "string list"
  k_crds :: "string list"
  k_configurations :: "string list"
  k_bases :: "string list"
  k_patch_paths :: "string list"
  k_generators :: "string list"
  k_transformers :: "string list"

record kustomize_lib =
  kl_unmarshal :: "string \<Rightarrow> kustomization res"
  kl_write :: "string \<Rightarrow> string \<Rightarrow> err option"
  kl_run :: "(string \<times> string) list \<Rightarrow> obj res list res"

definition kustomizationNames :: "string list" where
  "kustomizationNames = [''kustomization.yaml'', ''kustomization.yml'', ''Kustomization'']"

definition isKustomization :: "string \<Rightarrow> bool" where
  "isKustomization name \<longleftrightarrow> path_base name \<in> set kustomizationNames"

definition isYAMLName :: "string \<Rightarrow> bool" where
  "isYAMLName segment \<longleftrightarrow>
     path_ext segment = ''.yaml'' \<or> path_ext segment = ''.yml'' \<or> path_ext segment = ''.json''"

definition isRemoteRef :: "string \<Rightarrow> bool" where
  "isRemoteRef r =
     (let ref = trim_space r in
      if ref = '''' then False
      else if contains ref ''://'' then True
      else if has_prefix ref ''git@'' \<or> has_prefix ref ''git::'' \<or> has_prefix ref ''oci::'' then True
      else if contains ref ''?'' then True
      else if contains ref ''.git'' then True
      else if has_prefix ref ''./'' \<or> has_prefix ref ''../'' \<or> has_prefix ref ''/'' then False
      else if contains ref ''//'' then True
      else (case cut ref ''/'' of
              None \<Rightarrow> False
            | Some (first, rest) \<Rightarrow> rest \<noteq> '''' \<and> contains first ''.'' \<and> \<not> isYAMLName first))"

fun first_remote :: "string \<Rightarrow> string list \<Rightarrow> err option" where
  "first_remote name [] = None"
| "first_remote name (ref # refs) =
     (if isRemoteRef ref then Some (newRemoteRefError name ref) else first_remote name refs)"

definition checkKustomizationRefs :: "kustomize_lib \<Rightarrow> string \<Rightarrow> string \<Rightarrow> err option" where
  "checkKustomizationRefs K name data =
     (case kl_unmarshal K data of
        Inl e \<Rightarrow> Some (newKustomizeBuildError e)
      | Inr k \<Rightarrow>
          first_remote name
            (k_resources k @ k_components k @ k_crds k @ k_configurations k @ k_bases k @ k_patch_paths k))"

definition checkSelfContained :: "kustomize_lib \<Rightarrow> gofs \<Rightarrow> err option" where
  "checkSelfContained K fs =
     walk_check fs ''.'' (\<lambda>(name, is_dir, err).
       case err of
         Some e \<Rightarrow> Some (newFileUnreadableError name e)
       | None \<Rightarrow>
           if is_dir \<or> \<not> isKustomization name then None
           else (case fs_read fs name of
                   Inl e \<Rightarrow> Some (newFileUnreadableError name e)
                 | Inr data \<Rightarrow> checkKustomizationRefs K name data))"

definition copyToMemFS :: "kustomize_lib \<Rightarrow> gofs \<Rightarrow> (string \<times> string) list res" where
  "copyToMemFS K fs =
     walk_collect fs ''.'' (\<lambda>(name, is_dir, err).
       case err of
         Some e \<Rightarrow> Inl (newFileUnreadableError name e)
       | None \<Rightarrow>
           if is_dir then Inr []
           else (case fs_read fs name of
                   Inl e \<Rightarrow> Inl (newFileUnreadableError name e)
                 | Inr data \<Rightarrow>
                     (case kl_write K (''./'' @ name) data of
                        Some e \<Rightarrow> Inl (newFileUnreadableError name e)
                      | None \<Rightarrow> Inr [(''./'' @ name, data)])))"

text \<open>\<open>cancelled\<close> is \<open>ctx.Err()\<close>.\<close>

definition renderKustomize :: "kustomize_lib \<Rightarrow> err option \<Rightarrow> string \<Rightarrow> gofs \<Rightarrow> obj list res" where
  "renderKustomize K cancelled name fs =
     (case cancelled of
        Some e \<Rightarrow> Inl e
      | None \<Rightarrow>
     (case checkSelfContained K fs of
        Some e \<Rightarrow> Inl e
      | None \<Rightarrow>
          bindR (copyToMemFS K fs) (\<lambda>memFS.
            case kl_run K memFS of
              Inl e \<Rightarrow> Inl (newKustomizeBuildError e)
            | Inr resources \<Rightarrow>
                bindR (mapR (\<lambda>r. case r of Inl e \<Rightarrow> Inl (newKustomizeBuildError e) | Inr m \<Rightarrow> Inr m) resources)
                  (\<lambda>objs. if length objs = 0 then Inl (newEmptyRenderError name) else Inr objs))))"

subsection \<open>Remote references never reach the build\<close>

lemma first_remote_find:
  "first_remote name refs = map_option (newRemoteRefError name) (find isRemoteRef refs)"
  by (induction refs) auto

definition scanned :: "kustomization \<Rightarrow> string list" where
  "scanned k = k_resources k @ k_components k @ k_crds k @ k_configurations k @ k_bases k @ k_patch_paths k"

text \<open>A payload with a readable kustomization file that names a remote reference.\<close>

definition remote_payload :: "kustomize_lib \<Rightarrow> gofs \<Rightarrow> bool" where
  "remote_payload K fs \<longleftrightarrow>
     list_ex (\<lambda>(name, is_dir, err). err = None \<and> \<not> is_dir \<and> isKustomization name \<and>
       (case fs_read fs name of
          Inl e \<Rightarrow> False
        | Inr data \<Rightarrow>
            (case kl_unmarshal K data of Inl e \<Rightarrow> False | Inr k \<Rightarrow> list_ex isRemoteRef (scanned k))))
     (fs_walk fs ''.'')"

lemma find_list_ex: "find P xs = None \<longleftrightarrow> \<not> list_ex P xs"
  by (auto simp: find_None_iff list_ex_iff)

lemma checkSelfContained_remote:
  assumes "remote_payload K fs"
  shows "checkSelfContained K fs \<noteq> None"
proof
  assume n: "checkSelfContained K fs = None"
  from assms obtain ev where ev: "ev \<in> set (fs_walk fs ''.'')"
    "(\<lambda>(name, is_dir, err). err = None \<and> \<not> is_dir \<and> isKustomization name \<and>
       (case fs_read fs name of
          Inl e \<Rightarrow> False
        | Inr data \<Rightarrow>
            (case kl_unmarshal K data of Inl e \<Rightarrow> False | Inr k \<Rightarrow> list_ex isRemoteRef (scanned k)))) ev"
    unfolding remote_payload_def list_ex_iff by blast
  obtain name is_dir err where e: "ev = (name, is_dir, err)" by (cases ev)
  from ev(2) obtain data k where d: "err = None" "\<not> is_dir" "isKustomization name"
    "fs_read fs name = Inr data" "kl_unmarshal K data = Inr k" "list_ex isRemoteRef (scanned k)"
    unfolding e by (auto split: sum.splits)
  have "checkKustomizationRefs K name data = None"
    using n ev(1) d(1-4) unfolding checkSelfContained_def walk_check_None list_all_iff e by fastforce
  with d(5,6) find_list_ex [of isRemoteRef "scanned k"] show False
    by (simp add: checkKustomizationRefs_def first_remote_find scanned_def)
qed

text \<open>
  C37. Rendering is hermetic: a payload whose kustomization files name a remote reference in
  any scanned field is refused before anything is copied or built, so the outcome is the
  same whatever the kustomize library would do with it.
\<close>

theorem renderKustomize_hermetic:
  assumes "remote_payload K fs"
  shows "\<exists>e. \<forall>run wr. renderKustomize (K\<lparr>kl_run := run, kl_write := wr\<rparr>) cancelled name fs = Inl e"
proof -
  from checkSelfContained_remote [OF assms] obtain e where e: "checkSelfContained K fs = Some e" by blast
  have "checkSelfContained (K\<lparr>kl_run := run, kl_write := wr\<rparr>) fs = checkSelfContained K fs" for run wr
  proof -
    have eq: "checkKustomizationRefs (K\<lparr>kl_run := run, kl_write := wr\<rparr>) = checkKustomizationRefs K"
      by (simp add: checkKustomizationRefs_def fun_eq_iff)
    show ?thesis unfolding checkSelfContained_def eq ..
  qed
  with e show ?thesis
    by (cases cancelled) (auto simp: renderKustomize_def)
qed

definition sample_kustomize :: kustomize_lib where
  "sample_kustomize =
     \<lparr>kl_unmarshal = (\<lambda>data. Inr \<lparr>k_resources = [''app.yaml'', ''https://example.com/base''],
        k_components = [], k_crds = [], k_configurations = [], k_bases = [], k_patch_paths = [],
        k_generators = [], k_transformers = []\<rparr>),
      kl_write = (\<lambda>p d. None), kl_run = (\<lambda>fs. Inr [])\<rparr>"

definition sample_payload :: gofs where
  "sample_payload =
     \<lparr>fs_stat = (\<lambda>p. Inr False), fs_read = (\<lambda>p. Inr ''resources''),
      fs_walk = (\<lambda>p. [(''.'', True, None), (''app.yaml'', False, None), (''kustomization.yaml'', False, None)])\<rparr>"

lemma remote_url: "trim_space r = r \<Longrightarrow> r \<noteq> '''' \<Longrightarrow> contains r ''://'' \<Longrightarrow> isRemoteRef r"
  by (simp add: isRemoteRef_def)

theorem renderKustomize_hermetic_witness:
  "\<exists>e. \<forall>run wr. renderKustomize (sample_kustomize\<lparr>kl_run := run, kl_write := wr\<rparr>) None ''p''
     sample_payload = Inl e"
proof (rule renderKustomize_hermetic)
  have "isRemoteRef ''https://example.com/base''"
    by (rule remote_url) (simp_all add: trim_space_def space_chunk_def is_space_def contains_def)
  moreover have "isKustomization ''kustomization.yaml''"
    by (simp add: isKustomization_def path_base_def path_last_def kustomizationNames_def)
  ultimately show "remote_payload sample_kustomize sample_payload"
    by (simp add: remote_payload_def sample_kustomize_def sample_payload_def scanned_def)
qed

text \<open>
  The check fails closed on the forms of remote reference it documents: a URL with a
  scheme, a Git SSH or getter address, a query, and the host shorthand \<open>host.tld/path\<close> are
  each recognised, in the order the code tries them.
\<close>

theorem isRemoteRef_forms:
  assumes "trim_space r = r"
    and "(\<exists>scheme rest. r = scheme @ ''://'' @ rest) \<or> (\<exists>rest. r = ''git@'' @ rest) \<or>
      (\<exists>rest. r = ''git::'' @ rest) \<or> (\<exists>rest. r = ''oci::'' @ rest) \<or> (\<exists>p q. r = p @ ''?'' @ q) \<or>
      (\<exists>host path. r = host @ ''/'' @ path \<and> path \<noteq> '''' \<and> CHR ''/'' \<notin> set host \<and>
         CHR ''.'' \<in> set host \<and> \<not> isYAMLName host \<and> host \<noteq> ''.'' \<and> host \<noteq> ''..'')"
  shows "isRemoteRef r"
proof -
  consider (a) "contains r ''://''" | (b) "has_prefix r ''git@'' \<or> has_prefix r ''git::'' \<or> has_prefix r ''oci::''"
    | (c) "contains r ''?''"
    | (d) host path where "r = host @ ''/'' @ path" "path \<noteq> ''''" "CHR ''/'' \<notin> set host"
         "CHR ''.'' \<in> set host" "\<not> isYAMLName host" "host \<noteq> ''.''" "host \<noteq> ''..''"
    using assms(2) unfolding contains_iff has_prefix_alt by blast
  then show ?thesis
  proof cases
    case a
    then have "r \<noteq> ''''" by (auto simp: contains_iff)
    with a show ?thesis by (simp add: isRemoteRef_def assms(1))
  next
    case b
    then have "r \<noteq> ''''" by auto
    with b show ?thesis by (auto simp add: isRemoteRef_def assms(1))
  next
    case c
    then have "r \<noteq> ''''" by (auto simp: contains_iff)
    with c show ?thesis by (simp add: isRemoteRef_def assms(1))
  next
    case d
    have ne: "r \<noteq> ''''" using d by simp
    have cut: "cut r ''/'' = Some (host, path)"
      using d(1,3) by (induction host arbitrary: r) auto
    have dot: "contains host ''.''"
      using d(4) by (auto simp: contains_iff dest: split_list)
    have p: "\<not> has_prefix r ''./''" "\<not> has_prefix r ''../''" "\<not> has_prefix r ''/''"
      using d by (auto simp: has_prefix_alt append_eq_Cons_conv)
    show ?thesis
      unfolding isRemoteRef_def assms(1) Let_def using ne cut dot p d(2,5) by simp
  qed
qed

theorem isRemoteRef_forms_witness: "isRemoteRef ''github.com/org/repo''"
proof (rule isRemoteRef_forms)
  show "trim_space ''github.com/org/repo'' = ''github.com/org/repo''"
    by (simp add: trim_space_def space_chunk_def is_space_def)
  have "\<not> isYAMLName ''github.com''"
    by (simp add: isYAMLName_def path_ext_def path_last_def Let_def)
  then show "(\<exists>scheme rest. ''github.com/org/repo'' = scheme @ ''://'' @ rest) \<or>
      (\<exists>rest. ''github.com/org/repo'' = ''git@'' @ rest) \<or>
      (\<exists>rest. ''github.com/org/repo'' = ''git::'' @ rest) \<or>
      (\<exists>rest. ''github.com/org/repo'' = ''oci::'' @ rest) \<or>
      (\<exists>p q. ''github.com/org/repo'' = p @ ''?'' @ q) \<or>
      (\<exists>host path. ''github.com/org/repo'' = host @ ''/'' @ path \<and> path \<noteq> '''' \<and> CHR ''/'' \<notin> set host \<and>
         CHR ''.'' \<in> set host \<and> \<not> isYAMLName host \<and> host \<noteq> ''.'' \<and> host \<noteq> ''..'')"
    by (intro disjI2 exI [of _ "''github.com''"] exI [of _ "''org/repo''"]) simp
qed

text \<open>
  The scan reads six fields only: whatever a kustomization lists under generators or
  transformers, the outcome is the same, although the comment on the scan says it rejects
  every remote-looking reference in the file.
\<close>

theorem checkKustomizationRefs_unscanned:
  "checkKustomizationRefs (K\<lparr>kl_unmarshal := (\<lambda>d. Inr (k\<lparr>k_generators := gs, k_transformers := ts\<rparr>))\<rparr>) name data
     = checkKustomizationRefs (K\<lparr>kl_unmarshal := (\<lambda>d. Inr k)\<rparr>) name data"
  by (simp add: checkKustomizationRefs_def)

end
