(* ===== verification/PackRender.thy ===== *)
theory PackRender
  imports PackValues PackSubst PackNamespace PackKustomize
begin

section \<open>Loading and rendering a pack (\<open>internal/pack\<close>: pack.go, helm.go, external.go, render.go)\<close>

text \<open>
  \<open>pack.cue\<close> is decoded and validated by CUE, the chart version checked against
  \<open>semver.Canonical\<close>, and objects are parsed by YAML and JSON decoders: \<open>pack_env\<close> gathers
  these libraries and the caller's context and resolver. A loaded \<open>pack\<close> is its metadata, its
  payload's file system and its \<open>#Values\<close> definition.
\<close>

record chart =
  ch_kind :: string
  ch_url :: string
  ch_name :: string
  ch_version :: string
  ch_digest :: string

record metadata =
  md_name :: string
  md_version :: string
  md_type :: string
  md_namespace :: string
  md_category :: string
  md_chart :: "chart option"

record 'c pack =
  p_meta :: metadata
  p_fs :: gofs
  p_values :: 'c

record 'c pack_env =
  pe_cancelled :: "err option"
  pe_cue :: "'c cue_lib"
  pe_compile :: "string \<Rightarrow> 'c res"
  pe_with_schema :: "'c \<Rightarrow> 'c"
  pe_decode_meta :: "'c \<Rightarrow> metadata res"
  pe_values_of :: "'c \<Rightarrow> 'c"
  pe_canonical :: "string \<Rightarrow> string"
  pe_unstr :: unstr
  pe_kustomize :: kustomize_lib
  pe_vals :: values_env
  pe_marshal :: "obj \<Rightarrow> string res"

definition TypeRaw :: string where "TypeRaw = ''raw''"
definition TypeHelm :: string where "TypeHelm = ''helm''"
definition TypeKustomize :: string where "TypeKustomize = ''kustomize''"
definition ChartKindRepo :: string where "ChartKindRepo = ''repo''"
definition ChartKindOCI :: string where "ChartKindOCI = ''oci''"
definition MetadataFile :: string where "MetadataFile = ''pack.cue''"
definition ManifestsDir :: string where "ManifestsDir = ''manifests''"

lemmas pack_types = TypeRaw_def TypeHelm_def TypeKustomize_def

subsection \<open>Loading\<close>

definition checkChartVersion :: "(string \<Rightarrow> string) \<Rightarrow> string \<Rightarrow> err option" where
  "checkChartVersion canonical v =
     (let prefixed = ''v'' @ v
      in if canonical prefixed \<noteq> prefixed then Some (newChartVersionError v) else None)"

definition decodeMetadata :: "'c pack_env \<Rightarrow> string \<Rightarrow> (metadata \<times> 'c) res" where
  "decodeMetadata P src =
     (case pe_compile P src of
        Inl e \<Rightarrow> Inl (newMetadataCompileError (cueDetails (pe_cue P) e))
      | Inr v \<Rightarrow>
          (let unified = pe_with_schema P v in
           case q_validate (pe_cue P) unified of
             Some e \<Rightarrow> Inl (newMetadataSchemaError (cueDetails (pe_cue P) e))
           | None \<Rightarrow>
               (case pe_decode_meta P unified of
                  Inl e \<Rightarrow> Inl (newMetadataSchemaError (cueDetails (pe_cue P) e))
                | Inr meta \<Rightarrow>
                    (case md_chart meta of
                       None \<Rightarrow> Inr (meta, pe_values_of P v)
                     | Some ch \<Rightarrow>
                         (case checkChartVersion (pe_canonical P) (ch_version ch) of
                            Some e \<Rightarrow> Inl e
                          | None \<Rightarrow> Inr (meta, pe_values_of P v))))))"

definition dirExists :: "gofs \<Rightarrow> string \<Rightarrow> bool" where
  "dirExists fs name = (case fs_stat fs name of Inr is_dir \<Rightarrow> is_dir | Inl e \<Rightarrow> False)"

fun anyFileExists :: "gofs \<Rightarrow> string list \<Rightarrow> bool" where
  "anyFileExists fs [] = False"
| "anyFileExists fs (name # names) =
     (case fs_stat fs name of
        Inr is_dir \<Rightarrow> if is_dir then anyFileExists fs names else True
      | Inl e \<Rightarrow> anyFileExists fs names)"

definition anyChartContent :: "gofs \<Rightarrow> string option" where
  "anyChartContent fs =
     find (\<lambda>name. \<exists>d. fs_stat fs name = Inr d) [''Chart.yaml'', ''Chart.yml'', ''templates'', ''charts'']"

definition checkPayload :: "gofs \<Rightarrow> string \<Rightarrow> err option" where
  "checkPayload fs t =
     (if t = TypeRaw then
        (if \<not> dirExists fs ManifestsDir then Some (newPayloadMismatchError t (ManifestsDir @ ''/ directory'')) else None)
      else if t = TypeKustomize then
        (if \<not> anyFileExists fs [''kustomization.yaml'', ''kustomization.yml'', ''Kustomization'']
         then Some (newPayloadMismatchError t ''kustomization.yaml'') else None)
      else if t = TypeHelm then
        (case anyChartContent fs of Some name \<Rightarrow> Some (newChartContentError name) | None \<Rightarrow> None)
      else None)"

definition Load :: "'c pack_env \<Rightarrow> gofs \<Rightarrow> string \<Rightarrow> 'c pack res" where
  "Load P fs ref =
     (case pe_cancelled P of
        Some e \<Rightarrow> Inl e
      | None \<Rightarrow>
     (case fs_read fs MetadataFile of
        Inl e \<Rightarrow> Inl (newSourceUnreadableError ref e)
      | Inr src \<Rightarrow>
          bindR (decodeMetadata P src) (\<lambda>(meta, values).
            case checkPayload fs (md_type meta) of
              Some e \<Rightarrow> Inl e
            | None \<Rightarrow> Inr \<lparr>p_meta = meta, p_fs = fs, p_values = values\<rparr>)))"

subsection \<open>Helm packs\<close>

record render_plan =
  rp_prerequisites :: "obj list"
  rp_objects :: "obj list"

definition helmInterval :: string where "helmInterval = ''10m''"

definition instanceID :: "'c pack \<Rightarrow> string \<Rightarrow> string" where
  "instanceID p i = (if i \<noteq> '''' then i else md_name (p_meta p))"

definition ociRef :: "chart \<Rightarrow> obj" where
  "ociRef ch =
     (''tag'', VStr (ch_version ch)) #
     (if ch_digest ch \<noteq> '''' then [(''digest'', VStr (ch_digest ch))] else [])"

definition chartSource :: "string \<Rightarrow> chart \<Rightarrow> obj" where
  "chartSource i ch =
     (let spec = [(''url'', VStr (ch_url ch)), (''interval'', VStr helmInterval)];
          oci = ch_kind ch = ChartKindOCI;
          kind = (if oci then ''OCIRepository'' else ''HelmRepository'');
          spec' = (if oci then spec @
            [(''layerSelector'', VObj
                [(''mediaType'', VStr ''application/vnd.cncf.helm.chart.content.v1.tar+gzip''),
                 (''operation'', VStr ''copy'')]),
             (''ref'', VObj (ociRef ch))] else spec)
      in [(''apiVersion'', VStr ''source.toolkit.fluxcd.io/v1''), (''kind'', VStr kind),
          (''metadata'', VObj [(''name'', VStr i)]), (''spec'', VObj spec')])"

definition jsonValues :: "'c pack_env \<Rightarrow> obj \<Rightarrow> obj res" where
  "jsonValues P values =
     (case pe_marshal P values of
        Inl e \<Rightarrow> Inl (newValuesRejectedError e)
      | Inr raw \<Rightarrow>
          (case v_json (pe_vals P) raw of
             Inl e \<Rightarrow> Inl (newValuesRejectedError e)
           | Inr content \<Rightarrow> Inr (case content of None \<Rightarrow> [] | Some c \<Rightarrow> c)))"

definition release_spec :: "string \<Rightarrow> string \<Rightarrow> chart \<Rightarrow> obj" where
  "release_spec ns i ch =
     [(''interval'', VStr helmInterval), (''releaseName'', VStr i)] @
     (if ns \<noteq> '''' then [(''targetNamespace'', VStr ns), (''install'', VObj [(''createNamespace'', VBool True)])]
      else []) @
     (if ch_kind ch = ChartKindOCI
      then [(''chartRef'', VObj [(''kind'', VStr ''OCIRepository''), (''name'', VStr i)])]
      else [(''chart'', VObj [(''spec'', VObj
              [(''chart'', VStr (ch_name ch)), (''version'', VStr (ch_version ch)),
               (''sourceRef'', VObj [(''kind'', VStr ''HelmRepository''), (''name'', VStr i)])])])])"

definition helmRelease :: "'c pack_env \<Rightarrow> 'c pack \<Rightarrow> string \<Rightarrow> chart \<Rightarrow> obj \<Rightarrow> obj res" where
  "helmRelease P p i ch values =
     bindR
       (if length values > 0
        then bindR (jsonValues P values)
          (\<lambda>content. Inr (release_spec (md_namespace (p_meta p)) i ch @ [(''values'', VObj content)]))
        else Inr (release_spec (md_namespace (p_meta p)) i ch))
       (\<lambda>spec. Inr
          [(''apiVersion'', VStr ''helm.toolkit.fluxcd.io/v2''), (''kind'', VStr ''HelmRelease''),
           (''metadata'', VObj [(''name'', VStr i)]), (''spec'', VObj spec)])"

definition planHelm :: "'c pack_env \<Rightarrow> 'c pack \<Rightarrow> string \<Rightarrow> obj \<Rightarrow> render_plan res" where
  "planHelm P p i values =
     (case md_chart (p_meta p) of
        None \<Rightarrow> Inl (newSchemaDriftError ''type is helm but no chart is declared'')
      | Some ch \<Rightarrow>
          bindR (helmRelease P p i ch values)
            (\<lambda>release. Inr \<lparr>rp_prerequisites = [], rp_objects = [chartSource i ch, release]\<rparr>))"

subsection \<open>Raw and kustomize packs\<close>

definition isManifest :: "string \<Rightarrow> bool" where
  "isManifest name \<longleftrightarrow> path_ext name = ''.yaml'' \<or> path_ext name = ''.yml''"

definition parseManifest :: "yaml_docs \<Rightarrow> string \<Rightarrow> string \<Rightarrow> obj list res" where
  "parseManifest docs name data =
     (case decodeDocuments docs data of
        Inl e \<Rightarrow> Inl (newManifestParseError name e)
      | Inr ds \<Rightarrow> Inr ds)"

definition renderRaw :: "'c pack_env \<Rightarrow> 'c pack \<Rightarrow> obj list res" where
  "renderRaw P p =
     bindR
       (walk_collect (p_fs p) ManifestsDir (\<lambda>(name, is_dir, err).
          case err of
            Some e \<Rightarrow> Inl (newFileUnreadableError name e)
          | None \<Rightarrow>
              if is_dir \<or> \<not> isManifest name then Inr []
              else (case pe_cancelled P of
                      Some e \<Rightarrow> Inl e
                    | None \<Rightarrow>
                        (case fs_read (p_fs p) name of
                           Inl e \<Rightarrow> Inl (newFileUnreadableError name e)
                         | Inr data \<Rightarrow> parseManifest (v_docs (pe_vals P)) name data))))
       (\<lambda>objs. if length objs = 0 then Inl (newEmptyRenderError (md_name (p_meta p))) else Inr objs)"

definition planRaw :: "'c pack_env \<Rightarrow> 'c pack \<Rightarrow> render_plan res" where
  "planRaw P p =
     bindR (renderRaw P p) (\<lambda>objs.
     bindR (applyNamespace (pe_unstr P) objs (md_namespace (p_meta p)) (indexCRDScopes (pe_unstr P) objs)) (\<lambda>objs'.
     Inr \<lparr>rp_prerequisites = [], rp_objects = objs'\<rparr>))"

definition planKustomize :: "'c pack_env \<Rightarrow> 'c pack \<Rightarrow> obj \<Rightarrow> render_plan res" where
  "planKustomize P p values =
     bindR (flatStringValues values) (\<lambda>vars.
     bindR (renderKustomize (pe_kustomize P) (pe_cancelled P) (md_name (p_meta p)) (p_fs p)) (\<lambda>objs.
     bindR (applyNamespace (pe_unstr P) objs (md_namespace (p_meta p)) (indexCRDScopes (pe_unstr P) objs)) (\<lambda>objs'.
     bindR (substitute objs' vars) (\<lambda>objs''.
     Inr \<lparr>rp_prerequisites = [], rp_objects = objs''\<rparr>))))"

definition Render :: "'c pack_env \<Rightarrow> 'c pack \<Rightarrow> obj \<Rightarrow> string \<Rightarrow> render_plan res" where
  "Render P p opt_values opt_id =
     (case pe_cancelled P of
        Some e \<Rightarrow> Inl e
      | None \<Rightarrow>
          bindR (resolveValues (pe_cue P) (p_values p) (md_type (p_meta p)) opt_values) (\<lambda>values.
            if md_type (p_meta p) = TypeRaw then planRaw P p
            else if md_type (p_meta p) = TypeHelm then planHelm P p (instanceID p opt_id) values
            else if md_type (p_meta p) = TypeKustomize then planKustomize P p values
            else Inl (newSchemaDriftError (''unknown type '' @ md_type (p_meta p)))))"

subsection \<open>External manifests\<close>

definition isKubernetesObject :: "obj \<Rightarrow> bool" where
  "isKubernetesObject doc \<longleftrightarrow>
     as_string (map_of doc ''apiVersion'') \<noteq> '''' \<and> as_string (map_of doc ''kind'') \<noteq> ''''"

definition inlineManifest :: "'c pack_env \<Rightarrow> nat \<Rightarrow> raw_ext \<Rightarrow> obj res" where
  "inlineManifest P i raw =
     (case v_json (pe_vals P) raw of
        Inl e \<Rightarrow> Inl (newManifestParseError (''externalManifests['' @ itoa (int i) @ ''].manifest'') e)
      | Inr m \<Rightarrow> Inr (case m of None \<Rightarrow> [] | Some d \<Rightarrow> d))"

definition externalObject :: "'c pack_env \<Rightarrow> nat \<Rightarrow> external_manifest \<Rightarrow> obj res" where
  "externalObject P i entry =
     (case em_manifest entry of
        Some raw \<Rightarrow> inlineManifest P i raw
      | None \<Rightarrow>
          (case v_resolve (pe_vals P) (em_ref entry) of
             Inl e \<Rightarrow> Inl (Wrapf (''externalManifests['' @ itoa (int i) @ ''].ref'') e)
           | Inr data \<Rightarrow>
               (case decodeDocuments (v_docs (pe_vals P)) data of
                  Inl e \<Rightarrow> Inl (newExternalManifestError (em_ref entry) 0 (Some e))
                | Inr ds \<Rightarrow>
                    if length ds \<noteq> 1 \<or> \<not> isKubernetesObject (ds ! 0)
                    then Inl (newExternalManifestError (em_ref entry) (length ds) None)
                    else Inr (ds ! 0))))"

record external_groups =
  eg_pre :: "obj list"
  eg_with :: "obj list"

fun external_loop :: "'c pack_env \<Rightarrow> nat \<Rightarrow> external_manifest list \<Rightarrow> external_groups \<Rightarrow> external_groups res" where
  "external_loop P i [] groups = Inr groups"
| "external_loop P i (entry # entries) groups =
     (case pe_cancelled P of
        Some e \<Rightarrow> Inl e
      | None \<Rightarrow>
          bindR (externalObject P i entry) (\<lambda>m.
            external_loop P (Suc i) entries
              (if em_lifecycle entry = LifecyclePre then groups\<lparr>eg_pre := eg_pre groups @ [m]\<rparr>
               else groups\<lparr>eg_with := eg_with groups @ [m]\<rparr>)))"

definition resolveExternalManifests :: "'c pack_env \<Rightarrow> external_manifest list \<Rightarrow> external_groups res" where
  "resolveExternalManifests P entries = external_loop P 0 entries \<lparr>eg_pre = [], eg_with = []\<rparr>"

definition attachExternal ::
  "'c pack_env \<Rightarrow> 'c pack \<Rightarrow> render_plan \<Rightarrow> external_manifest list \<Rightarrow> render_plan res" where
  "attachExternal P p plan entries =
     bindR (resolveExternalManifests P entries) (\<lambda>groups.
       let scopes = indexCRDScopes (pe_unstr P) (rp_objects plan); ns = md_namespace (p_meta p) in
       bindR (applyNamespace (pe_unstr P) (eg_pre groups) ns scopes) (\<lambda>pre.
       bindR (applyNamespace (pe_unstr P) (eg_with groups) ns scopes) (\<lambda>wth.
       Inr (plan\<lparr>rp_prerequisites := pre, rp_objects := rp_objects plan @ wth\<rparr>))))"

definition renderInstance :: "'c pack_env \<Rightarrow> 'c pack \<Rightarrow> pack_spec \<Rightarrow> render_plan res" where
  "renderInstance P p spec =
     (case pe_cancelled P of
        Some e \<Rightarrow> Inl e
      | None \<Rightarrow>
          if md_type (p_meta p) = TypeRaw \<and> (ps_valuesRef spec \<noteq> '''' \<or> ps_values spec \<noteq> None)
          then Inl newValuesOnRawPackError
          else
            bindR (instanceValues (pe_vals P) spec) (\<lambda>values.
            bindR (Render P p values (ps_id spec)) (\<lambda>plan.
            attachExternal P p plan (ps_external spec))))"

subsection \<open>The pack schema\<close>

text \<open>
  What the closed CUE definition \<open>packSchema\<close> says, as a predicate on the decoded metadata
  (an absent optional field decodes to the empty string). That CUE enforces it is the law
  \<open>schema_law\<close> of the library.
\<close>

definition label_re :: "string \<Rightarrow> bool" where
  "label_re s \<longleftrightarrow> s \<noteq> '''' \<and> list_all (\<lambda>c. is_lower c \<or> is_digit c \<or> c = CHR ''-'') s \<and>
     hd s \<noteq> CHR ''-'' \<and> last s \<noteq> CHR ''-''"

definition ident_char :: "char \<Rightarrow> bool" where
  "ident_char c \<longleftrightarrow> is_digit c \<or> is_lower c \<or> is_upper c \<or> c = CHR ''.'' \<or> c = CHR ''-''"

definition number_then :: "string \<Rightarrow> string option" where
  "number_then s = (if takeWhile is_digit s = [] then None else Some (dropWhile is_digit s))"

fun dot_then :: "string \<Rightarrow> string option" where
  "dot_then (c # cs) = (if c = CHR ''.'' then Some cs else None)"
| "dot_then [] = None"

definition version_tail :: "string \<Rightarrow> bool" where
  "version_tail s =
     (let pre = takeWhile (\<lambda>c. c \<noteq> CHR ''+'') s; build = dropWhile (\<lambda>c. c \<noteq> CHR ''+'') s in
      (case pre of [] \<Rightarrow> True | c # cs \<Rightarrow> c = CHR ''-'' \<and> cs \<noteq> [] \<and> list_all ident_char cs) \<and>
      (case build of [] \<Rightarrow> True | c # cs \<Rightarrow> cs \<noteq> [] \<and> list_all ident_char cs))"

definition exact_semver :: "string \<Rightarrow> bool" where
  "exact_semver v =
     (case Option.bind (Option.bind (Option.bind (Option.bind (number_then v) dot_then) number_then) dot_then) number_then of
        None \<Rightarrow> False
      | Some rest \<Rightarrow> version_tail rest)"

definition hex_char :: "char \<Rightarrow> bool" where
  "hex_char c \<longleftrightarrow> is_digit c \<or> (CHR ''a'' \<le> c \<and> c \<le> CHR ''f'')"

definition chart_admits :: "chart \<Rightarrow> bool" where
  "chart_admits ch \<longleftrightarrow> exact_semver (ch_version ch) \<and>
     (ch_kind ch = ChartKindRepo \<and>
        (has_prefix (ch_url ch) ''http://'' \<or> has_prefix (ch_url ch) ''https://'') \<and>
        ch_name ch \<noteq> '''' \<and> ch_digest ch = '''' \<or>
      ch_kind ch = ChartKindOCI \<and> has_prefix (ch_url ch) ''oci://'' \<and> ch_name ch = '''' \<and>
        (ch_digest ch = '''' \<or>
         has_prefix (ch_digest ch) ''sha256:'' \<and> length (ch_digest ch) = 71 \<and>
         list_all hex_char (drop 7 (ch_digest ch))))"

definition schema_admits :: "metadata \<Rightarrow> bool" where
  "schema_admits m \<longleftrightarrow>
     label_re (md_name m) \<and> md_version m \<noteq> '''' \<and> (md_namespace m = '''' \<or> label_re (md_namespace m)) \<and>
     (case md_chart m of
        None \<Rightarrow> md_type m = TypeRaw \<or> md_type m = TypeKustomize
      | Some ch \<Rightarrow> md_type m = TypeHelm \<and> chart_admits ch)"

definition schema_law :: "'c pack_env \<Rightarrow> bool" where
  "schema_law P \<longleftrightarrow>
     (\<forall>v m. q_validate (pe_cue P) (pe_with_schema P v) = None \<longrightarrow>
        pe_decode_meta P (pe_with_schema P v) = Inr m \<longrightarrow> schema_admits m)"

subsection \<open>What a loaded pack satisfies\<close>

definition payload_ok :: "gofs \<Rightarrow> string \<Rightarrow> bool" where
  "payload_ok fs t =
     (if t = TypeRaw then fs_stat fs ManifestsDir = Inr True
      else if t = TypeKustomize then
        list_ex (\<lambda>n. fs_stat fs n = Inr False) [''kustomization.yaml'', ''kustomization.yml'', ''Kustomization'']
      else list_all (\<lambda>n. \<exists>e. fs_stat fs n = Inl e) [''Chart.yaml'', ''Chart.yml'', ''templates'', ''charts''])"

lemma anyFileExists_iff: "anyFileExists fs ns \<longleftrightarrow> list_ex (\<lambda>n. fs_stat fs n = Inr False) ns"
proof (induction ns)
  case (Cons n ns)
  then show ?case
    by (cases "fs_stat fs n") auto
qed simp

lemma dirExists_iff: "dirExists fs n \<longleftrightarrow> fs_stat fs n = Inr True"
  by (cases "fs_stat fs n") (auto simp: dirExists_def)

lemma not_Inr_iff: "(\<forall>d. r \<noteq> Inr d) \<longleftrightarrow> (\<exists>e. r = Inl e)"
  by (cases r) auto

lemma checkPayload_iff:
  "t = TypeRaw \<or> t = TypeHelm \<or> t = TypeKustomize \<Longrightarrow> checkPayload fs t = None \<longleftrightarrow> payload_ok fs t"
proof -
  have "anyChartContent fs = None \<longleftrightarrow>
      list_all (\<lambda>n. \<exists>e. fs_stat fs n = Inl e) [''Chart.yaml'', ''Chart.yml'', ''templates'', ''charts'']"
    unfolding anyChartContent_def find_None_iff list_all_iff not_Inr_iff [symmetric] by blast
  moreover have "TypeRaw \<noteq> TypeHelm" "TypeKustomize \<noteq> TypeHelm" "TypeRaw \<noteq> TypeKustomize"
    by (simp_all add: pack_types)
  ultimately show "t = TypeRaw \<or> t = TypeHelm \<or> t = TypeKustomize \<Longrightarrow> ?thesis"
    by (auto simp: checkPayload_def payload_ok_def dirExists_iff anyFileExists_iff split: option.split)
qed

lemma decodeMetadata_Inr:
  assumes "decodeMetadata P src = Inr (m, v)" "schema_law P"
  shows "schema_admits m \<and>
    pred_option (\<lambda>ch. pe_canonical P (''v'' @ ch_version ch) = ''v'' @ ch_version ch) (md_chart m)"
  using assms by (auto simp: decodeMetadata_def schema_law_def checkChartVersion_def Let_def
      split: sum.splits option.splits if_splits)

text \<open>
  A pack that loads is what the rest of the package relies on: its metadata satisfies the
  schema (so the two schema-drift branches of rendering are unreachable: the type is one of
  three and a chart is present exactly for helm), a helm chart's version is canonical SemVer,
  and the payload has the marker of the declared type and, for helm, no chart content.
\<close>

theorem Load_sound:
  assumes "schema_law P" and "Load P fs ref = Inr p"
  shows "schema_admits (p_meta p) \<and> p_fs p = fs \<and> payload_ok fs (md_type (p_meta p)) \<and>
    (md_type (p_meta p) = TypeHelm \<longleftrightarrow> md_chart (p_meta p) \<noteq> None) \<and>
    pred_option (\<lambda>ch. pe_canonical P (''v'' @ ch_version ch) = ''v'' @ ch_version ch) (md_chart (p_meta p))"
proof -
  from assms(2) obtain src m v where
    d: "decodeMetadata P src = Inr (m, v)" and c: "checkPayload fs (md_type m) = None"
    and p: "p = \<lparr>p_meta = m, p_fs = fs, p_values = v\<rparr>"
    by (auto simp: Load_def res_simps split: option.splits sum.splits)
  note D = decodeMetadata_Inr [OF d assms(1)]
  have ne: "TypeRaw \<noteq> TypeHelm" "TypeKustomize \<noteq> TypeHelm" by (simp_all add: pack_types)
  have t: "md_type m = TypeRaw \<or> md_type m = TypeHelm \<or> md_type m = TypeKustomize"
    "md_type m = TypeHelm \<longleftrightarrow> md_chart m \<noteq> None"
    using D ne by (auto simp: schema_admits_def split: option.splits)
  show ?thesis
    using D t c checkPayload_iff [OF t(1), of fs] by (simp add: p)
qed

subsection \<open>What a plan satisfies\<close>

lemma renderRaw_nonempty: "renderRaw P p = Inr objs \<Longrightarrow> objs \<noteq> []"
  by (auto simp: renderRaw_def res_simps split: if_splits)

lemma renderKustomize_nonempty: "renderKustomize K c n fs = Inr objs \<Longrightarrow> objs \<noteq> []"
  by (auto simp: renderKustomize_def res_simps split: if_splits option.splits sum.splits)

lemma applyNamespace_length: "applyNamespace U objs ns x = Inr out \<Longrightarrow> length out = length objs"
  by (auto simp: applyNamespace_def apply_ns_loop_Inr split: if_splits)

lemma substitute_length: "substitute objs vars = Inr out \<Longrightarrow> length out = length objs"
  by (auto simp: substitute_spec Let_def split: if_splits)

text \<open>
  A plan that renders delivers something: no pack type can come out empty, and the
  prerequisites group is filled by external manifests only.
\<close>

theorem Render_nonempty:
  assumes "Render P p values i = Inr plan"
  shows "rp_objects plan \<noteq> [] \<and> rp_prerequisites plan = []"
  using assms
  by (auto simp: Render_def planRaw_def planHelm_def planKustomize_def res_simps
      dest!: renderRaw_nonempty renderKustomize_nonempty applyNamespace_length substitute_length
      split: option.splits if_splits)

lemma external_loop_Inr:
  "external_loop P i entries g = Inr g' \<Longrightarrow>
     \<exists>objs. length objs = length entries \<and>
       (\<forall>k < length entries. externalObject P (i + k) (entries ! k) = Inr (objs ! k)) \<and>
       eg_pre g' = eg_pre g @ map snd (filter (\<lambda>(e, m). em_lifecycle e = LifecyclePre) (zip entries objs)) \<and>
       eg_with g' = eg_with g @ map snd (filter (\<lambda>(e, m). em_lifecycle e \<noteq> LifecyclePre) (zip entries objs))"
proof (induction P i entries g rule: external_loop.induct)
  case (1 P i groups)
  then show ?case by simp
next
  case (2 P i entry entries groups)
  from "2.prems" obtain m where c: "pe_cancelled P = None" and m: "externalObject P i entry = Inr m"
    and r: "external_loop P (Suc i) entries
        (if em_lifecycle entry = LifecyclePre then groups\<lparr>eg_pre := eg_pre groups @ [m]\<rparr>
         else groups\<lparr>eg_with := eg_with groups @ [m]\<rparr>) = Inr g'"
    by (auto simp: res_simps split: option.splits)
  from "2.IH" [OF c, of m] r m obtain objs where o: "length objs = length entries"
    "\<forall>k < length entries. externalObject P (Suc i + k) (entries ! k) = Inr (objs ! k)"
    "eg_pre g' = eg_pre (if em_lifecycle entry = LifecyclePre then groups\<lparr>eg_pre := eg_pre groups @ [m]\<rparr>
         else groups\<lparr>eg_with := eg_with groups @ [m]\<rparr>) @
        map snd (filter (\<lambda>(e, m). em_lifecycle e = LifecyclePre) (zip entries objs))"
    "eg_with g' = eg_with (if em_lifecycle entry = LifecyclePre then groups\<lparr>eg_pre := eg_pre groups @ [m]\<rparr>
         else groups\<lparr>eg_with := eg_with groups @ [m]\<rparr>) @
        map snd (filter (\<lambda>(e, m). em_lifecycle e \<noteq> LifecyclePre) (zip entries objs))"
    by auto
  have "\<forall>k < length (entry # entries). externalObject P (i + k) ((entry # entries) ! k) = Inr ((m # objs) ! k)"
    using o(2) m by (auto simp: less_Suc_eq_0_disj)
  with o show ?case
    by (intro exI [of _ "m # objs"]) auto
qed

text \<open>
  External manifests keep their place: each entry gives exactly one object, the \<open>pre\<close>
  ones form the prerequisites in declaration order and every other follows the pack's own
  objects in declaration order; none is dropped, and each had the pack's namespace applied.
\<close>

theorem renderInstance_externals:
  assumes "renderInstance P p spec = Inr plan"
  shows "\<exists>vals own objs. instanceValues (pe_vals P) spec = Inr vals \<and>
    Render P p vals (ps_id spec) = Inr own \<and>
    list_all2 (\<lambda>(k, e) m. externalObject P k e = Inr m) (enumerate 0 (ps_external spec)) objs \<and>
    (let pl = applyNamespace (pe_unstr P); ns = md_namespace (p_meta p);
         x = indexCRDScopes (pe_unstr P) (rp_objects own) in
     pl (map snd (filter (\<lambda>(e, m). em_lifecycle e = LifecyclePre) (zip (ps_external spec) objs))) ns x
       = Inr (rp_prerequisites plan) \<and>
     (\<exists>wth. pl (map snd (filter (\<lambda>(e, m). em_lifecycle e \<noteq> LifecyclePre) (zip (ps_external spec) objs))) ns x
          = Inr wth \<and> rp_objects plan = rp_objects own @ wth))"
proof -
  from assms obtain vals own where iv: "instanceValues (pe_vals P) spec = Inr vals"
    and r: "Render P p vals (ps_id spec) = Inr own"
    and a: "attachExternal P p own (ps_external spec) = Inr plan"
    by (auto simp: renderInstance_def res_simps split: option.splits if_splits)
  from a obtain g pre wth where g: "resolveExternalManifests P (ps_external spec) = Inr g"
    and pre: "applyNamespace (pe_unstr P) (eg_pre g) (md_namespace (p_meta p))
        (indexCRDScopes (pe_unstr P) (rp_objects own)) = Inr pre"
    and wth: "applyNamespace (pe_unstr P) (eg_with g) (md_namespace (p_meta p))
        (indexCRDScopes (pe_unstr P) (rp_objects own)) = Inr wth"
    and plan: "plan = own\<lparr>rp_prerequisites := pre, rp_objects := rp_objects own @ wth\<rparr>"
    by (auto simp: attachExternal_def res_simps Let_def)
  from external_loop_Inr [OF g [unfolded resolveExternalManifests_def]] obtain objs where
    o: "length objs = length (ps_external spec)"
    "\<forall>k < length (ps_external spec). externalObject P k (ps_external spec ! k) = Inr (objs ! k)"
    "eg_pre g = map snd (filter (\<lambda>(e, m). em_lifecycle e = LifecyclePre) (zip (ps_external spec) objs))"
    "eg_with g = map snd (filter (\<lambda>(e, m). em_lifecycle e \<noteq> LifecyclePre) (zip (ps_external spec) objs))"
    by auto
  have "list_all2 (\<lambda>(k, e) m. externalObject P k e = Inr m) (enumerate 0 (ps_external spec)) objs"
    using o(1,2) by (auto simp: list_all2_conv_all_nth nth_enumerate_eq)
  then show ?thesis
    using iv r pre wth plan o(3,4)
    by - (rule exI [of _ vals], rule exI [of _ own], rule exI [of _ objs], simp add: Let_def)
qed

lemma raw_own:
  assumes "Render P p vals i = Inr own" "md_type (p_meta p) = TypeRaw"
  shows "\<exists>objs. renderRaw P p = Inr objs \<and>
    applyNamespace (pe_unstr P) objs (md_namespace (p_meta p)) (indexCRDScopes (pe_unstr P) objs)
      = Inr (rp_objects own)"
  using assms by (auto simp: Render_def planRaw_def res_simps split: option.splits)

text \<open>
  C35. A raw pack with a namespace delivers nothing outside it: every object of the plan, the
  external manifests included, is cluster-scoped by the built-in kinds or by a definition the
  pack bundles, or is in that namespace.
\<close>

theorem renderInstance_raw_namespace:
  assumes "unstructured_access (pe_unstr P)" and "renderInstance P p spec = Inr plan"
    and "md_type (p_meta p) = TypeRaw" and "md_namespace (p_meta p) \<noteq> ''''"
  shows "\<exists>objs. renderRaw P p = Inr objs \<and>
    list_all (\<lambda>m. clusterScoped (pe_unstr P) (indexCRDScopes (pe_unstr P) objs) m \<or>
        u_namespace (pe_unstr P) m = md_namespace (p_meta p))
      (rp_prerequisites plan @ rp_objects plan)"
proof -
  note forced = unstructured_access.placed_result [OF assms(1,4)]
  from renderInstance_externals [OF assms(2)] obtain vals own objs wth where
    r: "Render P p vals (ps_id spec) = Inr own"
    and pre: "applyNamespace (pe_unstr P)
        (map snd (filter (\<lambda>(e, m). em_lifecycle e = LifecyclePre) (zip (ps_external spec) objs)))
        (md_namespace (p_meta p)) (indexCRDScopes (pe_unstr P) (rp_objects own)) = Inr (rp_prerequisites plan)"
    and wth: "applyNamespace (pe_unstr P)
        (map snd (filter (\<lambda>(e, m). em_lifecycle e \<noteq> LifecyclePre) (zip (ps_external spec) objs)))
        (md_namespace (p_meta p)) (indexCRDScopes (pe_unstr P) (rp_objects own)) = Inr wth"
    and plan: "rp_objects plan = rp_objects own @ wth"
    by (auto simp: Let_def)
  from raw_own [OF r assms(3)] obtain raws where raws: "renderRaw P p = Inr raws"
    and own: "applyNamespace (pe_unstr P) raws (md_namespace (p_meta p)) (indexCRDScopes (pe_unstr P) raws)
      = Inr (rp_objects own)" by blast
  have ix: "indexCRDScopes (pe_unstr P) (rp_objects own) = indexCRDScopes (pe_unstr P) raws"
    by (rule forced(2) [OF own])
  show ?thesis
    using raws forced(3) [OF own] forced(3) [OF pre] forced(3) [OF wth]
    by (auto simp: plan ix list_all_iff)
qed

text \<open>
  A helm pack renders one source and one release, both named by the effective identity,
  and the release refers to exactly that source by kind and name. The chart version (and the
  digest, when the pack pins one) is on the object that resolves the chart, neither object
  names a namespace of its own, and a pack namespace becomes the release's target namespace.
\<close>

theorem planHelm_pair:
  assumes "planHelm P p i values = Inr plan"
  shows "\<exists>ch src rel.
    md_chart (p_meta p) = Some ch \<and> rp_objects plan = [src, rel] \<and>
    nested [''metadata'', ''name''] src = Some (VStr i) \<and>
    nested [''metadata'', ''name''] rel = Some (VStr i) \<and>
    nested [''metadata'', ''namespace''] src = None \<and> nested [''metadata'', ''namespace''] rel = None \<and>
    nested [''spec'', ''targetNamespace''] rel =
      (if md_namespace (p_meta p) = '''' then None else Some (VStr (md_namespace (p_meta p)))) \<and>
    (if ch_kind ch = ChartKindOCI
     then nested [''spec'', ''chartRef'', ''kind''] rel = map_of src ''kind'' \<and>
       nested [''spec'', ''chartRef'', ''name''] rel = nested [''metadata'', ''name''] src \<and>
       nested [''spec'', ''ref'', ''tag''] src = Some (VStr (ch_version ch)) \<and>
       nested [''spec'', ''ref'', ''digest''] src = (if ch_digest ch = '''' then None else Some (VStr (ch_digest ch)))
     else nested [''spec'', ''chart'', ''spec'', ''sourceRef'', ''kind''] rel = map_of src ''kind'' \<and>
       nested [''spec'', ''chart'', ''spec'', ''sourceRef'', ''name''] rel = nested [''metadata'', ''name''] src \<and>
       nested [''spec'', ''chart'', ''spec'', ''version''] rel = Some (VStr (ch_version ch)))"
proof -
  from assms obtain ch rel where ch: "md_chart (p_meta p) = Some ch"
    and rel: "helmRelease P p i ch values = Inr rel"
    and plan: "rp_objects plan = [chartSource i ch, rel]"
    by (auto simp: planHelm_def res_simps split: option.splits)
  from rel obtain tl where
    r: "rel = [(''apiVersion'', VStr ''helm.toolkit.fluxcd.io/v2''), (''kind'', VStr ''HelmRelease''),
           (''metadata'', VObj [(''name'', VStr i)]),
           (''spec'', VObj (release_spec (md_namespace (p_meta p)) i ch @ tl))]"
    and tl: "tl = [] \<or> (\<exists>c. tl = [(''values'', VObj c)])"
    by (auto simp: helmRelease_def res_simps split: if_splits)
  show ?thesis
    using tl
    by (intro exI [of _ ch] exI [of _ "chartSource i ch"] exI [of _ rel])
      (auto simp: ch plan r release_spec_def chartSource_def ociRef_def Let_def)
qed

subsection \<open>A concrete pack\<close>

definition sample_env :: "metadata \<Rightarrow> unit pack_env" where
  "sample_env m =
     \<lparr>pe_cancelled = None,
      pe_cue = \<lparr>q_exists = (\<lambda>v. False), q_unify = (\<lambda>v m. v), q_validate = (\<lambda>v. None),
        q_decode = (\<lambda>v. Inr []), q_details = (\<lambda>e. '''')\<rparr>,
      pe_compile = (\<lambda>src. Inr ()), pe_with_schema = (\<lambda>v. v), pe_decode_meta = (\<lambda>v. Inr m),
      pe_values_of = (\<lambda>v. v), pe_canonical = (\<lambda>v. v), pe_unstr = std_unstr,
      pe_kustomize = sample_kustomize,
      pe_vals = \<lparr>v_resolve = (\<lambda>r. Inr ''doc''),
        v_docs = (\<lambda>d. ([[(''apiVersion'', VStr ''v1''), (''kind'', VStr ''Pod'')]], None)),
        v_json = (\<lambda>r. Inr None)\<rparr>,
      pe_marshal = (\<lambda>m. Inr '''')\<rparr>"

definition raw_meta :: metadata where
  "raw_meta = \<lparr>md_name = ''web'', md_version = ''1'', md_type = ''raw'', md_namespace = ''apps'',
     md_category = '''', md_chart = None\<rparr>"

definition helm_meta :: metadata where
  "helm_meta = \<lparr>md_name = ''web'', md_version = ''1'', md_type = ''helm'', md_namespace = '''',
     md_category = '''', md_chart = Some \<lparr>ch_kind = ''repo'', ch_url = ''https://charts.example.com'',
       ch_name = ''web'', ch_version = ''1.2.3'', ch_digest = ''''\<rparr>\<rparr>"

definition raw_fs :: gofs where
  "raw_fs =
     \<lparr>fs_stat = (\<lambda>p. if p = ''manifests'' then Inr True else Inl (Plain ''absent'')),
      fs_read = (\<lambda>p. Inr ''text''),
      fs_walk = (\<lambda>r. [(''manifests'', True, None), (''manifests/a.yaml'', False, None)])\<rparr>"

definition raw_pack :: "unit pack" where
  "raw_pack = \<lparr>p_meta = raw_meta, p_fs = raw_fs, p_values = ()\<rparr>"

definition raw_spec :: pack_spec where
  "raw_spec = \<lparr>ps_id = '''', ps_packRef = ''./web'', ps_valuesRef = '''', ps_values = None,
     ps_external = [\<lparr>em_ref = ''./ns.yaml'', em_manifest = None, em_lifecycle = ''pre''\<rparr>], ps_dependsOn = []\<rparr>"

lemmas sample_defs = sample_env_def raw_meta_def raw_pack_def raw_spec_def raw_fs_def

definition pod_in_apps :: obj where
  "pod_in_apps = [(''apiVersion'', VStr ''v1''), (''kind'', VStr ''Pod''),
     (''metadata'', VObj [(''namespace'', VStr ''apps'')])]"

lemma yaml_manifest: "isManifest ''manifests/a.yaml''"
  by (simp add: isManifest_def path_ext_def path_last_def Let_def)

lemma pod_not_cluster: "\<not> clusterScoped std_unstr [] [(''apiVersion'', VStr ''v1''), (''kind'', VStr ''Pod'')]"
  by (simp add: clusterScoped_def std_unstr_def clusterScopedKinds_def)

lemma pod_placed:
  "applyNamespace std_unstr [[(''apiVersion'', VStr ''v1''), (''kind'', VStr ''Pod'')]] ''apps'' [] = Inr [pod_in_apps]"
  using pod_not_cluster
  by (simp add: applyNamespace_def pod_in_apps_def) (simp add: std_unstr_def)

lemma applyNamespace_empty: "applyNamespace U [] ns x = Inr []"
  by (simp add: applyNamespace_def)

lemma pod_scopes:
  "indexCRDScopes std_unstr [[(''apiVersion'', VStr ''v1''), (''kind'', VStr ''Pod'')]] = []"
  "indexCRDScopes std_unstr [pod_in_apps] = []"
  by (simp_all add: indexCRDScopes_def std_unstr_def crdKind_def pod_in_apps_def)

text \<open>The same environment with another resolver of documents.\<close>

definition raw_env :: "(string \<Rightarrow> string res) \<Rightarrow> unit pack_env" where
  "raw_env g = (sample_env raw_meta)\<lparr>pe_vals := (pe_vals (sample_env raw_meta))\<lparr>v_resolve := g\<rparr>\<rparr>"

lemma raw_env_doc: "raw_env (\<lambda>r. Inr ''doc'') = sample_env raw_meta"
  by (simp add: raw_env_def sample_env_def raw_env_def)

lemma raw_rendered_env:
  "renderRaw (raw_env g) raw_pack = Inr [[(''apiVersion'', VStr ''v1''), (''kind'', VStr ''Pod'')]]"
  by (simp add: renderRaw_def walk_collect_def sample_defs raw_env_def yaml_manifest parseManifest_def
      decodeDocuments_def)

lemma raw_Render_env:
  "Render (raw_env g) raw_pack [] i = Inr \<lparr>rp_prerequisites = [], rp_objects = [pod_in_apps]\<rparr>"
proof -
  have "planRaw (raw_env g) raw_pack = Inr \<lparr>rp_prerequisites = [], rp_objects = [pod_in_apps]\<rparr>"
    unfolding planRaw_def raw_rendered_env
    by (simp add: sample_defs raw_env_def pod_scopes pod_placed)
  then show ?thesis
    by (simp add: Render_def resolveValues_def pack_defaults_def TypeRaw_def sample_env_def raw_env_def raw_pack_def raw_meta_def)
qed

lemma raw_instance_env:
  assumes g: "g ''./ns.yaml'' = Inr d"
  shows "renderInstance (raw_env g) raw_pack raw_spec =
     Inr \<lparr>rp_prerequisites = [pod_in_apps], rp_objects = [pod_in_apps]\<rparr>"
proof -
  have v: "instanceValues (pe_vals (raw_env g)) raw_spec = Inr []"
    by (simp add: instanceValues_def baseValues_def inlineValues_def raw_spec_def)
  have "resolveExternalManifests (raw_env g) (ps_external raw_spec) =
      Inr \<lparr>eg_pre = [[(''apiVersion'', VStr ''v1''), (''kind'', VStr ''Pod'')]], eg_with = []\<rparr>"
    by (simp add: g resolveExternalManifests_def raw_spec_def sample_env_def raw_env_def externalObject_def
        decodeDocuments_def isKubernetesObject_def LifecyclePre_def)
  then have "attachExternal (raw_env g) raw_pack \<lparr>rp_prerequisites = [], rp_objects = [pod_in_apps]\<rparr>
      (ps_external raw_spec) = Inr \<lparr>rp_prerequisites = [pod_in_apps], rp_objects = [pod_in_apps]\<rparr>"
    by (simp add: attachExternal_def Let_def pod_scopes)
      (simp add: sample_env_def raw_env_def raw_pack_def raw_meta_def pod_placed pod_scopes applyNamespace_empty)
  then show ?thesis
    using v raw_Render_env [of g "ps_id raw_spec"]
    by (simp add: renderInstance_def) (simp add: sample_defs raw_env_def)
qed

lemmas raw_rendered = raw_rendered_env [of "\<lambda>r. Inr ''doc''", unfolded raw_env_doc]
lemmas raw_Render = raw_Render_env [of "\<lambda>r. Inr ''doc''", unfolded raw_env_doc]
lemmas raw_instance = raw_instance_env [of "\<lambda>r. Inr ''doc''" "''doc''", OF refl, unfolded raw_env_doc]

lemma raw_meta_admits: "schema_admits raw_meta"
  by (simp add: schema_admits_def raw_meta_def label_re_def TypeRaw_def is_lower_def)

theorem Load_sound_witness:
  "schema_admits raw_meta \<and> payload_ok raw_fs ''raw''"
proof -
  have 1: "schema_law (sample_env raw_meta)"
    using raw_meta_admits by (simp add: schema_law_def sample_env_def)
  have 2: "Load (sample_env raw_meta) raw_fs ''./web'' = Inr raw_pack"
    by (simp add: Load_def decodeMetadata_def checkPayload_def dirExists_def pack_types ManifestsDir_def sample_defs)
  from Load_sound [OF 1 2] show ?thesis
    by (simp add: raw_pack_def raw_meta_def)
qed

theorem Render_nonempty_witness: "[pod_in_apps] \<noteq> []"
  using Render_nonempty [OF raw_Render [of "''''"]] by simp

theorem renderInstance_externals_witness:
  "\<exists>objs. list_all2 (\<lambda>(k, e) m. externalObject (sample_env raw_meta) k e = Inr m)
     (enumerate 0 (ps_external raw_spec)) objs"
  using renderInstance_externals [OF raw_instance] by blast

theorem renderInstance_raw_namespace_witness:
  "list_all (\<lambda>m. clusterScoped std_unstr [] m \<or> u_namespace std_unstr m = ''apps'') [pod_in_apps, pod_in_apps]"
proof -
  have u: "pe_unstr (sample_env raw_meta) = std_unstr" by (simp add: sample_env_def)
  have "unstructured_access (pe_unstr (sample_env raw_meta))"
    unfolding u by (rule std.unstructured_access_axioms)
  from renderInstance_raw_namespace [OF this raw_instance] show ?thesis
    by (simp add: raw_rendered pod_scopes u) (simp add: raw_pack_def raw_meta_def TypeRaw_def)
qed

theorem planHelm_pair_witness:
  "\<exists>src rel. nested [''spec'', ''chart'', ''spec'', ''sourceRef'', ''kind''] rel = map_of src ''kind'' \<and>
     nested [''metadata'', ''name''] src = Some (VStr ''shop'')"
proof -
  let ?p = "\<lparr>p_meta = helm_meta, p_fs = raw_fs, p_values = ()\<rparr>"
  obtain plan where "planHelm (sample_env helm_meta) ?p ''shop'' [] = Inr plan"
    by (auto simp: planHelm_def helm_meta_def helmRelease_def)
  from planHelm_pair [OF this] show ?thesis
    by (auto simp: helm_meta_def ChartKindOCI_def)
qed

end
