(* ===== verification/GoOS.thy ===== *)
theory GoOS
  imports CubeErr
begin

section \<open>The file system calls of Go's \<open>os\<close> package\<close>

text \<open>
  A file system is a Go map from path to content together with the directories that exist.
  Any system call may fail: the environment record says which call fails on which path, what
  a failed write left in the file, and which name \<open>os.CreateTemp\<close> picks. A failed call
  other than a write changes nothing. Permissions and modes are not modelled. The environment
  also carries \<open>strconv.IsPrint\<close> beyond ASCII, which \<open>%q\<close> consults.
\<close>

record fsys =
  files :: "(string, string) gomap"
  dirs :: "string list"

record os_env =
  call_fails :: "string \<Rightarrow> string \<Rightarrow> bool"
  torn :: "string \<Rightarrow> string"
  temp_name :: "string \<Rightarrow> fsys \<Rightarrow> string"
  is_print :: "nat \<Rightarrow> bool"

abbreviation quoted :: "os_env \<Rightarrow> string \<Rightarrow> string" where
  "quoted E s \<equiv> go_quote (is_print E) s"

definition ErrExist :: err where "ErrExist = Plain ''file already exists''"
definition ErrNotExist :: err where "ErrNotExist = Plain ''file does not exist''"

definition os_err :: "string \<Rightarrow> string \<Rightarrow> err" where
  "os_err call path = Wrapf call (Plain path)"

definition exists_path :: "fsys \<Rightarrow> string \<Rightarrow> bool" where
  "exists_path fs p \<longleftrightarrow> map_of (files fs) p \<noteq> None \<or> p \<in> set (dirs fs)"

text \<open>\<open>os.OpenFile\<close> with \<open>O_CREATE|O_EXCL\<close>, the write to and the close of the file.\<close>

definition open_excl :: "os_env \<Rightarrow> string \<Rightarrow> fsys \<Rightarrow> fsys res" where
  "open_excl E p fs =
     (if exists_path fs p then Inl ErrExist
      else if call_fails E ''open'' p then Inl (os_err ''open'' p)
      else Inr (fs\<lparr>files := AList.update p '''' (files fs)\<rparr>))"

definition write_open :: "os_env \<Rightarrow> string \<Rightarrow> string \<Rightarrow> fsys \<Rightarrow> err option \<times> fsys" where
  "write_open E p data fs =
     (if call_fails E ''write'' p
      then (Some (os_err ''write'' p), fs\<lparr>files := AList.update p (torn E p) (files fs)\<rparr>)
      else (None, fs\<lparr>files := AList.update p data (files fs)\<rparr>))"

definition close_file :: "os_env \<Rightarrow> string \<Rightarrow> err option" where
  "close_file E p = (if call_fails E ''close'' p then Some (os_err ''close'' p) else None)"

definition remove_file :: "os_env \<Rightarrow> string \<Rightarrow> fsys \<Rightarrow> fsys" where
  "remove_file E p fs =
     (if call_fails E ''remove'' p then fs else fs\<lparr>files := AList.delete p (files fs)\<rparr>)"

definition read_file :: "os_env \<Rightarrow> string \<Rightarrow> fsys \<Rightarrow> string res" where
  "read_file E p fs =
     (if call_fails E ''read'' p then Inl (os_err ''read'' p)
      else case map_of (files fs) p of None \<Rightarrow> Inl ErrNotExist | Some d \<Rightarrow> Inr d)"

definition mkdir_all :: "os_env \<Rightarrow> string \<Rightarrow> fsys \<Rightarrow> fsys res" where
  "mkdir_all E d fs =
     (if call_fails E ''mkdir'' d then Inl (os_err ''mkdir'' d)
      else Inr (fs\<lparr>dirs := List.insert d (dirs fs)\<rparr>))"

definition create_temp :: "os_env \<Rightarrow> string \<Rightarrow> fsys \<Rightarrow> (string \<times> fsys) res" where
  "create_temp E d fs =
     (let t = temp_name E d fs
      in if call_fails E ''createtemp'' d then Inl (os_err ''createtemp'' d)
         else Inr (t, fs\<lparr>files := AList.update t '''' (files fs)\<rparr>))"

definition rename_file :: "os_env \<Rightarrow> string \<Rightarrow> string \<Rightarrow> fsys \<Rightarrow> fsys res" where
  "rename_file E a b fs =
     (if call_fails E ''rename'' b then Inl (os_err ''rename'' b)
      else case map_of (files fs) a of
          None \<Rightarrow> Inl ErrNotExist
        | Some d \<Rightarrow> Inr (fs\<lparr>files := AList.update b d (AList.delete a (files fs))\<rparr>))"

text \<open>\<open>filepath.Join\<close> on clean elements, and \<open>filepath.Dir\<close>.\<close>

definition path_join :: "string \<Rightarrow> string \<Rightarrow> string" where
  "path_join a b = (if a = '''' then b else if b = '''' then a else a @ ''/'' @ b)"

definition path_dir :: "string \<Rightarrow> string" where
  "path_dir p =
     (let ps = split_on CHR ''/'' p
      in if length ps = 1 then ''.''
         else (let d = join_with CHR ''/'' (butlast ps) in if d = '''' then ''/'' else d))"

text \<open>
  The documented guarantee of \<open>os.CreateTemp\<close>: the name it returns was not in use.
\<close>

definition fresh_temps :: "os_env \<Rightarrow> bool" where
  "fresh_temps E \<longleftrightarrow> (\<forall>d fs. map_of (files fs) (temp_name E d fs) = None)"

definition chmod_file :: "os_env \<Rightarrow> string \<Rightarrow> err option" where
  "chmod_file E p = (if call_fails E ''chmod'' p then Some (os_err ''chmod'' p) else None)"

subsection \<open>Replacing a file through a temporary one\<close>

text \<open>
  The sequence two packages use to write a file that may exist: create the directory, write a
  temporary file in it, close it, set its mode when asked to, and rename it over the target,
  with a deferred \<open>os.Remove\<close> of the temporary name. \<open>code\<close> wraps every failure; the three
  messages are those of the directory, the temporary file and the write.
\<close>

definition replace_file ::
  "os_env \<Rightarrow> bool \<Rightarrow> (err \<Rightarrow> err) \<Rightarrow> string \<Rightarrow> string \<Rightarrow> string \<Rightarrow> string \<Rightarrow> string \<Rightarrow> fsys \<Rightarrow> err option \<times> fsys" where
  "replace_file E setmode cd m1 m2 m3 path data fs =
     (let dir = path_dir path
      in case mkdir_all E dir fs of
           Inl e \<Rightarrow> (Some (cd (Wrapf m1 e)), fs)
         | Inr fs1 \<Rightarrow>
        (case create_temp E dir fs1 of
           Inl e \<Rightarrow> (Some (cd (Wrapf m2 e)), fs1)
         | Inr (t, fs2) \<Rightarrow>
        (case write_open E t data fs2 of
           (Some e, fs3) \<Rightarrow> (Some (cd (Wrapf m3 e)), remove_file E t fs3)
         | (None, fs3) \<Rightarrow>
        (case close_file E t of
           Some e \<Rightarrow> (Some (cd (Wrapf m3 e)), remove_file E t fs3)
         | None \<Rightarrow>
        (case (if setmode then chmod_file E t else None) of
           Some e \<Rightarrow> (Some (cd (Wrapf m3 e)), remove_file E t fs3)
         | None \<Rightarrow>
        (case rename_file E t path fs3 of
           Inl e \<Rightarrow> (Some (cd (Wrapf m3 e)), remove_file E t fs3)
         | Inr fs4 \<Rightarrow> (None, remove_file E t fs4)))))))"

text \<open>The name \<open>os.CreateTemp\<close> picks carries the pattern it was given, so it is not the target.\<close>

definition temp_apart :: "os_env \<Rightarrow> string \<Rightarrow> bool" where
  "temp_apart E path \<longleftrightarrow> (\<forall>d fs. temp_name E d fs \<noteq> path)"

text \<open>What an atomic replacement promises: all of the new content, or all of the old.\<close>

definition replaced :: "string \<Rightarrow> string \<Rightarrow> fsys \<Rightarrow> err option \<times> fsys \<Rightarrow> bool" where
  "replaced path data fs out \<longleftrightarrow>
     (case fst out of
        None \<Rightarrow> map_of (files (snd out)) = (map_of (files fs))(path \<mapsto> data)
      | Some e \<Rightarrow> \<exists>t. t \<noteq> path \<and> map_of (files fs) t = None \<and>
          (\<forall>p. p \<noteq> t \<longrightarrow> map_of (files (snd out)) p = map_of (files fs) p))"

lemma map_of_remove_file:
  "p \<noteq> t \<Longrightarrow> map_of (files (remove_file E t fs)) p = map_of (files fs) p"
  by (simp add: remove_file_def)

lemma replace_file_replaced:
  assumes "fresh_temps E" "temp_apart E path"
  shows "replaced path data fs (replace_file E sm cd m1 m2 m3 path data fs)"
proof -
  define fs1 where "fs1 = fs\<lparr>dirs := List.insert (path_dir path) (dirs fs)\<rparr>"
  define t where "t = temp_name E (path_dir path) fs1"
  have t: "t \<noteq> path" "map_of (files fs) t = None"
    using assms by (auto simp: t_def fs1_def temp_apart_def fresh_temps_def) (metis fsys.ext_inject fsys.surjective fsys.update_convs(2))
  have "(case fst out of
        None \<Rightarrow> map_of (files (snd out)) = (map_of (files fs))(path \<mapsto> data)
      | Some e \<Rightarrow> (\<forall>p. p \<noteq> t \<longrightarrow> map_of (files (snd out)) p = map_of (files fs) p))"
    if "out = replace_file E sm cd m1 m2 m3 path data fs" for out
    unfolding that replace_file_def Let_def mkdir_all_def create_temp_def write_open_def rename_file_def
    using t by (auto simp: fs1_def [symmetric] t_def [symmetric] map_of_remove_file remove_file_def fun_eq_iff split: option.split)
      (simp_all add: fs1_def)
  then show ?thesis
    using t by (auto simp: replaced_def split: option.splits)
qed

lemma replace_file_code:
  "fst (replace_file E sm cd m1 m2 m3 path data fs) = Some e \<Longrightarrow> \<exists>m raw. e = cd (Wrapf m raw)"
  by (auto simp: replace_file_def Let_def split: sum.splits option.splits prod.splits)

lemma read_after_replace:
  assumes "replaced path data fs (None, fs')" "\<not> call_fails E ''read'' path"
  shows "read_file E path fs' = Inr data"
  using assms by (simp add: replaced_def read_file_def)

end
