(* ===== verification/RefTree.thy ===== *)
theory RefTree
  imports GoFS GoOS
begin

section \<open>The snapshot file system (\<open>internal/ref/tree.go\<close>)\<close>

text \<open>
  \<open>treeFS\<close> hands out a map from slash-separated paths to contents as a read-only file system;
  directories exist only as prefixes of stored paths. \<open>fs.WalkDir\<close> is written out over its
  \<open>ReadDir\<close>. The theorem says the view is faithful: a walk from the root meets every stored
  file exactly once, and no error. Sizes, modes and times are not modelled.
\<close>

subsection \<open>Operations\<close>

definition ErrInvalid :: err where "ErrInvalid = Plain ''invalid argument''"

definition path_error :: "string \<Rightarrow> string \<Rightarrow> err \<Rightarrow> err" where
  "path_error call name e = Wrapf (call @ '' '' @ name) e"

definition valid_utf8 :: "string \<Rightarrow> bool" where
  "valid_utf8 s \<longleftrightarrow> list_all (\<lambda>c. \<not> (length c = 1 \<and> fst (decode_rune c) = rune_error)) (rune_chunks s)"

text \<open>\<open>fs.ValidPath\<close>.\<close>

definition ValidPath :: "string \<Rightarrow> bool" where
  "ValidPath p \<longleftrightarrow> valid_utf8 p \<and>
     (p = ''.'' \<or> list_all (\<lambda>c. c \<noteq> '''' \<and> c \<noteq> ''.'' \<and> c \<noteq> ''..'') (split_on CHR ''/'' p))"

text \<open>The path of an entry below the root, in whatever bytes its name is.\<close>

definition entry_path :: "string \<Rightarrow> bool" where
  "entry_path p \<longleftrightarrow> list_all (\<lambda>c. c \<noteq> '''' \<and> c \<noteq> ''.'' \<and> c \<noteq> ''..'') (split_on CHR ''/'' p)"

lemma entry_path_valid: "entry_path p \<Longrightarrow> ValidPath p \<longleftrightarrow> valid_utf8 p"
  by (simp add: entry_path_def ValidPath_def)

type_synonym tree_files = "(string, string) gomap"

definition dir_prefix :: "string \<Rightarrow> string" where
  "dir_prefix dir = (if dir = ''.'' then '''' else dir @ ''/'')"

text \<open>The entry of \<open>dir\<close> a stored path contributes: its name and whether it is a directory.\<close>

definition dir_child :: "string \<Rightarrow> string \<Rightarrow> (string \<times> bool) option" where
  "dir_child dir p =
     (if \<not> has_prefix p (dir_prefix dir) then None
      else (let rest = drop (length (dir_prefix dir)) p
            in case cut rest ''/'' of
                 Some (base, _) \<Rightarrow> Some (base, True)
               | None \<Rightarrow> Some (rest, False)))"

fun dir_children :: "string \<Rightarrow> tree_files \<Rightarrow> (string, bool) gomap" where
  "dir_children dir [] = []"
| "dir_children dir ((p, data) # fs) =
     (case dir_child dir p of
        None \<Rightarrow> dir_children dir fs
      | Some (n, d) \<Rightarrow> AList.update n d (dir_children dir fs))"

definition dirEntries :: "tree_files \<Rightarrow> string \<Rightarrow> (string \<times> bool) list option" where
  "dirEntries fs dir =
     (if dir = ''.'' \<or> list_ex (\<lambda>(p, data). has_prefix p (dir_prefix dir)) fs
      then Some (sort_key fst (dir_children dir fs)) else None)"

datatype open_file = OpenFile string string | OpenDir string "(string \<times> bool) list"

definition treeFS_Open :: "tree_files \<Rightarrow> string \<Rightarrow> open_file res" where
  "treeFS_Open fs name =
     (if \<not> ValidPath name then Inl (path_error ''open'' name ErrInvalid)
      else case map_of fs name of
          Some data \<Rightarrow> Inr (OpenFile (path_base name) data)
        | None \<Rightarrow>
            (case dirEntries fs name of
               None \<Rightarrow> Inl (path_error ''open'' name ErrNotExist)
             | Some entries \<Rightarrow> Inr (OpenDir (path_base name) entries)))"

definition treeFS_ReadFile :: "tree_files \<Rightarrow> string \<Rightarrow> string res" where
  "treeFS_ReadFile fs name =
     (if \<not> ValidPath name then Inl (path_error ''readfile'' name ErrInvalid)
      else case map_of fs name of
          None \<Rightarrow> Inl (path_error ''readfile'' name ErrNotExist)
        | Some data \<Rightarrow> Inr data)"

definition treeFS_ReadDir :: "tree_files \<Rightarrow> string \<Rightarrow> (string \<times> bool) list res" where
  "treeFS_ReadDir fs name =
     (if \<not> ValidPath name then Inl (path_error ''readdir'' name ErrInvalid)
      else case dirEntries fs name of
          None \<Rightarrow> Inl (path_error ''readdir'' name ErrNotExist)
        | Some entries \<Rightarrow> Inr entries)"

text \<open>\<open>Stat\<close>, as whether the path is a directory.\<close>

definition treeFS_Stat :: "tree_files \<Rightarrow> string \<Rightarrow> bool res" where
  "treeFS_Stat fs name =
     (if \<not> ValidPath name then Inl (path_error ''stat'' name ErrInvalid)
      else case map_of fs name of
          Some data \<Rightarrow> Inr False
        | None \<Rightarrow> (if dirEntries fs name \<noteq> None then Inr True else Inl (path_error ''stat'' name ErrNotExist)))"

text \<open>\<open>ReadDir(n)\<close> of an open directory: the entries, \<open>io.EOF\<close> or not, and the new offset.\<close>

definition openDir_ReadDir :: "'a list \<Rightarrow> nat \<Rightarrow> int \<Rightarrow> 'a list option \<times> nat" where
  "openDir_ReadDir entries offset n =
     (let remaining = drop offset entries
      in if n \<le> 0 then (Some remaining, length entries)
         else if remaining = [] then (None, offset)
         else (Some (take (nat n) remaining), offset + min (nat n) (length remaining)))"

subsection \<open>Walking it\<close>

text \<open>
  \<open>fs.WalkDir\<close>: a directory, then its entries in order. The fuel bounds the depth; a child's
  path is longer than its directory's, so the longest stored path is enough.
\<close>

fun walk_dir :: "nat \<Rightarrow> tree_files \<Rightarrow> string \<Rightarrow> bool \<Rightarrow> walk_event list" where
  "walk_dir 0 fs name d = []"
| "walk_dir (Suc n) fs name d =
     (name, d, None) #
     (if \<not> d then []
      else case treeFS_ReadDir fs name of
          Inl e \<Rightarrow> [(name, d, Some e)]
        | Inr es \<Rightarrow> concat (map (\<lambda>(b, d'). walk_dir n fs (dir_prefix name @ b) d') es))"

fun longest :: "tree_files \<Rightarrow> nat" where
  "longest [] = 0"
| "longest ((p, data) # fs) = max (length p) (longest fs)"

definition treeFS_walk :: "tree_files \<Rightarrow> string \<Rightarrow> walk_event list" where
  "treeFS_walk fs root =
     (case treeFS_Stat fs root of
        Inl e \<Rightarrow> [(root, False, Some e)]
      | Inr d \<Rightarrow> walk_dir (Suc (longest fs)) fs root d)"

definition tree_gofs :: "tree_files \<Rightarrow> gofs" where
  "tree_gofs fs = \<lparr>fs_stat = treeFS_Stat fs, fs_read = treeFS_ReadFile fs, fs_walk = treeFS_walk fs\<rparr>"

subsection \<open>Trees a walk of a real directory gives\<close>

text \<open>
  Every stored path is the path of an entry below the root, no stored file is a directory of
  another, and every directory above one is a valid path: \<open>fs.WalkDir\<close> lists a directory with
  \<open>ReadDir\<close> of the root's file system, which answers \<open>fs.ErrInvalid\<close> for any other name. The
  name of a file itself is any bytes the operating system lists, valid UTF-8 or not.
\<close>

definition wf_tree :: "tree_files \<Rightarrow> bool" where
  "wf_tree fs \<longleftrightarrow> wf_map fs \<and>
     (\<forall>p \<in> fst ` set fs. entry_path p \<and> (\<forall>d. has_prefix p (d @ ''/'') \<longrightarrow> ValidPath d \<and> d \<noteq> ''.'') \<and>
        (\<forall>q \<in> fst ` set fs. \<not> has_prefix q (p @ ''/'')))"

lemma longest_entry: "(p, x) \<in> set fs \<Longrightarrow> length p \<le> longest fs"
  by (induction fs rule: longest.induct) (auto simp: le_max_iff_disj)

lemma longest_ge: "p \<in> fst ` set fs \<Longrightarrow> length p \<le> longest fs"
  using longest_entry by fastforce

lemma wf_tree_keys:
  assumes "wf_tree fs" "p \<in> fst ` set fs"
  shows "entry_path p" "p \<noteq> ''.''" "has_prefix p (d @ ''/'') \<Longrightarrow> ValidPath d \<and> d \<noteq> ''.''"
    and "q \<in> fst ` set fs \<Longrightarrow> \<not> has_prefix q (p @ ''/'')"
proof -
  show p: "entry_path p" using assms unfolding wf_tree_def by blast
  then show "p \<noteq> ''.''" by (auto simp: entry_path_def)
  show "has_prefix p (d @ ''/'') \<Longrightarrow> ValidPath d \<and> d \<noteq> ''.''" "q \<in> fst ` set fs \<Longrightarrow> \<not> has_prefix q (p @ ''/'')"
    using assms unfolding wf_tree_def by blast+
qed

lemma split_on_trailing: "split_on d (x @ [d]) = split_on d x @ [[]]"
  by (induction x) (auto split: list.split simp: Cons_eq_append_conv)

lemma entry_path_ends: "\<not> entry_path ''''" "\<not> entry_path (x @ ''/'')"
  by (simp_all add: entry_path_def list_all_iff split_on_trailing)

lemma ValidPath_ends: "\<not> ValidPath ''''" "\<not> ValidPath (x @ ''/'')"
proof -
  show "\<not> ValidPath ''''" by (simp add: ValidPath_def)
  have "x @ ''/'' \<noteq> ''.''" by (cases x) simp_all
  then show "\<not> ValidPath (x @ ''/'')"
    by (simp add: ValidPath_def list_all_iff split_on_trailing)
qed

subsection \<open>The entries of a directory\<close>

lemma dir_child_Some:
  "dir_child dir p = Some (n, d) \<longleftrightarrow>
     CHR ''/'' \<notin> set n \<and> (if d then has_prefix p (dir_prefix dir @ n @ ''/'') else p = dir_prefix dir @ n)"
proof -
  have 1: "cut r ''/'' = Some (n, x) \<longleftrightarrow> CHR ''/'' \<notin> set n \<and> r = n @ ''/'' @ x" for r x
  proof
    show "cut r ''/'' = Some (n, x) \<Longrightarrow> CHR ''/'' \<notin> set n \<and> r = n @ ''/'' @ x"
      using cut_Some cut_char_first by blast
    have "CHR ''/'' \<notin> set n \<Longrightarrow> cut (n @ ''/'' @ x) ''/'' = Some (n, x)" for n
      by (induction n) (auto simp: has_prefix_def)
    then show "CHR ''/'' \<notin> set n \<and> r = n @ ''/'' @ x \<Longrightarrow> cut r ''/'' = Some (n, x)" by blast
  qed
  show ?thesis
  proof (cases "has_prefix p (dir_prefix dir)")
    case False
    then show ?thesis by (auto simp: dir_child_def has_prefix_alt)
  next
    case True
    then obtain r where r: "p = dir_prefix dir @ r" by (auto simp: has_prefix_alt)
    show ?thesis
    proof (cases "cut r ''/''")
      case None
      then have "CHR ''/'' \<notin> set r" by (simp add: cut_char_None_iff)
      with None r show ?thesis by (auto simp: dir_child_def has_prefix_alt)
    next
      case (Some y)
      then obtain a x where y: "cut r ''/'' = Some (a, x)" by (cases y) auto
      then have "r = a @ ''/'' @ x" "CHR ''/'' \<notin> set a" using cut_Some cut_char_first by blast+
      with y r 1 [of r] show ?thesis
        by (auto simp: dir_child_def has_prefix_alt)
    qed
  qed
qed

lemma dir_child_None: "dir_child dir p = None \<longleftrightarrow> \<not> has_prefix p (dir_prefix dir)"
  by (auto simp: dir_child_def Let_def split: option.split)

lemma in_update: "x \<in> set (AList.update k v m) \<Longrightarrow> x = (k, v) \<or> x \<in> set m"
  by (induction m) (auto split: if_splits)

lemma dir_children_sub: "x \<in> set (dir_children dir fs) \<Longrightarrow> \<exists>p \<in> fst ` set fs. dir_child dir p = Some x"
proof (induction fs rule: dir_children.induct)
  case (2 dir p data fs)
  show ?case
  proof (cases "dir_child dir p")
    case None
    with 2 show ?thesis by simp
  next
    case (Some nd)
    then have "x = nd \<or> x \<in> set (dir_children dir fs)"
      using "2.prems" in_update [of x "fst nd" "snd nd"] by (cases nd) auto
    with Some "2.IH" show ?thesis by (cases nd) auto
  qed
qed simp

lemma dir_children_entry: "(p, x) \<in> set fs \<Longrightarrow> dir_child dir p = Some (n, d) \<Longrightarrow> n \<in> fst ` set (dir_children dir fs)"
  by (induction fs rule: dir_children.induct) (auto split: option.split simp: dom_update)

lemma dir_children_key: "p \<in> fst ` set fs \<Longrightarrow> dir_child dir p = Some (n, d) \<Longrightarrow> n \<in> fst ` set (dir_children dir fs)"
  using dir_children_entry by fastforce

lemma dir_children_wf: "wf_map (dir_children dir fs)"
  by (induction fs rule: dir_children.induct) (auto split: option.split simp: wf_map_update)

lemma dir_child_same:
  assumes "wf_tree fs" "p \<in> fst ` set fs" "q \<in> fst ` set fs" "dir_child dir p = Some (n, d)" "dir_child dir q = Some (n, d')"
  shows "d = d'"
proof (rule ccontr)
  assume "d \<noteq> d'"
  then have "has_prefix q (p @ ''/'') \<or> has_prefix p (q @ ''/'')"
    using assms(4,5) unfolding dir_child_Some by (cases d; cases d') simp_all
  then show False
    using wf_tree_keys(4) [OF assms(1,2,3)] wf_tree_keys(4) [OF assms(1,3,2)] by blast
qed

lemma dir_children_set:
  assumes "wf_tree fs"
  shows "set (dir_children dir fs) = {x. \<exists>p \<in> fst ` set fs. dir_child dir p = Some x}"
proof (intro set_eqI iffI)
  fix x assume "x \<in> {x. \<exists>p \<in> fst ` set fs. dir_child dir p = Some x}"
  then obtain p where "p \<in> fst ` set fs" "dir_child dir p = Some x" by blast
  moreover obtain n d where x: "x = (n, d)" by (cases x)
  ultimately have p: "p \<in> fst ` set fs" "dir_child dir p = Some (n, d)" by simp_all
  from imageE [OF dir_children_key [OF p]] obtain d' where d': "(n, d') \<in> set (dir_children dir fs)"
    by (metis prod.collapse)
  from dir_children_sub [OF this] obtain q where q: "q \<in> fst ` set fs" "dir_child dir q = Some (n, d')" by blast
  have "d' = d" by (rule dir_child_same [OF assms q(1) p(1) q(2) p(2)])
  with x d' show "x \<in> set (dir_children dir fs)" by simp
next
  fix x assume "x \<in> set (dir_children dir fs)"
  from dir_children_sub [OF this] show "x \<in> {x. \<exists>p \<in> fst ` set fs. dir_child dir p = Some x}" by blast
qed

lemma dirEntries_Some:
  assumes "wf_tree fs" "dir = ''.'' \<or> (\<exists>p \<in> fst ` set fs. has_prefix p (dir_prefix dir))"
  shows "\<exists>es. dirEntries fs dir = Some es \<and> distinct (map fst es) \<and> sorted (map fst es) \<and>
     set es = {x. \<exists>p \<in> fst ` set fs. dir_child dir p = Some x}"
proof -
  have "dir = ''.'' \<or> list_ex (\<lambda>(p, data). has_prefix p (dir_prefix dir)) fs"
    using assms(2) by (force simp: list_ex_iff)
  then have "dirEntries fs dir = Some (sort_key fst (dir_children dir fs))"
    by (simp only: dirEntries_def if_True)
  moreover have "distinct (map fst (sort_key fst (dir_children dir fs)))"
    using dir_children_wf [of dir fs] by (simp add: distinct_map)
  ultimately show ?thesis
    using dir_children_set [OF assms(1), of dir] by (intro exI [of _ "sort_key fst (dir_children dir fs)"]) simp
qed

subsection \<open>What a walk meets\<close>

definition len0 :: "string \<Rightarrow> nat" where "len0 name = (if name = ''.'' then 0 else length name)"

text \<open>The names below a directory, by their first element.\<close>

definition below :: "string \<Rightarrow> string \<Rightarrow> string \<Rightarrow> bool" where
  "below dir b m \<longleftrightarrow> m = dir_prefix dir @ b \<or> has_prefix m (dir_prefix dir @ b @ ''/'')"

lemma below_top:
  assumes "CHR ''/'' \<notin> set b" "below dir b m"
  shows "takeWhile (\<lambda>c. c \<noteq> CHR ''/'') (drop (length (dir_prefix dir)) m) = b"
  using assms by (auto simp: below_def has_prefix_alt takeWhile_append2 takeWhile_tail)

lemma distinct_concat_by:
  assumes "distinct (map fst es)" "\<And>x. x \<in> set es \<Longrightarrow> distinct (g x)" "\<And>x m. x \<in> set es \<Longrightarrow> m \<in> set (g x) \<Longrightarrow> first m = fst x"
  shows "distinct (concat (map g es))"
  using assms
proof (induction es)
  case (Cons x es)
  have "set (g x) \<inter> set (concat (map g es)) = {}"
  proof (rule ccontr)
    assume "\<not> ?thesis"
    then obtain m y where "m \<in> set (g x)" "y \<in> set es" "m \<in> set (g y)" by auto
    then have "fst x = fst y" using Cons.prems(3) [of x m] Cons.prems(3) [of y m] by simp
    with \<open>y \<in> set es\<close> Cons.prems(1) show False by (simp add: rev_image_eqI)
  qed
  with Cons show ?case by simp
qed simp

text \<open>An entry of a directory is a valid name of its own and lies deeper than the directory.\<close>

lemma entry_name:
  assumes "wf_tree fs" "ValidPath dir" "p \<in> fst ` set fs" "dir_child dir p = Some (b, d)"
  defines "c \<equiv> dir_prefix dir @ b"
  shows "b \<noteq> ''''" "c \<noteq> ''.''" "len0 dir < length c" "length c \<le> longest fs" "d \<Longrightarrow> has_prefix p (c @ ''/'') \<and> ValidPath c"
    and "\<not> d \<Longrightarrow> p = c" "\<not> below dir b dir"
proof -
  from assms(4) have cs: "CHR ''/'' \<notin> set b" "if d then has_prefix p (c @ ''/'') else p = c"
    by (simp_all add: dir_child_Some c_def)
  have v: "(ValidPath c \<or> entry_path c) \<and> c \<noteq> ''.''" "d \<Longrightarrow> ValidPath c"
    using cs(2) wf_tree_keys(1-3) [OF assms(1,3)] by (cases d; auto)+
  show b: "b \<noteq> ''''"
  proof
    assume "b = ''''"
    with v(1) show False by (cases "dir = ''.''") (simp_all add: c_def dir_prefix_def ValidPath_ends entry_path_ends)
  qed
  show "c \<noteq> ''.''" using v(1) by blast
  show l: "len0 dir < length c" using b by (simp add: len0_def c_def dir_prefix_def)
  have "length c \<le> length p" using cs(2) by (auto simp: has_prefix_alt split: if_splits)
  then show "length c \<le> longest fs" using longest_ge [OF assms(3)] by simp
  show "d \<Longrightarrow> has_prefix p (c @ ''/'') \<and> ValidPath c" "\<not> d \<Longrightarrow> p = c" using cs(2) v by simp_all
  show "\<not> below dir b dir"
  proof (cases "dir = ''.''")
    case True
    then show ?thesis using v b cs(1) by (auto simp: below_def c_def dir_prefix_def has_prefix_def)
  next
    case False
    then show ?thesis using l by (auto simp: below_def c_def [symmetric] len0_def has_prefix_alt dest: arg_cong [of _ _ length])
      (auto simp: c_def dir_prefix_def dest: arg_cong [of _ _ length])
  qed
qed

text \<open>What a walk of a subtree gives: no errors, its files, and every name once.\<close>

definition walk_ok :: "tree_files \<Rightarrow> string \<Rightarrow> (string \<Rightarrow> bool) \<Rightarrow> walk_event list \<Rightarrow> bool" where
  "walk_ok fs name inside evs \<longleftrightarrow>
     (\<forall>ev \<in> set evs. snd (snd ev) = None) \<and>
     {p. (p, False, None) \<in> set evs} = {p \<in> fst ` set fs. inside p} \<and>
     distinct (map fst evs) \<and> (\<forall>m \<in> fst ` set evs. m = name \<or> inside m)"

definition inside :: "string \<Rightarrow> string \<Rightarrow> bool" where
  "inside dir m \<longleftrightarrow> (\<exists>b. CHR ''/'' \<notin> set b \<and> \<not> below dir b dir \<and> below dir b m)"

lemma inside_prefix: "inside dir m \<Longrightarrow> has_prefix m (dir_prefix dir)"
  by (auto simp: inside_def below_def has_prefix_alt)

lemma inside_key:
  assumes "wf_tree fs" "ValidPath dir" "p \<in> fst ` set fs" "has_prefix p (dir_prefix dir)"
  shows "\<exists>b d. dir_child dir p = Some (b, d) \<and> CHR ''/'' \<notin> set b \<and> \<not> below dir b dir \<and> below dir b p"
proof -
  from assms(4) obtain b d where c: "dir_child dir p = Some (b, d)"
    using dir_child_None [of dir p] by (cases "dir_child dir p") auto
  then have "CHR ''/'' \<notin> set b" "below dir b p"
    by (auto simp: dir_child_Some below_def split: if_splits)
  with c entry_name(7) [OF assms(1-3) c] show ?thesis by blast
qed

lemma walk_ok_cons:
  assumes "wf_tree fs" "ValidPath name" "distinct (map fst es)"
    and "set es = {x. \<exists>p \<in> fst ` set fs. dir_child name p = Some x}"
    and sub: "\<And>b d. (b, d) \<in> set es \<Longrightarrow> CHR ''/'' \<notin> set b \<and> \<not> below name b name \<and>
      walk_ok fs (dir_prefix name @ b) (below name b) (g (b, d))"
  shows "walk_ok fs name (inside name) ((name, True, None) # concat (map g es))"
proof -
  have names: "m \<in> fst ` set (g (b, d)) \<Longrightarrow> below name b m" if "(b, d) \<in> set es" for b d m
    using sub [OF that] by (auto simp: walk_ok_def below_def)
  have "{p. (p, False, None) \<in> set (concat (map g es))} = {p \<in> fst ` set fs. inside name p}"
  proof (intro set_eqI iffI)
    fix p assume "p \<in> {p. (p, False, None) \<in> set (concat (map g es))}"
    then obtain b d where "(b, d) \<in> set es" "(p, False, None) \<in> set (g (b, d))" by auto
    with sub [of b d] show "p \<in> {p \<in> fst ` set fs. inside name p}" unfolding walk_ok_def inside_def by blast
  next
    fix p assume "p \<in> {p \<in> fst ` set fs. inside name p}"
    then have p: "p \<in> fst ` set fs" "has_prefix p (dir_prefix name)" using inside_prefix by blast+
    from inside_key [OF assms(1,2) p] obtain b d where b: "dir_child name p = Some (b, d)" "below name b p" by blast
    then have "(b, d) \<in> set es" using assms(4) p(1) by blast
    moreover from sub [OF this] b(2) p(1) have "(p, False, None) \<in> set (g (b, d))" unfolding walk_ok_def by blast
    ultimately show "p \<in> {p. (p, False, None) \<in> set (concat (map g es))}" by auto
  qed
  moreover have "distinct (concat (map (map fst \<circ> g) es))"
  proof (rule distinct_concat_by [OF assms(3)])
    fix x assume x: "x \<in> set es"
    then show "distinct ((map fst \<circ> g) x)" using sub [of "fst x" "snd x"] by (simp add: walk_ok_def)
    fix m assume "m \<in> set ((map fst \<circ> g) x)"
    then show "takeWhile (\<lambda>c. c \<noteq> CHR ''/'') (drop (length (dir_prefix name)) m) = fst x"
      using x names [of "fst x" "snd x" m] sub [of "fst x" "snd x"] by (intro below_top) simp_all
  qed
  moreover have "name \<notin> fst ` set (concat (map g es))"
  proof
    assume "name \<in> fst ` set (concat (map g es))"
    then obtain b d where "(b, d) \<in> set es" "name \<in> fst ` set (g (b, d))" by force
    with names [of b d name] sub [of b d] show False by blast
  qed
  moreover have "inside name m" if m: "m \<in> fst ` set (concat (map g es))" for m
  proof -
    from m obtain b d where "(b, d) \<in> set es" "m \<in> fst ` set (g (b, d))" by force
    with names [of b d m] sub [of b d] show ?thesis unfolding inside_def by blast
  qed
  moreover have "\<forall>ev \<in> set (concat (map g es)). snd (snd ev) = None"
    using sub unfolding walk_ok_def by fastforce
  ultimately show ?thesis
    unfolding walk_ok_def by (simp add: map_concat comp_def) blast
qed

lemma walk_ok_dir:
  assumes "wf_tree fs"
  shows "ValidPath name \<Longrightarrow> name = ''.'' \<or> (\<exists>p \<in> fst ` set fs. has_prefix p (dir_prefix name)) \<Longrightarrow>
    longest fs < n + len0 name \<Longrightarrow>
    walk_ok fs name (inside name) (walk_dir n fs name True)"
proof (induction n arbitrary: name)
  case 0
  then show ?case
  proof (cases "name = ''.''")
    case False
    then obtain p where "p \<in> fst ` set fs" "has_prefix p (name @ ''/'')" using 0 by (auto simp: dir_prefix_def)
    then have "length name < longest fs" using longest_ge [of p fs] by (auto simp: has_prefix_alt)
    with 0 False show ?thesis by (simp add: len0_def)
  qed (simp add: len0_def)
next
  case (Suc n)
  from dirEntries_Some [OF assms Suc.prems(2)] obtain es where
    es: "dirEntries fs name = Some es" "distinct (map fst es)" "set es = {x. \<exists>p \<in> fst ` set fs. dir_child name p = Some x}" by blast
  define g where "g = (\<lambda>(b, d). walk_dir n fs (dir_prefix name @ b) d)"
  have w: "walk_dir (Suc n) fs name True = (name, True, None) # concat (map g es)"
    using Suc.prems(1) es(1) by (simp add: treeFS_ReadDir_def g_def)
  have sub: "CHR ''/'' \<notin> set b \<and> \<not> below name b name \<and> walk_ok fs (dir_prefix name @ b) (below name b) (g (b, d))"
    if "(b, d) \<in> set es" for b d
  proof -
    from that es(3) obtain p where p: "p \<in> fst ` set fs" "dir_child name p = Some (b, d)" by blast
    note en = entry_name [OF assms Suc.prems(1) p]
    have b: "CHR ''/'' \<notin> set b" using p(2) by (simp add: dir_child_Some)
    let ?c = "dir_prefix name @ b"
    have n: "longest fs < n + length ?c" "n \<noteq> 0" using Suc.prems(3) en(3,4) by simp_all
    have ok: "walk_ok fs ?c (below name b) (g (b, d))"
    proof (cases d)
      case True
      with en(2,5) p(1) have pre: "dir_prefix ?c = ?c @ ''/''" "ValidPath ?c" "\<exists>p \<in> fst ` set fs. has_prefix p (dir_prefix ?c)"
        by (auto simp: dir_prefix_def [of ?c])
      have ih: "walk_ok fs ?c (inside ?c) (g (b, d))"
        using Suc.IH [OF pre(2) disjI2 [OF pre(3)]] n(1) en(2) True by (simp add: len0_def g_def)
      have "inside ?c q \<longleftrightarrow> below name b q" if q: "q \<in> fst ` set fs" for q
      proof
        show "inside ?c q \<Longrightarrow> below name b q" using inside_prefix [of ?c q] pre(1) by (simp add: below_def)
        assume "below name b q"
        moreover have "q \<noteq> ?c" using wf_tree_keys(4) [OF assms q p(1)] en(5) True by blast
        ultimately have "has_prefix q (dir_prefix ?c)" using pre(1) by (simp add: below_def)
        from inside_key [OF assms pre(2) q this] show "inside ?c q" unfolding inside_def by blast
      qed
      moreover have "inside ?c m \<Longrightarrow> below name b m" for m
        using inside_prefix [of ?c m] pre(1) by (simp add: below_def)
      ultimately show ?thesis using ih unfolding walk_ok_def by blast
    next
      case False
      then have "g (b, d) = [(?c, False, None)]" using n(2) by (cases n) (simp_all add: g_def)
      moreover have "p = ?c" using en(6) False by blast
      ultimately show ?thesis
        using p(1) wf_tree_keys(4) [OF assms, of ?c] by (auto simp: walk_ok_def below_def)
    qed
    show ?thesis using b en(7) ok by blast
  qed
  show ?case
    unfolding w by (rule walk_ok_cons [OF assms Suc.prems(1) es(2,3)]) (rule sub)
qed

text \<open>
  The snapshot's view is the snapshot: over a resolved tree \<open>fs.WalkDir\<close> meets every stored
  file exactly once and nothing else as a file, meets no error, and each file whose name is
  valid UTF-8 reads back the bytes that were stored; a path is readable exactly when it is so
  named and stored. A stored file with any other name is met, and every read of it is refused.
\<close>

theorem treeFS_faithful:
  assumes "wf_tree fs"
  shows "{p. (p, False, None) \<in> set (fs_walk (tree_gofs fs) ''.'')} = dom (map_of fs) \<and>
     distinct (map fst (fs_walk (tree_gofs fs) ''.'')) \<and>
     (\<forall>ev \<in> set (fs_walk (tree_gofs fs) ''.''). snd (snd ev) = None) \<and>
     (\<forall>p x. fs_read (tree_gofs fs) p = Inr x \<longleftrightarrow> valid_utf8 p \<and> map_of fs p = Some x) \<and>
     (\<forall>p. p \<in> dom (map_of fs) \<and> \<not> valid_utf8 p \<longrightarrow>
        fs_read (tree_gofs fs) p = Inl (path_error ''readfile'' p ErrInvalid))"
proof -
  have v: "ValidPath ''.''" by (simp add: ValidPath_def valid_utf8_def rune_error_def)
  have "map_of fs ''.'' = None"
    using wf_tree_keys(2) [OF assms, of "''.''"] by (metis domI dom_map_of_conv_image_fst not_None_eq)
  with v have w: "fs_walk (tree_gofs fs) ''.'' = walk_dir (Suc (longest fs)) fs ''.'' True"
    by (simp add: tree_gofs_def treeFS_walk_def treeFS_Stat_def dirEntries_def)
  have ok: "walk_ok fs ''.'' (inside ''.'') (walk_dir (Suc (longest fs)) fs ''.'' True)"
    by (rule walk_ok_dir [OF assms v]) (simp_all add: len0_def)
  have all: "inside ''.'' p" if "p \<in> fst ` set fs" for p
    using inside_key [OF assms v that] unfolding inside_def by (auto simp: dir_prefix_def)
  have key: "map_of fs p = Some x \<Longrightarrow> ValidPath p \<longleftrightarrow> valid_utf8 p" for p x
    using entry_path_valid [OF wf_tree_keys(1) [OF assms, of p]] by (metis domI dom_map_of_conv_image_fst)
  have rd: "fs_read (tree_gofs fs) p = Inr x \<longleftrightarrow> valid_utf8 p \<and> map_of fs p = Some x" for p x
    using key [of p] by (auto simp: tree_gofs_def treeFS_ReadFile_def split: option.split)
  have bad: "\<forall>p. p \<in> dom (map_of fs) \<and> \<not> valid_utf8 p \<longrightarrow> fs_read (tree_gofs fs) p = Inl (path_error ''readfile'' p ErrInvalid)"
    using key by (auto simp: tree_gofs_def treeFS_ReadFile_def)
  have "{p \<in> fst ` set fs. inside ''.'' p} = dom (map_of fs)"
    using all by (auto simp: dom_map_of_conv_image_fst)
  with ok rd bad show ?thesis
    unfolding w walk_ok_def by simp
qed

subsection \<open>An instance\<close>

fun parents :: "string \<Rightarrow> string list" where
  "parents [] = []"
| "parents (c # cs) = (if c = CHR ''/'' then [''''] else []) @ map (Cons c) (parents cs)"

lemma has_prefix_parents: "has_prefix p (d @ ''/'') \<longleftrightarrow> d \<in> set (parents p)"
proof (induction p arbitrary: d)
  case Nil
  then show ?case by (cases d) simp_all
next
  case (Cons c cs)
  show ?case
  proof (cases d)
    case Nil
    then show ?thesis by auto
  next
    case (Cons a as)
    with Cons.IH [of as] show ?thesis by auto
  qed
qed

lemma wf_tree_code [code]:
  "wf_tree fs \<longleftrightarrow> wf_map fs \<and>
     list_all (\<lambda>p. entry_path p \<and> list_all (\<lambda>d. ValidPath d \<and> d \<noteq> ''.'') (parents p) \<and>
       list_all (\<lambda>q. \<not> has_prefix q (p @ ''/'')) (map fst fs)) (map fst fs)"
  unfolding wf_tree_def has_prefix_parents list_all_iff set_map by blast

definition sample_tree :: tree_files where
  "sample_tree = [(''pack.cue'', ''name''), (''manifests/a.yaml'', ''kind: A'')]"

lemma sample_tree_wf: "wf_tree sample_tree"
  by (simp add: wf_tree_code sample_tree_def entry_path_def ValidPath_def valid_utf8_def rune_error_def)

theorem treeFS_faithful_witness:
  "{p. (p, False, None) \<in> set (fs_walk (tree_gofs sample_tree) ''.'')} = {''pack.cue'', ''manifests/a.yaml''} \<and>
     fs_read (tree_gofs sample_tree) ''manifests/a.yaml'' = Inr ''kind: A''"
  using treeFS_faithful [OF sample_tree_wf] by (auto simp: sample_tree_def valid_utf8_def rune_error_def)

text \<open>Reading an open directory \<open>n\<close> entries at a time gives all of them, then \<open>io.EOF\<close>.\<close>

lemma openDir_ReadDir_drain:
  assumes "0 < n"
  shows "openDir_ReadDir es off n =
     (if off < length es then (Some (take (nat n) (drop off es)), min (off + nat n) (length es)) else (None, off))"
  using assms by (auto simp: openDir_ReadDir_def Let_def)

end
