(* ===== verification/Ref.thy ===== *)
theory Ref
  imports RefTree
begin

section \<open>Resolving references (\<open>internal/ref\<close>: resolve.go, local.go, https.go, stub.go, errors.go)\<close>

text \<open>
  The grammar, the table of backends, the local and https backends and the digests of a pin.
  The operating system (\<open>os.Stat\<close>, \<open>os.Root\<close>, \<open>filepath.EvalSymlinks\<close>, the walk of a real
  directory), the HTTP client and SHA-256 are the fields of \<open>ref_env\<close>. The files do not change
  while one reference is resolved.
\<close>

subsection \<open>Coded errors\<close>

abbreviation CodeMalformedRef :: code where "CodeMalformedRef \<equiv> ''CUBE-REF-001''"

definition newMalformedRefError :: "string \<Rightarrow> string \<Rightarrow> err" where
  "newMalformedRefError ref reason = wrap CodeMalformedRef [ref, reason] None"

abbreviation CodeUnsupportedScheme :: code where "CodeUnsupportedScheme \<equiv> ''CUBE-REF-002''"

definition newUnsupportedSchemeError :: "string \<Rightarrow> string \<Rightarrow> err" where
  "newUnsupportedSchemeError ref scheme = wrap CodeUnsupportedScheme [scheme, ref] None"

abbreviation CodeFetchFailed :: code where "CodeFetchFailed \<equiv> ''CUBE-REF-003''"

definition newFetchFailedError :: "string \<Rightarrow> err \<Rightarrow> err" where
  "newFetchFailedError ref cause = wrap CodeFetchFailed [ref] (Some cause)"

abbreviation CodeEscapesRoot :: code where "CodeEscapesRoot \<equiv> ''CUBE-REF-004''"

definition newEscapesRootError :: "string \<Rightarrow> string \<Rightarrow> err" where
  "newEscapesRootError ref entry = wrap CodeEscapesRoot [ref, entry] None"

abbreviation CodePinMismatch :: code where "CodePinMismatch \<equiv> ''CUBE-REF-005''"

definition newPinMismatchError :: "string \<Rightarrow> string \<Rightarrow> string \<Rightarrow> err" where
  "newPinMismatchError ref want got = wrap CodePinMismatch [ref, got, want] None"

abbreviation CodeModeMismatch :: code where "CodeModeMismatch \<equiv> ''CUBE-REF-006''"

definition newModeMismatchError :: "string \<Rightarrow> string \<Rightarrow> string \<Rightarrow> err" where
  "newModeMismatchError ref want got = wrap CodeModeMismatch [ref, got, want] None"

definition newNotImplementedError :: "code \<Rightarrow> string \<Rightarrow> string \<Rightarrow> string \<Rightarrow> err" where
  "newNotImplementedError code backend ref lands = wrap code [backend, ref, lands] None"

lemmas ref_errors =
  newMalformedRefError_def newUnsupportedSchemeError_def newFetchFailedError_def newEscapesRootError_def
  newModeMismatchError_def newNotImplementedError_def

subsection \<open>The grammar\<close>

definition ModeTree :: string where "ModeTree = ''tree''"
definition ModeFile :: string where "ModeFile = ''file''"
definition schemeLocal :: string where "schemeLocal = ''local''"
definition schemeFile :: string where "schemeFile = ''file''"
definition schemeHTTPS :: string where "schemeHTTPS = ''https''"
definition schemeGit :: string where "schemeGit = ''git+https''"
definition schemeOCI :: string where "schemeOCI = ''oci''"
definition schemeS3 :: string where "schemeS3 = ''s3''"

lemmas schemes = schemeLocal_def schemeFile_def schemeHTTPS_def schemeGit_def schemeOCI_def schemeS3_def

record parsed =
  pa_ref :: string
  pa_scheme :: string
  pa_location :: string

definition isLocalPath :: "string \<Rightarrow> bool" where
  "isLocalPath ref \<longleftrightarrow> ref = ''.'' \<or> ref = ''..'' \<or> has_prefix ref ''./'' \<or> has_prefix ref ''../''"

definition parse_ref :: "string \<Rightarrow> parsed res" where
  "parse_ref ref =
     (if ref = '''' then Inl (newMalformedRefError ref ''reference is empty'')
      else if isLocalPath ref then Inr \<lparr>pa_ref = ref, pa_scheme = schemeLocal, pa_location = ref\<rparr>
      else case cut ref ''://'' of
          None \<Rightarrow> Inl (newMalformedRefError ref ''no scheme, and a local path must start with ./ or ../'')
        | Some (name, rest) \<Rightarrow>
            if rest = '''' then Inl (newMalformedRefError ref (''scheme '' @ name @ '' has no location''))
            else if name = schemeFile then
              (if \<not> has_prefix rest ''/''
               then Inl (newMalformedRefError ref ''a file reference must be file:///abs/path, with an empty host'')
               else Inr \<lparr>pa_ref = ref, pa_scheme = schemeLocal, pa_location = rest\<rparr>)
            else if name \<in> {schemeHTTPS, schemeGit, schemeOCI, schemeS3}
            then Inr \<lparr>pa_ref = ref, pa_scheme = name, pa_location = ref\<rparr>
            else Inl (newUnsupportedSchemeError ref name))"

subsection \<open>Pins and results\<close>

record pin =
  pn_ref :: string
  pn_source :: string
  pn_digest :: string

definition Verify :: "pin \<Rightarrow> pin \<Rightarrow> err option" where
  "Verify p want =
     (if pn_digest p = pn_digest want then None
      else Some (newPinMismatchError (pn_ref p) (pn_digest want) (pn_digest p)))"

record resolved_tree =
  rt_files :: tree_files
  rt_pin :: pin

record resolved_file =
  rf_data :: string
  rf_pin :: pin

definition tree_FS :: "resolved_tree \<Rightarrow> gofs" where
  "tree_FS t = tree_gofs (rt_files t)"

definition fileDigest :: "(string \<Rightarrow> string) \<Rightarrow> string \<Rightarrow> string" where
  "fileDigest sha data = ''sha256:'' @ hex_encode (sha data)"

definition manifest_line :: "(string \<Rightarrow> string) \<Rightarrow> tree_files \<Rightarrow> string \<Rightarrow> string" where
  "manifest_line sha fs p =
     hex_encode (sha (case map_of fs p of None \<Rightarrow> '''' | Some d \<Rightarrow> d)) @ '' '' @ p @ [CHR 0x0A]"

definition tree_manifest :: "(string \<Rightarrow> string) \<Rightarrow> tree_files \<Rightarrow> string" where
  "tree_manifest sha fs = concat (map (manifest_line sha fs) (sort (map fst fs)))"

definition treeDigest :: "(string \<Rightarrow> string) \<Rightarrow> tree_files \<Rightarrow> string" where
  "treeDigest sha fs = ''sha256:'' @ hex_encode (sha (tree_manifest sha fs))"

subsection \<open>The local backend\<close>

datatype entry_type = TDir | TSymlink | TRegular | TOther

datatype http_answer = HttpFailed err | HttpAnswer int string "string res"

text \<open>
  \<open>re_ctx\<close> is what \<open>ctx.Err()\<close> answers when it is asked at an entry, \<open>re_walk\<close> the calls
  \<open>fs.WalkDir\<close> makes on an \<open>os.Root\<close> at a path, with the type of each entry.
\<close>

record ref_env =
  re_abs :: "string \<Rightarrow> string res"
  re_is_dir :: "string \<Rightarrow> bool res"
  re_is_regular :: "string \<Rightarrow> bool res"
  re_read :: "string \<Rightarrow> string res"
  re_eval_symlinks :: "string \<Rightarrow> string res"
  re_open_root :: "string \<Rightarrow> err option"
  re_walk :: "string \<Rightarrow> (string \<times> entry_type \<times> err option) list"
  re_root_read :: "string \<Rightarrow> string \<Rightarrow> string res"
  re_ctx :: "string \<Rightarrow> err option"
  re_get :: "string \<Rightarrow> http_answer"
  re_sha256 :: "string \<Rightarrow> string"

definition localStat :: "ref_env \<Rightarrow> parsed \<Rightarrow> (string \<times> bool) res" where
  "localStat E p =
     (case re_abs E (pa_location p) of
        Inl e \<Rightarrow> Inl (newFetchFailedError (pa_ref p) e)
      | Inr root \<Rightarrow>
          (case re_is_dir E root of
             Inl e \<Rightarrow> Inl (newFetchFailedError (pa_ref p) e)
           | Inr d \<Rightarrow> Inr (root, d)))"

text \<open>
  \<open>filepath.Rel\<close> on the cleaned paths \<open>filepath.EvalSymlinks\<close> returns: up past what is left
  of the base after the common elements, then down.
\<close>

definition path_elements :: "string \<Rightarrow> string list" where
  "path_elements p = filter (\<lambda>c. c \<noteq> '''') (split_on CHR ''/'' p)"

fun strip_common :: "'a list \<Rightarrow> 'a list \<Rightarrow> 'a list \<times> 'a list" where
  "strip_common (x # xs) (y # ys) = (if x = y then strip_common xs ys else (x # xs, y # ys))"
| "strip_common xs ys = (xs, ys)"

definition filepath_Rel :: "string \<Rightarrow> string \<Rightarrow> string res" where
  "filepath_Rel base targ =
     (if has_prefix base ''/'' \<noteq> has_prefix targ ''/'' then Inl (Plain (''Rel: can't make '' @ targ @ '' relative to '' @ base))
      else (case strip_common (path_elements base) (path_elements targ) of
          (b, t) \<Rightarrow>
            let es = replicate (length b) ''..'' @ t in Inr (if es = [] then ''.'' else join_with CHR ''/'' es)))"

definition contains_target :: "ref_env \<Rightarrow> string \<Rightarrow> string \<Rightarrow> bool res" where
  "contains_target E rootAbs target =
     bindR (re_eval_symlinks E rootAbs) (\<lambda>rootReal.
       case filepath_Rel rootReal target of
         Inl e \<Rightarrow> Inr False
       | Inr rel \<Rightarrow> Inr (rel \<noteq> ''..'' \<and> \<not> has_prefix rel ''../''))"

definition visitSymlink :: "ref_env \<Rightarrow> string \<Rightarrow> string \<Rightarrow> string \<Rightarrow> string option res" where
  "visitSymlink E ref rootAbs name =
     bindR (re_eval_symlinks E (path_join rootAbs name)) (\<lambda>target.
     bindR (contains_target E rootAbs target) (\<lambda>ins.
       if \<not> ins then Inl (newEscapesRootError ref name)
       else bindR (re_is_regular E target) (\<lambda>reg.
         if \<not> reg then Inr None
         else bindR (re_read E target) (\<lambda>data. Inr (Some data)))))"

definition visit :: "ref_env \<Rightarrow> string \<Rightarrow> string \<Rightarrow> string \<Rightarrow> entry_type \<Rightarrow> string option res" where
  "visit E ref rootAbs name t =
     (if name = ''.'' \<or> t = TDir then Inr None
      else if t = TSymlink then visitSymlink E ref rootAbs name
      else if t \<noteq> TRegular then Inr None
      else bindR (re_root_read E rootAbs name) (\<lambda>data. Inr (Some data)))"

fun visit_all ::
  "ref_env \<Rightarrow> string \<Rightarrow> string \<Rightarrow> (string \<times> entry_type \<times> err option) list \<Rightarrow> tree_files \<Rightarrow> tree_files res" where
  "visit_all E ref rootAbs [] fs = Inr fs"
| "visit_all E ref rootAbs ((name, t, e) # evs) fs =
     (case e of Some x \<Rightarrow> Inl x
      | None \<Rightarrow>
     (case re_ctx E name of Some x \<Rightarrow> Inl x
      | None \<Rightarrow>
          bindR (visit E ref rootAbs name t) (\<lambda>d.
            visit_all E ref rootAbs evs (case d of None \<Rightarrow> fs | Some data \<Rightarrow> AList.update name data fs))))"

definition walkLocalTree :: "ref_env \<Rightarrow> parsed \<Rightarrow> string \<Rightarrow> tree_files res" where
  "walkLocalTree E p rootAbs =
     (case re_open_root E rootAbs of
        Some e \<Rightarrow> Inl (newFetchFailedError (pa_ref p) e)
      | None \<Rightarrow>
          (case visit_all E (pa_ref p) rootAbs (re_walk E rootAbs) [] of
             Inl e \<Rightarrow> Inl (if is_coded e then e else newFetchFailedError (pa_ref p) e)
           | Inr fs \<Rightarrow> Inr fs))"

definition localTree :: "ref_env \<Rightarrow> parsed \<Rightarrow> resolved_tree res" where
  "localTree E p =
     bindR (localStat E p) (\<lambda>(root, is_dir).
       if \<not> is_dir then Inl (newModeMismatchError (pa_ref p) ModeTree ModeFile)
       else bindR (walkLocalTree E p root) (\<lambda>fs.
         Inr \<lparr>rt_files = fs,
              rt_pin = \<lparr>pn_ref = pa_ref p, pn_source = root, pn_digest = treeDigest (re_sha256 E) fs\<rparr>\<rparr>))"

definition localFile :: "ref_env \<Rightarrow> parsed \<Rightarrow> resolved_file res" where
  "localFile E p =
     bindR (localStat E p) (\<lambda>(root, is_dir).
       if is_dir then Inl (newModeMismatchError (pa_ref p) ModeFile ModeTree)
       else (case re_ctx E root of
          Some e \<Rightarrow> Inl (newFetchFailedError (pa_ref p) e)
        | None \<Rightarrow>
            (case re_read E root of
               Inl e \<Rightarrow> Inl (newFetchFailedError (pa_ref p) e)
             | Inr data \<Rightarrow>
                 Inr \<lparr>rf_data = data,
                      rf_pin = \<lparr>pn_ref = pa_ref p, pn_source = root, pn_digest = fileDigest (re_sha256 E) data\<rparr>\<rparr>)))"

subsection \<open>The other backends\<close>

definition httpsTree :: "parsed \<Rightarrow> resolved_tree res" where
  "httpsTree p = Inl (newModeMismatchError (pa_ref p) ModeTree ModeFile)"

definition fetchHTTPS :: "ref_env \<Rightarrow> parsed \<Rightarrow> resolved_file res" where
  "fetchHTTPS E p =
     (case re_get E (pa_location p) of
        HttpFailed e \<Rightarrow> Inl (newFetchFailedError (pa_ref p) e)
      | HttpAnswer code status body \<Rightarrow>
          if code \<noteq> 200 then Inl (newFetchFailedError (pa_ref p) (Plain (''server answered '' @ status)))
          else (case body of
             Inl e \<Rightarrow> Inl (newFetchFailedError (pa_ref p) e)
           | Inr data \<Rightarrow>
               Inr \<lparr>rf_data = data,
                    rf_pin = \<lparr>pn_ref = pa_ref p, pn_source = pa_location p, pn_digest = fileDigest (re_sha256 E) data\<rparr>\<rparr>))"

definition gitLandsIn :: string where "gitLandsIn = ''its own milestone, behind the go-git/v5 dependency gate''"
definition ociLandsIn :: string where "ociLandsIn = ''M12 (bus), behind the oras-go/v2 dependency gate''"
definition s3LandsIn :: string where "s3LandsIn = ''its own milestone, behind the AWS SDK dependency gate''"

definition not_implemented :: "code \<Rightarrow> string \<Rightarrow> string \<Rightarrow> parsed \<Rightarrow> 'a res" where
  "not_implemented code backend lands p = Inl (newNotImplementedError code backend (pa_ref p) lands)"

abbreviation CodeGitNotImplemented :: code where "CodeGitNotImplemented \<equiv> ''CUBE-REF-007''"
abbreviation CodeOCINotImplemented :: code where "CodeOCINotImplemented \<equiv> ''CUBE-REF-008''"
abbreviation CodeS3NotImplemented :: code where "CodeS3NotImplemented \<equiv> ''CUBE-REF-009''"

definition backendFor :: "ref_env \<Rightarrow> string \<Rightarrow> (parsed \<Rightarrow> resolved_tree res) \<times> (parsed \<Rightarrow> resolved_file res)" where
  "backendFor E s =
     (if s = schemeLocal then (localTree E, localFile E)
      else if s = schemeHTTPS then (httpsTree, fetchHTTPS E)
      else if s = schemeGit then
        (not_implemented CodeGitNotImplemented ''git'' gitLandsIn, not_implemented CodeGitNotImplemented ''git'' gitLandsIn)
      else if s = schemeOCI then
        (not_implemented CodeOCINotImplemented ''oci'' ociLandsIn, not_implemented CodeOCINotImplemented ''oci'' ociLandsIn)
      else if s = schemeS3 then
        (not_implemented CodeS3NotImplemented ''s3'' s3LandsIn, not_implemented CodeS3NotImplemented ''s3'' s3LandsIn)
      else (\<lambda>p. Inl (newUnsupportedSchemeError (pa_ref p) s), \<lambda>p. Inl (newUnsupportedSchemeError (pa_ref p) s)))"

definition ResolveTree :: "ref_env \<Rightarrow> string \<Rightarrow> resolved_tree res" where
  "ResolveTree E ref = bindR (parse_ref ref) (\<lambda>p. fst (backendFor E (pa_scheme p)) p)"

definition ResolveFile :: "ref_env \<Rightarrow> string \<Rightarrow> resolved_file res" where
  "ResolveFile E ref = bindR (parse_ref ref) (\<lambda>p. snd (backendFor E (pa_scheme p)) p)"

subsection \<open>Containment\<close>

lemma strip_common_split:
  "strip_common xs ys = (b, t) \<Longrightarrow> \<exists>p. xs = p @ b \<and> ys = p @ t \<and> (b = [] \<or> t = [] \<or> hd b \<noteq> hd t)"
proof (induction xs ys arbitrary: b t rule: strip_common.induct)
  case (1 x xs y ys)
  show ?case
  proof (cases "x = y")
    case True
    with 1 obtain p where "xs = p @ b" "ys = p @ t" "b = [] \<or> t = [] \<or> hd b \<noteq> hd t" by auto
    with True show ?thesis by (intro exI [of _ "x # p"]) simp
  next
    case False
    with 1 show ?thesis by auto
  qed
qed auto

lemma strip_common_prefix: "strip_common xs ys = (b, t) \<Longrightarrow> prefix xs ys \<longleftrightarrow> b = []"
  by (drule strip_common_split) (cases b; auto simp: prefix_def)

text \<open>A cleaned absolute path, as \<open>filepath.EvalSymlinks\<close> returns one for an absolute path.\<close>

definition clean_abs :: "string \<Rightarrow> bool" where
  "clean_abs p \<longleftrightarrow> has_prefix p ''/'' \<and> ''..'' \<notin> set (path_elements p)"

lemma path_elements_clean: "c \<in> set (path_elements p) \<Longrightarrow> c \<noteq> '''' \<and> CHR ''/'' \<notin> set c"
  by (auto simp: path_elements_def dest: split_on_pieces)

lemma join_first:
  assumes "CHR ''/'' \<notin> set c" "c \<noteq> ''..''"
  shows "join_with CHR ''/'' (c # cs) \<noteq> ''..'' \<and> \<not> has_prefix (join_with CHR ''/'' (c # cs)) ''../''"
proof -
  have "split_on CHR ''/'' (join_with CHR ''/'' (c # cs)) = c # (if cs = [] then [] else split_on CHR ''/'' (join_with CHR ''/'' cs))"
    using assms(1) by (cases cs) (simp_all add: split_on_append split_on_no_sep)
  moreover have "split_on CHR ''/'' ''..'' = [''..'']" by simp
  moreover have "hd (split_on CHR ''/'' (''../'' @ r)) = ''..''" for r by simp
  ultimately show ?thesis using assms(2) by (metis has_prefix_alt list.sel(1))
qed

lemma contains_target_iff:
  assumes "re_eval_symlinks E rootAbs = Inr root" "clean_abs root" "clean_abs target"
  shows "contains_target E rootAbs target = Inr (prefix (path_elements root) (path_elements target))"
proof -
  obtain b t where st: "strip_common (path_elements root) (path_elements target) = (b, t)" by fastforce
  from strip_common_split [OF st] obtain p where p: "path_elements target = p @ t" by blast
  define es where "es = replicate (length b) ''..'' @ t"
  have rel: "filepath_Rel root target = Inr (if es = [] then ''.'' else join_with CHR ''/'' es)"
    using assms(2,3) st by (simp add: filepath_Rel_def clean_abs_def es_def Let_def)
  have "(if es = [] then ''.'' else join_with CHR ''/'' es) \<noteq> ''..'' \<and>
      \<not> has_prefix (if es = [] then ''.'' else join_with CHR ''/'' es) ''../'' \<longleftrightarrow> b = []"
  proof (cases b)
    case Nil
    show ?thesis
    proof (cases t)
      case (Cons c cs)
      then have "c \<in> set (path_elements target)" using p by simp
      then have "CHR ''/'' \<notin> set c" "c \<noteq> ''..''"
        using path_elements_clean assms(3) by (auto simp: clean_abs_def)
      with join_first [OF this, of cs] Nil Cons show ?thesis by (simp add: es_def)
    qed (simp add: Nil es_def)
  next
    case (Cons x xs)
    then have "\<exists>es'. es = ''..'' # es'" by (simp add: es_def)
    then obtain es' where "es = ''..'' # es'" by blast
    then show ?thesis using Cons by (cases es') simp_all
  qed
  with rel st assms(1) strip_common_prefix [OF st] show ?thesis by (simp add: contains_target_def)
qed

text \<open>A symlink of the tree whose resolved target lies under the resolved root, by elements.\<close>

definition link_inside :: "ref_env \<Rightarrow> string \<Rightarrow> string \<Rightarrow> string \<Rightarrow> bool" where
  "link_inside E rootAbs name target \<longleftrightarrow>
     re_eval_symlinks E (path_join rootAbs name) = Inr target \<and>
     (\<exists>root. re_eval_symlinks E rootAbs = Inr root \<and> prefix (path_elements root) (path_elements target))"

definition evals_clean :: "ref_env \<Rightarrow> bool" where
  "evals_clean E \<longleftrightarrow> (\<forall>p q. re_eval_symlinks E p = Inr q \<longrightarrow> clean_abs q)"

lemma visitSymlink_inside:
  assumes "evals_clean E" "visitSymlink E ref rootAbs name = Inr d"
  shows "\<exists>target. link_inside E rootAbs name target \<and> (\<forall>data. d = Some data \<longrightarrow> re_read E target = Inr data)"
proof -
  from assms(2) obtain target where t: "re_eval_symlinks E (path_join rootAbs name) = Inr target"
    and c: "contains_target E rootAbs target = Inr True"
    and d: "d = Some data \<Longrightarrow> re_read E target = Inr data" for data
    by (auto simp: visitSymlink_def res_simps split: if_splits)
  from c obtain root where root: "re_eval_symlinks E rootAbs = Inr root"
    by (auto simp: contains_target_def res_simps)
  have "clean_abs root" "clean_abs target" using assms(1) root t unfolding evals_clean_def by blast+
  with contains_target_iff [OF root this] c t root d show ?thesis unfolding link_inside_def by auto
qed

definition origin :: "ref_env \<Rightarrow> string \<Rightarrow> string \<times> entry_type \<times> err option \<Rightarrow> string \<Rightarrow> bool" where
  "origin E rootAbs ev data \<longleftrightarrow>
     (case ev of (name, t, e) \<Rightarrow>
        e = None \<and> name \<noteq> ''.'' \<and>
        (t = TRegular \<and> re_root_read E rootAbs name = Inr data \<or>
         t = TSymlink \<and> (\<exists>target. link_inside E rootAbs name target \<and> re_read E target = Inr data)))"

lemma visit_origin:
  assumes "evals_clean E" "visit E ref rootAbs name t = Inr (Some data)"
  shows "origin E rootAbs (name, t, None) data"
  using assms visitSymlink_inside [OF assms(1), of ref rootAbs name "Some data"]
  by (cases t) (auto simp: visit_def origin_def res_simps split: if_splits)

lemma visit_all_origin:
  assumes "evals_clean E"
  shows "visit_all E ref rootAbs evs fs = Inr fs' \<Longrightarrow> map_of fs' name = Some data \<Longrightarrow>
    map_of fs name = Some data \<or> (\<exists>ev \<in> set evs. fst ev = name \<and> origin E rootAbs ev data)"
proof (induction evs arbitrary: fs)
  case (Cons ev evs)
  obtain n t e where ev: "ev = (n, t, e)" by (cases ev)
  with Cons.prems obtain d where e: "e = None" and v: "visit E ref rootAbs n t = Inr d"
    and r: "visit_all E ref rootAbs evs (case d of None \<Rightarrow> fs | Some x \<Rightarrow> AList.update n x fs) = Inr fs'"
    by (auto simp: res_simps split: option.splits)
  from Cons.IH [OF r Cons.prems(2)] show ?case
  proof
    assume m: "map_of (case d of None \<Rightarrow> fs | Some x \<Rightarrow> AList.update n x fs) name = Some data"
    show ?thesis
    proof (cases "d = Some data \<and> n = name")
      case True
      with v have "origin E rootAbs (name, t, None) data" using visit_origin [OF assms] by blast
      with ev e True show ?thesis by auto
    next
      case False
      with m show ?thesis by (auto split: option.splits if_splits)
    qed
  qed auto
qed simp

lemma visit_all_links:
  assumes "evals_clean E"
  shows "visit_all E ref rootAbs evs fs = Inr fs' \<Longrightarrow> (name, TSymlink, None) \<in> set evs \<Longrightarrow> name \<noteq> ''.'' \<Longrightarrow>
    \<exists>target. link_inside E rootAbs name target"
proof (induction evs arbitrary: fs)
  case (Cons ev evs)
  obtain n t e where ev: "ev = (n, t, e)" by (cases ev)
  with Cons.prems obtain d where v: "visit E ref rootAbs n t = Inr d"
    and r: "visit_all E ref rootAbs evs (case d of None \<Rightarrow> fs | Some x \<Rightarrow> AList.update n x fs) = Inr fs'"
    by (auto simp: res_simps split: option.splits)
  show ?case
  proof (cases "(name, TSymlink, None) \<in> set evs")
    case True
    with Cons.IH [OF r] Cons.prems(3) show ?thesis by blast
  next
    case False
    with Cons.prems(2) ev have "n = name" "t = TSymlink" by auto
    with v Cons.prems(3) visitSymlink_inside [OF assms, of ref rootAbs name d] show ?thesis
      by (auto simp: visit_def)
  qed
qed simp

lemma ResolveTree_local:
  assumes "ResolveTree E ref = Inr t"
  shows "\<exists>p. parse_ref ref = Inr p \<and> localTree E p = Inr t"
  using assms
  by (auto simp: ResolveTree_def backendFor_def httpsTree_def not_implemented_def res_simps split: if_splits)

lemma localTree_Inr:
  assumes "localTree E p = Inr t"
  shows "localStat E p = Inr (pn_source (rt_pin t), True)"
    and "visit_all E (pa_ref p) (pn_source (rt_pin t)) (re_walk E (pn_source (rt_pin t))) [] = Inr (rt_files t)"
    and "pn_digest (rt_pin t) = treeDigest (re_sha256 E) (rt_files t)"
  using assms by (auto simp: localTree_def walkLocalTree_def res_simps split: if_splits option.splits sum.splits)

text \<open>
  C13. A resolved tree is self-contained: every byte of it was read through the root itself, or
  through a symlink whose fully resolved target lies under the fully resolved root element by
  element; and one symlink that leaves the root, anywhere in the tree, is enough for the
  reference not to resolve.
\<close>

theorem ResolveTree_contained:
  assumes "evals_clean E" and "ResolveTree E ref = Inr t"
  defines "src \<equiv> pn_source (rt_pin t)"
  shows "(\<forall>name data. map_of (rt_files t) name = Some data \<longrightarrow>
       (\<exists>ev \<in> set (re_walk E src). fst ev = name \<and> origin E src ev data)) \<and>
     (\<forall>name. (name, TSymlink, None) \<in> set (re_walk E src) \<and> name \<noteq> ''.'' \<longrightarrow> (\<exists>target. link_inside E src name target))"
proof -
  from ResolveTree_local [OF assms(2)] obtain p where "localTree E p = Inr t" by blast
  note v = localTree_Inr(2) [OF this, folded src_def]
  from visit_all_origin [OF assms(1) v] visit_all_links [OF assms(1) v] show ?thesis by auto
qed

subsection \<open>The snapshot and its pin\<close>

text \<open>
  What the walk of a real directory gives: each entry once, under a path of non-empty elements
  other than \<open>.\<close> and \<open>..\<close>, no entry below one that is not a directory, and none below a directory
  whose path is not a \<open>fs.ValidPath\<close>, since the root's file system refuses to list it. Nothing is
  said of a file's own name, which may be any bytes.
\<close>

definition file_names :: "(string \<times> entry_type \<times> err option) list \<Rightarrow> string list" where
  "file_names evs = map fst (filter (\<lambda>(n, t, e). t \<noteq> TDir \<and> n \<noteq> ''.'') evs)"

definition walks_tree :: "ref_env \<Rightarrow> bool" where
  "walks_tree E \<longleftrightarrow> (\<forall>root. wf_tree (map (\<lambda>n. (n, '''')) (file_names (re_walk E root))))"

lemma wf_tree_sub:
  assumes "wf_tree gs" "wf_map fs" "fst ` set fs \<subseteq> fst ` set gs"
  shows "wf_tree fs"
proof -
  have k: "p \<in> fst ` set gs" if "p \<in> fst ` set fs" for p using assms(3) that by (rule subsetD)
  show ?thesis
    unfolding wf_tree_def
  proof (intro conjI ballI allI impI)
    show "wf_map fs" by (rule assms(2))
    fix p assume p: "p \<in> fst ` set fs"
    note w = wf_tree_keys [OF assms(1) k [OF p]]
    show "entry_path p" by (rule w(1))
    show "has_prefix p (d @ ''/'') \<Longrightarrow> ValidPath d" "has_prefix p (d @ ''/'') \<Longrightarrow> d \<noteq> ''.''" for d
      using w(3) [of d] by simp_all
    show "q \<in> fst ` set fs \<Longrightarrow> \<not> has_prefix q (p @ ''/'')" for q
      by (rule w(4) [OF k])
  qed
qed

lemma visit_all_names:
  "visit_all E ref rootAbs evs fs = Inr fs' \<Longrightarrow> wf_map fs \<Longrightarrow>
     wf_map fs' \<and> fst ` set fs' \<subseteq> fst ` set fs \<union> set (file_names evs)"
proof (induction evs arbitrary: fs)
  case (Cons ev evs)
  obtain n t e where ev: "ev = (n, t, e)" by (cases ev)
  with Cons.prems obtain d where v: "visit E ref rootAbs n t = Inr d"
    and r: "visit_all E ref rootAbs evs (case d of None \<Rightarrow> fs | Some x \<Rightarrow> AList.update n x fs) = Inr fs'"
    by (auto simp: res_simps split: option.splits)
  show ?case
  proof (cases d)
    case None
    with Cons.IH [of fs] r Cons.prems(2) show ?thesis by (auto simp: file_names_def ev)
  next
    case (Some x)
    with v have n: "n \<noteq> ''.'' \<and> t \<noteq> TDir" by (auto simp: visit_def split: if_splits)
    from Some r have "visit_all E ref rootAbs evs (AList.update n x fs) = Inr fs'" by simp
    from Cons.IH [OF this wf_map_update [OF Cons.prems(2)]]
    have "wf_map fs'" "fst ` set fs' \<subseteq> insert n (fst ` set fs) \<union> set (file_names evs)"
      by (simp_all add: dom_update)
    with n show ?thesis by (auto simp: file_names_def ev)
  qed
qed simp

lemma ResolveTree_wf:
  assumes "walks_tree E" "ResolveTree E ref = Inr t"
  shows "wf_tree (rt_files t)"
proof -
  from ResolveTree_local [OF assms(2)] obtain p where p: "localTree E p = Inr t" by blast
  from visit_all_names [OF localTree_Inr(2) [OF p]]
  have "wf_map (rt_files t)" "fst ` set (rt_files t) \<subseteq> set (file_names (re_walk E (pn_source (rt_pin t))))" by simp_all
  moreover have "wf_tree (map (\<lambda>n. (n, '''')) (file_names (re_walk E (pn_source (rt_pin t)))))"
    using assms(1) unfolding walks_tree_def by blast
  moreover have "fst ` set (map (\<lambda>n. (n, [] :: string)) ns) = set ns" for ns :: "string list" by force
  ultimately show ?thesis using wf_tree_sub by metis
qed

text \<open>
  C14. What a consumer walks is what was pinned: a walk of the file system of a resolved tree meets
  exactly the files the resolution read, each once and without an error, and the pin's digest is
  the digest of those files. Reading one gives the bytes that were pinned, provided that its
  name is valid UTF-8; a file of any other name is pinned and met all the same, and every read
  of it is refused as an invalid argument. Nothing else is readable.
\<close>

theorem ResolveTree_snapshot:
  assumes "walks_tree E" and "ResolveTree E ref = Inr t"
  shows "{p. (p, False, None) \<in> set (fs_walk (tree_FS t) ''.'')} = dom (map_of (rt_files t)) \<and>
     distinct (map fst (fs_walk (tree_FS t) ''.'')) \<and>
     (\<forall>ev \<in> set (fs_walk (tree_FS t) ''.''). snd (snd ev) = None) \<and>
     (\<forall>p x. fs_read (tree_FS t) p = Inr x \<longleftrightarrow> valid_utf8 p \<and> map_of (rt_files t) p = Some x) \<and>
     (\<forall>p. p \<in> dom (map_of (rt_files t)) \<and> \<not> valid_utf8 p \<longrightarrow>
        fs_read (tree_FS t) p = Inl (path_error ''readfile'' p ErrInvalid)) \<and>
     pn_digest (rt_pin t) = treeDigest (re_sha256 E) (rt_files t)"
proof -
  from ResolveTree_local [OF assms(2)] obtain p where p: "localTree E p = Inr t" by blast
  from treeFS_faithful [OF ResolveTree_wf [OF assms]] localTree_Inr(3) [OF p] show ?thesis
    unfolding tree_FS_def by blast
qed

subsection \<open>What a tree's digest identifies\<close>

lemma split_lines:
  "\<forall>l \<in> set xs. c \<notin> set l \<Longrightarrow> split_on c (concat (map (\<lambda>l. l @ [c]) xs)) = xs @ [[]]"
proof (induction xs)
  case (Cons l xs)
  then show ?case
    using split_on_append [of c l "concat (map (\<lambda>l. l @ [c]) xs)"] by simp
qed simp

lemma lines_inj:
  fixes xs :: "string list"
  assumes "\<forall>l \<in> set xs. c \<notin> set l" "\<forall>l \<in> set ys. c \<notin> set l"
    and "concat (map (\<lambda>l. l @ [c]) xs) = concat (map (\<lambda>l. l @ [c]) ys)"
  shows "xs = ys"
proof -
  have "xs @ [[]] = split_on c (concat (map (\<lambda>l. l @ [c]) xs))" by (rule split_lines [OF assms(1), symmetric])
  also have "\<dots> = ys @ [[]]" unfolding assms(3) by (rule split_lines [OF assms(2)])
  finally show ?thesis by simp
qed

definition no_newline :: "tree_files \<Rightarrow> bool" where
  "no_newline fs \<longleftrightarrow> (\<forall>p \<in> fst ` set fs. CHR 0x0A \<notin> set p)"

definition content_hash :: "(string \<Rightarrow> string) \<Rightarrow> tree_files \<Rightarrow> string \<Rightarrow> string" where
  "content_hash sha fs p = sha (case map_of fs p of None \<Rightarrow> '''' | Some d \<Rightarrow> d)"

lemma tree_manifest_lines:
  "tree_manifest sha fs =
     concat (map (\<lambda>l. l @ [CHR 0x0A]) (map (\<lambda>p. hex_encode (content_hash sha fs p) @ '' '' @ p) (sort (map fst fs))))"
  by (simp add: tree_manifest_def manifest_line_def [abs_def] content_hash_def comp_def)

lemma tree_manifest_inj:
  assumes "\<And>s. length (sha s) = 32" "no_newline f" "no_newline g" "tree_manifest sha f = tree_manifest sha g"
  shows "sort (map fst f) = sort (map fst g) \<and> (\<forall>p \<in> fst ` set f. content_hash sha f p = content_hash sha g p)"
proof -
  let ?l = "\<lambda>fs p. hex_encode (content_hash sha fs p) @ '' '' @ p"
  have nl: "\<forall>l \<in> set (map (?l fs) (sort (map fst fs))). CHR 0x0A \<notin> set l" if "no_newline fs" for fs
    using that hex_encode_chars [of "CHR 0x0A"] by (fastforce simp: no_newline_def)
  have len: "length (hex_encode (content_hash sha fs p)) = 64" for fs p
    using assms(1) by (simp add: content_hash_def hex_encode_length)
  from lines_inj [OF nl [OF assms(2)] nl [OF assms(3)]] assms(4)
  have eq: "map (?l f) (sort (map fst f)) = map (?l g) (sort (map fst g))" by (simp only: tree_manifest_lines)
  have one: "?l f p = ?l g q \<Longrightarrow> p = q \<and> content_hash sha f p = content_hash sha g q" for p q
    using len [of f p] len [of g q] by (auto simp: append_eq_append_conv hex_encode_inj)
  have "sort (map fst f) = sort (map fst g) \<and> (\<forall>p \<in> set (sort (map fst f)). content_hash sha f p = content_hash sha g p)"
  proof -
    have "ps = qs \<and> (\<forall>p \<in> set ps. content_hash sha f p = content_hash sha g p)"
      if "map (?l f) ps = map (?l g) qs" for ps qs
      using that
    proof (induction ps arbitrary: qs)
      case (Cons p ps)
      then obtain q qs' where "qs = q # qs'" "?l f p = ?l g q" "map (?l f) ps = map (?l g) qs'" by (cases qs) auto
      moreover from calculation(2) have "p = q" "content_hash sha f p = content_hash sha g q" using one by blast+
      ultimately show ?case using Cons.IH [of qs'] by simp
    qed simp
    from this [OF eq] show ?thesis .
  qed
  then show ?thesis by simp
qed

text \<open>
  C15. A pin's digest identifies the tree: for trees without a newline in a path, two digests are
  equal exactly when the trees hold the same files with the same contents, unless SHA-256
  collides on the contents or manifests at hand. So \<open>Verify\<close> accepts the same tree, and a file
  added, removed, renamed or edited makes it answer with \<open>CUBE-REF-005\<close>.
\<close>

theorem treeDigest_identifies:
  assumes "\<And>s. length (sha s) = 32" and "wf_map f" and "wf_map g" and "no_newline f" and "no_newline g"
    and "inj_on sha ({tree_manifest sha f, tree_manifest sha g} \<union> snd ` set f \<union> snd ` set g)"
  shows "case Verify \<lparr>pn_ref = r, pn_source = s, pn_digest = treeDigest sha f\<rparr>
       \<lparr>pn_ref = r', pn_source = s', pn_digest = treeDigest sha g\<rparr> of
      None \<Rightarrow> map_of f = map_of g
    | Some e \<Rightarrow> map_of f \<noteq> map_of g \<and> err_code e = Some ''CUBE-REF-005''"
proof -
  have "treeDigest sha f = treeDigest sha g \<longleftrightarrow> tree_manifest sha f = tree_manifest sha g"
    using inj_onD [OF assms(6), of "tree_manifest sha f" "tree_manifest sha g"]
    by (auto simp: treeDigest_def hex_encode_inj)
  also have "\<dots> \<longleftrightarrow> map_of f = map_of g"
  proof
    assume "tree_manifest sha f = tree_manifest sha g"
    from tree_manifest_inj [OF assms(1,4,5) this]
    have k: "sort (map fst f) = sort (map fst g)" and h: "\<And>p. p \<in> fst ` set f \<Longrightarrow> content_hash sha f p = content_hash sha g p"
      by blast+
    from k have dom: "fst ` set f = fst ` set g" by (metis set_map set_sort)
    show "map_of f = map_of g"
    proof
      fix p
      show "map_of f p = map_of g p"
      proof (cases "p \<in> fst ` set f")
        case True
        then obtain x y where xy: "map_of f p = Some x" "map_of g p = Some y"
          using dom by (metis domD dom_map_of_conv_image_fst)
        with h [OF True] have "sha x = sha y" by (simp add: content_hash_def)
        moreover have "x \<in> snd ` set f" "y \<in> snd ` set g"
          using xy map_of_SomeD by force+
        ultimately have "x = y" using inj_onD [OF assms(6), of x y] by blast
        with xy show ?thesis by simp
      next
        case False
        with dom show ?thesis by (metis domIff dom_map_of_conv_image_fst)
      qed
    qed
  next
    assume m: "map_of f = map_of g"
    then have "set (map fst f) = set (map fst g)" by (metis dom_map_of_conv_image_fst set_map)
    with assms(2,3) have "sort (map fst f) = sort (map fst g)"
      by (metis distinct_sort set_sort sorted_distinct_set_unique sorted_sort)
    with m show "tree_manifest sha f = tree_manifest sha g"
      by (simp add: tree_manifest_def manifest_line_def [abs_def])
  qed
  finally show ?thesis by (auto simp: Verify_def newPinMismatchError_def)
qed

text \<open>
  Without the condition on paths the digest does not tell trees apart: one file whose name holds
  a newline can stand for two, whatever the hash.
\<close>

theorem treeDigest_newline:
  "treeDigest sha [(''a'' @ [CHR 0x0A] @ hex_encode (sha y) @ '' b'', x)] = treeDigest sha [(''a'', x), (''b'', y)]"
proof -
  have "sort [''a'', ''b''] = [''a'', ''b'']" by simp
  then show ?thesis
    by (simp add: treeDigest_def tree_manifest_def manifest_line_def)
qed

subsection \<open>Modes and codes\<close>

definition ref_code :: "err \<Rightarrow> bool" where
  "ref_code e \<longleftrightarrow> err_code e \<in> {Some CodeMalformedRef, Some CodeUnsupportedScheme, Some CodeFetchFailed, Some CodeEscapesRoot,
     Some CodeModeMismatch, Some CodeGitNotImplemented, Some CodeOCINotImplemented, Some CodeS3NotImplemented}"

lemma ref_code_simps [simp]:
  "ref_code (newMalformedRefError r m)" "ref_code (newUnsupportedSchemeError r m)" "ref_code (newFetchFailedError r e)"
  "ref_code (newEscapesRootError r m)" "ref_code (newModeMismatchError r m n)"
  "ref_code (newNotImplementedError ''CUBE-REF-007'' b r l)" "ref_code (newNotImplementedError ''CUBE-REF-008'' b r l)"
  "ref_code (newNotImplementedError ''CUBE-REF-009'' b r l)"
  by (simp_all add: ref_code_def ref_errors)

text \<open>The operating system's errors are none of this program's.\<close>

definition os_uncoded :: "ref_env \<Rightarrow> bool" where
  "os_uncoded E \<longleftrightarrow>
     (\<forall>root ev e. ev \<in> set (re_walk E root) \<and> snd (snd ev) = Some e \<longrightarrow> \<not> is_coded e) \<and>
     (\<forall>n e. re_ctx E n = Some e \<longrightarrow> \<not> is_coded e) \<and>
     (\<forall>n e. re_eval_symlinks E n = Inl e \<or> re_is_regular E n = Inl e \<or> re_read E n = Inl e \<longrightarrow> \<not> is_coded e) \<and>
     (\<forall>root n e. re_root_read E root n = Inl e \<longrightarrow> \<not> is_coded e)"

lemma visit_code:
  assumes "os_uncoded E" "visit E ref root n t = Inl e"
  shows "\<not> is_coded e \<or> ref_code e"
proof -
  have "e = newEscapesRootError ref n \<or> (\<exists>x. re_eval_symlinks E x = Inl e \<or> re_is_regular E x = Inl e \<or> re_read E x = Inl e) \<or>
      (\<exists>r x. re_root_read E r x = Inl e)"
    using assms(2) by (auto simp: visit_def visitSymlink_def contains_target_def res_simps split: if_splits sum.splits)
  then show ?thesis using assms(1) ref_code_simps(4) unfolding os_uncoded_def by blast
qed

lemma visit_all_code:
  assumes "os_uncoded E"
  shows "\<forall>ev \<in> set evs. \<forall>e. snd (snd ev) = Some e \<longrightarrow> \<not> is_coded e \<Longrightarrow>
    visit_all E ref root evs fs = Inl e \<Longrightarrow> \<not> is_coded e \<or> ref_code e"
proof (induction evs arbitrary: fs)
  case (Cons ev evs)
  obtain n t x where ev: "ev = (n, t, x)" by (cases ev)
  have c: "re_ctx E n = Some y \<Longrightarrow> \<not> is_coded y" for y using assms unfolding os_uncoded_def by blast
  have x: "x = Some y \<Longrightarrow> \<not> is_coded y" for y using Cons.prems(1) ev by simp
  from Cons.prems(2) consider "x = Some e" | "re_ctx E n = Some e" | "visit E ref root n t = Inl e"
    | fs' where "visit_all E ref root evs fs' = Inl e"
    unfolding ev by (auto simp: bindR_Inl_iff split: option.splits)
  then show ?case
  proof cases
    case 4
    with Cons.IH Cons.prems(1) show ?thesis by simp
  qed (use x c visit_code [OF assms] in blast)+
qed simp

lemma walkLocalTree_code:
  assumes "os_uncoded E" "walkLocalTree E p root = Inl e"
  shows "ref_code e"
proof (cases "visit_all E (pa_ref p) root (re_walk E root) []")
  case (Inl x)
  have "\<forall>ev \<in> set (re_walk E root). \<forall>e. snd (snd ev) = Some e \<longrightarrow> \<not> is_coded e"
    using assms(1) unfolding os_uncoded_def by blast
  from visit_all_code [OF assms(1) this Inl] have "is_coded x \<Longrightarrow> ref_code x" by blast
  with Inl assms(2) show ?thesis by (auto simp: walkLocalTree_def split: option.splits if_splits)
next
  case (Inr fs)
  with assms(2) show ?thesis by (auto simp: walkLocalTree_def split: option.splits)
qed

lemma localStat_code: "localStat E p = Inl e \<Longrightarrow> ref_code e"
  by (auto simp: localStat_def split: sum.splits)

lemma parse_ref_code: "parse_ref ref = Inl e \<Longrightarrow> ref_code e"
  by (auto simp: parse_ref_def split: if_splits option.splits)

text \<open>
  Every reference has one mode and every failure one code: a reference that resolves as a tree
  is \<open>CUBE-REF-006\<close> as a file and the other way round, and whatever does not resolve fails with
  a \<open>CUBE-REF-\<dots>\<close> code, the deferred backends with their own.
\<close>

theorem Resolve_modes_codes:
  assumes "os_uncoded E"
  shows "(case ResolveTree E ref of
        Inr t \<Rightarrow> (case ResolveFile E ref of Inl e \<Rightarrow> err_code e = Some ''CUBE-REF-006'' | Inr f \<Rightarrow> False)
      | Inl e \<Rightarrow> ref_code e) \<and>
     (case ResolveFile E ref of
        Inr f \<Rightarrow> (case ResolveTree E ref of Inl e \<Rightarrow> err_code e = Some ''CUBE-REF-006'' | Inr t \<Rightarrow> False)
      | Inl e \<Rightarrow> ref_code e)"
proof (cases "parse_ref ref")
  case (Inl e)
  then show ?thesis using parse_ref_code by (simp add: ResolveTree_def ResolveFile_def)
next
  case (Inr p)
  have tree: "localTree E p = Inl e \<Longrightarrow> ref_code e" for e
    using walkLocalTree_code [OF assms] localStat_code
    by (auto simp: localTree_def bindR_Inl_iff split: if_splits)
  have lf: "localFile E p = Inl e \<Longrightarrow> ref_code e" for e
    using localStat_code by (auto simp: localFile_def bindR_Inl_iff split: if_splits option.splits sum.splits)
  have "localTree E p = Inr t \<Longrightarrow> \<exists>e. localFile E p = Inl e \<and> err_code e = Some ''CUBE-REF-006''" for t
    using localTree_Inr(1) [of E p t] by (simp add: localFile_def newModeMismatchError_def)
  moreover have "localFile E p = Inr f \<Longrightarrow> \<exists>e. localTree E p = Inl e \<and> err_code e = Some ''CUBE-REF-006''" for f
  proof -
    assume "localFile E p = Inr f"
    then obtain root where "localStat E p = Inr (root, False)"
      by (auto simp: localFile_def bindR_Inr_iff split: if_splits)
    then show ?thesis by (simp add: localTree_def newModeMismatchError_def)
  qed
  moreover have "fetchHTTPS E p = Inl e \<Longrightarrow> ref_code e" for e
    by (auto simp: fetchHTTPS_def split: http_answer.splits if_splits sum.splits)
  moreover have "httpsTree p = Inl e \<Longrightarrow> ref_code e \<and> err_code e = Some ''CUBE-REF-006''" for e
    by (auto simp: httpsTree_def newModeMismatchError_def ref_code_def)
  moreover have "\<exists>e. httpsTree p = Inl e" by (simp add: httpsTree_def)
  moreover have rt: "ResolveTree E ref = fst (backendFor E (pa_scheme p)) p" "ResolveFile E ref = snd (backendFor E (pa_scheme p)) p"
    using Inr by (simp_all add: ResolveTree_def ResolveFile_def)
  moreover have "backendFor E (pa_scheme p) = (localTree E, localFile E) \<or> backendFor E (pa_scheme p) = (httpsTree, fetchHTTPS E) \<or>
      (\<exists>e. fst (backendFor E (pa_scheme p)) p = Inl e \<and> snd (backendFor E (pa_scheme p)) p = Inl e \<and> ref_code e)"
    by (auto simp: backendFor_def not_implemented_def)
  ultimately show ?thesis
    using tree lf by (elim disjE exE conjE) (auto split: sum.split)
qed

subsection \<open>Instances\<close>

text \<open>A directory with one file and one symlink to a file beside it.\<close>

definition sample_ref :: ref_env where
  "sample_ref =
     \<lparr>re_abs = (\<lambda>p. Inr ''/w/pack''), re_is_dir = (\<lambda>p. Inr (p = ''/w/pack'')), re_is_regular = (\<lambda>p. Inr True),
      re_read = (\<lambda>p. Inr ''kind: B''),
      re_eval_symlinks = (\<lambda>p. Inr (if p = ''/w/pack'' then ''/w/pack'' else ''/w/pack/b.yaml'')),
      re_open_root = (\<lambda>p. None),
      re_walk = (\<lambda>p. [(''.'', TDir, None), (''a.yaml'', TRegular, None), (''l.yaml'', TSymlink, None)]),
      re_root_read = (\<lambda>r n. Inr ''kind: A''), re_ctx = (\<lambda>n. None), re_get = (\<lambda>u. HttpFailed (Plain ''offline'')),
      re_sha256 = (\<lambda>s. s)\<rparr>"

lemma sample_ref_clean: "evals_clean sample_ref"
  by (simp add: evals_clean_def sample_ref_def clean_abs_def path_elements_def)

lemma sample_ref_uncoded: "os_uncoded sample_ref"
  by (simp add: os_uncoded_def sample_ref_def)

lemma sample_ref_walks: "walks_tree sample_ref"
  by (simp add: walks_tree_def sample_ref_def file_names_def wf_tree_code entry_path_def)

lemma sample_ref_resolves:
  "\<exists>t. ResolveTree sample_ref ''./pack'' = Inr t \<and> pn_source (rt_pin t) = ''/w/pack'' \<and>
     rt_files t = [(''a.yaml'', ''kind: A''), (''l.yaml'', ''kind: B'')]"
proof -
  have "contains_target sample_ref ''/w/pack'' ''/w/pack/b.yaml'' = Inr True"
    by (simp add: contains_target_def sample_ref_def filepath_Rel_def path_elements_def)
  then have "visitSymlink sample_ref r ''/w/pack'' ''l.yaml'' = Inr (Some ''kind: B'')" for r
    by (simp add: visitSymlink_def) (simp add: sample_ref_def path_join_def)
  then have "visit_all sample_ref r ''/w/pack'' (re_walk sample_ref ''/w/pack'') [] =
      Inr [(''a.yaml'', ''kind: A''), (''l.yaml'', ''kind: B'')]" for r
    by (simp add: visit_def sample_ref_def)
  moreover have "localStat sample_ref p = Inr (''/w/pack'', True)" "re_open_root sample_ref r = None" for p r
    by (simp_all add: localStat_def sample_ref_def)
  ultimately show ?thesis
    by (simp add: ResolveTree_def parse_ref_def isLocalPath_def backendFor_def localTree_def walkLocalTree_def)
qed

theorem ResolveTree_contained_witness:
  "\<exists>target. link_inside sample_ref ''/w/pack'' ''l.yaml'' target"
proof -
  from sample_ref_resolves obtain t where t: "ResolveTree sample_ref ''./pack'' = Inr t" "pn_source (rt_pin t) = ''/w/pack''" by blast
  have "(''l.yaml'', TSymlink, None) \<in> set (re_walk sample_ref ''/w/pack'')" by (simp add: sample_ref_def)
  with ResolveTree_contained [OF sample_ref_clean t(1)] t(2) show ?thesis by auto
qed

theorem ResolveTree_snapshot_witness:
  "\<exists>t. ResolveTree sample_ref ''./pack'' = Inr t \<and>
     {p. (p, False, None) \<in> set (fs_walk (tree_FS t) ''.'')} = {''a.yaml'', ''l.yaml''}"
proof -
  from sample_ref_resolves obtain t where t: "ResolveTree sample_ref ''./pack'' = Inr t"
    "rt_files t = [(''a.yaml'', ''kind: A''), (''l.yaml'', ''kind: B'')]" by blast
  from ResolveTree_snapshot [OF sample_ref_walks t(1)] t show ?thesis by (intro exI [of _ t]) auto
qed

theorem Resolve_modes_codes_witness:
  "\<exists>e. ResolveFile sample_ref ''./pack'' = Inl e \<and> err_code e = Some ''CUBE-REF-006''"
proof -
  from sample_ref_resolves obtain t where "ResolveTree sample_ref ''./pack'' = Inr t" by blast
  with Resolve_modes_codes [OF sample_ref_uncoded, of "''./pack''"] show ?thesis
    by (cases "ResolveFile sample_ref ''./pack''") auto
qed

text \<open>A stand-in for the hash that keeps short contents apart.\<close>

definition sample_sha :: "string \<Rightarrow> string" where
  "sample_sha s = take 32 (s @ ''xxxxxxxxxxxxxxxxxxxxxxxxxxxxxxxx'')"

theorem treeDigest_identifies_witness:
  "\<exists>e. Verify \<lparr>pn_ref = ''./p'', pn_source = ''/p'', pn_digest = treeDigest sample_sha [(''a'', ''1'')]\<rparr>
     \<lparr>pn_ref = ''./p'', pn_source = ''/p'', pn_digest = treeDigest sample_sha [(''a'', ''2'')]\<rparr> = Some e \<and>
     err_code e = Some ''CUBE-REF-005''"
proof -
  have len: "length (sample_sha s) = 32" for s by (simp add: sample_sha_def)
  have "map (\<lambda>s. take 2 (sample_sha s)) [tree_manifest sample_sha [(''a'', ''1'')], tree_manifest sample_sha [(''a'', ''2'')], ''1'', ''2''] =
      [''31'', ''32'', ''1x'', ''2x'']"
    by code_simp
  then have "inj_on sample_sha ({tree_manifest sample_sha [(''a'', ''1'')], tree_manifest sample_sha [(''a'', ''2'')]} \<union>
      snd ` set [(''a'', ''1'')] \<union> snd ` set [(''a'', ''2'')])"
    by (auto simp: inj_on_def)
  from treeDigest_identifies [OF len _ _ _ _ this, where r = "''./p''" and r' = "''./p''" and s = "''/p''" and s' = "''/p''"]
  have v: "case Verify \<lparr>pn_ref = ''./p'', pn_source = ''/p'', pn_digest = treeDigest sample_sha [(''a'', ''1'')]\<rparr>
       \<lparr>pn_ref = ''./p'', pn_source = ''/p'', pn_digest = treeDigest sample_sha [(''a'', ''2'')]\<rparr> of
      None \<Rightarrow> map_of [(''a'', ''1'')] = map_of [(''a'', ''2'')]
    | Some e \<Rightarrow> map_of [(''a'', ''1'')] \<noteq> map_of [(''a'', ''2'')] \<and> err_code e = Some ''CUBE-REF-005''"
    by (simp add: no_newline_def)
  have "map_of [(''a'', ''1'')] ''a'' \<noteq> map_of [(''a'', ''2'')] ''a''" by simp
  then have "map_of [(''a'', ''1'')] \<noteq> map_of [(''a'', ''2'')]" by metis
  with v show ?thesis by (auto split: option.splits)
qed

end
