(* ===== verification/PackNew.thy ===== *)
theory PackNew
  imports PackRender Ref "HOL-Library.Multiset"
begin

section \<open>Creating packs (\<open>internal/pack\<close>: new.go, new\_chart.go, scaffolds.go)\<close>

text \<open>
  A new pack is assembled in memory, from a template, from another pack or from the metadata of a
  Helm chart, and then written to a directory that did not exist. The YAML and JSON codecs, CUE's
  formatter and the Unicode table behind \<open>regexp.Expand\<close> are fields of \<open>new_env\<close>. A
  path names the entry its clean form names.
\<close>

subsection \<open>Strings and paths\<close>

definition newline1 :: string where "newline1 = [CHR 0x0A]"
definition tab1 :: string where "tab1 = [CHR 0x09]"
definition lines_of :: "string list \<Rightarrow> string" where
  "lines_of ls = concat (map (\<lambda>l. l @ newline1) ls)"

text \<open>\<open>strings.ReplaceAll\<close> with a non-empty old string.\<close>

function replace_all :: "string \<Rightarrow> string \<Rightarrow> string \<Rightarrow> string" where
  "replace_all s old new =
     (if old = '''' then s
      else case cut s old of None \<Rightarrow> s | Some (a, b) \<Rightarrow> a @ new @ replace_all b old new)"
  by pat_completeness auto
termination
proof (relation "measure (\<lambda>(s, old, new). length s)")
  show "wf (measure (\<lambda>(s, old, new). length s))" by simp
next
  fix s old new :: string and x a b
  assume "old \<noteq> ''''" "cut s old = Some x" "(a, b) = x"
  then have "s = a @ old @ b" using cut_Some [of s old a b] by simp
  with \<open>old \<noteq> ''''\<close> show "((b, old, new), s, old, new) \<in> measure (\<lambda>(s, old, new). length s)" by simp
qed

declare replace_all.simps [simp del]

text \<open>\<open>filepath.Clean\<close> and \<open>filepath.Join\<close>; the elements are kept in reverse.\<close>

definition clean_push :: "bool \<Rightarrow> string \<Rightarrow> string list \<Rightarrow> string list" where
  "clean_push rooted e st =
     (if e = '''' \<or> e = ''.'' then st
      else if e = ''..'' then
        (case st of
           [] \<Rightarrow> if rooted then [] else [''..'']
         | t # ts \<Rightarrow> if t = ''..'' then ''..'' # st else ts)
      else e # st)"

definition clean_elements :: "bool \<Rightarrow> string \<Rightarrow> string list" where
  "clean_elements rooted p = rev (fold (clean_push rooted) (split_on CHR ''/'' p) [])"

definition path_clean :: "string \<Rightarrow> string" where
  "path_clean p =
     (if p = '''' then ''.''
      else if has_prefix p ''/'' then ''/'' @ join_with CHR ''/'' (clean_elements True p)
      else if clean_elements False p = [] then ''.''
      else join_with CHR ''/'' (clean_elements False p))"

definition filepath_Join :: "string \<Rightarrow> string \<Rightarrow> string" where
  "filepath_Join a b =
     (if a = '''' \<and> b = '''' then ''''
      else path_clean (if a = '''' then b else if b = '''' then a else a @ ''/'' @ b))"

subsection \<open>The file system calls\<close>

definition under :: "string \<Rightarrow> string \<Rightarrow> bool" where
  "under d p \<longleftrightarrow> p = d \<or> has_prefix p (d @ ''/'')"

text \<open>\<open>os.Mkdir\<close>: a directory that is a root, the current or a parent directory exists.\<close>

definition os_mkdir :: "os_env \<Rightarrow> string \<Rightarrow> fsys \<Rightarrow> fsys res" where
  "os_mkdir E dir fs =
     (let d = path_clean dir in
      if dir = '''' then Inl ErrNotExist
      else if path_last d \<in> {'''', ''.'', ''..''} \<or> exists_path fs d then Inl ErrExist
      else if call_fails E ''mkdir'' d then Inl (os_err ''mkdir'' d)
      else Inr (fs\<lparr>dirs := List.insert d (dirs fs)\<rparr>))"

text \<open>\<open>os.WriteFile\<close> creates or truncates the file, writes and closes it.\<close>

definition os_write_file :: "os_env \<Rightarrow> string \<Rightarrow> string \<Rightarrow> fsys \<Rightarrow> err option \<times> fsys" where
  "os_write_file E p data fs =
     (if call_fails E ''open'' p then (Some (os_err ''open'' p), fs)
      else case write_open E p data (fs\<lparr>files := AList.update p '''' (files fs)\<rparr>) of
          (Some e, fs') \<Rightarrow> (Some e, fs')
        | (None, fs') \<Rightarrow> (close_file E p, fs'))"

text \<open>\<open>os.RemoveAll\<close> removes what it can.\<close>

definition os_remove_all :: "os_env \<Rightarrow> string \<Rightarrow> fsys \<Rightarrow> fsys" where
  "os_remove_all E dir fs =
     (let gone = (\<lambda>p. under (path_clean dir) p \<and> \<not> call_fails E ''remove'' p) in
      \<lparr>files = filter (\<lambda>(p, data). \<not> gone p) (files fs), dirs = filter (\<lambda>p. \<not> gone p) (dirs fs)\<rparr>)"

subsection \<open>Inputs\<close>

record new_options =
  no_Dir :: string
  no_Name :: string
  no_Type :: string
  no_From :: string
  no_FromChart :: string

record chart_metadata =
  cm_Name :: string
  cm_Version :: string

record 'c new_env =
  ne_pack :: "'c pack_env"
  ne_ref :: "fsys \<Rightarrow> ref_env"
  ne_os :: os_env
  ne_chart_yaml :: "string \<Rightarrow> chart_metadata res"
  ne_values_yaml :: "string \<Rightarrow> obj option res"
  ne_format :: "string \<Rightarrow> string res"
  ne_json :: "val \<Rightarrow> string res"
  ne_word :: "nat \<Rightarrow> bool"

definition file_at :: "tree_files \<Rightarrow> string \<Rightarrow> string" where
  "file_at fs n = (case map_of fs n of None \<Rightarrow> '''' | Some d \<Rightarrow> d)"

subsection \<open>Scaffolds (\<open>scaffolds.go\<close>)\<close>

definition namePlaceholder :: string where "namePlaceholder = ''PACKNAME''"

definition chartPlaceholderURL :: string where
  "chartPlaceholderURL = ''https://charts.example.invalid/REPLACE-ME''"

definition scaffold_head :: "string \<Rightarrow> string list" where
  "scaffold_head t =
     [''// '' @ namePlaceholder @ '' '' @ em_dash @ '' scaffolded by cube-idp.'',
      ''name:    \"'' @ namePlaceholder @ ''\"'',
      ''version: \"0.1.0\"'',
      ''type:    \"'' @ t @ ''\"'', '''']"

definition configmap_lines :: "string \<Rightarrow> string list" where
  "configmap_lines greeting =
     [''apiVersion: v1'', ''kind: ConfigMap'', ''metadata:'', ''  name: '' @ namePlaceholder, ''data:'',
      ''  greeting: '' @ greeting]"

definition scaffolds :: "(string, tree_files) gomap" where
  "scaffolds =
     [(TypeRaw,
        [(MetadataFile, lines_of (scaffold_head TypeRaw @
            [''// A raw pack renders the manifests under manifests/ as they are written.'',
             ''// Values have no meaning for it: supplying any is a coded error, which is'',
             ''// why this pack declares no #Values.''])),
         (ManifestsDir @ ''/configmap.yaml'', lines_of (configmap_lines (''hello from '' @ namePlaceholder)))]),
      (TypeHelm,
        [(MetadataFile, lines_of (scaffold_head TypeHelm @
            [''// A helm pack delegates: it carries the chart's coordinates and never the'',
             ''// chart itself. Rendering it emits a Flux HelmRelease and its source CR.'',
             ''//'',
             ''// TODO: replace url, name, and version with the chart you mean to install.'',
             ''// The url below is a placeholder under a reserved host, so this pack renders'',
             ''// as written but installs nothing until you fill it in. For a chart published'',
             ''// as an OCI artifact, replace the whole block with:'',
             ''//   chart: {kind: \"oci\", url: \"oci://<host>/<path>\", version: \"1.0.0\"}'',
             ''chart: {'',
             tab1 @ ''kind:    \"repo\"'',
             tab1 @ ''url:     \"'' @ chartPlaceholderURL @ ''\"'',
             tab1 @ ''name:    \"'' @ namePlaceholder @ ''\"'',
             tab1 @ ''version: \"1.0.0\"'',
             ''}'', '''',
             ''// #Values is a closed definition: only the fields declared here may be'',
             ''// supplied, and each one's *default fills in when it is not. Helm values are'',
             ''// nested, and they reach the HelmRelease's spec.values exactly as written.'',
             ''#Values: {'',
             tab1 @ ''replicaCount: int | *1'',
             ''}'']))]),
      (TypeKustomize,
        [(MetadataFile, lines_of (scaffold_head TypeKustomize @
            [''// #Values is a closed definition: only the fields declared here may be'',
             ''// supplied, and each one's *default fills in when it is not. A kustomize'',
             ''// pack's values must be flat strings '' @ em_dash @ '' they are substituted into ${...}'',
             ''// references in the built output.'',
             ''#Values: {'',
             tab1 @ ''greeting: string | *\"hello\"'',
             ''}''])),
         (''kustomization.yaml'', lines_of [''resources:'', ''- configmap.yaml'']),
         (''configmap.yaml'', lines_of (configmap_lines ''${greeting}''))])]"

definition scaffoldableTypes :: "string list" where
  "scaffoldableTypes = sort (map fst scaffolds)"

subsection \<open>Forking (\<open>new.go\<close>)\<close>

definition scaffoldedFiles :: "'c new_env \<Rightarrow> string \<Rightarrow> string \<Rightarrow> tree_files res" where
  "scaffoldedFiles N name packType =
     (case map_of scaffolds packType of
        None \<Rightarrow> Inl (newScaffoldTypeUnsupportedError packType)
      | Some tmpl \<Rightarrow>
          (let fs = map (\<lambda>(n, body). (n, replace_all body namePlaceholder name)) tmpl
           in bindR (decodeMetadata (ne_pack N) (file_at fs MetadataFile)) (\<lambda>_. Inr fs)))"

fun read_events :: "gofs \<Rightarrow> walk_event list \<Rightarrow> tree_files \<Rightarrow> tree_files res" where
  "read_events fs [] acc = Inr acc"
| "read_events fs ((name, is_dir, err) # evs) acc =
     (case err of
        Some e \<Rightarrow> Inl e
      | None \<Rightarrow>
          if is_dir then read_events fs evs acc
          else (case fs_read fs name of
                  Inl e \<Rightarrow> Inl e
                | Inr data \<Rightarrow> read_events fs evs (AList.update name data acc)))"

definition readTree :: "gofs \<Rightarrow> string \<Rightarrow> tree_files res" where
  "readTree fs from =
     (case read_events fs (fs_walk fs ''.'') [] of
        Inl e \<Rightarrow> Inl (newForkFailedError from e)
      | Inr acc \<Rightarrow> Inr acc)"

text \<open>
  The regular expression \<open>nameField\<close> at the start of a line: the white space before the quoted
  string and what follows it. White space ends at the first quote and the string at the second,
  so there is one way to match.
\<close>

definition re_space :: "char \<Rightarrow> bool" where
  "re_space c \<longleftrightarrow> c \<in> {CHR 0x09, CHR 0x0A, CHR 0x0C, CHR 0x0D, CHR 0x20}"

definition match_name :: "string \<Rightarrow> (string \<times> string) option" where
  "match_name s =
     (if \<not> has_prefix s ''name:'' then None
      else let ws = takeWhile re_space (drop 5 s); r = dropWhile re_space (drop 5 s)
           in if r = '''' \<or> hd r \<noteq> CHR 0x22 then None
              else let q = dropWhile (\<lambda>c. c \<noteq> CHR 0x22) (tl r)
                   in if q = '''' \<or> (tl q \<noteq> '''' \<and> hd (tl q) \<noteq> CHR 0x0A) then None else Some (ws, tl q))"

lemma match_name_shorter: "match_name s = Some (ws, rest) \<Longrightarrow> length rest < length s"
proof -
  assume m: "match_name s = Some (ws, rest)"
  let ?r = "dropWhile re_space (drop 5 s)" and ?q = "dropWhile (\<lambda>c. c \<noteq> CHR 0x22) (tl (dropWhile re_space (drop 5 s)))"
  from m have r: "rest = tl ?q" "?q \<noteq> ''''"
    by (auto simp: match_name_def Let_def split: if_splits)
  have "length ?q \<le> length (tl ?r)" "length ?r \<le> length (drop 5 s)"
    by (simp_all only: length_dropWhile_le)
  with r show ?thesis by (cases ?q) auto
qed

text \<open>\<open>ReplaceAll\<close> and the number of matches, from a position that starts a line or not.\<close>

function rename_lines :: "(string \<Rightarrow> string \<Rightarrow> string) \<Rightarrow> bool \<Rightarrow> string \<Rightarrow> string" where
  "rename_lines repl bol s =
     (if s = '''' then ''''
      else case (if bol then match_name s else None) of
          Some (ws, rest) \<Rightarrow> repl (take (length s - length rest) s) ws @ rename_lines repl False rest
        | None \<Rightarrow> hd s # rename_lines repl (hd s = CHR 0x0A) (tl s))"
  by pat_completeness auto
termination
  by (relation "measure (\<lambda>(repl, bol, s). length s)") (auto split: if_splits dest: match_name_shorter)

declare rename_lines.simps [simp del]

function name_fields :: "bool \<Rightarrow> string \<Rightarrow> nat" where
  "name_fields bol s =
     (if s = '''' then 0
      else case (if bol then match_name s else None) of
          Some (ws, rest) \<Rightarrow> Suc (name_fields False rest)
        | None \<Rightarrow> name_fields (hd s = CHR 0x0A) (tl s))"
  by pat_completeness auto
termination
  by (relation "measure (\<lambda>(bol, s). length s)") (auto split: if_splits dest: match_name_shorter)

declare name_fields.simps [simp del]

text \<open>
  \<open>regexp.Expand\<close>: a reference is \<open>$name\<close>, as long as possible, or \<open>${name}\<close>; there is no named
  group, so every other name than 0 and 1 is empty.
\<close>

definition word_chunk :: "(nat \<Rightarrow> bool) \<Rightarrow> string \<Rightarrow> bool" where
  "word_chunk word c =
     (let r = fst (decode_rune c) in
      if r < 128 then list_ex (\<lambda>x. is_lower x \<or> is_upper x \<or> is_digit x \<or> x = CHR ''_'') c else word r)"

definition extract_group :: "(nat \<Rightarrow> bool) \<Rightarrow> string \<Rightarrow> (string \<times> string) option" where
  "extract_group word s =
     (if s = '''' then None
      else let brace = hd s = CHR 0x7B; s1 = (if brace then tl s else s);
               nm = concat (takeWhile (word_chunk word) (rune_chunks s1)); rest = drop (length nm) s1
           in if nm = '''' then None
              else if \<not> brace then Some (nm, rest)
              else if rest \<noteq> '''' \<and> hd rest = CHR 0x7D then Some (nm, tl rest) else None)"

lemma extract_group_shorter: "extract_group word s = Some (nm, rest) \<Longrightarrow> length rest \<le> length s"
  by (auto simp: extract_group_def Let_def split: if_splits)

function re_expand :: "(nat \<Rightarrow> bool) \<Rightarrow> string \<Rightarrow> string \<Rightarrow> string \<Rightarrow> string" where
  "re_expand word template g0 g1 =
     (case cut template ''$'' of
        None \<Rightarrow> template
      | Some (a, t) \<Rightarrow>
          if t \<noteq> '''' \<and> hd t = CHR ''$'' then a @ ''$'' @ re_expand word (tl t) g0 g1
          else (case extract_group word t of
                  None \<Rightarrow> a @ ''$'' @ re_expand word t g0 g1
                | Some (nm, rest) \<Rightarrow>
                    a @ (if nm = ''0'' then g0 else if nm = ''1'' then g1 else '''') @ re_expand word rest g0 g1))"
  by pat_completeness auto
termination
proof (relation "measure (\<lambda>(word, template, g0, g1). length template)", goal_cases)
  case 1
  show ?case by simp
next
  case (2 word template g0 g1 x a t)
  then have "template = a @ ''$'' @ t" using cut_Some [of template "''$''" a t] by simp
  then show ?case by simp
next
  case (3 word template g0 g1 x a t)
  then have "template = a @ ''$'' @ t" using cut_Some [of template "''$''" a t] by simp
  then show ?case by simp
next
  case (4 word template g0 g1 x a t y nm rest)
  then have "template = a @ ''$'' @ t" "length rest \<le> length t"
    using cut_Some [of template "''$''" a t] extract_group_shorter [of word t nm rest] by simp_all
  then show ?case by simp
qed

declare re_expand.simps [simp del]

definition renamed_source :: "(nat \<Rightarrow> bool) \<Rightarrow> string \<Rightarrow> string \<Rightarrow> string" where
  "renamed_source word name src = rename_lines (re_expand word (''name:${1}\"'' @ name @ ''\"'')) True src"

definition renamePack :: "'c new_env \<Rightarrow> tree_files \<Rightarrow> string \<Rightarrow> string \<Rightarrow> tree_files res" where
  "renamePack N fs name from =
     (let src = file_at fs MetadataFile in
      bindR (decodeMetadata (ne_pack N) src) (\<lambda>(meta, _).
        if name = '''' \<or> md_name meta = name then Inr fs
        else if name_fields True src = 0 then Inl (newForkRenameError from name)
        else let renamed = renamed_source (ne_word N) name src
             in case decodeMetadata (ne_pack N) renamed of
                  Inl e \<Rightarrow> Inl (newForkRenameError from name)
                | Inr (got, _) \<Rightarrow>
                    if md_name got \<noteq> name then Inl (newForkRenameError from name)
                    else Inr (AList.update MetadataFile renamed fs)))"

definition forkedFiles :: "'c new_env \<Rightarrow> fsys \<Rightarrow> string \<Rightarrow> string \<Rightarrow> tree_files res" where
  "forkedFiles N fs name from =
     (case ResolveTree (ne_ref N fs) from of
        Inl e \<Rightarrow> Inl (Wrapf ''--from'' e)
      | Inr tree \<Rightarrow>
          bindR (Load (ne_pack N) (tree_FS tree) from) (\<lambda>_.
          bindR (readTree (tree_FS tree) from) (\<lambda>fs.
            renamePack N fs name from)))"

subsection \<open>Packs from charts (\<open>new\_chart.go\<close>)\<close>

definition newSourceConflictError :: err where
  "newSourceConflictError = wrap PackErrors.CodeScaffoldFailed [] None"

definition newChartSourceError :: "string \<Rightarrow> err \<Rightarrow> err" where
  "newChartSourceError chartDir cause = wrap PackErrors.CodeScaffoldFailed [chartDir] (Some cause)"

text \<open>The cause is an argument the constructor drops.\<close>

definition newChartValuesError :: "string \<Rightarrow> err \<Rightarrow> err" where
  "newChartValuesError chartDir cause = wrap PackErrors.CodeScaffoldFailed [''values.yaml'', chartDir] None"

definition newChartVersionUnusableError :: "string \<Rightarrow> string \<Rightarrow> err" where
  "newChartVersionUnusableError chartDir version = wrap PackErrors.CodeScaffoldFailed [chartDir, version] None"

definition chartFile :: string where "chartFile = ''Chart.yaml''"
definition valuesFile :: string where "valuesFile = ''values.yaml''"
definition scaffoldPackVersion :: string where "scaffoldPackVersion = ''0.1.0''"

definition readChartDir :: "'c new_env \<Rightarrow> fsys \<Rightarrow> string \<Rightarrow> (chart_metadata \<times> obj) res" where
  "readChartDir N fs chartDir =
     (case read_file (ne_os N) (filepath_Join chartDir chartFile) fs of
        Inl e \<Rightarrow> Inl (newChartSourceError chartDir e)
      | Inr raw \<Rightarrow>
     (case ne_chart_yaml N raw of
        Inl e \<Rightarrow> Inl (newChartSourceError chartDir e)
      | Inr meta \<Rightarrow>
          if cm_Name meta = '''' \<or> cm_Version meta = ''''
          then Inl (newChartSourceError chartDir (Plain (chartFile @ '' declares no name and version'')))
          else (case read_file (ne_os N) (filepath_Join chartDir valuesFile) fs of
             Inl e \<Rightarrow> Inr (meta, [])
           | Inr raw \<Rightarrow>
               (case ne_values_yaml N raw of
                  Inl e \<Rightarrow> Inl (newChartValuesError chartDir e)
                | Inr values \<Rightarrow> Inr (meta, case values of None \<Rightarrow> [] | Some m \<Rightarrow> m)))))"

definition cueKind :: "val \<Rightarrow> string" where
  "cueKind v =
     (case v of
        VNull \<Rightarrow> ''_''
      | VBool b \<Rightarrow> ''bool''
      | VStr s \<Rightarrow> ''string''
      | VFloat m e \<Rightarrow> if whole m e \<and> \<bar>trunc m e\<bar> \<le> maxExactInt then ''int'' else ''number''
      | VArr xs \<Rightarrow> ''[...]''
      | _ \<Rightarrow> ''_'')"

text \<open>\<open>cueIdent\<close> and \<open>cueKey\<close>.\<close>

definition ident_start :: "char \<Rightarrow> bool" where
  "ident_start c \<longleftrightarrow> is_lower c \<or> is_upper c \<or> c = CHR ''_''"

definition cueIdent :: "string \<Rightarrow> bool" where
  "cueIdent key \<longleftrightarrow> key \<noteq> '''' \<and> ident_start (hd key) \<and> list_all (\<lambda>c. ident_start c \<or> is_digit c) (tl key)"

definition cue_keywords :: "string list" where
  "cue_keywords = [''package'', ''import'', ''if'', ''for'', ''in'', ''let'', ''null'', ''true'', ''false'']"

definition cueKey :: "(nat \<Rightarrow> bool) \<Rightarrow> string \<Rightarrow> string" where
  "cueKey print key = (if \<not> cueIdent key \<or> key \<in> set cue_keywords then go_quote print key else key)"

text \<open>The lines of a struct, from the texts of its values; \<open>values[key]\<close> is looked up before sorting.\<close>

definition field_lines :: "(nat \<Rightarrow> bool) \<Rightarrow> string \<Rightarrow> (string \<times> string) list \<Rightarrow> string" where
  "field_lines print indent entries =
     concat (map (\<lambda>(key, t). indent @ cueKey print key @ ''?: '' @ t @ newline1) (sort_key fst entries))"

fun cueValue :: "(nat \<Rightarrow> bool) \<Rightarrow> (val \<Rightarrow> string res) \<Rightarrow> string \<Rightarrow> val \<Rightarrow> string" where
  "cueValue print json indent (VObj m) =
     ''{'' @ newline1 @
     field_lines print (indent @ tab1) (map (\<lambda>(key, v). (key, cueValue print json (indent @ tab1) v)) m) @
     indent @ tab1 @ ''...'' @ newline1 @ indent @ ''}''"
| "cueValue print json indent VNull = cueKind VNull"
| "cueValue print json indent v =
     (case json v of Inl e \<Rightarrow> cueKind v | Inr encoded \<Rightarrow> cueKind v @ '' | *'' @ encoded)"

definition cueFields :: "(nat \<Rightarrow> bool) \<Rightarrow> (val \<Rightarrow> string res) \<Rightarrow> obj \<Rightarrow> string \<Rightarrow> string" where
  "cueFields print json values indent =
     field_lines print indent (map (\<lambda>(key, v). (key, cueValue print json indent v)) values)"

definition derivedValuesCUE :: "(nat \<Rightarrow> bool) \<Rightarrow> (val \<Rightarrow> string res) \<Rightarrow> obj \<Rightarrow> string" where
  "derivedValuesCUE print json values =
     lines_of
       [''// #Values is a closed definition: only the fields declared here may be'',
        ''// supplied. It was DERIVED from the chart's values.yaml and is a lossy'',
        ''// starting point, not a contract:'',
        ''//   - every field is optional, and nested structs are left open (...),'',
        ''//     so nothing the chart accepts is forbidden;'',
        ''//   - types and defaults are whatever the chart's own defaults happened'',
        ''//     to be '' @ em_dash @ '' a list of one string reads as a list of strings.'',
        ''// Narrow it to the surface this pack means to expose: make fields'',
        ''// required, tighten types, close sub-structs, delete what is not yours.'',
        ''#Values: {''] @
     cueFields print json values tab1 @ ''}'' @ newline1"

definition chartPackCUE :: "(nat \<Rightarrow> bool) \<Rightarrow> (val \<Rightarrow> string res) \<Rightarrow> string \<Rightarrow> chart_metadata \<Rightarrow> obj \<Rightarrow> string" where
  "chartPackCUE print json packName meta values =
     lines_of
       [''// '' @ packName @ '' '' @ em_dash @ '' scaffolded by cube-idp from the '' @ cm_Name meta @ '' chart.'',
        ''name:    '' @ go_quote print packName,
        ''version: '' @ go_quote print scaffoldPackVersion,
        ''type:    \"helm\"'', '''',
        ''// TODO: replace url with the repository this chart is published under.'',
        ''// A local directory does not say where a chart is published, so this is a'',
        ''// placeholder: the host is reserved and can never resolve. For a chart'',
        ''// published as an OCI artifact, replace the whole block with:'',
        ''//   chart: {kind: \"oci\", url: \"oci://<host>/<path>\", version: \"...\"}'',
        ''chart: {'',
        tab1 @ ''kind:    '' @ go_quote print ChartKindRepo,
        tab1 @ ''url:     '' @ go_quote print chartPlaceholderURL,
        tab1 @ ''name:    '' @ go_quote print (cm_Name meta),
        tab1 @ ''version: '' @ go_quote print (cm_Version meta),
        ''}'', ''''] @
     derivedValuesCUE print json values"

fun firstNonEmpty :: "string list \<Rightarrow> string" where
  "firstNonEmpty [] = ''''"
| "firstNonEmpty (v # vs) = (if v \<noteq> '''' then v else firstNonEmpty vs)"

definition chartScaffoldedFiles :: "'c new_env \<Rightarrow> fsys \<Rightarrow> string \<Rightarrow> string \<Rightarrow> string \<Rightarrow> tree_files res" where
  "chartScaffoldedFiles N fs name dir chartDir =
     bindR (readChartDir N fs chartDir) (\<lambda>(meta, values).
       case checkChartVersion (pe_canonical (ne_pack N)) (cm_Version meta) of
         Some e \<Rightarrow> Inl (newChartVersionUnusableError chartDir (cm_Version meta))
       | None \<Rightarrow>
           (let packName = firstNonEmpty [name, cm_Name meta, path_base dir] in
            case ne_format N (chartPackCUE (is_print (ne_os N)) (ne_json N) packName meta values) of
              Inl e \<Rightarrow> Inl (newChartValuesError chartDir e)
            | Inr src \<Rightarrow> bindR (decodeMetadata (ne_pack N) src) (\<lambda>_. Inr [(MetadataFile, src)])))"

subsection \<open>Creating the directory (\<open>new.go\<close>)\<close>

definition newPackFiles :: "'c new_env \<Rightarrow> fsys \<Rightarrow> new_options \<Rightarrow> tree_files res" where
  "newPackFiles N fs opts =
     (if no_From opts \<noteq> '''' \<and> no_FromChart opts \<noteq> '''' then Inl newSourceConflictError
      else if no_From opts \<noteq> '''' then forkedFiles N fs (no_Name opts) (no_From opts)
      else if no_FromChart opts \<noteq> '''' then chartScaffoldedFiles N fs (no_Name opts) (no_Dir opts) (no_FromChart opts)
      else scaffoldedFiles N (if no_Name opts = '''' then path_base (no_Dir opts) else no_Name opts)
             (if no_Type opts = '''' then TypeRaw else no_Type opts))"

definition cleanupTree :: "os_env \<Rightarrow> string \<Rightarrow> err \<Rightarrow> fsys \<Rightarrow> err option \<times> fsys" where
  "cleanupTree E dir cause fs = (Some (newScaffoldFailedError dir cause), os_remove_all E dir fs)"

fun write_files :: "os_env \<Rightarrow> string \<Rightarrow> tree_files \<Rightarrow> string list \<Rightarrow> fsys \<Rightarrow> err option \<times> fsys" where
  "write_files E dir content [] fs = (None, fs)"
| "write_files E dir content (name # names) fs =
     (let full = filepath_Join dir name in
      case mkdir_all E (path_dir full) fs of
        Inl e \<Rightarrow> cleanupTree E dir e fs
      | Inr fs1 \<Rightarrow>
          (case os_write_file E full (file_at content name) fs1 of
             (Some e, fs2) \<Rightarrow> cleanupTree E dir e fs2
           | (None, fs2) \<Rightarrow> write_files E dir content names fs2))"

definition writeTree :: "os_env \<Rightarrow> string \<Rightarrow> tree_files \<Rightarrow> fsys \<Rightarrow> err option \<times> fsys" where
  "writeTree E dir content fs =
     (case os_mkdir E dir fs of
        Inl e \<Rightarrow> (Some (if e = ErrExist then newTargetExistsError dir else newScaffoldFailedError dir e), fs)
      | Inr fs1 \<Rightarrow> write_files E dir content (sort (map fst content)) fs1)"

definition New_pack :: "'c new_env \<Rightarrow> new_options \<Rightarrow> fsys \<Rightarrow> err option \<times> fsys" where
  "New_pack N opts fs =
     (case pe_cancelled (ne_pack N) of
        Some e \<Rightarrow> (Some e, fs)
      | None \<Rightarrow>
          (case newPackFiles N fs opts of
             Inl e \<Rightarrow> (Some e, fs)
           | Inr content \<Rightarrow> writeTree (ne_os N) (no_Dir opts) content fs))"

subsection \<open>What renaming changes\<close>

lemma cut_dollar: "CHR ''$'' \<notin> set s \<Longrightarrow> cut s ''$'' = None"
  by (simp add: cut_char_None_iff)

lemma re_expand_plain: "CHR ''$'' \<notin> set s \<Longrightarrow> re_expand word s g0 g1 = s"
  by (simp add: re_expand.simps [of word s] cut_dollar)

lemma rune_chunks_Cons_ascii: "ascii c \<Longrightarrow> rune_chunks (c # cs) = [c] # rune_chunks cs"
  by (simp add: ascii_def)

text \<open>The replacement text, for a name that is not itself a template.\<close>

lemma re_expand_name:
  assumes "CHR ''$'' \<notin> set name"
  shows "re_expand word (''name:${1}\"'' @ name @ ''\"'') g0 ws = ''name:'' @ ws @ ''\"'' @ name @ ''\"''"
proof -
  let ?q = "''\"'' @ name @ ''\"''"
  have c: "cut (''name:${1}\"'' @ name @ ''\"'') ''$'' = Some (''name:'', ''{1}'' @ ?q)"
    by simp
  have "rune_chunks (''1}'' @ ?q) = ''1'' # ''}'' # rune_chunks ?q"
    by (simp add: rune_chunks_Cons_ascii ascii_def)
  then have "extract_group word (''{1}'' @ ?q) = Some (''1'', ?q)"
    by (simp add: extract_group_def word_chunk_def Let_def is_lower_def is_upper_def is_digit_def)
  moreover have "re_expand word ?q g0 ws = ?q" by (rule re_expand_plain) (use assms in simp)
  ultimately show ?thesis
    by (subst re_expand.simps) (simp add: c)
qed

lemma match_name_Some:
  assumes "match_name s = Some (ws, rest)"
  shows "\<exists>old. s = ''name:'' @ ws @ ''\"'' @ old @ ''\"'' @ rest \<and> CHR 0x22 \<notin> set old \<and>
    list_all re_space ws \<and> (rest = '''' \<or> hd rest = CHR 0x0A)"
proof -
  let ?r = "dropWhile re_space (drop 5 s)"
  let ?q = "dropWhile (\<lambda>c. c \<noteq> CHR 0x22) (tl ?r)"
  from assms have a: "has_prefix s ''name:''" "ws = takeWhile re_space (drop 5 s)" "?r \<noteq> ''''" "hd ?r = CHR 0x22"
    "?q \<noteq> ''''" "rest = tl ?q" "rest = '''' \<or> hd rest = CHR 0x0A"
    by (auto simp: match_name_def Let_def split: if_splits)
  have "s = ''name:'' @ drop 5 s" using a(1) by (auto simp: has_prefix_alt)
  moreover have "drop 5 s = ws @ ?r" unfolding a(2) by simp
  moreover have "?r = CHR 0x22 # tl ?r" using a(3,4) by (cases ?r) auto
  moreover have "tl ?r = takeWhile (\<lambda>c. c \<noteq> CHR 0x22) (tl ?r) @ ?q" by simp
  moreover have "?q = CHR 0x22 # rest"
    using a(5,6) hd_dropWhile [of "\<lambda>c. c \<noteq> CHR 0x22" "tl ?r"] by (cases ?q) auto
  ultimately have "s = ''name:'' @ ws @ ''\"'' @ takeWhile (\<lambda>c. c \<noteq> CHR 0x22) (tl ?r) @ ''\"'' @ rest"
    by (metis append.assoc append_Cons append_Nil)
  moreover have "CHR 0x22 \<notin> set (takeWhile (\<lambda>c. c \<noteq> CHR 0x22) (tl ?r))"
    by (auto dest: set_takeWhileD)
  moreover have "list_all re_space ws" unfolding a(2) by (auto simp: list_all_iff dest: set_takeWhileD)
  ultimately show ?thesis using a(7) by blast
qed

text \<open>
  A document as the text between its name fields: what precedes a field, the field's white space
  and its quoted string.
\<close>

definition with_names :: "(string \<times> string \<times> string) list \<Rightarrow> string \<Rightarrow> string" where
  "with_names segs rest = concat (map (\<lambda>(pre, ws, old). pre @ ''name:'' @ ws @ ''\"'' @ old @ ''\"'') segs) @ rest"

text \<open>
  Every field stands at the start of a line: what precedes it is empty, where the text itself
  starts a line, or ends with a newline. Its parts are white space and a string without quotes.
\<close>

definition top_level :: "bool \<Rightarrow> (string \<times> string \<times> string) list \<Rightarrow> bool" where
  "top_level bol segs \<longleftrightarrow>
     (\<forall>i < length segs. let before = with_names (take i segs) (fst (segs ! i))
        in if before = '''' then bol else last before = CHR 0x0A) \<and>
     (\<forall>(pre, ws, old) \<in> set segs. list_all re_space ws \<and> CHR 0x22 \<notin> set old)"

lemma with_names_Cons:
  "with_names ((pre, ws, old) # segs) rest = pre @ ''name:'' @ ws @ ''\"'' @ old @ ''\"'' @ with_names segs rest"
  by (simp add: with_names_def)

lemma top_level_shift:
  assumes "top_level (c = CHR 0x0A) ((pre, x) # segs)"
  shows "top_level bol ((c # pre, x) # segs)"
proof -
  have w: "with_names (take i ((c # pre, x) # segs)) (fst (((c # pre, x) # segs) ! i)) =
      c # with_names (take i ((pre, x) # segs)) (fst (((pre, x) # segs) ! i))" for i
    by (cases i; cases x) (simp_all add: with_names_def)
  show ?thesis
    using assms unfolding top_level_def w Let_def by (auto split: if_splits)
qed

lemma top_level_Cons:
  assumes "top_level False segs" "list_all re_space ws" "CHR 0x22 \<notin> set old"
  shows "top_level True (('''', ws, old) # segs)"
proof -
  have "let before = with_names (take i (('''', ws, old) # segs)) (fst ((('''', ws, old) # segs) ! i))
      in if before = '''' then True else last before = CHR 0x0A" if "i < Suc (length segs)" for i
  proof (cases i)
    case (Suc k)
    with that assms(1) have "with_names (take k segs) (fst (segs ! k)) \<noteq> '''' \<and>
        last (with_names (take k segs) (fst (segs ! k))) = CHR 0x0A"
      by (auto simp: top_level_def Let_def split: if_splits)
    then show ?thesis by (simp add: Suc with_names_Cons)
  qed (simp add: with_names_def)
  with assms show ?thesis by (auto simp: top_level_def)
qed

lemma rename_lines_shape:
  assumes "\<And>g0 ws. repl g0 ws = ''name:'' @ ws @ ''\"'' @ name @ ''\"''"
  shows "\<exists>segs rest. s = with_names segs rest \<and> length segs = name_fields bol s \<and> top_level bol segs \<and>
    rename_lines repl bol s = with_names (map (\<lambda>(pre, ws, old). (pre, ws, name)) segs) rest"
proof (induction bol s rule: name_fields.induct)
  case (1 bol s)
  show ?case
  proof (cases "s = ''''")
    case True
    then show ?thesis
      by (intro exI [of _ "[]"] exI [of _ "''''"]) (simp add: with_names_def rename_lines.simps name_fields.simps top_level_def)
  next
    case False
    show ?thesis
    proof (cases "if bol then match_name s else None")
      case None
      from "1.IH"(1) [OF False None] obtain segs rest where ih: "tl s = with_names segs rest"
        "length segs = name_fields (hd s = CHR 0x0A) (tl s)" "top_level (hd s = CHR 0x0A) segs"
        "rename_lines repl (hd s = CHR 0x0A) (tl s) = with_names (map (\<lambda>(pre, ws, old). (pre, ws, name)) segs) rest" by blast
      let ?segs = "case segs of [] \<Rightarrow> [] | (pre, x) # ss \<Rightarrow> (hd s # pre, x) # ss"
      let ?rest = "case segs of [] \<Rightarrow> hd s # rest | _ \<Rightarrow> rest"
      have e: "with_names ?segs ?rest = hd s # with_names segs rest"
        "with_names (map (\<lambda>(pre, ws, old). (pre, ws, name)) ?segs) ?rest =
           hd s # with_names (map (\<lambda>(pre, ws, old). (pre, ws, name)) segs) rest"
        by (auto simp: with_names_def split: list.split)
      have "s = hd s # tl s" using False by simp
      with e(1) ih(1) have "s = with_names ?segs ?rest" by simp
      moreover have "length ?segs = name_fields bol s"
        using ih(2) None False by (auto simp: name_fields.simps [of bol s] split: list.split)
      moreover have "rename_lines repl bol s = with_names (map (\<lambda>(pre, ws, old). (pre, ws, name)) ?segs) ?rest"
        unfolding e(2) using ih(4) None False by (simp add: rename_lines.simps [of repl bol s])
      moreover have "top_level bol ?segs"
        using ih(3) top_level_shift by (auto simp: top_level_def [of _ "[]"] split: list.split)
      ultimately show ?thesis by blast
    next
      case (Some x)
      obtain ws rest where x: "x = (ws, rest)" by (cases x)
      with Some have m: "match_name s = Some (ws, rest)" by (simp split: if_splits)
      from match_name_Some [OF this] obtain old where s: "s = ''name:'' @ ws @ ''\"'' @ old @ ''\"'' @ rest"
        "list_all re_space ws" "CHR 0x22 \<notin> set old" by blast
      from "1.IH"(2) [OF False Some x [symmetric]] obtain segs rest' where ih: "rest = with_names segs rest'"
        "length segs = name_fields False rest" "top_level False segs"
        "rename_lines repl False rest = with_names (map (\<lambda>(pre, ws, old). (pre, ws, name)) segs) rest'" by blast
      have "s = with_names (('''', ws, old) # segs) rest'" unfolding s(1) ih(1) by (simp add: with_names_def)
      moreover have "length (('''', ws, old) # segs) = name_fields bol s"
        using ih(2) Some x False by (simp add: name_fields.simps [of bol s])
      moreover have "rename_lines repl bol s =
          with_names (map (\<lambda>(pre, ws, old). (pre, ws, name)) (('''', ws, old) # segs)) rest'"
        using ih(4) Some x False by (simp add: rename_lines.simps [of repl bol s] assms with_names_def)
      moreover have "top_level bol (('''', ws, old) # segs)"
        using top_level_Cons [OF ih(3) s(2,3)] Some by (simp split: if_splits)
      ultimately show ?thesis by blast
    qed
  qed
qed

lemma renamed_source_shape:
  assumes "CHR ''$'' \<notin> set name"
  shows "\<exists>segs rest. src = with_names segs rest \<and> length segs = name_fields True src \<and> top_level True segs \<and>
    renamed_source word name src = with_names (map (\<lambda>(pre, ws, old). (pre, ws, name)) segs) rest"
  unfolding renamed_source_def by (rule rename_lines_shape) (rule re_expand_name [OF assms])

subsection \<open>What a fork is\<close>

lemma read_events_all:
  "distinct (map fst evs) \<Longrightarrow> \<forall>ev \<in> set evs. snd (snd ev) = None \<Longrightarrow>
   \<forall>p. (p, False, None) \<in> set evs \<longrightarrow> (\<exists>x. fs_read fs p = Inr x) \<Longrightarrow> wf_map acc \<Longrightarrow>
   \<exists>out. read_events fs evs acc = Inr out \<and> wf_map out \<and>
     (\<forall>p. map_of out p = (if (p, False, None) \<in> set evs then (case fs_read fs p of Inr x \<Rightarrow> Some x | Inl e \<Rightarrow> None)
        else map_of acc p))"
proof (induction evs arbitrary: acc)
  case (Cons ev evs)
  obtain n d where ev: "ev = (n, d, None)" using Cons.prems(2) by (cases ev) auto
  have fresh: "(n, x) \<notin> set evs" for x using Cons.prems(1) ev by force
  show ?case
  proof (cases d)
    case True
    with Cons.IH [of acc] Cons.prems ev show ?thesis by simp
  next
    case False
    with Cons.prems(3) ev obtain x where x: "fs_read fs n = Inr x" by auto
    from Cons.IH [of "AList.update n x acc"] Cons.prems obtain out where
      "read_events fs evs (AList.update n x acc) = Inr out" "wf_map out"
      "\<forall>p. map_of out p = (if (p, False, None) \<in> set evs then (case fs_read fs p of Inr x \<Rightarrow> Some x | Inl e \<Rightarrow> None)
        else map_of (AList.update n x acc) p)" by (auto simp: wf_map_update)
    with False x ev fresh show ?thesis by (intro exI [of _ out]) auto
  qed
qed simp

lemma read_events_read:
  "read_events fs evs acc = Inr out \<Longrightarrow> (p, False, None) \<in> set evs \<Longrightarrow> \<exists>x. fs_read fs p = Inr x"
  by (induction fs evs acc rule: read_events.induct) (auto split: option.splits if_splits sum.splits)

lemma readTree_of_reads:
  assumes "wf_tree fs" "\<forall>p \<in> dom (map_of fs). valid_utf8 p"
  shows "\<exists>out. readTree (tree_gofs fs) from = Inr out \<and> wf_map out \<and> map_of out = map_of fs"
proof -
  note f = treeFS_faithful [OF assms(1)]
  have met: "(p, False, None) \<in> set (fs_walk (tree_gofs fs) ''.'') \<longleftrightarrow> (\<exists>x. map_of fs p = Some x)" for p
    using f by blast
  have rd: "fs_read (tree_gofs fs) p = Inr x \<longleftrightarrow> map_of fs p = Some x" for p x using f assms(2) by blast
  from read_events_all [of "fs_walk (tree_gofs fs) ''.''" "tree_gofs fs" "[]"] f obtain out where
    o: "read_events (tree_gofs fs) (fs_walk (tree_gofs fs) ''.'') [] = Inr out" "wf_map out"
      "\<forall>p. map_of out p = (if (p, False, None) \<in> set (fs_walk (tree_gofs fs) ''.'')
         then (case fs_read (tree_gofs fs) p of Inr x \<Rightarrow> Some x | Inl e \<Rightarrow> None) else None)"
    by (auto simp: met rd)
  have "map_of out p = map_of fs p" for p
    using o(3) met [of p] rd [of p] by (cases "map_of fs p"; cases "fs_read (tree_gofs fs) p") auto
  with o(1,2) show ?thesis by (auto simp: readTree_def fun_eq_iff)
qed

text \<open>Reading a whole snapshot succeeds only when every file of it can be read, and gives all of it.\<close>

lemma readTree_snapshot:
  assumes "wf_tree fs" "readTree (tree_gofs fs) from = Inr out"
  shows "wf_map out \<and> map_of out = map_of fs"
proof -
  note f = treeFS_faithful [OF assms(1)]
  have "valid_utf8 p" if "p \<in> dom (map_of fs)" for p
  proof -
    from that f have "(p, False, None) \<in> set (fs_walk (tree_gofs fs) ''.'')" by blast
    with assms(2) read_events_read obtain x where "fs_read (tree_gofs fs) p = Inr x"
      unfolding readTree_def by (metis (no_types, lifting) Inl_Inr_False old.sum.exhaust old.sum.simps(5))
    with f show ?thesis by blast
  qed
  with readTree_of_reads [OF assms(1), of "from"] assms(2) show ?thesis by auto
qed

lemma renamePack_Inr:
  assumes "renamePack N fs name from = Inr out"
  shows "\<exists>m v. decodeMetadata (ne_pack N) (file_at out MetadataFile) = Inr (m, v) \<and> (name \<noteq> '''' \<longrightarrow> md_name m = name) \<and>
    (out = fs \<or> out = AList.update MetadataFile (renamed_source (ne_word N) name (file_at fs MetadataFile)) fs \<and>
       name \<noteq> '''' \<and> 0 < name_fields True (file_at fs MetadataFile))"
proof -
  let ?src = "file_at fs MetadataFile" and ?new = "renamed_source (ne_word N) name (file_at fs MetadataFile)"
  from assms obtain m v where m: "decodeMetadata (ne_pack N) ?src = Inr (m, v)"
    by (auto simp: renamePack_def Let_def res_simps)
  show ?thesis
  proof (cases "name = [] \<or> md_name m = name")
    case True
    with assms m have "out = fs" by (simp add: renamePack_def Let_def res_simps)
    with m True show ?thesis by auto
  next
    case False
    with assms m obtain got v' where "decodeMetadata (ne_pack N) ?new = Inr (got, v')" "md_name got = name"
      "out = AList.update MetadataFile ?new fs" "name_fields True ?src \<noteq> 0"
      by (auto simp: renamePack_def Let_def res_simps split: if_splits sum.splits)
    moreover from this(3) have "file_at out MetadataFile = ?new" by (simp add: file_at_def)
    ultimately show ?thesis using False by auto
  qed
qed

text \<open>
  C17. A fork is the pack it was asked for: the source loads as a pack, every file of it is there byte
  for byte and no other is, except that a requested name is written into the metadata, and the
  metadata that results decodes to that name; without a request nothing changes. The rewriting
  replaces the quoted string of every name field that the source has at the start of a line, and
  of none that stands elsewhere, and keeps all other text.
\<close>

theorem fork_faithful:
  assumes "walks_tree (ne_ref N fs)" and "forkedFiles N fs name from = Inr out"
  shows "\<exists>t p. ResolveTree (ne_ref N fs) from = Inr t \<and> Load (ne_pack N) (tree_FS t) from = Inr p \<and>
    (\<forall>n. n \<noteq> MetadataFile \<longrightarrow> map_of out n = map_of (rt_files t) n) \<and>
    (name = '''' \<longrightarrow> map_of out = map_of (rt_files t)) \<and>
    (\<exists>m v. decodeMetadata (ne_pack N) (file_at out MetadataFile) = Inr (m, v) \<and> (name \<noteq> '''' \<longrightarrow> md_name m = name)) \<and>
    (file_at out MetadataFile = file_at (rt_files t) MetadataFile \<or> CHR ''$'' \<in> set name \<or>
     (\<exists>segs rest. segs \<noteq> [] \<and> top_level True segs \<and> length segs = name_fields True (file_at (rt_files t) MetadataFile) \<and>
        file_at (rt_files t) MetadataFile = with_names segs rest \<and>
        file_at out MetadataFile = with_names (map (\<lambda>(pre, ws, old). (pre, ws, name)) segs) rest))"
proof -
  from assms(2) obtain t p copy where t: "ResolveTree (ne_ref N fs) from = Inr t"
    and p: "Load (ne_pack N) (tree_FS t) from = Inr p"
    and c: "readTree (tree_FS t) from = Inr copy" and r: "renamePack N copy name from = Inr out"
    by (auto simp: forkedFiles_def res_simps split: sum.splits)
  from readTree_snapshot [OF ResolveTree_wf [OF assms(1) t] c [unfolded tree_FS_def]]
  have m: "map_of copy = map_of (rt_files t)" by blast
  then have src: "file_at copy MetadataFile = file_at (rt_files t) MetadataFile" by (simp add: file_at_def)
  from renamePack_Inr [OF r] obtain md v where d: "decodeMetadata (ne_pack N) (file_at out MetadataFile) = Inr (md, v)"
    "name \<noteq> '''' \<longrightarrow> md_name md = name"
    "out = copy \<or> out = AList.update MetadataFile (renamed_source (ne_word N) name (file_at copy MetadataFile)) copy \<and>
       name \<noteq> '''' \<and> 0 < name_fields True (file_at copy MetadataFile)" by blast
  have body: "file_at out MetadataFile = file_at (rt_files t) MetadataFile \<or> CHR ''$'' \<in> set name \<or>
     (\<exists>segs rest. segs \<noteq> [] \<and> top_level True segs \<and> length segs = name_fields True (file_at (rt_files t) MetadataFile) \<and>
        file_at (rt_files t) MetadataFile = with_names segs rest \<and>
        file_at out MetadataFile = with_names (map (\<lambda>(pre, ws, old). (pre, ws, name)) segs) rest)"
  proof (cases "CHR ''$'' \<in> set name \<or> out = copy")
    case True
    with src show ?thesis by auto
  next
    case False
    with d(3) src have o: "file_at out MetadataFile = renamed_source (ne_word N) name (file_at (rt_files t) MetadataFile)"
      "0 < name_fields True (file_at (rt_files t) MetadataFile)" by (auto simp: file_at_def)
    from renamed_source_shape [of name "file_at (rt_files t) MetadataFile" "ne_word N"] False o
    show ?thesis by (metis length_greater_0_conv)
  qed
  have "\<forall>n. n \<noteq> MetadataFile \<longrightarrow> map_of out n = map_of (rt_files t) n" "name = '''' \<longrightarrow> map_of out = map_of (rt_files t)"
    using d(3) m by auto
  with t p d(1,2) body show ?thesis by blast
qed

subsection \<open>Paths below the new directory\<close>

lemma split_on_concat: "split_on d (a @ d # b) = split_on d a @ split_on d b"
  by (induction a) (auto split: list.split simp: Cons_eq_append_conv)

lemma join_with_append:
  "xs \<noteq> [] \<Longrightarrow> ys \<noteq> [] \<Longrightarrow> join_with d (xs @ ys) = join_with d xs @ d # join_with d ys"
proof (induction xs)
  case (Cons x xs)
  then show ?case by (cases "xs = []") (simp_all add: join_with_Cons)
qed simp

lemma fold_clean_push:
  "list_all (\<lambda>e. e \<noteq> '''' \<and> e \<noteq> ''.'' \<and> e \<noteq> ''..'') es \<Longrightarrow> fold (clean_push r) es st = rev es @ st"
  by (induction es arbitrary: st) (auto simp: clean_push_def)

lemma clean_elements_below:
  "entry_path n \<Longrightarrow> clean_elements r (dir @ ''/'' @ n) = clean_elements r dir @ split_on CHR ''/'' n"
  using fold_clean_push [of "split_on CHR ''/'' n"]
  by (auto simp: clean_elements_def entry_path_def split_on_concat)

lemma clean_join:
  assumes "dir \<noteq> ''''" "path_last (path_clean dir) \<notin> {'''', ''.''}" "entry_path n"
  shows "filepath_Join dir n = path_clean dir @ ''/'' @ n"
proof -
  have n: "n \<noteq> ''''" using assms(3) entry_path_ends(1) by auto
  note el = clean_elements_below [OF assms(3), of _ dir]
  have j: "S \<noteq> [] \<Longrightarrow> join_with CHR ''/'' (S @ split_on CHR ''/'' n) = join_with CHR ''/'' S @ ''/'' @ n" for S
    by (simp add: join_with_append)
  have f: "filepath_Join dir n = path_clean (dir @ ''/'' @ n)" using assms(1) n by (simp add: filepath_Join_def)
  show ?thesis
  proof (cases "has_prefix dir ''/''")
    case True
    then have root: "has_prefix (dir @ ''/'' @ n) ''/''" by (auto simp: has_prefix_alt)
    have "clean_elements True dir \<noteq> []"
      using assms(1,2) True by (auto simp: path_clean_def path_last_def)
    from j [OF this] show ?thesis
      unfolding f path_clean_def el using assms(1) True root by simp
  next
    case False
    then have root: "\<not> has_prefix (dir @ ''/'' @ n) ''/''" using assms(1) by (cases dir) auto
    have "clean_elements False dir \<noteq> []"
      using assms(1,2) False by (auto simp: path_clean_def path_last_def)
    with j [OF this] show ?thesis
      unfolding f path_clean_def el using assms(1) False root by simp
  qed
qed

lemma under_below [simp]: "under d (d @ ''/'' @ n)" "under d (d @ CHR ''/'' # n)"
  by (auto simp: under_def has_prefix_alt)

lemma path_dir_below:
  assumes "d \<noteq> ''''"
  shows "under d (path_dir (d @ ''/'' @ n))"
proof -
  define sd sn where "sd = split_on CHR ''/'' d" and "sn = split_on CHR ''/'' n"
  have s: "split_on CHR ''/'' (d @ ''/'' @ n) = sd @ sn" by (simp add: split_on_concat sd_def sn_def)
  have ne: "sd \<noteq> []" "sn \<noteq> []" by (simp_all add: sd_def sn_def)
  then have l: "length (sd @ sn) \<noteq> 1" "butlast (sd @ sn) = sd @ butlast sn"
    by (auto simp: butlast_append neq_Nil_conv)
  have d: "join_with CHR ''/'' sd = d" by (simp add: sd_def)
  have "join_with CHR ''/'' (sd @ butlast sn) = d \<or>
      (\<exists>x. join_with CHR ''/'' (sd @ butlast sn) = d @ ''/'' @ x)"
    using join_with_append [OF ne(1), of "butlast sn" "CHR ''/''"] d by (cases "butlast sn = []") auto
  moreover from this have "join_with CHR ''/'' (sd @ butlast sn) \<noteq> ''''" using assms by auto
  ultimately show ?thesis
    unfolding path_dir_def Let_def s l(2) using l(1) by (auto simp: under_def has_prefix_alt)
qed

subsection \<open>Writing the tree\<close>

text \<open>Outside \<open>d\<close> nothing differs.\<close>

definition same_outside :: "string \<Rightarrow> fsys \<Rightarrow> fsys \<Rightarrow> bool" where
  "same_outside d fs fs' \<longleftrightarrow>
     (\<forall>p. \<not> under d p \<longrightarrow> map_of (files fs') p = map_of (files fs) p \<and> (p \<in> set (dirs fs') \<longleftrightarrow> p \<in> set (dirs fs)))"

lemma same_outside_refl [simp]: "same_outside d fs fs"
  by (simp add: same_outside_def)

lemma same_outside_trans: "same_outside d a b \<Longrightarrow> same_outside d b c \<Longrightarrow> same_outside d a c"
  by (simp add: same_outside_def)

lemma write_file_outside:
  assumes "os_write_file E p data fs = (r, fs')" "under d p"
  shows "same_outside d fs fs'" "r = None \<Longrightarrow> map_of (files fs') = (map_of (files fs))(p \<mapsto> data) \<and> dirs fs' = dirs fs"
  using assms by (auto simp: os_write_file_def write_open_def same_outside_def fun_eq_iff split: if_splits)

lemma mkdir_all_outside:
  assumes "mkdir_all E p fs = Inr fs'" "under d p"
  shows "same_outside d fs fs'" "files fs' = files fs" "set (dirs fs') = insert p (set (dirs fs))"
  using assms by (auto simp: mkdir_all_def same_outside_def split: if_splits)

lemma map_of_filter_key: "map_of (filter (\<lambda>(p, x). Q p) m) k = (if Q k then map_of m k else None)"
  by (induction m) auto

lemma remove_all_outside: "same_outside (path_clean dir) fs (os_remove_all E dir fs)"
  by (simp add: os_remove_all_def same_outside_def Let_def map_of_filter_key)

lemma remove_all_gone:
  assumes "\<And>p. \<not> call_fails E ''remove'' p" "under (path_clean dir) p"
  shows "\<not> exists_path (os_remove_all E dir fs) p"
  using assms by (simp add: os_remove_all_def exists_path_def Let_def map_of_filter_key)

lemma cleanup_shape:
  "cleanupTree E dir e fs = (r, fs') \<longleftrightarrow> r = Some (newScaffoldFailedError dir e) \<and> fs' = os_remove_all E dir fs"
  by (auto simp: cleanupTree_def)

text \<open>What a loop over the names leaves: every named file, or an attempt to remove the directory.\<close>

lemma write_files_shape:
  assumes "dir \<noteq> ''''" "path_last (path_clean dir) \<notin> {'''', ''.''}"
  defines "d \<equiv> path_clean dir"
  shows "write_files E dir content names fs = (r, fs') \<Longrightarrow> \<forall>n \<in> set names. entry_path n \<Longrightarrow>
    (case r of
       None \<Rightarrow> same_outside d fs fs' \<and>
         (\<forall>p. map_of (files fs') p = (if p \<in> (\<lambda>n. d @ ''/'' @ n) ` set names
            then Some (file_at content (drop (length d + 1) p)) else map_of (files fs) p)) \<and>
         set (dirs fs') = set (dirs fs) \<union> (\<lambda>n. path_dir (d @ ''/'' @ n)) ` set names
     | Some e \<Rightarrow> \<exists>cause fs1. e = newScaffoldFailedError dir cause \<and> same_outside d fs fs1 \<and> fs' = os_remove_all E dir fs1)"
proof (induction names arbitrary: fs)
  case (Cons n names)
  have d: "d \<noteq> ''''" using assms(2) by (auto simp: d_def path_last_def)
  from Cons.prems(2) have full: "filepath_Join dir n = d @ ''/'' @ n"
    using clean_join [OF assms(1,2), of n] by (simp add: d_def)
  note pd = path_dir_below [OF d, of n]
  show ?case
  proof (cases "mkdir_all E (path_dir (d @ ''/'' @ n)) fs")
    case (Inl e)
    with Cons.prems(1) full show ?thesis by (auto simp: cleanup_shape intro: same_outside_refl)
  next
    case (Inr fs1)
    note m = mkdir_all_outside [OF Inr pd]
    obtain q fs2 where w: "os_write_file E (d @ ''/'' @ n) (file_at content n) fs1 = (q, fs2)" by force
    note o = write_file_outside [OF w under_below(1)]
    note out = same_outside_trans [OF m(1) o(1)]
    show ?thesis
    proof (cases q)
      case (Some e)
      with Cons.prems(1) full Inr w out show ?thesis by (auto simp: cleanup_shape)
    next
      case None
      with Cons.prems(1) full Inr w have r: "write_files E dir content names fs2 = (r, fs')" by simp
      note ih = Cons.IH [OF r]
      show ?thesis
      proof (cases r)
        case (Some e)
        with ih Cons.prems(2) out show ?thesis by (auto intro: same_outside_trans)
      next
        case rn: None
        from o(2) None m(2) have f: "map_of (files fs2) = (map_of (files fs))(d @ ''/'' @ n \<mapsto> file_at content n)"
          "dirs fs2 = dirs fs1" by auto
        from ih rn Cons.prems(2) have i: "same_outside d fs2 fs'"
          "map_of (files fs') p = (if p \<in> (\<lambda>n. d @ ''/'' @ n) ` set names
            then Some (file_at content (drop (length d + 1) p)) else map_of (files fs2) p)"
          "set (dirs fs') = set (dirs fs2) \<union> (\<lambda>n. path_dir (d @ ''/'' @ n)) ` set names" for p by simp_all
        have "map_of (files fs') p = (if p \<in> (\<lambda>n. d @ ''/'' @ n) ` set (n # names)
            then Some (file_at content (drop (length d + 1) p)) else map_of (files fs) p)" for p
          unfolding i(2) f(1) by auto
        with same_outside_trans [OF out i(1)] i(3) f(2) m(3) rn show ?thesis by auto
      qed
    qed
  qed
qed simp

subsection \<open>All or nothing\<close>

lemma child_names: "entry_path MetadataFile" "entry_path (ManifestsDir @ ''/configmap.yaml'')"
  "entry_path ''kustomization.yaml''" "entry_path ''configmap.yaml''"
  by (simp_all add: entry_path_def MetadataFile_def ManifestsDir_def)

lemma scaffold_names:
  assumes "map_of scaffolds t = Some tmpl"
  shows "wf_map tmpl" "n \<in> fst ` set tmpl \<Longrightarrow> entry_path n" "MetadataFile \<in> fst ` set tmpl"
  using assms child_names
  by (auto simp: scaffolds_def MetadataFile_def ManifestsDir_def split: if_splits)

text \<open>Whatever is assembled is a tree of files whose metadata decodes.\<close>

lemma newPackFiles_ok:
  assumes "walks_tree (ne_ref N fs)" "newPackFiles N fs opts = Inr content"
  shows "wf_map content" "n \<in> fst ` set content \<Longrightarrow> entry_path n"
    "\<exists>m v. decodeMetadata (ne_pack N) (file_at content MetadataFile) = Inr (m, v)"
proof -
  have s: "\<exists>tmpl m v. map_of scaffolds t = Some tmpl \<and>
      content = map (\<lambda>(n, body). (n, replace_all body namePlaceholder name)) tmpl \<and>
      decodeMetadata (ne_pack N) (file_at content MetadataFile) = Inr (m, v)"
    if "scaffoldedFiles N name t = Inr content" for name t
    using that by (auto simp: scaffoldedFiles_def res_simps Let_def split: option.splits)
  have c: "\<exists>src m v. content = [(MetadataFile, src)] \<and> decodeMetadata (ne_pack N) src = Inr (m, v)"
    if "chartScaffoldedFiles N fs name dir from = Inr content" for name dir "from"
    using that by (auto simp: chartScaffoldedFiles_def res_simps Let_def split: option.splits sum.splits)
  from assms(2) consider (fork) "forkedFiles N fs (no_Name opts) (no_From opts) = Inr content"
    | (chart) name dir "from" where "chartScaffoldedFiles N fs name dir from = Inr content"
    | (scaffold) name t where "scaffoldedFiles N name t = Inr content"
    unfolding newPackFiles_def by (metis Inl_Inr_False)
  then have "wf_map content \<and> (\<forall>n \<in> fst ` set content. entry_path n) \<and>
    (\<exists>m v. decodeMetadata (ne_pack N) (file_at content MetadataFile) = Inr (m, v))"
  proof cases
    case fork
    from fork obtain t copy where t: "ResolveTree (ne_ref N fs) (no_From opts) = Inr t"
      and c: "readTree (tree_FS t) (no_From opts) = Inr copy" and r: "renamePack N copy (no_Name opts) (no_From opts) = Inr content"
      by (auto simp: forkedFiles_def res_simps split: sum.splits)
    note w = ResolveTree_wf [OF assms(1) t]
    from readTree_snapshot [OF w c [unfolded tree_FS_def]] have m: "wf_map copy" "map_of copy = map_of (rt_files t)"
      by blast+
    have "fst ` set copy = fst ` set (rt_files t)"
      using m(2) by (metis dom_map_of_conv_image_fst)
    then have k: "n \<in> fst ` set copy \<Longrightarrow> entry_path n" for n
      using wf_tree_keys(1) [OF w] by simp
    from renamePack_Inr [OF r] obtain m' v where d: "decodeMetadata (ne_pack N) (file_at content MetadataFile) = Inr (m', v)"
      "content = copy \<or> (\<exists>x. content = AList.update MetadataFile x copy)" by blast
    from d(2) have "wf_map content \<and> (\<forall>n \<in> fst ` set content. entry_path n)"
      using m(1) k child_names(1)
      by (elim disjE exE) (simp_all add: wf_map_update dom_update)
    with d(1) show ?thesis by blast
  next
    case chart
    from c [OF this] show ?thesis using child_names(1) by (auto simp: file_at_def)
  next
    case scaffold
    from s [OF this] obtain tmpl m v where t: "map_of scaffolds t = Some tmpl"
      "content = map (\<lambda>(n, body). (n, replace_all body namePlaceholder name)) tmpl"
      "decodeMetadata (ne_pack N) (file_at content MetadataFile) = Inr (m, v)" by (elim exE conjE)
    have "map fst content = map fst tmpl" unfolding t(2) by (induction tmpl) auto
    then have "wf_map content" "fst ` set content = fst ` set tmpl"
      using scaffold_names(1) [OF t(1)] by (simp_all flip: set_map)
    with scaffold_names(2) [OF t(1)] t(3) show ?thesis by auto
  qed
  then show "wf_map content" "n \<in> fst ` set content \<Longrightarrow> entry_path n"
    "\<exists>m v. decodeMetadata (ne_pack N) (file_at content MetadataFile) = Inr (m, v)" by blast+
qed

text \<open>A directory that does not exist has nothing in it.\<close>

definition nothing_below :: "fsys \<Rightarrow> string \<Rightarrow> bool" where
  "nothing_below fs d \<longleftrightarrow> (\<forall>p. under d p \<longrightarrow> exists_path fs p \<longrightarrow> exists_path fs d)"

lemma writeTree_outcome:
  assumes "wf_map content" "\<forall>n \<in> fst ` set content. entry_path n" "\<And>p. \<not> call_fails E ''remove'' p"
    and "writeTree E dir content fs = (r, fs')"
  defines "d \<equiv> path_clean dir"
  assumes "nothing_below fs d"
  shows "case r of
      None \<Rightarrow> (\<forall>p. under d p \<longrightarrow> \<not> exists_path fs p) \<and> same_outside d fs fs' \<and>
        (\<forall>n. map_of (files fs') (d @ ''/'' @ n) = map_of content n) \<and>
        set (dirs fs') = insert d (set (dirs fs)) \<union> (\<lambda>n. path_dir (d @ ''/'' @ n)) ` fst ` set content
    | Some e \<Rightarrow> map_of (files fs') = map_of (files fs) \<and> set (dirs fs') = set (dirs fs)"
proof (cases "os_mkdir E dir fs")
  case (Inl e)
  with assms(4) show ?thesis by (auto simp: writeTree_def)
next
  case (Inr fs1)
  then have dir: "dir \<noteq> ''''" "path_last d \<notin> {'''', ''.''}" and new: "\<not> exists_path fs d"
    and fs1: "files fs1 = files fs" "set (dirs fs1) = insert d (set (dirs fs))"
    by (auto simp: os_mkdir_def d_def Let_def split: if_splits)
  from new assms(6) have fresh: "under d p \<Longrightarrow> \<not> exists_path fs p" for p by (auto simp: nothing_below_def)
  then have out1: "same_outside d fs fs1" using fs1 by (auto simp: same_outside_def under_def)
  from Inr assms(4) have w: "write_files E dir content (sort (map fst content)) fs1 = (r, fs')" by (simp add: writeTree_def)
  have names: "set (sort (map fst content)) = fst ` set content" by simp
  note s = write_files_shape [OF dir(1) dir(2) [unfolded d_def] w, unfolded names, OF assms(2), folded d_def]
  show ?thesis
  proof (cases r)
    case None
    with s have i: "same_outside d fs1 fs'"
      "\<forall>p. map_of (files fs') p = (if p \<in> (\<lambda>n. d @ ''/'' @ n) ` fst ` set content
            then Some (file_at content (drop (length d + 1) p)) else map_of (files fs1) p)"
      "set (dirs fs') = set (dirs fs1) \<union> (\<lambda>n. path_dir (d @ ''/'' @ n)) ` fst ` set content" by auto
    have "map_of (files fs') (d @ ''/'' @ n) = map_of content n" for n
    proof (cases "map_of content n")
      case None
      then have "d @ ''/'' @ n \<notin> (\<lambda>n. d @ ''/'' @ n) ` fst ` set content"
        by (auto simp: map_of_eq_None_iff)
      moreover have "map_of (files fs) (d @ ''/'' @ n) = None"
        using fresh [OF under_below(1)] by (simp add: exists_path_def)
      ultimately show ?thesis using i(2) fs1(1) None by simp
    next
      case (Some x)
      then have "n \<in> fst ` set content" by (metis domI dom_map_of_conv_image_fst)
      then have "d @ ''/'' @ n \<in> (\<lambda>n. d @ ''/'' @ n) ` fst ` set content" by blast
      with i(2) Some show ?thesis by (simp add: file_at_def)
    qed
    with None fresh same_outside_trans [OF out1 i(1)] i(3) fs1(2) show ?thesis by auto
  next
    case (Some e)
    with s obtain cause fs2 where c: "same_outside d fs1 fs2" "fs' = os_remove_all E dir fs2" by auto
    have o: "same_outside d fs fs'"
      using same_outside_trans [OF out1 same_outside_trans [OF c(1) remove_all_outside [of dir fs2 E, folded d_def]]] c(2) by simp
    have gone: "under d p \<Longrightarrow> \<not> exists_path fs' p" for p
      using remove_all_gone [OF assms(3), of dir p fs2] c(2) by (simp add: d_def)
    have "map_of (files fs') p = map_of (files fs) p \<and> (p \<in> set (dirs fs') \<longleftrightarrow> p \<in> set (dirs fs))" for p
      using o fresh [of p] gone [of p] by (cases "under d p") (auto simp: same_outside_def exists_path_def)
    with Some show ?thesis by (auto simp: fun_eq_iff)
  qed
qed

text \<open>
  C16. Creating a pack is all or nothing. When it succeeds, the directory did not exist, it now holds
  exactly the assembled files with their contents, the metadata among them decodes, and nothing
  outside it changed. When it fails, for whatever reason and at whatever point, the file system is
  as it was, provided that what was written can be removed again.
\<close>

theorem New_all_or_nothing:
  assumes "walks_tree (ne_ref N fs)" and "\<And>p. \<not> call_fails (ne_os N) ''remove'' p"
    and "nothing_below fs (path_clean (no_Dir opts))" and "New_pack N opts fs = (r, fs')"
  shows "case r of
      None \<Rightarrow> \<exists>content m v. newPackFiles N fs opts = Inr content \<and>
        decodeMetadata (ne_pack N) (file_at content MetadataFile) = Inr (m, v) \<and>
        (\<forall>p. under (path_clean (no_Dir opts)) p \<longrightarrow> \<not> exists_path fs p) \<and>
        (\<forall>n. map_of (files fs') (path_clean (no_Dir opts) @ ''/'' @ n) = map_of content n) \<and>
        same_outside (path_clean (no_Dir opts)) fs fs'
    | Some e \<Rightarrow> map_of (files fs') = map_of (files fs) \<and> set (dirs fs') = set (dirs fs)"
proof (cases "pe_cancelled (ne_pack N) = None \<and> (\<exists>content. newPackFiles N fs opts = Inr content)")
  case False
  with assms(4) show ?thesis by (auto simp: New_pack_def split: option.splits sum.splits)
next
  case True
  then obtain content where c: "newPackFiles N fs opts = Inr content" by blast
  with True assms(4) have w: "writeTree (ne_os N) (no_Dir opts) content fs = (r, fs')" by (simp add: New_pack_def)
  note ok = newPackFiles_ok [OF assms(1) c]
  from writeTree_outcome [OF ok(1) ballI [OF ok(2)] assms(2) w assms(3)] ok(3) c show ?thesis
    by (auto split: option.splits)
qed

subsection \<open>What is derived from a chart\<close>

lemma sort_key_unique:
  assumes "wf_map xs" "wf_map ys" "set xs = set ys"
  shows "sort_key fst xs = sort_key fst (ys :: (string \<times> 'a) list)"
proof (rule properties_for_sort_key)
  show "mset (sort_key fst ys) = mset xs"
    using assms by (metis distinct_map mset_sort set_eq_iff_mset_eq_distinct)
  have d: "wf_map (sort_key fst ys)"
    using assms(2) by (simp add: distinct_map)
  show "filter (\<lambda>y. fst x = fst y) (sort_key fst ys) = filter (\<lambda>y. fst x = fst y) xs" if "x \<in> set (sort_key fst ys)" for x
  proof -
    have "filter (\<lambda>y. fst x = fst y) zs = [x]" if "wf_map zs" "x \<in> set zs" for zs :: "(string \<times> 'a) list"
      using that by (induction zs) (auto simp: filter_empty_conv)
    moreover have "x \<in> set xs" using that assms(3) by simp
    ultimately show ?thesis using assms(1) that d by metis
  qed
  show "sorted (map fst (sort_key fst ys))" by simp
qed

text \<open>
  The same chart always scaffolds the same file: the text depends on the values as a map, not on
  the order in which the decoder or the map's iteration gives them.
\<close>

theorem cueFields_order:
  assumes "wf_map m" "wf_map m'" "map_of m = map_of m'"
  shows "cueFields print json m indent = cueFields print json m' indent"
proof -
  let ?f = "\<lambda>(key, v). (key, cueValue print json indent v)"
  have "set m = set m'" using assms map_of_eqI [of m m'] by (metis map_of_inject_set)
  moreover have keys: "map fst (map ?f l) = map fst l" for l by (simp add: case_prod_beta comp_def)
  ultimately have "sort_key fst (map ?f m) = sort_key fst (map ?f m')"
    using assms(1,2) by (intro sort_key_unique) (simp_all only: keys set_map)
  then show ?thesis by (simp add: cueFields_def field_lines_def)
qed

text \<open>
  A key that starts with an underscore is written unquoted, which CUE reads as a hidden field and
  not as the key it stands for.
\<close>

lemma cueKey_hidden: "cueKey print ''_internal'' = ''_internal''"
  by (simp add: cueKey_def cueIdent_def ident_start_def is_lower_def is_upper_def cue_keywords_def)

text \<open>A chart whose values cannot be read gives the same pack as a chart without values.\<close>

lemma readChartDir_unreadable:
  assumes "read_file (ne_os N) (filepath_Join d chartFile) fs = Inr raw" "ne_chart_yaml N raw = Inr meta"
    and "cm_Name meta \<noteq> ''''" "cm_Version meta \<noteq> ''''" "read_file (ne_os N) (filepath_Join d valuesFile) fs = Inl e"
  shows "readChartDir N fs d = Inr (meta, [])"
  using assms by (simp add: readChartDir_def)

lemma chart_values_cause: "newChartValuesError d e = newChartValuesError d e'"
  by (simp add: newChartValuesError_def)

subsection \<open>A concrete fork\<close>

definition first_quoted :: "string \<Rightarrow> string" where
  "first_quoted src = takeWhile (\<lambda>c. c \<noteq> CHR 0x22) (tl (dropWhile (\<lambda>c. c \<noteq> CHR 0x22) src))"

definition named_env :: "string pack_env" where
  "named_env =
     \<lparr>pe_cancelled = None,
      pe_cue = \<lparr>q_exists = (\<lambda>v. False), q_unify = (\<lambda>v m. v), q_validate = (\<lambda>v. None),
        q_decode = (\<lambda>v. Inr []), q_details = (\<lambda>e. '''')\<rparr>,
      pe_compile = Inr, pe_with_schema = (\<lambda>v. v),
      pe_decode_meta = (\<lambda>v. Inr (helm_meta\<lparr>md_name := first_quoted v\<rparr>)),
      pe_values_of = (\<lambda>v. v), pe_canonical = (\<lambda>v. v), pe_unstr = std_unstr, pe_kustomize = sample_kustomize,
      pe_vals = \<lparr>v_resolve = (\<lambda>r. Inr ''''), v_docs = (\<lambda>d. ([], None)), v_json = (\<lambda>r. Inr None)\<rparr>,
      pe_marshal = (\<lambda>m. Inr '''')\<rparr>"

definition forkable :: ref_env where
  "forkable = sample_ref\<lparr>re_walk := (\<lambda>p. [(''.'', TDir, None), (''pack.cue'', TRegular, None)]),
     re_root_read := (\<lambda>r n. Inr ''name: \"web\"'')\<rparr>"

definition sample_new :: "string new_env" where
  "sample_new =
     \<lparr>ne_pack = named_env, ne_ref = (\<lambda>fs. forkable),
      ne_os = \<lparr>call_fails = (\<lambda>c p. False), torn = (\<lambda>p. ''''), temp_name = (\<lambda>d fs. d @ ''/tmp''), is_print = (\<lambda>r. True)\<rparr>,
      ne_chart_yaml = (\<lambda>s. Inr \<lparr>cm_Name = ''web'', cm_Version = ''1.2.3''\<rparr>), ne_values_yaml = (\<lambda>s. Inr None),
      ne_format = Inr, ne_json = (\<lambda>v. Inr ''1''), ne_word = (\<lambda>r. False)\<rparr>"

definition fork_options :: new_options where
  "fork_options = \<lparr>no_Dir = ''./demo/'', no_Name = ''shop'', no_Type = '''', no_From = ''./pack'', no_FromChart = ''''\<rparr>"

lemma forkable_walks: "walks_tree (ne_ref sample_new fs)"
  by (simp add: sample_new_def forkable_def walks_tree_def file_names_def wf_tree_code entry_path_def)

lemma forkable_resolves:
  "\<exists>t. ResolveTree (ne_ref sample_new fs) ''./pack'' = Inr t \<and> rt_files t = [(''pack.cue'', ''name: \"web\"'')]"
proof -
  have "visit_all forkable r ''/w/pack'' (re_walk forkable ''/w/pack'') [] = Inr [(''pack.cue'', ''name: \"web\"'')]" for r
    by (simp add: forkable_def sample_ref_def visit_def)
  moreover have "localStat forkable p = Inr (''/w/pack'', True)" "re_open_root forkable r = None" for p r
    by (simp_all add: localStat_def forkable_def sample_ref_def)
  moreover have "ne_ref sample_new fs = forkable" by (simp add: sample_new_def)
  ultimately show ?thesis
    by (simp add: ResolveTree_def parse_ref_def isLocalPath_def backendFor_def localTree_def walkLocalTree_def)
qed

definition forked_tree :: tree_files where
  "forked_tree = [(''pack.cue'', ''name: \"shop\"'')]"

lemma forkable_loads:
  assumes "rt_files t = [(''pack.cue'', ''name: \"web\"'')]"
  shows "Load named_env (tree_FS t) from = Inr \<lparr>p_meta = helm_meta, p_fs = tree_FS t, p_values = ''name: \"web\"''\<rparr>"
proof -
  have v: "ValidPath ''pack.cue''" by (simp add: ValidPath_def valid_utf8_def rune_error_def)
  have r: "fs_read (tree_FS t) MetadataFile = Inr ''name: \"web\"''"
    using assms v by (simp add: tree_FS_def tree_gofs_def treeFS_ReadFile_def MetadataFile_def)
  have "decodeMetadata named_env ''name: \"web\"'' = Inr (helm_meta, ''name: \"web\"'')"
    by (simp add: decodeMetadata_def named_env_def helm_meta_def first_quoted_def checkChartVersion_def)
  moreover have "checkPayload (tree_FS t) (md_type helm_meta) = None"
    using assms by (simp add: checkPayload_def helm_meta_def pack_types anyChartContent_def tree_FS_def tree_gofs_def
        treeFS_Stat_def dirEntries_def dir_prefix_def)
  moreover have "pe_cancelled named_env = None" by (simp add: named_env_def)
  ultimately show ?thesis using r by (simp add: Load_def)
qed

lemma sample_fork: "forkedFiles sample_new fs ''shop'' ''./pack'' = Inr forked_tree"
proof -
  from forkable_resolves [of fs] obtain t where t: "ResolveTree (ne_ref sample_new fs) ''./pack'' = Inr t"
    "rt_files t = [(''pack.cue'', ''name: \"web\"'')]" by blast
  have P: "ne_pack sample_new = named_env" by (simp add: sample_new_def)
  have "\<forall>p \<in> dom (map_of (rt_files t)). valid_utf8 p" using t(2) by (simp add: valid_utf8_def rune_error_def)
  from readTree_of_reads [OF ResolveTree_wf [OF forkable_walks t(1)] this, of "''./pack''"]
  obtain out where o: "readTree (tree_FS t) ''./pack'' = Inr out" "wf_map out" "map_of out = map_of (rt_files t)"
    by (auto simp: tree_FS_def)
  have "set out = set (rt_files t)" using o(2,3) t(2) by (intro map_of_inject_set [THEN iffD1]) simp_all
  with o(2) t(2) have c: "out = [(''pack.cue'', ''name: \"web\"'')]"
    by (cases out; cases "tl out") auto
  have m: "decodeMetadata named_env s = Inr (helm_meta\<lparr>md_name := first_quoted s\<rparr>, s)" for s
    by (simp add: decodeMetadata_def named_env_def helm_meta_def checkChartVersion_def)
  have f: "match_name ''name: \"web\"'' = Some ('' '', '''')"
    by (simp add: match_name_def re_space_def)
  have "name_fields True ''name: \"web\"'' = 1"
    by (simp add: name_fields.simps [of True] name_fields.simps [of False "''''"] f)
  moreover have "renamed_source (ne_word sample_new) ''shop'' ''name: \"web\"'' = ''name: \"shop\"''"
    using re_expand_name [of "''shop''" "ne_word sample_new" "''name: \"web\"''" "'' ''"]
    by (simp add: renamed_source_def rename_lines.simps [of _ True] rename_lines.simps [of _ False "''''"] f)
  ultimately have "renamePack sample_new out ''shop'' ''./pack'' = Inr forked_tree"
    by (simp add: renamePack_def P m c file_at_def MetadataFile_def helm_meta_def first_quoted_def forked_tree_def)
  with t(1) o(1) forkable_loads [OF t(2), of "''./pack''"] show ?thesis
    by (simp add: forkedFiles_def P)
qed

theorem fork_faithful_witness:
  "forkedFiles sample_new \<lparr>files = [], dirs = []\<rparr> ''shop'' ''./pack'' = Inr forked_tree \<and>
   (\<exists>t :: resolved_tree. rt_files t = [(''pack.cue'', ''name: \"web\"'')] \<and>
     (\<forall>n. n \<noteq> MetadataFile \<longrightarrow> map_of forked_tree n = map_of (rt_files t) n) \<and>
     (\<exists>m v. decodeMetadata (ne_pack sample_new) (file_at forked_tree MetadataFile) = Inr (m, v) \<and> md_name m = ''shop''))"
proof -
  let ?fs = "\<lparr>files = [], dirs = []\<rparr>"
  from forkable_resolves [of ?fs] obtain t where
    t: "ResolveTree (ne_ref sample_new ?fs) ''./pack'' = Inr t" "rt_files t = [(''pack.cue'', ''name: \"web\"'')]" by blast
  from fork_faithful [OF forkable_walks sample_fork, of ?fs] obtain t' where
    t': "ResolveTree (ne_ref sample_new ?fs) ''./pack'' = Inr t'"
      "\<forall>n. n \<noteq> MetadataFile \<longrightarrow> map_of forked_tree n = map_of (rt_files t') n"
      "\<exists>m v. decodeMetadata (ne_pack sample_new) (file_at forked_tree MetadataFile) = Inr (m, v) \<and> (''shop'' \<noteq> '''' \<longrightarrow> md_name m = ''shop'')"
    by (elim exE conjE) (rule that, assumption, assumption, intro exI conjI)
  from t(1) t'(1) have e: "t' = t" by simp
  from t'(3) obtain m v where d: "decodeMetadata (ne_pack sample_new) (file_at forked_tree MetadataFile) = Inr (m, v)"
    "''shop'' \<noteq> '''' \<longrightarrow> md_name m = ''shop''" by (elim exE conjE)
  have "md_name m = ''shop''" by (rule mp [OF d(2)]) simp
  with d(1) have "\<exists>m v. decodeMetadata (ne_pack sample_new) (file_at forked_tree MetadataFile) = Inr (m, v) \<and> md_name m = ''shop''"
    by (intro exI conjI)
  with sample_fork [of ?fs] t(2) t'(2) show ?thesis
    unfolding e by - (intro conjI exI [of _ t], assumption+)
qed

lemma demo_clean: "path_clean ''./demo/'' = ''demo''"
  by (simp add: path_clean_def clean_elements_def clean_push_def)

theorem New_all_or_nothing_witness:
  "\<exists>fs'. New_pack sample_new fork_options \<lparr>files = [(''notes'', ''x'')], dirs = []\<rparr> = (None, fs') \<and>
     map_of (files fs') ''demo/pack.cue'' = Some ''name: \"shop\"'' \<and> map_of (files fs') ''notes'' = Some ''x''"
proof -
  let ?fs = "\<lparr>files = [(''notes'', ''x'')], dirs = []\<rparr>"
  have o: "path_clean (no_Dir fork_options) = ''demo''" by (simp add: fork_options_def demo_clean)
  have E: "call_fails (ne_os sample_new) c p = False" for c p by (simp add: sample_new_def)
  have below: "nothing_below ?fs (path_clean (no_Dir fork_options))"
    by (auto simp: o nothing_below_def under_def exists_path_def split: if_splits)
  have files: "newPackFiles sample_new ?fs fork_options = Inr forked_tree"
    by (simp add: newPackFiles_def) (simp add: fork_options_def sample_fork)
  have mk: "os_mkdir (ne_os sample_new) ''./demo/'' ?fs = Inr \<lparr>files = [(''notes'', ''x'')], dirs = [''demo'']\<rparr>"
    by (simp add: os_mkdir_def demo_clean path_last_def exists_path_def E List.insert_def)
  have join: "filepath_Join ''./demo/'' ''pack.cue'' = ''demo/pack.cue''"
    using clean_join [of "''./demo/''" "''pack.cue''"] child_names(1) by (simp add: demo_clean path_last_def MetadataFile_def)
  have "\<exists>fs'. writeTree (ne_os sample_new) ''./demo/'' forked_tree ?fs = (None, fs')"
    by (simp add: writeTree_def mk) (simp add: forked_tree_def join mkdir_all_def os_write_file_def write_open_def close_file_def E Let_def)
  then obtain fs' where "writeTree (ne_os sample_new) (no_Dir fork_options) forked_tree ?fs = (None, fs')"
    by (auto simp: fork_options_def)
  moreover have "pe_cancelled (ne_pack sample_new) = None" by (simp add: sample_new_def named_env_def)
  ultimately have n: "New_pack sample_new fork_options ?fs = (None, fs')" by (simp add: New_pack_def files)
  from New_all_or_nothing [OF forkable_walks _ below n] E files o have
    f: "\<forall>n. map_of (files fs') (''demo/'' @ n) = map_of forked_tree n" "same_outside ''demo'' ?fs fs'"
    by auto
  have "map_of (files fs') ''demo/pack.cue'' = Some ''name: \"shop\"''"
    using f(1) [rule_format, of "''pack.cue''"] by (simp add: forked_tree_def)
  moreover have "map_of (files fs') ''notes'' = Some ''x''"
    using f(2) by (simp add: same_outside_def under_def)
  ultimately show ?thesis using n by blast
qed

theorem cueFields_order_witness:
  "cueFields (\<lambda>r. True) (\<lambda>v. Inr ''1'') [(''b'', VBool True), (''a'', VNull)] tab1 =
   cueFields (\<lambda>r. True) (\<lambda>v. Inr ''1'') [(''a'', VNull), (''b'', VBool True)] tab1"
  by (rule cueFields_order) (auto simp: fun_eq_iff)

end
