(* ===== verification/PackDeps.thy ===== *)
theory PackDeps
  imports ConfigTypes PackErrors
begin

section \<open>Instance identity and the dependency graph (\<open>internal/pack/deps.go\<close>)\<close>

text \<open>
  \<open>pack_instance\<close> is \<open>Instance\<close>; an \<open>InstanceID\<close> is its string. Graphs are Go maps from an
  instance to the instances it depends on. The counters of Kahn's algorithm are Go \<open>int\<close>s
  bounded by the number of declared edges, so mathematical integers model them.
\<close>

type_synonym InstanceID = string

record pack_instance =
  inst_name :: string
  inst_spec :: pack_spec

record resolved_graph =
  rg_order :: "InstanceID list"
  rg_deps :: "(InstanceID, InstanceID list) gomap"

text \<open>\<open>m[k]\<close> with the zero value for an absent key.\<close>

definition get_or :: "'v \<Rightarrow> ('k, 'v) gomap \<Rightarrow> 'k \<Rightarrow> 'v" where
  "get_or z m k = (case map_of m k of None \<Rightarrow> z | Some v \<Rightarrow> v)"

lemma get_or_update [simp]: "get_or z (AList.update k v m) k' = (if k' = k then v else get_or z m k')"
  by (simp add: get_or_def)

lemma get_or_Nil [simp]: "get_or z [] k = z"
  by (simp add: get_or_def)

subsection \<open>Effective IDs\<close>

definition count_names :: "pack_instance list \<Rightarrow> (string, nat) gomap" where
  "count_names insts =
     fold (\<lambda>inst m. AList.update (inst_name inst) (Suc (get_or 0 m (inst_name inst))) m) insts []"

fun effective_loop ::
  "(string, nat) gomap \<Rightarrow> (InstanceID, nat) gomap \<Rightarrow> nat \<Rightarrow> pack_instance list \<Rightarrow> InstanceID list res" where
  "effective_loop byName seen i [] = Inr []"
| "effective_loop byName seen i (inst # rest) =
     (let explicit = ps_id (inst_spec inst); n = get_or 0 byName (inst_name inst) in
      if explicit = '''' \<and> n > 1 then Inl (newInstanceIDRequiredError (inst_name inst) n)
      else (let iid = (if explicit = '''' then inst_name inst else explicit) in
        case map_of seen iid of
          Some first \<Rightarrow> Inl (newDuplicateInstanceIDError iid first i)
        | None \<Rightarrow>
            bindR (effective_loop byName (AList.update iid i seen) (Suc i) rest)
              (\<lambda>ids. Inr (iid # ids))))"

definition EffectiveIDs :: "pack_instance list \<Rightarrow> InstanceID list res" where
  "EffectiveIDs insts = effective_loop (count_names insts) [] 0 insts"

subsection \<open>Resolving \<open>dependsOn\<close>\<close>

record instance_index =
  ix_byID :: "(InstanceID, bool) gomap"
  ix_byName :: "(string, InstanceID list) gomap"

fun index_loop :: "(pack_instance \<times> InstanceID) list \<Rightarrow> instance_index \<Rightarrow> instance_index" where
  "index_loop [] x = x"
| "index_loop ((inst, iid) # rest) x =
     index_loop rest
       (x\<lparr>ix_byID := AList.update iid True (ix_byID x),
          ix_byName := AList.update (inst_name inst) (get_or [] (ix_byName x) (inst_name inst) @ [iid])
            (ix_byName x)\<rparr>)"

definition newInstanceIndex :: "pack_instance list \<Rightarrow> InstanceID list \<Rightarrow> instance_index" where
  "newInstanceIndex insts ids = index_loop (zip insts ids) \<lparr>ix_byID = [], ix_byName = []\<rparr>"

definition lookup_dep :: "instance_index \<Rightarrow> string \<Rightarrow> InstanceID \<Rightarrow> InstanceID res" where
  "lookup_dep x target from_id =
     bindR
       (if get_or False (ix_byID x) target then Inr target
        else (case get_or [] (ix_byName x) target of
                [] \<Rightarrow> Inl (newUnknownDependencyError from_id target)
              | [c] \<Rightarrow> Inr c
              | cs \<Rightarrow> Inl (newAmbiguousDependencyError from_id target cs)))
       (\<lambda>iid. if iid = from_id then Inl (newDependencyCycleError [from_id]) else Inr iid)"

fun edges_loop :: "instance_index \<Rightarrow> InstanceID \<Rightarrow> string list \<Rightarrow> InstanceID list \<Rightarrow> InstanceID list res" where
  "edges_loop x from_id [] edges = Inr edges"
| "edges_loop x from_id (target # ts) edges =
     bindR (lookup_dep x target from_id)
       (\<lambda>to. edges_loop x from_id ts (if to \<in> set edges then edges else edges @ [to]))"

fun deps_loop ::
  "instance_index \<Rightarrow> (pack_instance \<times> InstanceID) list \<Rightarrow> (InstanceID, InstanceID list) gomap
     \<Rightarrow> (InstanceID, InstanceID list) gomap res" where
  "deps_loop x [] deps = Inr deps"
| "deps_loop x ((inst, from_id) # rest) deps =
     bindR (edges_loop x from_id (ps_dependsOn (inst_spec inst)) [])
       (\<lambda>edges. deps_loop x rest (AList.update from_id edges deps))"

definition resolveDependencies ::
  "pack_instance list \<Rightarrow> InstanceID list \<Rightarrow> (InstanceID, InstanceID list) gomap res" where
  "resolveDependencies insts ids = deps_loop (newInstanceIndex insts ids) (zip insts ids) []"

subsection \<open>Kahn's algorithm\<close>

type_synonym counts = "(InstanceID, int) gomap"

definition pendingCounts ::
  "InstanceID list \<Rightarrow> (InstanceID, InstanceID list) gomap \<Rightarrow> counts" where
  "pendingCounts ids deps =
     fold (\<lambda>iid m. AList.update iid (int (length (filter (\<lambda>d. d \<in> set ids) (get_or [] deps iid)))) m) ids []"

fun readyInstance :: "InstanceID list \<Rightarrow> counts \<Rightarrow> InstanceID option" where
  "readyInstance [] remaining = None"
| "readyInstance (iid # ids) remaining =
     (if map_of remaining iid = Some 0 then Some iid else readyInstance ids remaining)"

definition unresolved :: "InstanceID list \<Rightarrow> counts \<Rightarrow> InstanceID list" where
  "unresolved ids remaining = filter (\<lambda>iid. map_of remaining iid \<noteq> None) ids"

fun release :: "(InstanceID, InstanceID list) gomap \<Rightarrow> InstanceID \<Rightarrow> InstanceID list \<Rightarrow> counts \<Rightarrow> counts" where
  "release deps next [] remaining = remaining"
| "release deps next (iid # ids) remaining =
     release deps next ids
       (case map_of remaining iid of
          None \<Rightarrow> remaining
        | Some n \<Rightarrow> if next \<in> set (get_or [] deps iid) then AList.update iid (n - 1) remaining else remaining)"

function topo_loop ::
  "InstanceID list \<Rightarrow> (InstanceID, InstanceID list) gomap \<Rightarrow> counts \<Rightarrow> InstanceID list \<Rightarrow> InstanceID list res" where
  "topo_loop ids deps remaining order =
     (if length order < length ids then
        (case readyInstance ids remaining of
           None \<Rightarrow> Inl (newDependencyCycleError (unresolved ids remaining))
         | Some next \<Rightarrow>
             topo_loop ids deps (release deps next ids (AList.delete next remaining)) (order @ [next]))
      else Inr order)"
  by pat_completeness auto
termination by (relation "measure (\<lambda>(ids, deps, remaining, order). length ids - length order)") auto

declare topo_loop.simps [simp del]

definition topoSort :: "InstanceID list \<Rightarrow> (InstanceID, InstanceID list) gomap \<Rightarrow> InstanceID list res" where
  "topoSort ids deps = topo_loop ids deps (pendingCounts ids deps) []"

definition ResolveOrder :: "pack_instance list \<Rightarrow> resolved_graph res" where
  "ResolveOrder insts =
     bindR (EffectiveIDs insts) (\<lambda>ids.
     bindR (resolveDependencies insts ids) (\<lambda>deps.
     bindR (topoSort ids deps) (\<lambda>order.
     Inr \<lparr>rg_order = order, rg_deps = deps\<rparr>)))"

subsection \<open>Identities\<close>

definition effective_id :: "pack_instance \<Rightarrow> InstanceID" where
  "effective_id inst = (if ps_id (inst_spec inst) = '''' then inst_name inst else ps_id (inst_spec inst))"

definition occurrences :: "pack_instance list \<Rightarrow> string \<Rightarrow> nat" where
  "occurrences insts n = length (filter (\<lambda>i. inst_name i = n) insts)"

lemma count_names_fold:
  "get_or 0 (fold (\<lambda>inst m. AList.update (inst_name inst) (Suc (get_or 0 m (inst_name inst))) m) insts m) n =
     get_or 0 m n + occurrences insts n"
  by (induction insts arbitrary: m) (auto simp: occurrences_def)

lemma count_names_occurrences [simp]: "get_or 0 (count_names insts) n = occurrences insts n"
  by (simp add: count_names_def count_names_fold)

lemma effective_loop_Inr:
  "effective_loop byName seen i insts = Inr ids \<longleftrightarrow>
     ids = map effective_id insts \<and> distinct ids \<and> (\<forall>j \<in> set ids. map_of seen j = None) \<and>
     (\<forall>inst \<in> set insts. ps_id (inst_spec inst) = '''' \<longrightarrow> get_or 0 byName (inst_name inst) \<le> 1)"
proof (induction insts arbitrary: seen i ids)
  case Nil
  then show ?case by auto
next
  case (Cons inst rest)
  have e: "(if ps_id (inst_spec inst) = '''' then inst_name inst else ps_id (inst_spec inst)) = effective_id inst"
    by (simp add: effective_id_def)
  show ?case
  proof (cases "map_of seen (effective_id inst)")
    case None
    have IH: "effective_loop byName (AList.update (effective_id inst) i seen) (Suc i) rest = Inr js \<longleftrightarrow>
        js = map effective_id rest \<and> distinct js \<and> effective_id inst \<notin> set js \<and>
        (\<forall>j \<in> set js. map_of seen j = None) \<and>
        (\<forall>inst \<in> set rest. ps_id (inst_spec inst) = '''' \<longrightarrow> get_or 0 byName (inst_name inst) \<le> 1)" for js
      unfolding Cons.IH by auto
    show ?thesis
      unfolding effective_loop.simps Let_def e
      by (cases "ps_id (inst_spec inst) = '''' \<and> 1 < get_or 0 byName (inst_name inst)")
        (auto simp: None res_simps IH)
  next
    case (Some a)
    then show ?thesis
      unfolding effective_loop.simps Let_def e by auto
  qed
qed

lemma occurrences_pos: "inst \<in> set insts \<Longrightarrow> 0 < occurrences insts (inst_name inst)"
  by (auto simp: occurrences_def filter_empty_conv)

text \<open>
  Identity is derived positionally, an explicit ID always wins, and the pack's name
  serves only while it is unambiguous: the derivation succeeds exactly when the effective
  IDs are distinct and every instance without an explicit ID has a name of its own.
\<close>

theorem EffectiveIDs_spec:
  "EffectiveIDs insts = Inr ids \<longleftrightarrow>
     ids = map effective_id insts \<and> distinct ids \<and>
     list_all (\<lambda>i. occurrences insts (inst_name i) = 1)
       (filter (\<lambda>i. ps_id (inst_spec i) = '''') insts)"
proof -
  have "occurrences insts (inst_name i) \<le> 1 \<longleftrightarrow> occurrences insts (inst_name i) = 1" if "i \<in> set insts" for i
    using occurrences_pos [OF that] by auto
  then show ?thesis
    by (auto simp: EffectiveIDs_def effective_loop_Inr list_all_iff)
qed

subsection \<open>Dependencies\<close>

lemma index_loop_byID:
  "get_or False (ix_byID (index_loop xs x)) t \<longleftrightarrow> get_or False (ix_byID x) t \<or> t \<in> snd ` set xs"
  by (induction xs x rule: index_loop.induct) auto

lemma index_loop_byName:
  "get_or [] (ix_byName (index_loop xs x)) t =
     get_or [] (ix_byName x) t @ map snd (filter (\<lambda>(inst, iid). inst_name inst = t) xs)"
  by (induction xs x rule: index_loop.induct) auto

text \<open>The specification of one \<open>dependsOn\<close> entry: which instance a target denotes.\<close>

definition denotes :: "pack_instance list \<Rightarrow> InstanceID \<Rightarrow> string \<Rightarrow> InstanceID \<Rightarrow> bool" where
  "denotes insts from_id target to \<longleftrightarrow> to \<noteq> from_id \<and>
     (if target \<in> effective_id ` set insts then to = target
      else map effective_id (filter (\<lambda>i. inst_name i = target) insts) = [to])"

lemma newInstanceIndex_spec:
  "get_or False (ix_byID (newInstanceIndex insts (map effective_id insts))) t \<longleftrightarrow> t \<in> effective_id ` set insts"
  "get_or [] (ix_byName (newInstanceIndex insts (map effective_id insts))) t =
     map effective_id (filter (\<lambda>i. inst_name i = t) insts)"
proof -
  show "get_or False (ix_byID (newInstanceIndex insts (map effective_id insts))) t \<longleftrightarrow> t \<in> effective_id ` set insts"
    by (auto simp: newInstanceIndex_def index_loop_byID zip_map2 zip_same_conv_map image_iff)
  show "get_or [] (ix_byName (newInstanceIndex insts (map effective_id insts))) t =
     map effective_id (filter (\<lambda>i. inst_name i = t) insts)"
    by (simp add: newInstanceIndex_def index_loop_byName zip_map2 zip_same_conv_map filter_map comp_def)
qed

lemma lookup_dep_Inr:
  "lookup_dep (newInstanceIndex insts (map effective_id insts)) target from_id = Inr to \<longleftrightarrow>
     denotes insts from_id target to"
  by (auto simp: lookup_dep_def denotes_def newInstanceIndex_spec res_simps split: list.splits)

lemma denotes_in: "denotes insts from_id target to \<Longrightarrow> to \<in> effective_id ` set insts"
proof -
  have "to \<in> effective_id ` set insts" if "map effective_id (filter (\<lambda>i. inst_name i = target) insts) = [to]"
    using arg_cong [OF that, of set] by auto
  then show "denotes insts from_id target to \<Longrightarrow> to \<in> effective_id ` set insts"
    by (auto simp: denotes_def split: if_splits)
qed

lemma denotes_unique: "denotes insts f t a \<Longrightarrow> denotes insts f t b \<Longrightarrow> a = b"
  by (auto simp: denotes_def split: if_splits)

lemma edges_loop_Inr:
  assumes "edges_loop (newInstanceIndex insts (map effective_id insts)) f ts es = Inr out" "distinct es"
  shows "distinct out \<and> set out = set es \<union> {to. \<exists>t \<in> set ts. denotes insts f t to} \<and>
    (\<forall>t \<in> set ts. \<exists>to. denotes insts f t to)"
  using assms
proof (induction ts arbitrary: es)
  case Nil
  then show ?case by auto
next
  case (Cons t ts)
  from Cons.prems obtain to where to: "denotes insts f t to"
    and r: "edges_loop (newInstanceIndex insts (map effective_id insts)) f ts
        (if to \<in> set es then es else es @ [to]) = Inr out"
    by (auto simp: res_simps lookup_dep_Inr)
  let ?es = "if to \<in> set es then es else es @ [to]"
  have d: "distinct ?es" and s: "set ?es = insert to (set es)"
    using Cons.prems(2) by auto
  have u: "denotes insts f t to' \<longleftrightarrow> to' = to" for to'
    using denotes_unique [OF to] to by blast
  have "set out = set ?es \<union> {to. \<exists>t \<in> set ts. denotes insts f t to}"
    using Cons.IH [OF r d] by blast
  also have "\<dots> = set es \<union> {to. \<exists>t \<in> set (t # ts). denotes insts f t to}"
    unfolding s by (auto simp: u)
  finally show ?case
    using Cons.IH [OF r d] to by auto
qed

lemma deps_loop_Inr:
  assumes "deps_loop x xs m = Inr deps" "distinct (map snd xs)"
  shows "(\<forall>p \<in> set xs. \<exists>es. edges_loop x (snd p) (ps_dependsOn (inst_spec (fst p))) [] = Inr es \<and>
      map_of deps (snd p) = Some es) \<and>
    (\<forall>k. k \<notin> snd ` set xs \<longrightarrow> map_of deps k = map_of m k)"
  using assms
proof (induction xs arbitrary: m)
  case Nil
  then show ?case by simp
next
  case (Cons p xs)
  obtain inst iid where p: "p = (inst, iid)" by (cases p)
  from Cons.prems p obtain es where es: "edges_loop x iid (ps_dependsOn (inst_spec inst)) [] = Inr es"
    and r: "deps_loop x xs (AList.update iid es m) = Inr deps"
    by (auto simp: res_simps)
  have iid: "iid \<notin> snd ` set xs" using Cons.prems(2) p by simp
  note IH = Cons.IH [OF r]
  from IH Cons.prems(2) iid have "map_of deps iid = Some es" by simp
  with es IH Cons.prems(2) p iid show ?case by simp
qed

lemma resolveDependencies_Inr:
  assumes "resolveDependencies insts (map effective_id insts) = Inr deps"
    and "distinct (map effective_id insts)" and "inst \<in> set insts"
  shows "\<exists>es. map_of deps (effective_id inst) = Some es \<and>
    edges_loop (newInstanceIndex insts (map effective_id insts)) (effective_id inst)
      (ps_dependsOn (inst_spec inst)) [] = Inr es"
proof -
  have z: "zip insts (map effective_id insts) = map (\<lambda>i. (i, effective_id i)) insts"
    by (simp add: zip_map2 zip_same_conv_map comp_def)
  have "deps_loop (newInstanceIndex insts (map effective_id insts))
      (map (\<lambda>i. (i, effective_id i)) insts) [] = Inr deps"
    using assms(1) by (simp add: resolveDependencies_def z)
  from deps_loop_Inr [OF this] assms(2,3) show ?thesis
    by (auto simp: comp_def)
qed

subsection \<open>Kahn's algorithm against a reference without counters\<close>

text \<open>
  The reference keeps no counters: it looks the whole graph up again at every step and takes
  the earliest-declared instance whose dependencies are all placed.
\<close>

definition deps_placed ::
  "InstanceID list \<Rightarrow> (InstanceID, InstanceID list) gomap \<Rightarrow> InstanceID list \<Rightarrow> InstanceID \<Rightarrow> bool" where
  "deps_placed ids deps order i \<longleftrightarrow>
     list_all (\<lambda>d. d \<in> set ids \<longrightarrow> d \<in> set order) (get_or [] deps i)"

definition next_ready ::
  "InstanceID list \<Rightarrow> (InstanceID, InstanceID list) gomap \<Rightarrow> InstanceID list \<Rightarrow> InstanceID option" where
  "next_ready ids deps order = find (\<lambda>i. i \<notin> set order \<and> deps_placed ids deps order i) ids"

function topo_spec ::
  "InstanceID list \<Rightarrow> (InstanceID, InstanceID list) gomap \<Rightarrow> InstanceID list \<Rightarrow> InstanceID list res" where
  "topo_spec ids deps order =
     (if length order < length ids then
        (case next_ready ids deps order of
           None \<Rightarrow> Inl (newDependencyCycleError (filter (\<lambda>i. i \<notin> set order) ids))
         | Some n \<Rightarrow> topo_spec ids deps (order @ [n]))
      else Inr order)"
  by pat_completeness auto
termination by (relation "measure (\<lambda>(ids, deps, order). length ids - length order)") auto

declare topo_spec.simps [simp del]

lemma map_of_fold_update:
  "map_of (fold (\<lambda>i m. AList.update i (f i) m) ids m) k = (if k \<in> set ids then Some (f k) else map_of m k)"
  by (induction ids arbitrary: m) auto

lemma map_of_release:
  "distinct ids \<Longrightarrow> map_of (release deps n ids r) k =
     (case map_of r k of
        None \<Rightarrow> None
      | Some c \<Rightarrow> Some (if k \<in> set ids \<and> n \<in> set (get_or [] deps k) then c - 1 else c))"
proof (induction ids arbitrary: r)
  case Nil
  then show ?case by (simp split: option.split)
next
  case (Cons i ids)
  then show ?case by (cases "map_of r i") (auto split: option.split)
qed

lemma readyInstance_find: "readyInstance ids r = find (\<lambda>i. map_of r i = Some 0) ids"
  by (induction ids) auto

text \<open>The counters agree with the graph: one per instance not placed, counting what gates it.\<close>

definition pending :: "InstanceID list \<Rightarrow> InstanceID list \<Rightarrow> InstanceID list \<Rightarrow> InstanceID list" where
  "pending ids order ds = filter (\<lambda>d. d \<in> set ids \<and> d \<notin> set order) ds"

definition counts_ok ::
  "InstanceID list \<Rightarrow> (InstanceID, InstanceID list) gomap \<Rightarrow> InstanceID list \<Rightarrow> counts \<Rightarrow> bool" where
  "counts_ok ids deps order r \<longleftrightarrow>
     (\<forall>k. map_of r k =
        (if k \<in> set ids \<and> k \<notin> set order
         then Some (int (length (pending ids order (get_or [] deps k)))) else None))"

lemma pending_placed: "pending ids order (get_or [] deps i) = [] \<longleftrightarrow> deps_placed ids deps order i"
  by (auto simp: pending_def deps_placed_def filter_empty_conv list_all_iff)

lemma counts_ok_init: "counts_ok ids deps [] (pendingCounts ids deps)"
  by (simp add: counts_ok_def pendingCounts_def map_of_fold_update pending_def)

lemma pending_snoc:
  assumes "distinct ds" "n \<in> set ids" "n \<notin> set order"
  shows "int (length (pending ids (order @ [n]) ds)) =
    (if n \<in> set ds then int (length (pending ids order ds)) - 1 else int (length (pending ids order ds)))"
proof -
  have e: "pending ids (order @ [n]) ds = remove1 n (pending ids order ds)"
    using assms(1) by (simp add: pending_def distinct_remove1_removeAll removeAll_filter_not_eq conj_ac eq_commute cong: conj_cong)
  show ?thesis
  proof (cases "n \<in> set ds")
    case True
    then have m: "n \<in> set (pending ids order ds)" using assms by (simp add: pending_def)
    then have "0 < length (pending ids order ds)" by (rule length_pos_if_in_set)
    with True m show ?thesis
      by (cases "length (pending ids order ds)") (simp_all add: e length_remove1)
  next
    case False
    then have "n \<notin> set (pending ids order ds)" by (simp add: pending_def)
    with False show ?thesis by (simp add: e remove1_idem)
  qed
qed

lemma counts_ok_step:
  assumes "counts_ok ids deps order r" "distinct ids" "\<And>k. distinct (get_or [] deps k)"
    and "n \<in> set ids" "n \<notin> set order"
  shows "counts_ok ids deps (order @ [n]) (release deps n ids (AList.delete n r))"
  using assms(1) pending_snoc [OF assms(3) assms(4,5)]
  by (auto simp: counts_ok_def map_of_release [OF assms(2)])

lemma ready_next:
  assumes "counts_ok ids deps order r"
  shows "readyInstance ids r = next_ready ids deps order"
  unfolding readyInstance_find next_ready_def
  by (rule find_cong) (use assms in \<open>auto simp: counts_ok_def pending_placed\<close>)

lemma unresolved_filter:
  assumes "counts_ok ids deps order r"
  shows "unresolved ids r = filter (\<lambda>i. i \<notin> set order) ids"
  unfolding unresolved_def by (rule filter_cong) (use assms in \<open>auto simp: counts_ok_def\<close>)

lemma next_ready_Some:
  "next_ready ids deps order = Some n \<Longrightarrow> n \<in> set ids \<and> n \<notin> set order \<and> deps_placed ids deps order n"
  by (auto simp: next_ready_def find_Some_iff)

lemma topo_loop_spec:
  assumes "distinct ids" "\<And>k. distinct (get_or [] deps k)" "counts_ok ids deps order r"
  shows "topo_loop ids deps r order = topo_spec ids deps order"
  using assms(3)
proof (induction "length ids - length order" arbitrary: order r rule: less_induct)
  case less
  note ready = ready_next [OF less.prems] unresolved_filter [OF less.prems]
  show ?case
  proof (cases "length order < length ids")
    case False
    then show ?thesis by (simp add: topo_loop.simps topo_spec.simps)
  next
    case True
    show ?thesis
    proof (cases "next_ready ids deps order")
      case None
      with True show ?thesis by (simp add: topo_loop.simps topo_spec.simps ready)
    next
      case (Some n)
      with next_ready_Some [OF Some] True show ?thesis
        by (simp add: topo_loop.simps [of ids deps r] topo_spec.simps [of ids deps order] ready
            less.hyps counts_ok_step [OF less.prems assms(1,2)])
    qed
  qed
qed

text \<open>
  C11. Kahn's counters implement the reference: over distinct IDs and duplicate-free edge
  lists, \<open>topoSort\<close> repeatedly takes the earliest-declared instance whose dependencies are
  all placed, and reports the instances left when there is none. Edges to something outside
  the set are ignored.
\<close>

theorem topoSort_reference:
  assumes "distinct ids" and "\<And>k. distinct (get_or [] deps k)"
  shows "topoSort ids deps = topo_spec ids deps []"
  unfolding topoSort_def by (rule topo_loop_spec [OF assms counts_ok_init])

theorem topoSort_reference_witness:
  "topoSort [''b'', ''a''] [(''b'', [''a'', ''x''])] = topo_spec [''b'', ''a''] [(''b'', [''a'', ''x''])] [] \<and>
   topoSort [''b'', ''a''] [(''b'', [''a'', ''x''])] = Inr [''a'', ''b'']"
proof -
  have "topoSort [''b'', ''a''] [(''b'', [''a'', ''x''])] = Inr [''a'', ''b'']"
    by (simp add: topoSort_def topo_loop.simps pendingCounts_def get_or_def)
  then show ?thesis
    using topoSort_reference [of "[''b'', ''a'']" "[(''b'', [''a'', ''x''])]"]
    by (auto simp: get_or_def)
qed

subsection \<open>Topological orders and cycles\<close>

definition dep_rel :: "InstanceID list \<Rightarrow> (InstanceID, InstanceID list) gomap \<Rightarrow> (InstanceID \<times> InstanceID) set" where
  "dep_rel ids deps = {(a, b). a \<in> set ids \<and> b \<in> set ids \<and> a \<in> set (get_or [] deps b)}"

definition topological ::
  "InstanceID list \<Rightarrow> (InstanceID, InstanceID list) gomap \<Rightarrow> InstanceID list \<Rightarrow> bool" where
  "topological ids deps order \<longleftrightarrow>
     distinct order \<and> set order = set ids \<and> (\<forall>(a, b) \<in> dep_rel ids deps. before order a b)"

lemma topo_spec_topological:
  assumes "topo_spec ids deps order = Inr out" "distinct ids"
    and "distinct order" "set order \<subseteq> set ids"
    and "\<forall>(a, b) \<in> dep_rel ids deps. b \<in> set order \<longrightarrow> before order a b"
  shows "topological ids deps out"
  using assms(1,3,4,5)
proof (induction "length ids - length order" arbitrary: order rule: less_induct)
  case less
  show ?case
  proof (cases "length order < length ids")
    case False
    with less.prems(1) have out: "out = order" by (simp add: topo_spec.simps)
    have "card (set ids) \<le> card (set order)"
      using False assms(2) less.prems(2) by (simp add: distinct_card)
    then have "set order = set ids"
      using less.prems(3) by (simp add: card_seteq)
    with less.prems out show ?thesis
      by (auto simp: topological_def dep_rel_def)
  next
    case True
    with less.prems(1) obtain n where n: "next_ready ids deps order = Some n"
      and r: "topo_spec ids deps (order @ [n]) = Inr out"
      by (auto simp: topo_spec.simps [of ids deps order] split: option.splits)
    note nr = next_ready_Some [OF n]
    have "before (order @ [n]) a b"
      if "(a, b) \<in> dep_rel ids deps" and "b \<in> set (order @ [n])" for a b
    proof (cases "b = n")
      case True
      with that nr show ?thesis
        by (auto simp: dep_rel_def deps_placed_def list_all_iff intro: before_snoc)
    next
      case False
      with that less.prems(4) have "before order a b" by auto
      then show ?thesis by (rule before_append)
    qed
    then show ?thesis
      by (intro less.hyps [OF _ r]) (use True nr less.prems(2,3) in auto)
  qed
qed

lemma takeWhile_upto: "x \<notin> set us \<Longrightarrow> takeWhile (\<lambda>y. y \<noteq> x) (us @ x # vs) = us"
  by (induction us) auto

lemma before_pos:
  assumes "distinct xs" "before xs a b"
  shows "length (takeWhile (\<lambda>y. y \<noteq> a) xs) < length (takeWhile (\<lambda>y. y \<noteq> b) xs)"
proof -
  from assms(2) obtain us vs where xs: "xs = us @ b # vs" "a \<in> set us"
    by (auto simp: before_def)
  have "takeWhile (\<lambda>y. y \<noteq> b) xs = us"
    using xs assms(1) by (simp add: takeWhile_upto)
  moreover obtain p q where us: "us = p @ a # q" "a \<notin> set p"
    using split_list_first [OF xs(2)] by blast
  moreover have "takeWhile (\<lambda>y. y \<noteq> a) xs = p"
    using us xs by (simp add: takeWhile_upto)
  ultimately show ?thesis by simp
qed

lemma topological_acyclic:
  assumes "topological ids deps order"
  shows "acyclic (dep_rel ids deps)"
proof -
  have "dep_rel ids deps \<subseteq> measure (\<lambda>x. length (takeWhile (\<lambda>y. y \<noteq> x) order))"
    using assms before_pos by (fastforce simp: topological_def)
  then show ?thesis
    by (meson acyclic_subset wf_acyclic wf_measure)
qed

lemma topo_spec_stuck:
  assumes "topo_spec ids deps order = Inl e" "distinct ids" "distinct order" "set order \<subseteq> set ids"
  shows "\<exists>dn. e = newDependencyCycleError (filter (\<lambda>i. i \<notin> set dn) ids) \<and>
    \<not> set ids \<subseteq> set dn \<and>
    (\<forall>b \<in> set ids - set dn. \<exists>a \<in> set ids - set dn. (a, b) \<in> dep_rel ids deps)"
  using assms(1,3,4)
proof (induction "length ids - length order" arbitrary: order rule: less_induct)
  case less
  have lt: "length order < length ids"
    using less.prems(1) by (auto simp: topo_spec.simps split: if_splits)
  show ?case
  proof (cases "next_ready ids deps order")
    case None
    then have stuck: "\<forall>b \<in> set ids - set order. \<not> deps_placed ids deps order b"
      by (auto simp: next_ready_def find_None_iff)
    have "\<not> set ids \<subseteq> set order"
      using card_mono [of "set order" "set ids"] lt assms(2) less.prems(2)
      by (auto simp: distinct_card)
    with stuck None lt less.prems(1) show ?thesis
      by (intro exI [of _ order])
        (auto simp: topo_spec.simps dep_rel_def deps_placed_def list_all_iff)
  next
    case (Some n)
    with less.prems(1) lt have "topo_spec ids deps (order @ [n]) = Inl e"
      by (simp add: topo_spec.simps [of ids deps order])
    with less.hyps [of "order @ [n]"] less.prems(2,3) lt next_ready_Some [OF Some] show ?thesis
      by auto
  qed
qed

lemma stuck_not_acyclic:
  assumes "\<forall>b \<in> S. \<exists>a \<in> S. (a, b) \<in> R" "x \<in> S" "finite R"
  shows "\<not> acyclic R"
proof
  assume "acyclic R"
  with assms(3) have "wf R" by (rule finite_acyclic_wf)
  with assms(2) obtain z where "z \<in> S" "\<And>y. (y, z) \<in> R \<Longrightarrow> y \<notin> S"
    by (metis wfE_min)
  with assms(1) show False by blast
qed

lemma finite_dep_rel: "finite (dep_rel ids deps)"
  by (rule finite_subset [of _ "set ids \<times> set ids"]) (auto simp: dep_rel_def)

lemma topoSort_result:
  assumes "distinct ids" "\<And>k. distinct (get_or [] deps k)"
  shows "case topoSort ids deps of
      Inr order \<Rightarrow> topological ids deps order \<and> acyclic (dep_rel ids deps)
    | Inl e \<Rightarrow> err_code e = Some ''CUBE-PKG-019'' \<and> \<not> acyclic (dep_rel ids deps)"
proof (cases "topoSort ids deps")
  case (Inl e)
  then have "topo_loop ids deps (pendingCounts ids deps) [] = Inl e" by (simp add: topoSort_def)
  then have "topo_spec ids deps [] = Inl e"
    using topo_loop_spec [OF assms counts_ok_init] by simp
  from topo_spec_stuck [OF this assms(1)] obtain dn where
    e: "e = newDependencyCycleError (filter (\<lambda>i. i \<notin> set dn) ids)"
    and ne: "\<not> set ids \<subseteq> set dn"
    and st: "\<forall>b \<in> set ids - set dn. \<exists>a \<in> set ids - set dn. (a, b) \<in> dep_rel ids deps"
    by auto
  from ne obtain x where "x \<in> set ids - set dn" by blast
  from stuck_not_acyclic [OF st this finite_dep_rel] Inl e show ?thesis
    by (simp add: newDependencyCycleError_def)
next
  case (Inr order)
  then have "topo_spec ids deps [] = Inr order"
    using topo_loop_spec [OF assms counts_ok_init] by (simp add: topoSort_def)
  then have "topological ids deps order"
    by (rule topo_spec_topological) (use assms(1) in auto)
  with Inr topological_acyclic show ?thesis by auto
qed

subsection \<open>What \<open>ResolveOrder\<close> promises\<close>

lemma deps_distinct:
  assumes "resolveDependencies insts (map effective_id insts) = Inr deps" "distinct (map effective_id insts)"
  shows "distinct (get_or [] deps k)"
proof (cases "k \<in> effective_id ` set insts")
  case True
  then show ?thesis
    using resolveDependencies_Inr [OF assms] edges_loop_Inr by (fastforce simp: get_or_def)
next
  case False
  have z: "zip insts (map effective_id insts) = map (\<lambda>i. (i, effective_id i)) insts"
    by (simp add: zip_map2 zip_same_conv_map comp_def)
  have "deps_loop (newInstanceIndex insts (map effective_id insts))
      (map (\<lambda>i. (i, effective_id i)) insts) [] = Inr deps"
    using assms(1) by (simp add: resolveDependencies_def z)
  from deps_loop_Inr [OF this] assms(2) False have "map_of deps k = None"
    by (simp add: comp_def image_iff)
  then show ?thesis by (simp add: get_or_def)
qed

lemma ResolveOrder_Inr:
  assumes "ResolveOrder insts = Inr g"
  shows "EffectiveIDs insts = Inr (map effective_id insts)"
    and "distinct (map effective_id insts)"
    and "resolveDependencies insts (map effective_id insts) = Inr (rg_deps g)"
    and "topoSort (map effective_id insts) (rg_deps g) = Inr (rg_order g)"
  using assms by (auto simp: ResolveOrder_def res_simps EffectiveIDs_spec)

text \<open>
  The graph has exactly the declared edges: an instance's recorded dependencies are the
  instances its \<open>dependsOn\<close> targets denote (an ID first, a unique pack name otherwise), each
  once; every target denotes one; nothing is inferred.
\<close>

theorem ResolveOrder_declared_edges:
  assumes "ResolveOrder insts = Inr g" and "inst \<in> set insts"
  shows "\<exists>edges. map_of (rg_deps g) (effective_id inst) = Some edges \<and> distinct edges \<and>
    set edges = {to. \<exists>t \<in> set (ps_dependsOn (inst_spec inst)). denotes insts (effective_id inst) t to} \<and>
    {t \<in> set (ps_dependsOn (inst_spec inst)). \<nexists>to. denotes insts (effective_id inst) t to} = {}"
proof -
  note R = ResolveOrder_Inr [OF assms(1)]
  from resolveDependencies_Inr [OF R(3,2) assms(2)] obtain es where
    m: "map_of (rg_deps g) (effective_id inst) = Some es"
    and e: "edges_loop (newInstanceIndex insts (map effective_id insts)) (effective_id inst)
      (ps_dependsOn (inst_spec inst)) [] = Inr es" by blast
  from edges_loop_Inr [OF e] m show ?thesis by auto
qed

text \<open>
  C10. An install order lists every instance exactly once, and whatever a \<open>dependsOn\<close> target
  denotes stands before the instance that declares it.
\<close>

theorem ResolveOrder_topological:
  assumes "ResolveOrder insts = Inr g"
  shows "distinct (rg_order g) \<and> set (rg_order g) = effective_id ` set insts \<and>
    length (rg_order g) = length insts \<and>
    (\<forall>inst \<in> set insts. \<forall>t \<in> set (ps_dependsOn (inst_spec inst)).
       \<exists>to. denotes insts (effective_id inst) t to \<and> before (rg_order g) to (effective_id inst))"
proof -
  note R = ResolveOrder_Inr [OF assms]
  have t: "topological (map effective_id insts) (rg_deps g) (rg_order g)"
    using topoSort_result [OF R(2) deps_distinct [OF R(3,2)]] R(4) by simp
  have "length (rg_order g) = length insts"
    using t R(2) by (metis distinct_card length_map topological_def)
  moreover have "\<exists>to. denotes insts (effective_id inst) t to \<and> before (rg_order g) to (effective_id inst)"
    if i: "inst \<in> set insts" and tg: "t \<in> set (ps_dependsOn (inst_spec inst))" for inst t
  proof -
    from resolveDependencies_Inr [OF R(3,2) i] obtain es where
      m: "map_of (rg_deps g) (effective_id inst) = Some es"
      and e: "edges_loop (newInstanceIndex insts (map effective_id insts)) (effective_id inst)
        (ps_dependsOn (inst_spec inst)) [] = Inr es" by blast
    note E = edges_loop_Inr [OF e, simplified]
    from E tg obtain to where to: "denotes insts (effective_id inst) t to" by blast
    have "to \<in> set es" using E tg to by auto
    with m i have "(to, effective_id inst) \<in> dep_rel (map effective_id insts) (rg_deps g)"
      using denotes_in [OF to] by (auto simp: dep_rel_def get_or_def)
    with t to show ?thesis by (auto simp: topological_def)
  qed
  ultimately show ?thesis using t by (auto simp: topological_def)
qed

text \<open>
  C12. Once identities and targets resolve, a cycle error is returned exactly when the
  declared edges have a cycle: an acyclic setup always gets an order, a cyclic one never.
\<close>

theorem ResolveOrder_cycle_iff:
  assumes "EffectiveIDs insts = Inr ids" and "resolveDependencies insts ids = Inr deps"
  shows "if acyclic (dep_rel ids deps) then \<exists>g. ResolveOrder insts = Inr g \<and> rg_deps g = deps
    else \<exists>e. ResolveOrder insts = Inl e \<and> err_code e = Some ''CUBE-PKG-019''"
proof -
  have ids: "ids = map effective_id insts" "distinct ids"
    using assms(1) unfolding EffectiveIDs_spec by auto
  have "\<And>k. distinct (get_or [] deps k)"
    using deps_distinct assms(2) ids by blast
  from topoSort_result [OF ids(2) this] show ?thesis
    by (cases "topoSort ids deps") (auto simp: ResolveOrder_def assms)
qed

definition chain_spec :: "string \<Rightarrow> string list \<Rightarrow> pack_instance" where
  "chain_spec n ds =
     \<lparr>inst_name = n, inst_spec = \<lparr>ps_id = '''', ps_packRef = ''./p'', ps_valuesRef = '''',
        ps_values = None, ps_external = [], ps_dependsOn = ds\<rparr>\<rparr>"

lemmas order_eval =
  ResolveOrder_def EffectiveIDs_def resolveDependencies_def topoSort_def topo_loop.simps
  pendingCounts_def newInstanceIndex_def lookup_dep_def get_or_def count_names_def chain_spec_def
  unresolved_def

lemma sample_order:
  "ResolveOrder [chain_spec ''app'' [''db''], chain_spec ''db'' []] =
     Inr \<lparr>rg_order = [''db'', ''app''], rg_deps = [(''app'', [''db'']), (''db'', [])]\<rparr>"
  by (simp add: order_eval)

theorem ResolveOrder_declared_edges_witness:
  "\<exists>edges. map_of [(''app'', [''db'']), (''db'', [])] ''app'' = Some edges \<and>
     set edges = {to. denotes [chain_spec ''app'' [''db''], chain_spec ''db'' []] ''app'' ''db'' to}"
  using ResolveOrder_declared_edges [OF sample_order, of "chain_spec ''app'' [''db'']"]
  by (auto simp: chain_spec_def effective_id_def)

theorem ResolveOrder_topological_witness:
  "distinct [''db'', ''app''] \<and>
   (\<exists>to. denotes [chain_spec ''app'' [''db''], chain_spec ''db'' []] ''app'' ''db'' to \<and>
      before [''db'', ''app''] to ''app'')"
  using ResolveOrder_topological [OF sample_order] by (simp add: chain_spec_def effective_id_def)

theorem ResolveOrder_cycle_iff_witness:
  "if acyclic (dep_rel [''a'', ''b''] [(''a'', [''b'']), (''b'', [''a''])]) then False
   else \<exists>e. ResolveOrder [chain_spec ''a'' [''b''], chain_spec ''b'' [''a'']] = Inl e"
proof -
  let ?insts = "[chain_spec ''a'' [''b''], chain_spec ''b'' [''a'']]"
  have 1: "EffectiveIDs ?insts = Inr [''a'', ''b'']" by (simp add: order_eval)
  have 2: "resolveDependencies ?insts [''a'', ''b''] = Inr [(''a'', [''b'']), (''b'', [''a''])]"
    by (simp add: order_eval)
  have "ResolveOrder ?insts = Inl (newDependencyCycleError [''a'', ''b''])"
    by (simp add: order_eval)
  with ResolveOrder_cycle_iff [OF 1 2] show ?thesis by (auto split: if_splits)
qed

text \<open>
  The members a cycle error names are all the instances left unplaced, not only the
  members of the cycle: here \<open>app\<close> depends on the cycle between \<open>a\<close> and \<open>b\<close> without being
  part of it, and is named all the same.
\<close>

theorem cycle_error_names_downstream:
  "ResolveOrder [chain_spec ''a'' [''b''], chain_spec ''b'' [''a''], chain_spec ''app'' [''a'']] =
     Inl (newDependencyCycleError [''a'', ''b'', ''app''])"
  by (simp add: order_eval)

end
