(* ===== verification/ConfigValidate.thy ===== *)
theory ConfigValidate
  imports ConfigTypes
begin

section \<open>Validation of the configuration document (\<open>Config.Validate\<close>)\<close>

text \<open>
  Validation returns every problem found, in the order the code appends them. A problem is
  a \<open>field.Error\<close>: its type, the field path it is reported at and the rejected value (the
  message texts are not modelled). Code outside the repository is a parameter:
  \<open>dns1123\<close> stands for \<open>validation.IsDNS1123Subdomain\<close> (the messages for a name, none when
  it is valid) and \<open>type_meta\<close> for the decoding of a raw JSON value into the struct with
  the two string fields \<open>apiVersion\<close> and \<open>kind\<close> (\<open>None\<close> when it does not decode).
\<close>

datatype seg = Child string | Index nat

type_synonym path = "seg list"

datatype field_err =
    Required path
  | Invalid path string
  | NotSupported path string "string list"
  | Duplicate path string
  | Forbidden path

fun fe_path :: "field_err \<Rightarrow> path" where
  "fe_path (Required p) = p"
| "fe_path (Invalid p v) = p"
| "fe_path (NotSupported p v ss) = p"
| "fe_path (Duplicate p v) = p"
| "fe_path (Forbidden p) = p"

abbreviation child :: "path \<Rightarrow> string \<Rightarrow> path" where
  "child p n \<equiv> p @ [Child n]"

subsection \<open>Durations (\<open>time.ParseDuration\<close>)\<close>

text \<open>
  A duration is \<open>[-+]?([0-9]*(\.[0-9]*)?[a-z]+)+\<close> in nanoseconds, an error when a number
  is missing, a unit is unknown or the total leaves the signed 64-bit range. The fraction is
  computed exactly here and in binary floating point there; the result is the same up to one
  nanosecond per component.
\<close>

fun lead_digits :: "string \<Rightarrow> string \<times> string" where
  "lead_digits [] = ([], [])"
| "lead_digits (c # cs) = (if is_digit c then (let (d, r) = lead_digits cs in (c # d, r)) else ([], c # cs))"

lemma lead_digits_append: "lead_digits s = (d, r) \<Longrightarrow> s = d @ r"
  by (induction s arbitrary: d r) (auto split: if_splits prod.splits)

definition digits_val :: "string \<Rightarrow> nat" where
  "digits_val ds = foldl (\<lambda>n c. 10 * n + ((of_char c :: nat) - 48)) 0 ds"

definition unit_map :: "(string \<times> nat) list" where
  "unit_map = [(''ns'', 1), (''us'', 1000), ([CHR 0xC2, CHR 0xB5, CHR ''s''], 1000),
     ([CHR 0xCE, CHR 0xBC, CHR ''s''], 1000), (''ms'', 1000000), (''s'', 1000000000),
     (''m'', 60000000000), (''h'', 3600000000000)]"

definition duration_unit :: "string \<Rightarrow> string \<times> string" where
  "duration_unit s =
     (takeWhile (\<lambda>c. \<not> (c = CHR ''.'' \<or> is_digit c)) s,
      dropWhile (\<lambda>c. \<not> (c = CHR ''.'' \<or> is_digit c)) s)"

definition max_duration :: nat where "max_duration = 2 ^ 63"

text \<open>One component (number, fraction, unit) of a duration: its value and the rest.\<close>

definition duration_component :: "string \<Rightarrow> (nat \<times> string) option" where
  "duration_component s =
     (let (pre, s1) = lead_digits s;
          (post, s2) = (case s1 of c # r \<Rightarrow> if c = CHR ''.'' then lead_digits r else ([], s1)
                        | [] \<Rightarrow> ([], s1));
          (u, s3) = duration_unit s2
      in if digits_val pre > max_duration \<or> pre = [] \<and> post = [] \<or> u = [] then None
         else (case map_of unit_map u of
             None \<Rightarrow> None
           | Some unit \<Rightarrow>
               let v = digits_val pre * unit + digits_val post * unit div 10 ^ length post
               in if v > max_duration then None else Some (v, s3)))"

lemma duration_component_shorter:
  "duration_component s = Some (v, r) \<Longrightarrow> length r < length s"
proof -
  assume a: "duration_component s = Some (v, r)"
  obtain pre s1 where 1: "lead_digits s = (pre, s1)" by fastforce
  obtain post s2 where 2: "(case s1 of c # r \<Rightarrow> if c = CHR ''.'' then lead_digits r else ([], s1)
      | [] \<Rightarrow> ([], s1)) = (post, s2)" by fastforce
  obtain u s3 where 3: "duration_unit s2 = (u, s3)" by fastforce
  have l1: "length s1 \<le> length s"
    using lead_digits_append [OF 1] by simp
  have l2: "length s2 \<le> length s1"
    using 2 by (auto split: list.splits if_splits dest!: lead_digits_append)
  have l3: "u @ s3 = s2"
    using 3 by (auto simp: duration_unit_def)
  from a 1 2 3 have "u \<noteq> [] \<and> r = s3"
    by (auto simp: duration_component_def Let_def split: if_splits option.splits)
  with l1 l2 l3 show ?thesis
    by (metis append_eq_append_conv2 append_self_conv2 le_trans length_append less_le_trans
        linorder_not_le le_add2 add_leD2 length_greater_0_conv less_add_same_cancel2)
qed

function duration_sum :: "nat \<Rightarrow> string \<Rightarrow> nat option" where
  "duration_sum d s =
     (if s = [] then Some d
      else case duration_component s of
          None \<Rightarrow> None
        | Some (v, r) \<Rightarrow> if d + v > max_duration then None else duration_sum (d + v) r)"
  by pat_completeness auto
termination
  by (relation "measure (\<lambda>(d, s). length s)") (auto dest: duration_component_shorter)

declare duration_sum.simps [simp del]

definition parse_duration :: "string \<Rightarrow> int option" where
  "parse_duration s =
     (let neg = (s \<noteq> [] \<and> hd s = CHR ''-'');
          r = (if s \<noteq> [] \<and> (hd s = CHR ''-'' \<or> hd s = CHR ''+'') then tl s else s)
      in if r = ''0'' then Some 0
         else if r = [] then None
         else (case duration_sum 0 r of
             None \<Rightarrow> None
           | Some d \<Rightarrow> if neg then Some (- int d)
                      else if d > max_duration - 1 then None else Some (int d)))"

subsection \<open>References and manifests\<close>

definition validateRefToken :: "path \<Rightarrow> string \<Rightarrow> field_err list" where
  "validateRefToken p r =
     (if list_ex (\<lambda>u. is_space u \<or> is_control u) (runes r) then [Invalid p r] else [])"

definition validateInlineManifest ::
  "(string \<Rightarrow> (string \<times> string) option) \<Rightarrow> path \<Rightarrow> raw_ext \<Rightarrow> field_err list" where
  "validateInlineManifest type_meta p raw =
     (case type_meta raw of
        None \<Rightarrow> [Invalid p raw]
      | Some (av, k) \<Rightarrow>
          (if av = '''' then [Required (child p ''apiVersion'')] else []) @
          (if k = '''' then [Required (child p ''kind'')] else []))"

definition validateExternalManifest ::
  "(string \<Rightarrow> (string \<times> string) option) \<Rightarrow> path \<Rightarrow> external_manifest \<Rightarrow> field_err list" where
  "validateExternalManifest type_meta p m =
     (if em_ref m = '''' \<and> em_manifest m = None then [Required p]
      else if em_ref m \<noteq> '''' \<and> em_manifest m \<noteq> None then [Invalid p ''ref+manifest'']
      else if em_ref m \<noteq> '''' then validateRefToken (child p ''ref'') (em_ref m)
      else (case em_manifest m of
              Some raw \<Rightarrow> validateInlineManifest type_meta (child p ''manifest'') raw
            | None \<Rightarrow> [])) @
     (if em_lifecycle m = LifecyclePre \<or> em_lifecycle m = LifecycleWith then []
      else [NotSupported (child p ''lifecycle'') (em_lifecycle m) [LifecyclePre, LifecycleWith]])"

subsection \<open>Packs\<close>

definition validateDep :: "path \<Rightarrow> pack_spec \<Rightarrow> string \<Rightarrow> field_err list" where
  "validateDep p ps dep =
     (if trim_space dep = '''' then [Required p]
      else if ps_id ps \<noteq> '''' \<and> dep = ps_id ps then [Invalid p dep] else [])"

definition validatePack ::
  "(string \<Rightarrow> (string \<times> string) option) \<Rightarrow> path \<Rightarrow> pack_spec \<Rightarrow> field_err list" where
  "validatePack type_meta p ps =
     (if ps_id ps \<noteq> '''' \<and> \<not> nameRE (ps_id ps) then [Invalid (child p ''id'') (ps_id ps)] else []) @
     (if ps_packRef ps = '''' then [Required (child p ''packRef'')]
      else validateRefToken (child p ''packRef'') (ps_packRef ps)) @
     (if ps_valuesRef ps \<noteq> '''' then validateRefToken (child p ''valuesRef'') (ps_valuesRef ps) else []) @
     concat (map (\<lambda>(j, m). validateExternalManifest type_meta (child p ''externalManifests'' @ [Index j]) m)
       (enumerate 0 (ps_external ps))) @
     concat (map (\<lambda>(j, d). validateDep (child p ''dependsOn'' @ [Index j]) ps d)
       (enumerate 0 (ps_dependsOn ps)))"

text \<open>The loop over the packs: \<open>seen\<close> maps an explicit ID to the first entry that used it.\<close>

fun validatePacks_loop ::
  "(string \<Rightarrow> (string \<times> string) option) \<Rightarrow> (string, nat) gomap \<Rightarrow> nat \<Rightarrow> pack_spec list \<Rightarrow> field_err list" where
  "validatePacks_loop type_meta seen i [] = []"
| "validatePacks_loop type_meta seen i (p # ps) =
     (let path = [Child ''spec'', Child ''packs'', Index i]
      in validatePack type_meta path p @
         (if ps_id p = '''' then validatePacks_loop type_meta seen (Suc i) ps
          else case map_of seen (ps_id p) of
              Some first \<Rightarrow> Duplicate (child path ''id'') (ps_id p) # validatePacks_loop type_meta seen (Suc i) ps
            | None \<Rightarrow> validatePacks_loop type_meta (AList.update (ps_id p) i seen) (Suc i) ps))"

definition validatePacks ::
  "(string \<Rightarrow> (string \<times> string) option) \<Rightarrow> pack_spec list \<Rightarrow> field_err list" where
  "validatePacks type_meta ps = validatePacks_loop type_meta [] 0 ps"

subsection \<open>Prerequisites\<close>

definition validatePrerequisite :: "path \<Rightarrow> prereq_spec \<Rightarrow> field_err list" where
  "validatePrerequisite p u =
     (if pr_ref u \<noteq> '''' then validateRefToken (child p ''ref'') (pr_ref u) else []) @
     (if trim_space (pr_name u) = '''' then [Required (child p ''name'')]
      else if isBuiltInPrerequisite (pr_name u) \<and> pr_ref u \<noteq> '''' then [Forbidden (child p ''ref'')]
      else if \<not> isWellKnownPrerequisite (pr_name u) \<and> pr_ref u = '''' then [Required (child p ''ref'')]
      else [])"

fun validatePrerequisites_loop ::
  "(string, nat) gomap \<Rightarrow> nat \<Rightarrow> prereq_spec list \<Rightarrow> field_err list" where
  "validatePrerequisites_loop seen i [] = []"
| "validatePrerequisites_loop seen i (u # us) =
     (let path = [Child ''spec'', Child ''prerequisites'', Index i]
      in validatePrerequisite path u @
         (if trim_space (pr_name u) = '''' then validatePrerequisites_loop seen (Suc i) us
          else case map_of seen (pr_name u) of
              Some first \<Rightarrow> Duplicate (child path ''name'') (pr_name u) # validatePrerequisites_loop seen (Suc i) us
            | None \<Rightarrow> validatePrerequisites_loop (AList.update (pr_name u) i seen) (Suc i) us))"

definition validatePrerequisites :: "prereq_spec list \<Rightarrow> field_err list" where
  "validatePrerequisites us = validatePrerequisites_loop [] 0 us"

subsection \<open>Gateway, engine and the whole document\<close>

definition validateGateway :: "(string \<Rightarrow> string list) \<Rightarrow> gateway_spec \<Rightarrow> field_err list" where
  "validateGateway dns1123 g =
     (if gw_domain g = '''' then []
      else if length (dns1123 (gw_domain g)) > 0
      then [Invalid [Child ''spec'', Child ''gateway'', Child ''domain''] (gw_domain g)] else [])"

definition validateEngineSource :: "engine_source \<Rightarrow> field_err list" where
  "validateEngineSource s =
     (let base = [Child ''spec'', Child ''engine'', Child ''source'']
      in (if es_kind s = EngineSourceGit \<or> es_kind s = EngineSourceOCI then []
          else [NotSupported (child base ''kind'') (es_kind s) [EngineSourceGit, EngineSourceOCI]]) @
         (if es_url s = '''' then [Required (child base ''url'')]
          else if es_kind s = EngineSourceOCI \<and> \<not> has_prefix (es_url s) ''oci://''
          then [Invalid (child base ''url'') (es_url s)]
          else if es_kind s = EngineSourceGit \<and> has_prefix (es_url s) ''oci://''
          then [Invalid (child base ''url'') (es_url s)] else []) @
         (if es_interval s \<noteq> '''' \<and> parse_duration (es_interval s) = None
          then [Invalid (child base ''interval'') (es_interval s)] else []))"

definition validateEngine :: "engine_spec \<Rightarrow> field_err list" where
  "validateEngine e =
     (if en_provider e \<noteq> EngineProviderFlux
      then [NotSupported [Child ''spec'', Child ''engine'', Child ''provider''] (en_provider e) [EngineProviderFlux]]
      else []) @
     (case en_source e of None \<Rightarrow> [] | Some s \<Rightarrow> validateEngineSource s)"

definition validateName :: "string \<Rightarrow> field_err list" where
  "validateName n =
     (if n = '''' then [Required [Child ''metadata'', Child ''name'']]
      else if \<not> nameRE n then [Invalid [Child ''metadata'', Child ''name''] n] else [])"

definition config_validate ::
  "(string \<Rightarrow> string list) \<Rightarrow> (string \<Rightarrow> (string \<times> string) option) \<Rightarrow> config \<Rightarrow> field_err list" where
  "config_validate dns1123 type_meta c =
     validateName (cfg_name c) @
     (case cfg_cluster c of
        Some cl \<Rightarrow> if cs_provider cl \<noteq> ClusterProviderKind
                   then [NotSupported [Child ''spec'', Child ''cluster'', Child ''provider'']
                           (cs_provider cl) [ClusterProviderKind]] else []
      | None \<Rightarrow> []) @
     (case cfg_engine c of Some e \<Rightarrow> validateEngine e | None \<Rightarrow> []) @
     (case cfg_gateway c of Some g \<Rightarrow> validateGateway dns1123 g | None \<Rightarrow> []) @
     (case cfg_ca c of
        Some ca \<Rightarrow> if ca_provider ca \<noteq> CAProviderCube
                   then [NotSupported [Child ''spec'', Child ''ca'', Child ''provider'']
                           (ca_provider ca) [CAProviderCube]] else []
      | None \<Rightarrow> []) @
     validatePacks type_meta (cfg_packs c) @
     validatePrerequisites (cfg_prereqs c)"

end
