(* ===== verification/ConfigLoad.thy ===== *)
theory ConfigLoad
  imports ConfigValidate GoOS GoFS
begin

section \<open>What an accepted configuration document satisfies; the load pipeline\<close>

text \<open>
  The specification of the document layer: \<open>complete_config\<close> says what every consumer of a
  loaded \<open>*Config\<close> relies on. The validator accepts exactly the complete documents, and
  the loader returns nothing else (\<open>internal/config/load.go\<close>).
\<close>

definition manifest_ok :: "(string \<Rightarrow> (string \<times> string) option) \<Rightarrow> external_manifest \<Rightarrow> bool" where
  "manifest_ok tm m \<longleftrightarrow>
     (case em_manifest m of
        None \<Rightarrow> em_ref m \<noteq> '''' \<and> validateRefToken [] (em_ref m) = []
      | Some raw \<Rightarrow> em_ref m = '''' \<and>
          (case tm raw of None \<Rightarrow> False | Some (av, k) \<Rightarrow> av \<noteq> '''' \<and> k \<noteq> '''')) \<and>
     (em_lifecycle m = LifecyclePre \<or> em_lifecycle m = LifecycleWith)"

definition pack_ok :: "(string \<Rightarrow> (string \<times> string) option) \<Rightarrow> pack_spec \<Rightarrow> bool" where
  "pack_ok tm p \<longleftrightarrow>
     (ps_id p = '''' \<or> nameRE (ps_id p)) \<and>
     ps_packRef p \<noteq> '''' \<and> validateRefToken [] (ps_packRef p) = [] \<and>
     (ps_valuesRef p = '''' \<or> validateRefToken [] (ps_valuesRef p) = []) \<and>
     list_all (manifest_ok tm) (ps_external p) \<and>
     list_all (\<lambda>d. trim_space d \<noteq> '''' \<and> (ps_id p = '''' \<or> d \<noteq> ps_id p)) (ps_dependsOn p)"

definition prereq_ok :: "prereq_spec \<Rightarrow> bool" where
  "prereq_ok u \<longleftrightarrow>
     trim_space (pr_name u) \<noteq> '''' \<and>
     (if isBuiltInPrerequisite (pr_name u) then pr_ref u = ''''
      else isWellKnownPrerequisite (pr_name u) \<or> pr_ref u \<noteq> '''') \<and>
     (pr_ref u = '''' \<or> validateRefToken [] (pr_ref u) = [])"

definition source_ok :: "engine_source \<Rightarrow> bool" where
  "source_ok s \<longleftrightarrow>
     es_url s \<noteq> '''' \<and>
     (es_kind s = EngineSourceGit \<and> \<not> has_prefix (es_url s) ''oci://'' \<or>
      es_kind s = EngineSourceOCI \<and> has_prefix (es_url s) ''oci://'') \<and>
     (es_interval s = '''' \<or> parse_duration (es_interval s) \<noteq> None)"

definition complete_config ::
  "(string \<Rightarrow> string list) \<Rightarrow> (string \<Rightarrow> (string \<times> string) option) \<Rightarrow> config \<Rightarrow> bool" where
  "complete_config dns tm c \<longleftrightarrow>
     nameRE (cfg_name c) \<and>
     pred_option (\<lambda>cl. cs_provider cl = ClusterProviderKind) (cfg_cluster c) \<and>
     pred_option (\<lambda>e. en_provider e = EngineProviderFlux \<and> pred_option source_ok (en_source e)) (cfg_engine c) \<and>
     pred_option (\<lambda>g. gw_domain g = '''' \<or> dns (gw_domain g) = []) (cfg_gateway c) \<and>
     pred_option (\<lambda>a. ca_provider a = CAProviderCube) (cfg_ca c) \<and>
     list_all (pack_ok tm) (cfg_packs c) \<and>
     distinct (filter (\<lambda>i. i \<noteq> '''') (map ps_id (cfg_packs c))) \<and>
     list_all prereq_ok (cfg_prereqs c) \<and>
     distinct (map pr_name (cfg_prereqs c))"

subsection \<open>Each validator accepts exactly the well-formed input\<close>

named_theorems validates \<open>a validator returns no error exactly on well-formed input\<close>

lemma validateRefToken_path: "validateRefToken p r = [] \<longleftrightarrow> validateRefToken [] r = []"
  by (simp add: validateRefToken_def)

lemma validateExternalManifest_ok [validates]:
  "validateExternalManifest tm p m = [] \<longleftrightarrow> manifest_ok tm m"
  by (auto simp: validateExternalManifest_def manifest_ok_def validateInlineManifest_def
      validateRefToken_path [of "child p ''ref''"] split: option.splits)

lemma validateDep_ok [validates]:
  "validateDep p ps d = [] \<longleftrightarrow> trim_space d \<noteq> '''' \<and> (ps_id ps = '''' \<or> d \<noteq> ps_id ps)"
  by (auto simp: validateDep_def)

lemma concat_enumerate_Nil:
  "concat (map (\<lambda>(j, x). f j x) (enumerate n xs)) = [] \<longleftrightarrow>
     (\<forall>k < length xs. f (n + k) (xs ! k) = [])"
  by (auto simp: in_set_enumerate_eq all_set_conv_all_nth nth_enumerate_eq)

lemma validatePack_ok [validates]: "validatePack tm p ps = [] \<longleftrightarrow> pack_ok tm ps"
proof -
  have r: "validateRefToken (child p n) r = [] \<longleftrightarrow> validateRefToken [] r = []" for n r
    by (simp add: validateRefToken_def)
  show ?thesis
    unfolding validatePack_def append_is_Nil_conv concat_enumerate_Nil
      validateExternalManifest_ok validateDep_ok pack_ok_def list_all_length
    by (auto simp: r)
qed

lemma validatePacks_loop_ok:
  "validatePacks_loop tm seen i ps = [] \<longleftrightarrow>
     list_all (pack_ok tm) ps \<and> distinct (filter (\<lambda>i. i \<noteq> '''') (map ps_id ps)) \<and>
     (\<forall>p \<in> set ps. ps_id p \<noteq> '''' \<longrightarrow> map_of seen (ps_id p) = None)"
proof (induction ps arbitrary: seen i)
  case Nil
  then show ?case by simp
next
  case (Cons p ps)
  show ?case
  proof (cases "ps_id p = ''''")
    case True
    with Cons.IH show ?thesis by (auto simp: Let_def validates)
  next
    case False
    show ?thesis
    proof (cases "map_of seen (ps_id p)")
      case None
      with False Cons.IH [of "AList.update (ps_id p) i seen" "Suc i"] show ?thesis
        by (auto simp: Let_def validates image_iff)
    next
      case (Some a)
      with False show ?thesis by (auto simp: Let_def)
    qed
  qed
qed

lemma validatePacks_ok [validates]:
  "validatePacks tm ps = [] \<longleftrightarrow>
     list_all (pack_ok tm) ps \<and> distinct (filter (\<lambda>i. i \<noteq> '''') (map ps_id ps))"
  by (simp add: validatePacks_def validatePacks_loop_ok)

lemma validatePrerequisite_ok [validates]: "validatePrerequisite p u = [] \<longleftrightarrow> prereq_ok u"
  by (auto simp: validatePrerequisite_def prereq_ok_def isWellKnownPrerequisite_def
      validateRefToken_path [of "child p ''ref''"])

lemma validatePrerequisites_loop_ok:
  "validatePrerequisites_loop seen i us = [] \<longleftrightarrow>
     list_all prereq_ok us \<and> distinct (map pr_name us) \<and>
     (\<forall>u \<in> set us. map_of seen (pr_name u) = None)"
proof (induction us arbitrary: seen i)
  case Nil
  then show ?case by simp
next
  case (Cons u us)
  show ?case
  proof (cases "trim_space (pr_name u) = ''''")
    case True
    then have "\<not> prereq_ok u" by (simp add: prereq_ok_def)
    with True show ?thesis by (simp add: Let_def validates)
  next
    case False
    then show ?thesis
    proof (cases "map_of seen (pr_name u)")
      case None
      with False Cons.IH [of "AList.update (pr_name u) i seen" "Suc i"] show ?thesis
        by (auto simp: Let_def validates image_iff)
    next
      case (Some a)
      with False show ?thesis by (auto simp: Let_def)
    qed
  qed
qed

lemma validatePrerequisites_ok [validates]:
  "validatePrerequisites us = [] \<longleftrightarrow> list_all prereq_ok us \<and> distinct (map pr_name us)"
  by (simp add: validatePrerequisites_def validatePrerequisites_loop_ok)

lemma validateEngineSource_ok [validates]: "validateEngineSource s = [] \<longleftrightarrow> source_ok s"
proof -
  have "EngineSourceGit \<noteq> EngineSourceOCI"
    by (simp add: config_consts)
  then show ?thesis
    by (auto simp: validateEngineSource_def source_ok_def Let_def)
qed

lemma validateEngine_ok [validates]:
  "validateEngine e = [] \<longleftrightarrow> en_provider e = EngineProviderFlux \<and> pred_option source_ok (en_source e)"
  by (auto simp: validateEngine_def validates split: option.splits)

lemma validateGateway_ok [validates]:
  "validateGateway dns g = [] \<longleftrightarrow> gw_domain g = '''' \<or> dns (gw_domain g) = []"
  by (auto simp: validateGateway_def)

lemma validateName_ok [validates]: "validateName n = [] \<longleftrightarrow> nameRE n"
  by (auto simp: validateName_def nameRE_def)

text \<open>
  \<open>Validate\<close> reports no problem exactly on the complete documents: a usable cube
  name, admitted providers, a source whose URL scheme matches its kind and whose interval
  parses, well-formed packs with distinct explicit IDs and no self-dependency, and
  prerequisites with distinct names where built-in units carry no ref and unknown ones do.
\<close>

theorem config_validate_complete:
  "config_validate dns tm c = [] \<longleftrightarrow> complete_config dns tm c"
  unfolding config_validate_def complete_config_def append_is_Nil_conv validates
  by (auto simp: validates split: option.splits if_splits)

subsection \<open>Loading (\<open>internal/config/load.go\<close>)\<close>

abbreviation CodeUnsupportedAPIVersion :: code where "CodeUnsupportedAPIVersion \<equiv> ''CUBE-CFG-001''"

definition newUnsupportedAPIVersionError :: "string \<Rightarrow> err" where
  "newUnsupportedAPIVersionError gvk = wrap CodeUnsupportedAPIVersion [gvk] None"

definition newMissingGVKError :: err where
  "newMissingGVKError = wrap CodeUnsupportedAPIVersion [] None"

abbreviation CodeUnknownField :: code where "CodeUnknownField \<equiv> ''CUBE-CFG-002''"

definition newUnknownFieldError :: "err \<Rightarrow> err" where
  "newUnknownFieldError cause = wrap CodeUnknownField [] (Some cause)"

abbreviation CodeInvalidConfig :: code where "CodeInvalidConfig \<equiv> ''CUBE-CFG-003''"

definition newInvalidConfigError :: "err \<Rightarrow> err" where
  "newInvalidConfigError cause = wrap CodeInvalidConfig [] (Some cause)"

abbreviation CodeUnreadableConfig :: code where "CodeUnreadableConfig \<equiv> ''CUBE-CFG-004''"

definition newUnreadableConfigError :: "err \<Rightarrow> err" where
  "newUnreadableConfigError cause = wrap CodeUnreadableConfig [] (Some cause)"

abbreviation CodeNameConflict :: code where "CodeNameConflict \<equiv> ''CUBE-CFG-005''"

definition NewNameConflictError :: "string \<Rightarrow> string \<Rightarrow> string \<Rightarrow> err" where
  "NewNameConflictError path documentName flagName =
     wrap CodeNameConflict [flagName, path, documentName] None"

abbreviation CodeAlreadyExists :: code where "CodeAlreadyExists \<equiv> ''CUBE-CFG-006''"

definition newAlreadyExistsError :: "string \<Rightarrow> err" where
  "newAlreadyExistsError path = wrap CodeAlreadyExists [path] None"

abbreviation CodeScaffoldFailed :: code where "CodeScaffoldFailed \<equiv> ''CUBE-CFG-007''"

definition newConfigScaffoldFailedError :: "string \<Rightarrow> err \<Rightarrow> err" where
  "newConfigScaffoldFailedError path cause = wrap CodeScaffoldFailed [path] (Some cause)"

text \<open>
  The YAML library is outside the repository: a parameter record gives its lenient decoding
  of the type header, its strict decoding of the whole document, and the two library calls
  of the validator.
\<close>

record yaml_env =
  y_type_header :: "string \<Rightarrow> (string \<times> string) res"
  y_strict :: "string \<Rightarrow> config res"
  y_dns1123 :: "string \<Rightarrow> string list"
  y_type_meta :: "string \<Rightarrow> (string \<times> string) option"

definition decode :: "yaml_env \<Rightarrow> string \<Rightarrow> config res" where
  "decode Y raw =
     (case y_type_header Y raw of
        Inl e \<Rightarrow> Inl (Wrapf ''determine apiVersion/kind'' e)
      | Inr (av, k) \<Rightarrow>
          if av = '''' \<and> k = '''' then Inl newMissingGVKError
          else if av @ ''/'' @ k = group_version @ ''/Config''
          then (case y_strict Y raw of
                  Inl e \<Rightarrow> Inl (newUnknownFieldError e)
                | Inr c \<Rightarrow>
                    let d = config_default c;
                        errs = config_validate (y_dns1123 Y) (y_type_meta Y) d
                    in if length errs > 0 then Inl (newInvalidConfigError (Plain ''aggregate''))
                       else Inr d)
          else Inl (newUnsupportedAPIVersionError (av @ ''/'' @ k)))"

definition LoadFile :: "yaml_env \<Rightarrow> os_env \<Rightarrow> fsys \<Rightarrow> string \<Rightarrow> config res" where
  "LoadFile Y E fs path =
     (case read_file E path fs of
        Inl e \<Rightarrow> Inl (newUnreadableConfigError (Wrapf (''read config '' @ path) e))
      | Inr raw \<Rightarrow> decode Y raw)"

text \<open>
  What a refused document says: every failure carries a configuration code, and so exits with 2,
  except a document whose type header does not parse.
\<close>

lemma LoadFile_Inl:
  assumes "LoadFile Y E fs path = Inl e"
  shows "exit_code (Some e) = ExitConfig \<or>
    (\<exists>raw e'. map_of (files fs) path = Some raw \<and> y_type_header Y raw = Inl e' \<and> e = Wrapf ''determine apiVersion/kind'' e')"
  using assms
  by (auto simp: LoadFile_def decode_def read_file_def Let_def newUnreadableConfigError_def newMissingGVKError_def
      newUnknownFieldError_def newInvalidConfigError_def newUnsupportedAPIVersionError_def wrap_def exit_code_def tag_def
      split: sum.splits option.splits if_splits)

text \<open>The same pipeline over a file system value (\<open>config.Load\<close>).\<close>

definition config_Load :: "yaml_env \<Rightarrow> gofs \<Rightarrow> string \<Rightarrow> config res" where
  "config_Load Y F path =
     (case fs_read F path of
        Inl e \<Rightarrow> Inl (newUnreadableConfigError (Wrapf (''read config '' @ path) e))
      | Inr raw \<Rightarrow> decode Y raw)"

lemma config_Load_LoadFile: "fs_read F path = read_file E path fs \<Longrightarrow> config_Load Y F path = LoadFile Y E fs path"
  by (simp add: config_Load_def LoadFile_def)

lemma decode_complete:
  "decode Y raw = Inr c \<Longrightarrow> complete_config (y_dns1123 Y) (y_type_meta Y) c \<and> config_default c = c"
  by (auto simp: decode_def Let_def config_default_idempotent config_validate_complete [symmetric]
      split: sum.splits if_splits)

text \<open>
  C33. The loader fails fast: a \<open>*Config\<close> it returns is complete and already defaulted, and
  it carries at least one prerequisite.
\<close>

theorem LoadFile_complete:
  assumes "LoadFile Y E fs path = Inr c"
  shows "complete_config (y_dns1123 Y) (y_type_meta Y) c \<and> config_default c = c \<and> cfg_prereqs c \<noteq> []"
proof -
  from assms obtain raw where d: "decode Y raw = Inr c"
    by (auto simp: LoadFile_def split: sum.splits)
  have "cfg_prereqs (config_default c) \<noteq> []"
    by (simp add: config_default_def defaultPrerequisites_def)
  with decode_complete [OF d] show ?thesis
    by (metis)
qed

text \<open>A concrete document, library and file system the theorem applies to.\<close>

definition sample_config :: config where
  "sample_config =
     \<lparr>cfg_apiVersion = group_version, cfg_kind = ''Config'', cfg_name = ''dev'',
      cfg_cluster = Some \<lparr>cs_provider = '''', cs_forProvider = None\<rparr>,
      cfg_engine = None, cfg_gateway = Some \<lparr>gw_domain = ''''\<rparr>, cfg_ca = None,
      cfg_prereqs = [], cfg_packs = []\<rparr>"

definition sample_yaml :: yaml_env where
  "sample_yaml =
     \<lparr>y_type_header = (\<lambda>raw. Inr (group_version, ''Config'')), y_strict = (\<lambda>raw. Inr sample_config),
      y_dns1123 = (\<lambda>d. if has_suffix d ''cube.test'' then [] else [''invalid'']),
      y_type_meta = (\<lambda>raw. None)\<rparr>"

definition quiet_os :: os_env where
  "quiet_os = \<lparr>call_fails = (\<lambda>c p. False), torn = (\<lambda>p. ''''), temp_name = (\<lambda>d fs. ''tmp''), is_print = (\<lambda>r. True)\<rparr>"

lemma sample_complete:
  "complete_config (y_dns1123 sample_yaml) (y_type_meta sample_yaml) (config_default sample_config)"
proof -
  have *: "nameRE ''dev''" "has_suffix (''dev'' @ ''.'' @ DefaultBaseDomain) ''cube.test''"
    "distinct (map pr_name defaultPrerequisites)"
    by code_simp+
  have **: "list_all prereq_ok defaultPrerequisites"
    by (simp add: defaultPrerequisites_def prereq_ok_def isBuiltInPrerequisite_def
        isWellKnownPrerequisite_def prereq_consts trim_space_def space_chunk_def is_space_def)
  show ?thesis
    by (simp add: * [simplified] ** complete_config_def sample_config_def sample_yaml_def config_default_def
        defaultCluster_def defaultGateway_def ClusterProviderKind_def)
qed

theorem LoadFile_complete_witness:
  "complete_config (y_dns1123 sample_yaml) (y_type_meta sample_yaml) (config_default sample_config) \<and>
   config_default (config_default sample_config) = config_default sample_config \<and>
   cfg_prereqs (config_default sample_config) \<noteq> []"
proof (rule LoadFile_complete)
  have "config_validate (y_dns1123 sample_yaml) (y_type_meta sample_yaml) (config_default sample_config) = []"
    unfolding config_validate_complete by (rule sample_complete)
  then have "decode sample_yaml ''doc'' = Inr (config_default sample_config)"
    by (simp add: decode_def sample_yaml_def Let_def)
  then show "LoadFile sample_yaml quiet_os \<lparr>files = [(''cube.yaml'', ''doc'')], dirs = []\<rparr> ''cube.yaml''
      = Inr (config_default sample_config)"
    by (simp add: LoadFile_def read_file_def quiet_os_def)
qed

subsection \<open>A derived domain the user never wrote\<close>

text \<open>
  A cube name may end in a dash, and the domain derived from it then has a label that
  ends in a dash: \<open>IsDNS1123Subdomain\<close> (the hypothesis states its documented answer) rejects
  it, so a document with a valid name and an empty gateway block is rejected for a domain
  its author did not write.
\<close>

theorem derived_domain_rejected:
  assumes "nameRE (n @ ''-'')" and "dns (n @ ''-.cube.test'') \<noteq> []"
    and "cfg_name c = n @ ''-''" and "cfg_gateway c = Some \<lparr>gw_domain = ''''\<rparr>"
  shows "validateName (cfg_name c) = [] \<and>
    config_validate dns tm (config_default c) \<noteq> [] \<and>
    cfg_gateway (config_default c) = Some \<lparr>gw_domain = n @ ''-.cube.test''\<rparr>"
proof -
  have "cfg_gateway (config_default c) = Some \<lparr>gw_domain = n @ ''-.cube.test''\<rparr>"
    using assms by (simp add: config_default_def defaultGateway_def DefaultBaseDomain_def)
  with assms show ?thesis
    by (simp add: validates config_validate_def)
qed

theorem derived_domain_rejected_witness:
  "config_validate (\<lambda>d. if contains d ''-.'' then [''bad''] else []) (\<lambda>raw. None)
     (config_default (sample_config\<lparr>cfg_name := ''dev-''\<rparr>)) \<noteq> []"
proof -
  have "nameRE (''dev'' @ ''-'')"
    "(if contains (''dev'' @ ''-.cube.test'') ''-.'' then [''bad''] else []) \<noteq> []"
    by code_simp+
  from derived_domain_rejected [where n = "''dev''" and c = "sample_config\<lparr>cfg_name := ''dev-''\<rparr>"
      and dns = "\<lambda>d. if contains d ''-.'' then [''bad''] else []" and tm = "\<lambda>raw. None", OF this]
  show ?thesis by (simp add: sample_config_def)
qed

end
