(* ===== verification/CliPack.thy ===== *)
theory CliPack
  imports PackNew PackDeps ConfigLoad
begin

section \<open>The pack verbs (\<open>internal/cli\<close>: pack.go, pack\_instance.go)\<close>

text \<open>
  \<open>pack new\<close>, \<open>pack validate\<close> and the two forms of \<open>pack render\<close>. \<open>os.DirFS\<close>, the YAML encoder and
  the writer behind standard output are parameters; printed lines are collected, with the quotes
  and dashes of the source.
\<close>

subsection \<open>Flags and environment\<close>

record 'c pack_cli =
  pk_new :: "'c new_env"
  pk_config :: yaml_env
  pk_dirfs :: "fsys \<Rightarrow> string \<Rightarrow> gofs"
  pk_marshal :: "obj \<Rightarrow> string res"
  pk_write :: "string \<Rightarrow> err option"

text \<open>A flag with a default is given explicitly or not: \<open>Changed\<close>.\<close>

record pack_flags =
  pf_type :: string
  pf_typeChanged :: bool
  pf_name :: string
  pf_from :: string
  pf_fromChart :: string
  pf_id :: string
  pf_config :: string
  pf_configChanged :: bool

subsection \<open>Loading\<close>

definition localRefDir :: "string \<Rightarrow> string res" where
  "localRefDir ref =
     (if has_prefix ref ''file://'' then Inr (drop 7 ref)
      else case cut ref ''://'' of
          Some (scheme, _) \<Rightarrow> Inl (NewRefUnsupportedError ref scheme)
        | None \<Rightarrow> Inr ref)"

definition loadPack :: "'c pack_cli \<Rightarrow> fsys \<Rightarrow> string \<Rightarrow> 'c pack res" where
  "loadPack K fs ref = bindR (localRefDir ref) (\<lambda>dir. Load (ne_pack (pk_new K)) (pk_dirfs K fs dir) ref)"

subsection \<open>pack new\<close>

definition packNewOptions :: "pack_flags \<Rightarrow> string \<Rightarrow> new_options res" where
  "packNewOptions fl dir =
     (if pf_from fl \<noteq> '''' \<and> pf_fromChart fl \<noteq> ''''
      then Inl (Plain ''--from forks an existing pack and --from-chart scaffolds one from a Helm chart: give exactly one'')
      else if pf_from fl \<noteq> '''' \<and> pf_typeChanged fl
      then Inl (Plain (''--from copies a pack with the type it already declares, so --type '' @ pf_type fl @
        '' cannot apply: drop --type to fork, or drop --from to scaffold a new '' @ pf_type fl @ '' pack''))
      else if pf_fromChart fl \<noteq> '''' \<and> pf_typeChanged fl
      then Inl (Plain (''--from-chart always scaffolds a helm pack, so --type '' @ pf_type fl @
        '' cannot apply: drop --type, or drop --from-chart to scaffold a '' @ pf_type fl @ '' pack''))
      else if pf_from fl \<noteq> ''''
      then Inr \<lparr>no_Dir = dir, no_Name = pf_name fl, no_Type = '''', no_From = pf_from fl, no_FromChart = ''''\<rparr>
      else if pf_fromChart fl \<noteq> ''''
      then Inr \<lparr>no_Dir = dir, no_Name = pf_name fl, no_Type = '''', no_From = '''', no_FromChart = pf_fromChart fl\<rparr>
      else Inr \<lparr>no_Dir = dir, no_Name = pf_name fl, no_Type = pf_type fl, no_From = '''', no_FromChart = ''''\<rparr>)"

definition metadataDisplayPath :: "string \<Rightarrow> string" where
  "metadataDisplayPath dir = rev (dropWhile (\<lambda>c. c = CHR ''/'') (rev dir)) @ ''/'' @ MetadataFile"

definition new_report :: "new_options \<Rightarrow> metadata \<Rightarrow> string \<Rightarrow> string list" where
  "new_report opts meta dir =
     [''created pack '' @ md_name meta @ '' '' @ md_version meta @ '' ('' @ md_type meta @ '') in '' @ dir] @
     (if no_FromChart opts \<noteq> '''' \<or> no_Type opts = TypeHelm
      then [''replace the placeholder chart url in '' @ metadataDisplayPath dir @ '' before installing this pack''] else []) @
     [''run \"cube-idp pack render '' @ dir @ ''\" to see what it produces'']"

definition runPackNew :: "'c pack_cli \<Rightarrow> pack_flags \<Rightarrow> string \<Rightarrow> fsys \<Rightarrow> string list res \<times> fsys" where
  "runPackNew K fl dir fs =
     (case packNewOptions fl dir of
        Inl e \<Rightarrow> (Inl e, fs)
      | Inr opts \<Rightarrow>
          (case New_pack (pk_new K) opts fs of
             (Some e, fs1) \<Rightarrow> (Inl e, fs1)
           | (None, fs1) \<Rightarrow>
               (case loadPack K fs1 dir of
                  Inl e \<Rightarrow> (Inl e, fs1)
                | Inr p \<Rightarrow> (Inr (new_report opts (p_meta p) dir), fs1))))"

subsection \<open>pack validate\<close>

definition runPackValidate :: "'c pack_cli \<Rightarrow> string \<Rightarrow> fsys \<Rightarrow> string res" where
  "runPackValidate K ref fs =
     bindR (loadPack K fs ref) (\<lambda>p.
     bindR (Render (ne_pack (pk_new K)) p [] '''') (\<lambda>_.
       Inr (''pack '' @ md_name (p_meta p) @ '' '' @ md_version (p_meta p) @ '' ('' @ md_type (p_meta p) @ '') is valid'')))"

subsection \<open>Rendering an instance (\<open>internal/pack/render.go\<close>)\<close>

text \<open>The production resolver is \<open>internal/ref\<close> in single-document mode.\<close>

definition resolveDocument :: "ref_env \<Rightarrow> string \<Rightarrow> string res" where
  "resolveDocument R doc = bindR (ResolveFile R doc) (\<lambda>f. Inr (rf_data f))"

definition RenderInstance :: "ref_env \<Rightarrow> 'c pack_env \<Rightarrow> 'c pack \<Rightarrow> pack_spec \<Rightarrow> render_plan res" where
  "RenderInstance R P p spec =
     renderInstance (P\<lparr>pe_vals := (pe_vals P)\<lparr>v_resolve := resolveDocument R\<rparr>\<rparr>) p spec"

subsection \<open>pack render (\<open>pack\_instance.go\<close>)\<close>

definition renderArtifact :: "'c pack_cli \<Rightarrow> fsys \<Rightarrow> string \<Rightarrow> render_plan res" where
  "renderArtifact K fs ref = bindR (loadPack K fs ref) (\<lambda>p. Render (ne_pack (pk_new K)) p [] '''')"

text \<open>The two index-aligned slices, as a list of pairs and then apart.\<close>

definition loadInstances :: "'c pack_cli \<Rightarrow> fsys \<Rightarrow> pack_spec list \<Rightarrow> (pack_instance list \<times> 'c pack list) res" where
  "loadInstances K fs specs =
     bindR (mapR (\<lambda>spec. bindR (loadPack K fs (ps_packRef spec)) (\<lambda>p.
              Inr (\<lparr>inst_name = md_name (p_meta p), inst_spec = spec\<rparr>, p))) specs) (\<lambda>ips.
       Inr (map fst ips, map snd ips))"

fun join_names :: "string list \<Rightarrow> string" where
  "join_names [] = ''''"
| "join_names [n] = n"
| "join_names (n # ns) = n @ '', '' @ join_names ns"

definition selectInstance :: "(nat \<Rightarrow> bool) \<Rightarrow> pack_instance list \<Rightarrow> string \<Rightarrow> string \<Rightarrow> nat res" where
  "selectInstance print insts i path =
     bindR (EffectiveIDs insts) (\<lambda>ids.
       case index_where (\<lambda>got. got = i) ids of
         Some k \<Rightarrow> Inr k
       | None \<Rightarrow>
           if length ids = 0
           then Inl (Plain (path @ '' declares no packs, so there is no instance '' @ go_quote print i @ '' to render''))
           else Inl (Plain (path @ '' has no pack instance '' @ go_quote print i @ ''; it declares '' @ join_names ids)))"

definition renderConfigured :: "'c pack_cli \<Rightarrow> fsys \<Rightarrow> string \<Rightarrow> string \<Rightarrow> render_plan res" where
  "renderConfigured K fs path i =
     bindR (LoadFile (pk_config K) (ne_os (pk_new K)) fs path) (\<lambda>cfg.
     bindR (loadInstances K fs (cfg_packs cfg)) (\<lambda>(insts, packs).
     bindR (selectInstance (is_print (ne_os (pk_new K))) insts i path) (\<lambda>k.
       RenderInstance (ne_ref (pk_new K) fs) (ne_pack (pk_new K)) (packs ! k) (cfg_packs cfg ! k))))"

text \<open>At most one argument, as the command declares.\<close>

definition renderTarget :: "'c pack_cli \<Rightarrow> fsys \<Rightarrow> pack_flags \<Rightarrow> string option \<Rightarrow> render_plan res" where
  "renderTarget K fs fl arg =
     (case arg of
        Some ref \<Rightarrow>
          if pf_id fl \<noteq> '''' \<or> pf_configChanged fl
          then Inl (Plain (''render takes either a pack reference or -f with --id, not both: drop '' @ go_quote (is_print (ne_os (pk_new K))) ref @
            '' to render the configured instance, or drop the flags to render the pack as authored''))
          else renderArtifact K fs ref
      | None \<Rightarrow>
          if pf_id fl = '''' \<and> \<not> pf_configChanged fl
          then Inl (Plain (''render needs a pack reference (`pack render ./dir`) or an instance to render (`pack render -f '' @
            pf_config fl @ '' --id <id>`)''))
          else if pf_id fl = ''''
          then Inl (Plain (''-f '' @ pf_config fl @ '' selects a Config document but not what to render from it: add --id <id>''))
          else if \<not> pf_configChanged fl
          then Inl (Plain (''--id '' @ pf_id fl @ '' renders an instance of a Config document: add -f <path> to say which document''))
          else renderConfigured K fs (pf_config fl) (pf_id fl))"

subsection \<open>Output (\<open>pack.go\<close>)\<close>

definition documentSeparator :: string where "documentSeparator = ''---'' @ newline1"

text \<open>The buffer after the documents from index \<open>i\<close> on.\<close>

fun plan_stream :: "(obj \<Rightarrow> string res) \<Rightarrow> nat \<Rightarrow> obj list \<Rightarrow> string \<Rightarrow> string res" where
  "plan_stream marshal i [] buf = Inr buf"
| "plan_stream marshal i (m # ms) buf =
     (case marshal m of
        Inl e \<Rightarrow> Inl (Wrapf (''encode rendered object '' @ itoa (int i) @ '' as YAML'') e)
      | Inr doc \<Rightarrow> plan_stream marshal (Suc i) ms (buf @ (if i > 0 then documentSeparator else '''') @ doc))"

text \<open>The error, and what was written: everything in one call, or nothing.\<close>

definition writePlan :: "'c pack_cli \<Rightarrow> render_plan \<Rightarrow> err option \<times> string list" where
  "writePlan K plan =
     (case plan_stream (pk_marshal K) 0 (rp_prerequisites plan @ rp_objects plan) '''' of
        Inl e \<Rightarrow> (Some e, [])
      | Inr s \<Rightarrow> (pk_write K s, [s]))"

definition runPackRender :: "'c pack_cli \<Rightarrow> pack_flags \<Rightarrow> string option \<Rightarrow> fsys \<Rightarrow> err option \<times> string list" where
  "runPackRender K fl arg fs =
     (case renderTarget K fs fl arg of Inl e \<Rightarrow> (Some e, []) | Inr plan \<Rightarrow> writePlan K plan)"

subsection \<open>What validate says of render\<close>

text \<open>
  \<open>pack validate\<close> accepts a reference exactly when \<open>pack render\<close> of the same reference gets
  a plan to write, and when it refuses, render refuses with the same error and writes nothing.
\<close>

theorem validate_agrees_with_render:
  assumes "pf_id fl = ''''" and "\<not> pf_configChanged fl"
  shows "((\<exists>msg. runPackValidate K ref fs = Inr msg) \<longleftrightarrow>
      (\<exists>plan. renderTarget K fs fl (Some ref) = Inr plan \<and> runPackRender K fl (Some ref) fs = writePlan K plan)) \<and>
    (\<forall>e. runPackValidate K ref fs = Inl e \<longleftrightarrow> renderTarget K fs fl (Some ref) = Inl e) \<and>
    (\<forall>e. runPackValidate K ref fs = Inl e \<longrightarrow> runPackRender K fl (Some ref) fs = (Some e, []))"
  using assms by (auto simp: runPackValidate_def runPackRender_def renderTarget_def renderArtifact_def res_simps)

subsection \<open>Which instance is rendered\<close>

lemma loadInstances_Inr:
  "loadInstances K fs specs = Inr (insts, packs) \<longleftrightarrow>
     length insts = length specs \<and> length packs = length specs \<and>
     (\<forall>j < length specs. loadPack K fs (ps_packRef (specs ! j)) = Inr (packs ! j) \<and>
        insts ! j = \<lparr>inst_name = md_name (p_meta (packs ! j)), inst_spec = specs ! j\<rparr>)"
proof -
  have step: "bindR (loadPack K fs (ps_packRef spec)) (\<lambda>p. Inr (\<lparr>inst_name = md_name (p_meta p), inst_spec = spec\<rparr>, p)) = Inr ip
      \<longleftrightarrow> loadPack K fs (ps_packRef spec) = Inr (snd ip) \<and>
        fst ip = \<lparr>inst_name = md_name (p_meta (snd ip)), inst_spec = spec\<rparr>" for spec ip
    by (cases ip) (auto simp: res_simps)
  have "loadInstances K fs specs = Inr (insts, packs) \<longleftrightarrow> (\<exists>ips. insts = map fst ips \<and> packs = map snd ips \<and>
      list_all2 (\<lambda>spec ip. loadPack K fs (ps_packRef spec) = Inr (snd ip) \<and>
        fst ip = \<lparr>inst_name = md_name (p_meta (snd ip)), inst_spec = spec\<rparr>) specs ips)"
    unfolding loadInstances_def by (subst bindR_Inr_iff) (unfold mapR_Inr_iff step, auto)
  also have "\<dots> \<longleftrightarrow> length insts = length specs \<and> length packs = length specs \<and>
     (\<forall>j < length specs. loadPack K fs (ps_packRef (specs ! j)) = Inr (packs ! j) \<and>
        insts ! j = \<lparr>inst_name = md_name (p_meta (packs ! j)), inst_spec = specs ! j\<rparr>)"
    by (auto simp: list_all2_conv_all_nth intro!: exI [of _ "zip insts packs"])
  finally show ?thesis .
qed

text \<open>The identity of an entry: the one it declares, or the name of the pack it points at.\<close>

definition entry_id :: "pack_spec \<Rightarrow> 'c pack \<Rightarrow> string" where
  "entry_id spec p = (if ps_id spec = '''' then md_name (p_meta p) else ps_id spec)"

text \<open>
  C18. Rendering by ID renders the entry that delivery would call by that ID: the document loads,
  every pack in it loads from its own reference, exactly one entry has the requested identity, and
  the plan is that entry's pack rendered with that entry's configuration, whose documents are
  resolved through the reference package.
\<close>

theorem renderConfigured_selects:
  assumes "renderConfigured K fs path i = Inr plan"
  shows "\<exists>cfg packs k. LoadFile (pk_config K) (ne_os (pk_new K)) fs path = Inr cfg \<and>
    length packs = length (cfg_packs cfg) \<and>
    (\<forall>j < length packs. loadPack K fs (ps_packRef (cfg_packs cfg ! j)) = Inr (packs ! j)) \<and> k < length packs \<and>
    (\<forall>j < length packs. entry_id (cfg_packs cfg ! j) (packs ! j) = i \<longleftrightarrow> j = k) \<and>
    RenderInstance (ne_ref (pk_new K) fs) (ne_pack (pk_new K)) (packs ! k) (cfg_packs cfg ! k) = Inr plan"
proof -
  from assms obtain cfg insts packs k where cfg: "LoadFile (pk_config K) (ne_os (pk_new K)) fs path = Inr cfg"
    and li: "loadInstances K fs (cfg_packs cfg) = Inr (insts, packs)" and s: "selectInstance (is_print (ne_os (pk_new K))) insts i path = Inr k"
    and r: "RenderInstance (ne_ref (pk_new K) fs) (ne_pack (pk_new K)) (packs ! k) (cfg_packs cfg ! k) = Inr plan"
    by (auto simp: renderConfigured_def res_simps)
  from s obtain ids where ids: "EffectiveIDs insts = Inr ids" and k: "index_where (\<lambda>got. got = i) ids = Some k"
    by (auto simp: selectInstance_def res_simps split: option.splits if_splits)
  from ids have d: "ids = map effective_id insts" "distinct ids" unfolding EffectiveIDs_spec by blast+
  note L = li [unfolded loadInstances_Inr]
  from index_where_Some [OF k] have kk: "k < length ids" "ids ! k = i" by blast+
  have e: "ids ! j = entry_id (cfg_packs cfg ! j) (packs ! j)" if "j < length packs" for j
    using L that by (simp add: d(1) effective_id_def entry_id_def)
  have len: "length ids = length packs" using L d(1) by simp
  have "entry_id (cfg_packs cfg ! j) (packs ! j) = i \<longleftrightarrow> j = k" if "j < length packs" for j
    using e [OF that] kk nth_eq_iff_index_eq [OF d(2), of j k] that len by auto
  with cfg L kk(1) len r show ?thesis by (intro exI [of _ cfg] exI [of _ packs] exI [of _ k]) simp
qed

subsection \<open>Reading the stream back\<close>

text \<open>A reader of a multi-document stream: it splits at the lines that are three dashes.\<close>

fun split_lines_at :: "string \<Rightarrow> string list \<Rightarrow> string list list" where
  "split_lines_at d [] = [[]]"
| "split_lines_at d (l # ls) =
     (if l = d then [] # split_lines_at d ls
      else (case split_lines_at d ls of [] \<Rightarrow> [[l]] | x # xs \<Rightarrow> (l # x) # xs))"

definition read_stream :: "string \<Rightarrow> string list" where
  "read_stream s = map lines_of (split_lines_at ''---'' (butlast (split_on CHR 0x0A s)))"

text \<open>What the encoder promises: whole lines, none of them a separator.\<close>

definition encodes_lines :: "(obj \<Rightarrow> string res) \<Rightarrow> bool" where
  "encodes_lines marshal \<longleftrightarrow> (\<forall>m doc. marshal m = Inr doc \<longrightarrow>
     (\<exists>ls. doc = lines_of ls \<and> (\<forall>l \<in> set ls. CHR 0x0A \<notin> set l \<and> l \<noteq> ''---'')))"

lemma split_lines_of:
  "\<forall>l \<in> set ls. CHR 0x0A \<notin> set l \<Longrightarrow> butlast (split_on CHR 0x0A (lines_of ls)) = ls"
  using split_lines [of ls "CHR 0x0A"] by (simp add: lines_of_def newline1_def)

lemma split_lines_at_none: "d \<notin> set ls \<Longrightarrow> split_lines_at d ls = [ls]"
  by (induction ls) auto

lemma split_lines_at_sep: "d \<notin> set xs \<Longrightarrow> split_lines_at d (xs @ d # ls) = xs # split_lines_at d ls"
  by (induction xs) auto

text \<open>The lines of a stream of documents.\<close>

fun with_separators :: "string list list \<Rightarrow> string list" where
  "with_separators [] = []"
| "with_separators [ls] = ls"
| "with_separators (ls # lss) = ls @ ''---'' # with_separators lss"

lemma with_separators_snoc:
  "lss \<noteq> [] \<Longrightarrow> with_separators (lss @ [ls]) = with_separators lss @ ''---'' # ls"
  by (induction lss rule: with_separators.induct) simp_all

lemma split_with_separators:
  "lss \<noteq> [] \<Longrightarrow> \<forall>ls \<in> set lss. ''---'' \<notin> set ls \<Longrightarrow> split_lines_at ''---'' (with_separators lss) = lss"
  by (induction lss rule: with_separators.induct) (simp_all add: split_lines_at_none split_lines_at_sep)

lemma lines_of_append: "lines_of (xs @ ys) = lines_of xs @ lines_of ys"
  by (simp add: lines_of_def)

lemma plan_stream_Inr:
  "plan_stream marshal i ms buf = Inr s \<Longrightarrow> encodes_lines marshal \<Longrightarrow> buf = lines_of (with_separators prev) \<Longrightarrow>
    length prev = i \<Longrightarrow>
    \<exists>lss. s = lines_of (with_separators (prev @ lss)) \<and> list_all2 (\<lambda>m ls. marshal m = Inr (lines_of ls)) ms lss \<and>
      (\<forall>ls \<in> set lss. \<forall>l \<in> set ls. CHR 0x0A \<notin> set l \<and> l \<noteq> ''---'')"
proof (induction marshal i ms buf arbitrary: prev rule: plan_stream.induct)
  case (2 marshal i m ms buf)
  from "2.prems"(1) obtain doc where doc: "marshal m = Inr doc" by (auto split: sum.splits)
  with "2.prems"(2) obtain ls where ls: "doc = lines_of ls" "\<forall>l \<in> set ls. CHR 0x0A \<notin> set l \<and> l \<noteq> ''---''"
    unfolding encodes_lines_def by blast
  have buf: "buf @ (if i > 0 then documentSeparator else '''') @ doc = lines_of (with_separators (prev @ [ls]))"
  proof (cases "prev = []")
    case True
    with "2.prems" ls show ?thesis by (simp add: lines_of_def)
  next
    case False
    with "2.prems" have "i > 0" by auto
    with False "2.prems"(3) ls show ?thesis
      by (simp add: with_separators_snoc lines_of_append) (simp add: lines_of_def documentSeparator_def)
  qed
  from "2.prems"(1) doc have "plan_stream marshal (Suc i) ms (buf @ (if i > 0 then documentSeparator else '''') @ doc) = Inr s"
    by simp
  from "2.IH" [OF doc this "2.prems"(2) buf] "2.prems"(4) obtain lss where
    "s = lines_of (with_separators ((prev @ [ls]) @ lss))" "list_all2 (\<lambda>m ls. marshal m = Inr (lines_of ls)) ms lss"
    "\<forall>ls \<in> set lss. \<forall>l \<in> set ls. CHR 0x0A \<notin> set l \<and> l \<noteq> ''---''" by auto
  with doc ls show ?case by (intro exI [of _ "ls # lss"]) auto
qed simp

lemma with_separators_lines:
  "\<forall>ls \<in> set lss. \<forall>l \<in> set ls. CHR 0x0A \<notin> set l \<Longrightarrow> \<forall>l \<in> set (with_separators lss). CHR 0x0A \<notin> set l"
  by (induction lss rule: with_separators.induct) auto

lemma plan_stream_Inl:
  "plan_stream marshal i ms buf = Inl e \<Longrightarrow> \<exists>m \<in> set ms. \<exists>e'. marshal m = Inl e'"
  by (induction marshal i ms buf rule: plan_stream.induct) (auto split: sum.splits)

text \<open>
  C36. The rendered stream reads back. When the encoder writes whole lines and never a bare
  separator, a non-empty plan is either written in one call, and a reader that splits at the
  separator lines gets the encodings of the prerequisites and then of the objects, one document
  each and in order; or some object has no encoding and nothing is written at all.
\<close>

theorem writePlan_roundtrip:
  assumes "encodes_lines (pk_marshal K)" and "rp_prerequisites plan @ rp_objects plan \<noteq> []"
  shows "(\<exists>s. writePlan K plan = (pk_write K s, [s]) \<and>
      list_all2 (\<lambda>m d. pk_marshal K m = Inr d) (rp_prerequisites plan @ rp_objects plan) (read_stream s)) \<or>
    (\<exists>m \<in> set (rp_prerequisites plan @ rp_objects plan). \<exists>e e'. pk_marshal K m = Inl e \<and> writePlan K plan = (Some e', []))"
proof (cases "plan_stream (pk_marshal K) 0 (rp_prerequisites plan @ rp_objects plan) ''''")
  case (Inl e)
  then have w: "writePlan K plan = (Some e, [])" by (simp add: writePlan_def)
  from plan_stream_Inl [OF Inl] w show ?thesis by blast
next
  case (Inr s)
  then have w: "writePlan K plan = (pk_write K s, [s])" by (simp add: writePlan_def)
  have "'''' = lines_of (with_separators [])" by (simp add: lines_of_def)
  from plan_stream_Inr [OF Inr assms(1) this] obtain lss where s: "s = lines_of (with_separators lss)"
    and l: "list_all2 (\<lambda>m ls. pk_marshal K m = Inr (lines_of ls)) (rp_prerequisites plan @ rp_objects plan) lss"
    and c: "\<forall>ls \<in> set lss. \<forall>l \<in> set ls. CHR 0x0A \<notin> set l \<and> l \<noteq> ''---''" by auto
  from l assms(2) have ne: "lss \<noteq> []" by (auto simp del: append_is_Nil_conv)
  have "read_stream s = map lines_of lss"
    unfolding read_stream_def s using c with_separators_lines [of lss]
    by (subst split_lines_of) (blast, subst split_with_separators [OF ne], blast, rule refl)
  with l w show ?thesis by (auto simp: list_all2_map2 simp del: append_is_Nil_conv)
qed

subsection \<open>A document and a pack the theorems apply to\<close>

definition sample_pk :: "unit pack_cli" where
  "sample_pk =
     \<lparr>pk_new = \<lparr>ne_pack = sample_env raw_meta, ne_ref = (\<lambda>fs. sample_ref\<lparr>re_abs := (\<lambda>p. Inr ''/w/ns.yaml'')\<rparr>), ne_os = quiet_os,
        ne_chart_yaml = ne_chart_yaml sample_new, ne_values_yaml = ne_values_yaml sample_new,
        ne_format = Inr, ne_json = (\<lambda>v. Inr ''1''), ne_word = (\<lambda>r. False)\<rparr>,
      pk_config = sample_yaml\<lparr>y_strict := (\<lambda>raw. Inr (sample_config\<lparr>cfg_packs := [raw_spec]\<rparr>))\<rparr>,
      pk_dirfs = (\<lambda>fs d. raw_fs), pk_marshal = (\<lambda>m. Inr (lines_of [''kind: Pod''])), pk_write = (\<lambda>s. None)\<rparr>"

lemma raw_load: "loadPack sample_pk fs ''./web'' = Inr raw_pack"
  by (simp add: loadPack_def localRefDir_def sample_pk_def has_prefix_def res_simps)
     (simp add: Load_def decodeMetadata_def checkPayload_def dirExists_def pack_types ManifestsDir_def sample_defs)

lemma sample_refs: "validateRefToken [] ''./web'' = []" "validateRefToken [] ''./ns.yaml'' = []"
  by (simp_all add: validateRefToken_def runes_def is_space_def is_control_def)

lemma raw_spec_default: "defaultPack raw_spec = raw_spec"
  by (simp add: defaultPack_def raw_spec_def defaultManifest_def)

lemma raw_spec_ok: "pack_ok tm raw_spec"
  by (simp add: pack_ok_def manifest_ok_def raw_spec_def sample_refs LifecyclePre_def)

lemma sample_document:
  "LoadFile (pk_config sample_pk) quiet_os \<lparr>files = [(''cube.yaml'', ''doc'')], dirs = []\<rparr> ''cube.yaml''
     = Inr (config_default (sample_config\<lparr>cfg_packs := [raw_spec]\<rparr>))"
proof -
  have "complete_config (y_dns1123 sample_yaml) (y_type_meta sample_yaml)
      (config_default (sample_config\<lparr>cfg_packs := [raw_spec]\<rparr>))"
    using sample_complete
    by (simp add: complete_config_def config_default_def sample_config_def)
       (simp add: raw_spec_default raw_spec_ok)
  then have v: "config_validate (y_dns1123 sample_yaml) (y_type_meta sample_yaml)
      (config_default (sample_config\<lparr>cfg_packs := [raw_spec]\<rparr>)) = []"
    unfolding config_validate_complete .
  have "decode (pk_config sample_pk) ''doc'' = Inr (config_default (sample_config\<lparr>cfg_packs := [raw_spec]\<rparr>))"
    using v by (simp add: decode_def sample_yaml_def sample_pk_def Let_def)
  then show ?thesis by (simp add: LoadFile_def read_file_def quiet_os_def)
qed

lemma raw_entry:
  "RenderInstance (sample_ref\<lparr>re_abs := (\<lambda>p. Inr ''/w/ns.yaml'')\<rparr>) (sample_env raw_meta) raw_pack raw_spec =
     Inr \<lparr>rp_prerequisites = [pod_in_apps], rp_objects = [pod_in_apps]\<rparr>"
proof -
  let ?R = "sample_ref\<lparr>re_abs := (\<lambda>p. Inr ''/w/ns.yaml'')\<rparr>"
  have "resolveDocument ?R ''./ns.yaml'' = Inr ''kind: B''"
    by (simp add: resolveDocument_def ResolveFile_def parse_ref_def isLocalPath_def backendFor_def localFile_def
        localStat_def sample_ref_def)
  from raw_instance_env [of "resolveDocument ?R", OF this] show ?thesis
    by (simp add: RenderInstance_def raw_env_def)
qed

theorem renderConfigured_selects_witness:
  "\<exists>p. loadPack sample_pk \<lparr>files = [(''cube.yaml'', ''doc'')], dirs = []\<rparr> ''./web'' = Inr p \<and> entry_id raw_spec p = ''web'' \<and>
     RenderInstance (sample_ref\<lparr>re_abs := (\<lambda>p. Inr ''/w/ns.yaml'')\<rparr>) (sample_env raw_meta) p raw_spec =
       Inr \<lparr>rp_prerequisites = [pod_in_apps], rp_objects = [pod_in_apps]\<rparr>"
proof -
  let ?fs = "\<lparr>files = [(''cube.yaml'', ''doc'')], dirs = []\<rparr>"
  have packs: "cfg_packs (config_default (sample_config\<lparr>cfg_packs := [raw_spec]\<rparr>)) = [raw_spec]"
    by (simp add: config_default_def raw_spec_default)
  have env: "ne_os (pk_new sample_pk) = quiet_os" "ne_ref (pk_new sample_pk) ?fs = sample_ref\<lparr>re_abs := (\<lambda>p. Inr ''/w/ns.yaml'')\<rparr>" "ne_pack (pk_new sample_pk) = sample_env raw_meta"
    by (simp_all add: sample_pk_def)
  let ?inst = "\<lparr>inst_name = ''web'', inst_spec = raw_spec\<rparr>"
  have i: "loadInstances sample_pk ?fs [raw_spec] = Inr ([?inst], [raw_pack])"
    unfolding loadInstances_Inr using raw_load [of ?fs] by (simp add: raw_pack_def raw_meta_def raw_spec_def)
  have "EffectiveIDs [?inst] = Inr [''web'']"
    unfolding EffectiveIDs_spec by (simp add: effective_id_def raw_spec_def occurrences_def)
  then have s: "selectInstance print [?inst] ''web'' path = Inr 0" for print path
    by (simp add: selectInstance_def)
  have "renderConfigured sample_pk ?fs ''cube.yaml'' ''web'' =
      Inr \<lparr>rp_prerequisites = [pod_in_apps], rp_objects = [pod_in_apps]\<rparr>"
    by (simp add: renderConfigured_def env sample_document packs i s raw_entry)
  from renderConfigured_selects [OF this] obtain cfg ps k where
    c: "LoadFile (pk_config sample_pk) (ne_os (pk_new sample_pk)) ?fs ''cube.yaml'' = Inr cfg"
    and l: "length ps = length (cfg_packs cfg)" "k < length ps"
    and j: "\<forall>j < length ps. loadPack sample_pk ?fs (ps_packRef (cfg_packs cfg ! j)) = Inr (ps ! j)"
    and e: "\<forall>j < length ps. entry_id (cfg_packs cfg ! j) (ps ! j) = ''web'' \<longleftrightarrow> j = k"
    and r: "RenderInstance (ne_ref (pk_new sample_pk) ?fs) (ne_pack (pk_new sample_pk)) (ps ! k) (cfg_packs cfg ! k) =
      Inr \<lparr>rp_prerequisites = [pod_in_apps], rp_objects = [pod_in_apps]\<rparr>" by blast
  from c packs have cfg: "cfg_packs cfg = [raw_spec]" by (auto simp: env sample_document)
  with l have "k = 0" "length ps = 1" by auto
  with cfg j e r show ?thesis by (intro exI [of _ "ps ! 0"]) (simp add: env raw_spec_def)
qed

theorem writePlan_roundtrip_witness:
  "\<exists>s. writePlan sample_pk \<lparr>rp_prerequisites = [pod_in_apps], rp_objects = [pod_in_apps]\<rparr> = (None, [s]) \<and>
     read_stream s = [lines_of [''kind: Pod''], lines_of [''kind: Pod'']]"
proof -
  have "encodes_lines (pk_marshal sample_pk)"
    by (auto simp: encodes_lines_def sample_pk_def intro!: exI [of _ "[''kind: Pod'']"])
  from writePlan_roundtrip [OF this, of "\<lparr>rp_prerequisites = [pod_in_apps], rp_objects = [pod_in_apps]\<rparr>"]
  show ?thesis by (auto simp: sample_pk_def list_all2_Cons1)
qed

definition no_flags :: pack_flags where
  "no_flags = \<lparr>pf_type = ''raw'', pf_typeChanged = False, pf_name = '''', pf_from = '''', pf_fromChart = '''',
     pf_id = '''', pf_config = ''cube.yaml'', pf_configChanged = False\<rparr>"

theorem validate_agrees_with_render_witness:
  "(\<exists>msg. runPackValidate sample_pk ''./web'' \<lparr>files = [], dirs = []\<rparr> = Inr msg) \<and>
   (\<exists>plan. renderTarget sample_pk \<lparr>files = [], dirs = []\<rparr> no_flags (Some ''./web'') = Inr plan)"
proof -
  have "ne_pack (pk_new sample_pk) = sample_env raw_meta" by (simp add: sample_pk_def)
  then have "\<exists>msg. runPackValidate sample_pk ''./web'' \<lparr>files = [], dirs = []\<rparr> = Inr msg"
    using raw_load raw_Render by (simp add: runPackValidate_def)
  with validate_agrees_with_render [of no_flags sample_pk "''./web''" "\<lparr>files = [], dirs = []\<rparr>"]
  show ?thesis by (auto simp: no_flags_def)
qed

end
