(* ===== verification/CaLedger.thy ===== *)
theory CaLedger
  imports ConfigTypes GoOS "HOL-Library.Multiset"
begin

section \<open>The trust ledger (\<open>internal/ca\<close>: ledger.go, artifact.go, errors.go)\<close>

text \<open>
  The coded errors of the certificate authority, the operator's certificate file and the trust
  ledger: its records, its normal form, its YAML round trip over a codec given as a parameter, and
  the interpretation of any sequence of updates as a map from cube and store to entry.
\<close>

subsection \<open>Coded errors\<close>

abbreviation CodeMint :: code where "CodeMint \<equiv> ''CUBE-CA-001''"

definition newMintError :: "string \<Rightarrow> err \<Rightarrow> err" where
  "newMintError what cause = wrap CodeMint [what] (Some cause)"

abbreviation CodeUnusableMaterial :: code where "CodeUnusableMaterial \<equiv> ''CUBE-CA-002''"

definition newUnusableMaterialError :: "string \<Rightarrow> err option \<Rightarrow> err" where
  "newUnusableMaterialError detail cause = wrap CodeUnusableMaterial [detail] cause"

definition newUnusableSecretError :: "string \<Rightarrow> string \<Rightarrow> string \<Rightarrow> err option \<Rightarrow> err" where
  "newUnusableSecretError namespace name detail cause = wrap CodeUnusableMaterial [namespace, name, detail] cause"

abbreviation CodeLedger :: code where "CodeLedger \<equiv> ''CUBE-CA-003''"

definition newLedgerError :: "string \<Rightarrow> err option \<Rightarrow> err" where
  "newLedgerError detail cause = wrap CodeLedger [detail] cause"

definition NewLedgerUnreadableError :: "string \<Rightarrow> err \<Rightarrow> err" where
  "NewLedgerUnreadableError path cause = wrap CodeLedger [path] (Some cause)"

abbreviation CodeUnsupportedProvider :: code where "CodeUnsupportedProvider \<equiv> ''CUBE-CA-005''"

definition NewUnsupportedProviderError :: "string \<Rightarrow> err" where
  "NewUnsupportedProviderError provider = wrap CodeUnsupportedProvider [provider] None"

abbreviation CodeTrustStore :: code where "CodeTrustStore \<equiv> ''CUBE-CA-004''"

definition newTrustStoreError :: "string \<Rightarrow> string \<Rightarrow> err option \<Rightarrow> err" where
  "newTrustStoreError summary remediation cause = wrap CodeTrustStore [summary, remediation] cause"

definition newRemovalRefusedError :: "string \<Rightarrow> err \<Rightarrow> err" where
  "newRemovalRefusedError cube cause =
     newTrustStoreError (''refusing to remove a certificate that is not the CA of '' @ cube) ''check the trust ledger''
       (Some cause)"

definition NewMissingArtifactError :: "string \<Rightarrow> string \<Rightarrow> err option \<Rightarrow> err" where
  "NewMissingArtifactError cube path cause =
     newTrustStoreError (''cannot install the CA for cube '' @ cube @ '': no certificate at '' @ path) ''run bootstrap''
       cause"

definition NewUnusableArtifactError :: "string \<Rightarrow> string \<Rightarrow> err \<Rightarrow> err" where
  "NewUnusableArtifactError cube path cause =
     newTrustStoreError (''cannot install the CA for cube '' @ cube @ '': the certificate at '' @ path @ '' does not parse'')
       ''re-run bootstrap'' (Some cause)"

definition NewArtifactReadError :: "string \<Rightarrow> string \<Rightarrow> err \<Rightarrow> err" where
  "NewArtifactReadError cube path cause =
     newTrustStoreError (''cannot read the CA certificate at '' @ path @ '' for cube '' @ cube)
       ''check the permissions'' (Some cause)"

definition NewUnsupportedStoreError :: "string \<Rightarrow> string \<Rightarrow> err" where
  "NewUnsupportedStoreError goos certPath =
     newTrustStoreError (''no user-scope trust store driver for '' @ goos) certPath None"

definition NewStoreMismatchError :: "string \<Rightarrow> string \<Rightarrow> string \<Rightarrow> err" where
  "NewStoreMismatchError cube recorded current =
     newTrustStoreError (''cannot remove the CA of '' @ cube @ '': recorded in '' @ recorded @ '', this machine has '' @ current)
       cube None"

lemmas ca_error_defs =
  newMintError_def newUnusableMaterialError_def newUnusableSecretError_def newLedgerError_def
  NewLedgerUnreadableError_def NewUnsupportedProviderError_def newTrustStoreError_def
  newRemovalRefusedError_def NewMissingArtifactError_def NewUnusableArtifactError_def
  NewArtifactReadError_def NewUnsupportedStoreError_def NewStoreMismatchError_def

subsection \<open>The artifact layout\<close>

definition DirName :: string where "DirName = ''.cube-idp''"
definition LedgerFileName :: string where "LedgerFileName = ''trust.yaml''"
definition CertFileName :: string where "CertFileName = ''ca.crt''"

definition LedgerPath :: "string \<Rightarrow> string" where
  "LedgerPath root = path_join root LedgerFileName"

definition CertPath :: "string \<Rightarrow> string \<Rightarrow> string" where
  "CertPath root cube = path_join (path_join root cube) CertFileName"

subsection \<open>Operations\<close>

record entry =
  e_cube :: string
  e_fingerprint :: string
  e_store :: string
  e_date :: string

record ledger =
  l_entries :: "entry list"

definition Find :: "ledger \<Rightarrow> string \<Rightarrow> entry option" where
  "Find l cube =
     (case index_where (\<lambda>e. e_cube e = cube) (l_entries l) of
        None \<Rightarrow> None
      | Some i \<Rightarrow> Some (l_entries l ! i))"

definition Upsert :: "ledger \<Rightarrow> entry \<Rightarrow> ledger" where
  "Upsert l e =
     (case index_where (\<lambda>x. e_cube x = e_cube e) (l_entries l) of
        Some i \<Rightarrow> \<lparr>l_entries = (l_entries l)[i := e]\<rparr>
      | None \<Rightarrow> \<lparr>l_entries = l_entries l @ [e]\<rparr>)"

definition Remove :: "ledger \<Rightarrow> string \<Rightarrow> ledger" where
  "Remove l cube = \<lparr>l_entries = filter (\<lambda>e. e_cube e \<noteq> cube) (l_entries l)\<rparr>"

fun check_entries :: "nat \<Rightarrow> string list \<Rightarrow> entry list \<Rightarrow> err option" where
  "check_entries i seen [] = None"
| "check_entries i seen (e # es) =
     (if e_cube e = '''' then Some (newLedgerError (''is malformed: entry '' @ itoa (int i) @ '' has no cube name'') None)
      else if e_fingerprint e = '''' then Some (newLedgerError (''is malformed: entry '' @ itoa (int i) @ '' has no fingerprint'') None)
      else if e_store e = '''' then Some (newLedgerError (''is malformed: entry '' @ itoa (int i) @ '' has no store'') None)
      else if e_date e = '''' then Some (newLedgerError (''is malformed: entry '' @ itoa (int i) @ '' has no date'') None)
      else if e_cube e \<in> set seen then Some (newLedgerError (''is malformed: cube '' @ e_cube e @ '' has more than one entry'') None)
      else check_entries (Suc i) (e_cube e # seen) es)"

text \<open>The YAML library: strict decoding, and rendering.\<close>

record ledger_yaml =
  ly_unmarshal :: "string \<Rightarrow> ledger res"
  ly_marshal :: "ledger \<Rightarrow> string res"

definition ParseLedger :: "ledger_yaml \<Rightarrow> string \<Rightarrow> ledger res" where
  "ParseLedger Y data =
     (if trim_space data = '''' then Inr \<lparr>l_entries = []\<rparr>
      else case ly_unmarshal Y data of
        Inl e \<Rightarrow> Inl (newLedgerError ''does not parse'' (Some e))
      | Inr l \<Rightarrow>
          (case check_entries 0 [] (l_entries l) of
             Some e \<Rightarrow> Inl e
           | None \<Rightarrow> Inr l))"

text \<open>
  \<open>slices.SortFunc\<close> by cube name; the names of a well-formed ledger are distinct, so it does
  not matter that the sort need not be stable.
\<close>

definition Marshal :: "ledger_yaml \<Rightarrow> ledger \<Rightarrow> string res" where
  "Marshal Y l =
     (case ly_marshal Y \<lparr>l_entries = sort_key e_cube (l_entries l)\<rparr> of
        Inl e \<Rightarrow> Inl (newLedgerError ''cannot be rendered'' (Some e))
      | Inr data \<Rightarrow> Inr data)"

subsection \<open>The ledger as a map from cubes to entries\<close>

text \<open>
  What a record of installations promises its clients, the trust verbs: at most one entry
  per cube, kept by every operation, and the laws of a map.
\<close>

locale installation_record =
  fixes ok :: "'l \<Rightarrow> bool"
    and valid :: "'e \<Rightarrow> bool"
    and find_e :: "'l \<Rightarrow> string \<Rightarrow> 'e option"
    and put :: "'l \<Rightarrow> 'e \<Rightarrow> 'l"
    and drop_e :: "'l \<Rightarrow> string \<Rightarrow> 'l"
    and key :: "'e \<Rightarrow> string"
  assumes ok_put: "ok l \<Longrightarrow> valid e \<Longrightarrow> ok (put l e)"
    and ok_drop: "ok l \<Longrightarrow> ok (drop_e l c)"
    and find_put: "find_e (put l e) c = (if c = key e then Some e else find_e l c)"
    and find_drop: "find_e (drop_e l c) c' = (if c' = c then None else find_e l c')"
    and find_key: "find_e l c = Some e \<Longrightarrow> key e = c"
begin

lemma put_twice: "key e = key e' \<Longrightarrow> find_e (put (put l e) e') = find_e (put l e')"
  by (simp add: fun_eq_iff find_put)

lemma drop_put: "find_e (drop_e (put l e) (key e)) = find_e (drop_e l (key e))"
  by (simp add: fun_eq_iff find_put find_drop)

lemma drop_idem: "find_e (drop_e (drop_e l c) c) = find_e (drop_e l c)"
  by (simp add: fun_eq_iff find_drop)

text \<open>Any sequence of installations and removals answers for the last word on each cube.\<close>

fun replay :: "'l \<Rightarrow> ('e + string) list \<Rightarrow> 'l" where
  "replay l [] = l"
| "replay l (Inl e # ops) = replay (put l e) ops"
| "replay l (Inr c # ops) = replay (drop_e l c) ops"

lemma replay_ok: "ok l \<Longrightarrow> (\<forall>e. Inl e \<in> set ops \<longrightarrow> valid e) \<Longrightarrow> ok (replay l ops)"
  by (induction l ops rule: replay.induct) (auto intro: ok_put ok_drop)

text \<open>What is on record for a cube is decided by the last operation that named it.\<close>

fun last_word :: "string \<Rightarrow> ('e + string) list \<Rightarrow> 'e option \<Rightarrow> 'e option" where
  "last_word c [] r = r"
| "last_word c (Inl e # ops) r = last_word c ops (if key e = c then Some e else r)"
| "last_word c (Inr d # ops) r = last_word c ops (if d = c then None else r)"

lemma find_replay: "find_e (replay l ops) c = last_word c ops (find_e l c)"
  by (induction l ops rule: replay.induct) (auto simp: find_put find_drop)

end

definition ledger_ok :: "ledger \<Rightarrow> bool" where
  "ledger_ok l \<longleftrightarrow> distinct (map e_cube (l_entries l)) \<and>
     list_all (\<lambda>e. e_cube e \<noteq> '''' \<and> e_fingerprint e \<noteq> '''' \<and> e_store e \<noteq> '''' \<and> e_date e \<noteq> '''') (l_entries l)"

lemma Find_find: "Find l c = find (\<lambda>e. e_cube e = c) (l_entries l)"
proof -
  have "(case index_where P xs of None \<Rightarrow> None | Some i \<Rightarrow> Some (xs ! i)) = find P xs" for P and xs :: "entry list"
    by (induction xs) (auto split: option.splits)
  then show ?thesis by (simp add: Find_def)
qed

lemma find_update:
  assumes "index_where (\<lambda>x. e_cube x = e_cube e) es = Some i"
  shows "find (\<lambda>x. e_cube x = c) (es[i := e]) = (if c = e_cube e then Some e else find (\<lambda>x. e_cube x = c) es)"
  using assms
proof (induction es arbitrary: i)
  case Nil
  then show ?case by simp
next
  case (Cons x es)
  then show ?case by (cases i) (auto split: if_splits)
qed

lemma find_append: "find P (xs @ ys) = (case find P xs of Some x \<Rightarrow> Some x | None \<Rightarrow> find P ys)"
  by (induction xs) auto

lemma Find_Upsert: "Find (Upsert l e) c = (if c = e_cube e then Some e else Find l c)"
proof (cases "index_where (\<lambda>x. e_cube x = e_cube e) (l_entries l)")
  case None
  then have "find (\<lambda>x. e_cube x = e_cube e) (l_entries l) = None"
    by (simp add: index_where_None_iff find_None_iff)
  with None show ?thesis
    by (auto simp: Find_find Upsert_def find_append split: option.split)
next
  case (Some i)
  then show ?thesis
    by (simp add: Find_find Upsert_def find_update)
qed

lemma Find_Remove: "Find (Remove l c) c' = (if c' = c then None else Find l c')"
proof -
  have "find (\<lambda>x. e_cube x = c') (filter (\<lambda>e. e_cube e \<noteq> c) es) =
      (if c' = c then None else find (\<lambda>x. e_cube x = c') es)" for es
    by (induction es) auto
  then show ?thesis by (cases "c' = c") (simp_all add: Find_find Remove_def)
qed

lemma map_cube_update:
  assumes "index_where (\<lambda>x. e_cube x = e_cube e) es = Some i"
  shows "map e_cube (es[i := e]) = map e_cube es"
  using index_where_Some [OF assms] by (simp add: map_update list_update_same_conv)

definition entry_ok :: "entry \<Rightarrow> bool" where
  "entry_ok e \<longleftrightarrow> e_cube e \<noteq> '''' \<and> e_fingerprint e \<noteq> '''' \<and> e_store e \<noteq> '''' \<and> e_date e \<noteq> ''''"

lemma ledger_ok_alt: "ledger_ok l \<longleftrightarrow> distinct (map e_cube (l_entries l)) \<and> (\<forall>e \<in> set (l_entries l). entry_ok e)"
  by (simp add: ledger_ok_def list_all_iff entry_ok_def)

lemma ledger_ok_Upsert: "ledger_ok l \<Longrightarrow> entry_ok e \<Longrightarrow> ledger_ok (Upsert l e)"
proof (cases "index_where (\<lambda>x. e_cube x = e_cube e) (l_entries l)")
  case None
  then have "Upsert l e = \<lparr>l_entries = l_entries l @ [e]\<rparr>"
    by (simp add: Upsert_def)
  moreover have "e_cube e \<notin> e_cube ` set (l_entries l)"
    using None by (auto simp: index_where_None_iff)
  ultimately show "ledger_ok l \<Longrightarrow> entry_ok e \<Longrightarrow> ledger_ok (Upsert l e)"
    by (auto simp: ledger_ok_alt)
next
  case (Some i)
  then show "ledger_ok l \<Longrightarrow> entry_ok e \<Longrightarrow> ledger_ok (Upsert l e)"
    by (auto simp: ledger_ok_alt Upsert_def map_cube_update dest: set_update_subset_insert [THEN subsetD])
qed

lemma ledger_ok_Remove: "ledger_ok l \<Longrightarrow> ledger_ok (Remove l c)"
  by (auto simp: ledger_ok_alt Remove_def distinct_map inj_on_def)

lemma Find_cube: "Find l c = Some e \<Longrightarrow> e_cube e = c"
  by (auto simp: Find_find find_Some_iff)

interpretation lr: installation_record ledger_ok entry_ok Find Upsert Remove e_cube
  by unfold_locales (auto simp: ledger_ok_Upsert ledger_ok_Remove Find_Upsert Find_Remove intro: Find_cube)

text \<open>
  The ledger is a map with one entry per cube: after any sequence of installs and removes,
  what is on record for a cube is what the last operation naming it left, every other cube is
  untouched, and the entries are still complete with one per cube.
\<close>

theorem ledger_replay:
  assumes "ledger_ok l" and "\<And>e. Inl e \<in> set ops \<Longrightarrow> entry_ok e"
  shows "ledger_ok (lr.replay l ops) \<and> Find (lr.replay l ops) = (\<lambda>c. lr.last_word c ops (Find l c))"
  using lr.replay_ok [OF assms(1)] assms(2) lr.find_replay by (auto simp: fun_eq_iff)

definition sample_entry :: entry where
  "sample_entry = \<lparr>e_cube = ''dev'', e_fingerprint = ''ab12'', e_store = ''p11-kit'', e_date = ''2026-07-01''\<rparr>"

lemma sample_entry_ok: "entry_ok sample_entry"
  by (simp add: entry_ok_def sample_entry_def)

theorem ledger_replay_witness:
  "Find (lr.replay \<lparr>l_entries = []\<rparr> [Inl sample_entry, Inr ''old'']) ''dev'' = Some sample_entry"
proof -
  have "ledger_ok \<lparr>l_entries = []\<rparr>" by (simp add: ledger_ok_def)
  from ledger_replay [OF this, of "[Inl sample_entry, Inr ''old'']"] sample_entry_ok show ?thesis
    by (simp add: sample_entry_def)
qed

subsection \<open>Parsing and rendering\<close>

lemma check_entries_None:
  "check_entries i seen es = None \<longleftrightarrow>
     (\<forall>e \<in> set es. entry_ok e \<and> e_cube e \<notin> set seen) \<and> distinct (map e_cube es)"
proof (induction i seen es rule: check_entries.induct)
  case (1 i seen)
  then show ?case by simp
next
  case (2 i seen e es)
  show ?case
  proof (cases "entry_ok e \<and> e_cube e \<notin> set seen")
    case True
    then have "check_entries i seen (e # es) = check_entries (Suc i) (e_cube e # seen) es"
      by (simp add: entry_ok_def)
    moreover have "(check_entries (Suc i) (e_cube e # seen) es = None) =
        ((\<forall>x \<in> set es. entry_ok x \<and> e_cube x \<notin> set (e_cube e # seen)) \<and> distinct (map e_cube es))"
      using True by (intro 2) (simp_all only: entry_ok_def not_False_eq_True simp_thms)
    ultimately have "(check_entries i seen (e # es) = None) =
        ((\<forall>x \<in> set es. entry_ok x \<and> e_cube x \<notin> set (e_cube e # seen)) \<and> distinct (map e_cube es))"
      by (simp only:)
    also have "\<dots> = ((\<forall>x \<in> set (e # es). entry_ok x \<and> e_cube x \<notin> set seen) \<and> distinct (map e_cube (e # es)))"
      using True by (auto simp: image_iff)
    finally show ?thesis .
  next
    case False
    then have "check_entries i seen (e # es) \<noteq> None"
      unfolding entry_ok_def check_entries.simps by (simp split del: if_split) (blast | simp split: if_split, blast)+
    with False show ?thesis by auto
  qed
qed

lemma ParseLedger_ledger_ok: "ParseLedger Y data = Inr l \<Longrightarrow> ledger_ok l"
  by (auto simp: ParseLedger_def ledger_ok_alt check_entries_None split: if_splits sum.splits option.splits)

lemma sort_key_perm:
  assumes "mset xs = mset ys" "distinct (map f xs)"
  shows "sort_key f xs = sort_key f ys"
proof (rule sort_key_inj_key_eq)
  show "mset xs = mset (sort_key f ys)" using assms(1) by simp
  show "inj_on f (set xs)" using assms(2) by (simp add: distinct_map)
  show "sorted (map f (sort_key f ys))" by simp
qed

lemma find_distinct:
  "distinct (map e_cube es) \<Longrightarrow> find (\<lambda>e. e_cube e = c) es = Some e \<longleftrightarrow> e \<in> set es \<and> e_cube e = c"
  by (induction es) (auto simp: image_iff)

lemma Find_perm:
  assumes "ledger_ok l" "mset (l_entries l) = mset (l_entries l')"
  shows "Find l = Find l'"
proof -
  have d: "distinct (map e_cube (l_entries l))" "distinct (map e_cube (l_entries l'))"
    using assms mset_eq_imp_distinct_iff [of "map e_cube (l_entries l)" "map e_cube (l_entries l')"]
    by (auto simp: ledger_ok_def)
  have "set (l_entries l) = set (l_entries l')" using assms(2) by (rule mset_eq_setD)
  then have "Find l c = Some e \<longleftrightarrow> Find l' c = Some e" for c e
    using find_distinct [OF d(1)] find_distinct [OF d(2)] by (simp add: Find_find)
  then show ?thesis by (metis ext not_Some_eq option.exhaust)
qed

text \<open>The YAML library reads back what it rendered, and what it renders is not blank.\<close>

definition yaml_roundtrip :: "ledger_yaml \<Rightarrow> bool" where
  "yaml_roundtrip Y \<longleftrightarrow>
     (\<forall>l data. ly_marshal Y l = Inr data \<longrightarrow> ly_unmarshal Y data = Inr l \<and> trim_space data \<noteq> '''')"

lemma ledger_marshalled:
  assumes "yaml_roundtrip Y" and "ledger_ok l" and "Marshal Y l = Inr data"
  shows "ledger_ok \<lparr>l_entries = sort_key e_cube (l_entries l)\<rparr>"
    and "ParseLedger Y data = Inr \<lparr>l_entries = sort_key e_cube (l_entries l)\<rparr>"
    and "Find \<lparr>l_entries = sort_key e_cube (l_entries l)\<rparr> = Find l"
    and "Marshal Y \<lparr>l_entries = sort_key e_cube (l_entries l)\<rparr> = Inr data"
proof -
  let ?l = "\<lparr>l_entries = sort_key e_cube (l_entries l)\<rparr>"
  from assms(3) have m: "ly_marshal Y ?l = Inr data"
    by (auto simp: Marshal_def split: sum.splits)
  with assms(1) have u: "ly_unmarshal Y data = Inr ?l" "trim_space data \<noteq> ''''"
    by (auto simp: yaml_roundtrip_def)
  show ok: "ledger_ok ?l"
    using assms(2) mset_eq_imp_distinct_iff [of "map e_cube (l_entries ?l)" "map e_cube (l_entries l)"]
    by (auto simp: ledger_ok_alt)
  then have "check_entries 0 [] (sort_key e_cube (l_entries l)) = None"
    by (simp add: check_entries_None ledger_ok_alt)
  with u show "ParseLedger Y data = Inr ?l"
    by (simp add: ParseLedger_def)
  show "Find ?l = Find l"
    by (rule Find_perm [OF ok]) simp
  show "Marshal Y ?l = Inr data"
    using m by (simp add: Marshal_def sort_key_id_if_sorted)
qed

lemma ledger_reread:
  assumes "yaml_roundtrip Y" and "ledger_ok l" and "Marshal Y l = Inr data"
  shows "\<exists>l'. ParseLedger Y data = Inr l' \<and> Find l' = Find l"
  using ledger_marshalled [OF assms] by blast

text \<open>
  C32. A rendered ledger reads back as the same record: for a well-formed ledger, parsing what
  \<open>Marshal\<close> wrote succeeds, gives every cube the same entry, and renders to the same bytes
  again. The bytes do not depend on the order the entries were accumulated in. And whatever
  parses at all is well formed.
\<close>

theorem ledger_roundtrip:
  assumes "yaml_roundtrip Y" and "ledger_ok l" and "Marshal Y l = Inr data"
    and "mset (l_entries l2) = mset (l_entries l)"
  shows "(\<exists>l'. ParseLedger Y data = Inr l' \<and> Find l' = Find l \<and> ledger_ok l' \<and> Marshal Y l' = Inr data \<and>
      sorted (map e_cube (l_entries l'))) \<and> Marshal Y l2 = Inr data \<and>
    (\<forall>text l'. ParseLedger Y text = Inr l' \<longrightarrow> ledger_ok l')"
proof -
  have "sort_key e_cube (l_entries l) = sort_key e_cube (l_entries l2)"
    using assms(2,4) by (intro sort_key_perm) (auto simp: ledger_ok_def)
  then have "Marshal Y l2 = Inr data"
    using assms(3) by (simp add: Marshal_def)
  then show ?thesis
    using ledger_marshalled [OF assms(1-3)] ParseLedger_ledger_ok by auto
qed

definition sample_ledger :: ledger where
  "sample_ledger = \<lparr>l_entries = [sample_entry, sample_entry\<lparr>e_cube := ''alpha''\<rparr>]\<rparr>"

text \<open>A library that renders one ledger.\<close>

definition yaml_of :: "ledger \<Rightarrow> ledger_yaml" where
  "yaml_of l =
     \<lparr>ly_unmarshal = (\<lambda>data. if data = ''entries'' then Inr l else Inl (Plain ''yaml'')),
      ly_marshal = (\<lambda>l'. if l' = l then Inr ''entries'' else Inl (Plain ''yaml''))\<rparr>"

lemma yaml_of_roundtrip: "yaml_roundtrip (yaml_of l)"
  by (auto simp: yaml_roundtrip_def yaml_of_def trim_space_def space_chunk_def is_space_def)

definition sample_yaml :: ledger_yaml where
  "sample_yaml = yaml_of \<lparr>l_entries = rev (l_entries sample_ledger)\<rparr>"

lemma sample_yaml_roundtrip: "yaml_roundtrip sample_yaml"
  by (simp add: sample_yaml_def yaml_of_roundtrip)

theorem ledger_roundtrip_witness:
  "\<exists>l'. ParseLedger sample_yaml ''entries'' = Inr l' \<and> Find l' = Find sample_ledger \<and> ledger_ok l' \<and>
     Marshal sample_yaml l' = Inr ''entries'' \<and> sorted (map e_cube (l_entries l'))"
proof -
  have ok: "ledger_ok sample_ledger"
    by (simp add: ledger_ok_def sample_ledger_def sample_entry_def)
  have "Marshal sample_yaml sample_ledger = Inr ''entries''"
    by (simp add: Marshal_def sample_yaml_def yaml_of_def sample_ledger_def sample_entry_def)
  from ledger_roundtrip [OF sample_yaml_roundtrip ok this refl] show ?thesis by blast
qed

end
