(* ===== verification/CaMint.thy ===== *)
theory CaMint
  imports CaLedger JsonVal "HOL-Library.Word"
begin

section \<open>Minting and reusing the certificate authority (\<open>internal/ca\<close>: ca.go, mint.go, ensure.go)\<close>

text \<open>
  The cryptographic library is a parameter, the record \<open>crypto\<close>; its laws, which say what the
  documentation of \<open>crypto/x509\<close>, \<open>crypto/rand\<close> and \<open>encoding/pem\<close> says, are \<open>crypto_ok\<close>.
  The source of entropy is a state \<open>'r\<close> that every draw threads.
\<close>

unbundle bit_operations_syntax

subsection \<open>Time\<close>

text \<open>A \<open>time.Time\<close> is its civil date and the second of the day, in UTC.\<close>

record gotime =
  t_year :: int
  t_month :: int
  t_day :: int
  t_secs :: int

text \<open>Days since 1970-01-01 of a date of the Gregorian calendar, out-of-range days normalised.\<close>

definition civil_days :: "int \<Rightarrow> int \<Rightarrow> int \<Rightarrow> int" where
  "civil_days y m d =
     (let y' = (if m \<le> 2 then y - 1 else y);
          m' = (if m \<le> 2 then m + 9 else m - 3)
      in 365 * y' + y' div 4 - y' div 100 + y' div 400 + (153 * m' + 2) div 5 + d - 1 - 719468)"

definition unix :: "gotime \<Rightarrow> int" where
  "unix t = civil_days (t_year t) (t_month t) (t_day t) * 86400 + t_secs t"

text \<open>\<open>AddDate(years, 0, 0)\<close>.\<close>

definition add_years :: "gotime \<Rightarrow> int \<Rightarrow> gotime" where
  "add_years t n = t\<lparr>t_year := t_year t + n\<rparr>"

definition clockSkew :: int where "clockSkew = 3600"
definition caValidityYears :: int where "caValidityYears = 10"
definition leafValidityYears :: int where "leafValidityYears = 2"
definition serialBits :: nat where "serialBits = 128"

subsection \<open>Certificates and the library\<close>

record 'p certificate =
  c_raw :: string
  c_serial :: int
  c_cn :: string
  c_ous :: "string list"
  c_dns :: "string list"
  c_notBefore :: int
  c_notAfter :: int
  c_keyUsage :: int
  c_serverAuth :: bool
  c_basicConstraints :: bool
  c_isCA :: bool
  c_maxPathLen :: int
  c_maxPathLenZero :: bool
  c_public :: "'p option"

definition KeyUsageDigitalSignature :: int where "KeyUsageDigitalSignature = 1"
definition KeyUsageCertSign :: int where "KeyUsageCertSign = 32"
definition KeyUsageCRLSign :: int where "KeyUsageCRLSign = 64"

text \<open>A parsed PKCS\#8 key: an ECDSA key, or some other key with its type name.\<close>

datatype 'k parsed_key = EcdsaKey 'k | OtherKey string

record ('r, 'k, 'p) crypto =
  cr_generate :: "'r \<Rightarrow> ('k \<times> 'r) res"
  cr_rand_int :: "'r \<Rightarrow> int \<Rightarrow> (int \<times> 'r) res"
  cr_public :: "'k \<Rightarrow> 'p"
  cr_create :: "'r \<Rightarrow> 'p certificate \<Rightarrow> 'p certificate \<Rightarrow> 'p \<Rightarrow> 'k \<Rightarrow> (string \<times> 'r) res"
  cr_parse_cert :: "string \<Rightarrow> 'p certificate res"
  cr_marshal_key :: "'k \<Rightarrow> string res"
  cr_parse_key :: "string \<Rightarrow> 'k parsed_key res"
  cr_pem_encode :: "string \<Rightarrow> string \<Rightarrow> string"
  cr_pem_decode :: "string \<Rightarrow> (string \<times> string) option"
  cr_sha256 :: "string \<Rightarrow> string"

record material =
  CertPEM :: string
  KeyPEM :: string

definition ProviderCube :: string where "ProviderCube = ''cube''"
definition MarkerOrganizationalUnit :: string where "MarkerOrganizationalUnit = ''cube-idp.dev''"

definition CommonName :: "string \<Rightarrow> string" where
  "CommonName cubeName = ''cube-idp '' @ cubeName @ '' CA''"

definition HasMarker :: "'p certificate option \<Rightarrow> string \<Rightarrow> bool" where
  "HasMarker cert cubeName =
     (case cert of
        None \<Rightarrow> False
      | Some c \<Rightarrow> if c_cn c \<noteq> CommonName cubeName then False
                  else MarkerOrganizationalUnit \<in> set (c_ous c))"

definition Fingerprint :: "('r, 'k, 'p) crypto \<Rightarrow> string \<Rightarrow> string res" where
  "Fingerprint C certPEM =
     (case cr_pem_decode C certPEM of
        None \<Rightarrow> Inl (Plain ''certificate PEM does not decode'')
      | Some (t, der) \<Rightarrow>
          (case cr_parse_cert C der of
             Inl e \<Rightarrow> Inl (Wrapf ''parse certificate'' e)
           | Inr c \<Rightarrow> Inr (hex_encode (cr_sha256 C (c_raw c)))))"

subsection \<open>Minting\<close>

record 'r mint_request =
  m_cubeName :: string
  m_domain :: string
  m_now :: gotime
  m_rand :: 'r

definition subjectCA :: string where "subjectCA = ''the cube CA''"
definition subjectLeaf :: string where "subjectLeaf = ''the gateway certificate''"

definition newKey :: "('r, 'k, 'p) crypto \<Rightarrow> 'r \<Rightarrow> ('k \<times> 'r) res" where
  "newKey C r = (case cr_generate C r of Inl e \<Rightarrow> Inl (Wrapf ''generate P-256 key'' e) | Inr x \<Rightarrow> Inr x)"

definition newSerial :: "('r, 'k, 'p) crypto \<Rightarrow> 'r \<Rightarrow> (int \<times> 'r) res" where
  "newSerial C r =
     (let limit = push_bit serialBits 1
      in case cr_rand_int C r (limit - 1) of
           Inl e \<Rightarrow> Inl (Wrapf ''generate serial number'' e)
         | Inr (n, r') \<Rightarrow> Inr (n + 1, r'))"

definition newKeyAndSerial :: "('r, 'k, 'p) crypto \<Rightarrow> 'r \<Rightarrow> ('k \<times> int \<times> 'r) res" where
  "newKeyAndSerial C r =
     (case newKey C r of
        Inl e \<Rightarrow> Inl e
      | Inr (key, r1) \<Rightarrow>
          (case newSerial C r1 of
             Inl e \<Rightarrow> Inl e
           | Inr (serial, r2) \<Rightarrow> Inr (key, serial, r2)))"

definition caTemplate :: "string \<Rightarrow> gotime \<Rightarrow> int \<Rightarrow> 'p certificate" where
  "caTemplate cubeName now serial =
     \<lparr>c_raw = '''', c_serial = serial, c_cn = CommonName cubeName, c_ous = [MarkerOrganizationalUnit], c_dns = [],
      c_notBefore = unix now - clockSkew, c_notAfter = unix (add_years now caValidityYears),
      c_keyUsage = KeyUsageCertSign OR KeyUsageCRLSign, c_serverAuth = False,
      c_basicConstraints = True, c_isCA = True, c_maxPathLen = 0, c_maxPathLenZero = True, c_public = None\<rparr>"

definition leafTemplate :: "string \<Rightarrow> gotime \<Rightarrow> int \<Rightarrow> 'p certificate" where
  "leafTemplate domain now serial =
     (let wildcard = ''*.'' @ domain
      in \<lparr>c_raw = '''', c_serial = serial, c_cn = wildcard, c_ous = [], c_dns = [wildcard],
          c_notBefore = unix now - clockSkew, c_notAfter = unix (add_years now leafValidityYears),
          c_keyUsage = KeyUsageDigitalSignature, c_serverAuth = True,
          c_basicConstraints = True, c_isCA = False, c_maxPathLen = 0, c_maxPathLenZero = False, c_public = None\<rparr>)"

definition signAndEncode ::
  "('r, 'k, 'p) crypto \<Rightarrow> 'r \<Rightarrow> 'p certificate \<Rightarrow> 'p certificate \<Rightarrow> 'k \<Rightarrow> 'k \<Rightarrow> (material \<times> 'r) res" where
  "signAndEncode C r tpl parent key signer =
     (case cr_create C r tpl parent (cr_public C key) signer of
        Inl e \<Rightarrow> Inl (Wrapf ''create certificate'' e)
      | Inr (der, r') \<Rightarrow>
          (case cr_marshal_key C key of
             Inl e \<Rightarrow> Inl (Wrapf ''marshal private key'' e)
           | Inr keyDER \<Rightarrow>
               Inr (\<lparr>CertPEM = cr_pem_encode C ''CERTIFICATE'' der,
                     KeyPEM = cr_pem_encode C ''PRIVATE KEY'' keyDER\<rparr>, r')))"

definition mintCA :: "('r, 'k, 'p) crypto \<Rightarrow> 'r mint_request \<Rightarrow> (material \<times> 'r) res" where
  "mintCA C req =
     (case newKeyAndSerial C (m_rand req) of
        Inl e \<Rightarrow> Inl (newMintError subjectCA e)
      | Inr (key, serial, r) \<Rightarrow>
          (let tpl = caTemplate (m_cubeName req) (m_now req) serial
           in case signAndEncode C r tpl tpl key key of
                Inl e \<Rightarrow> Inl (newMintError subjectCA e)
              | Inr m \<Rightarrow> Inr m))"

definition parseMaterial :: "('r, 'k, 'p) crypto \<Rightarrow> material \<Rightarrow> ('p certificate \<times> 'k) res" where
  "parseMaterial C m =
     (case cr_pem_decode C (CertPEM m) of
        None \<Rightarrow> Inl (newUnusableMaterialError ''certificate PEM does not decode'' None)
      | Some (t, der) \<Rightarrow>
     (case cr_parse_cert C der of
        Inl e \<Rightarrow> Inl (newUnusableMaterialError ''certificate does not parse'' (Some e))
      | Inr cert \<Rightarrow>
     (case cr_pem_decode C (KeyPEM m) of
        None \<Rightarrow> Inl (newUnusableMaterialError ''private key PEM does not decode'' None)
      | Some (t', kder) \<Rightarrow>
     (case cr_parse_key C kder of
        Inl e \<Rightarrow> Inl (newUnusableMaterialError ''private key does not parse'' (Some e))
      | Inr (OtherKey ty) \<Rightarrow>
          Inl (newUnusableMaterialError (''private key is '' @ ty @ '', not an ECDSA key'') None)
      | Inr (EcdsaKey key) \<Rightarrow>
          if c_public cert \<noteq> Some (cr_public C key)
          then Inl (newUnusableMaterialError ''private key does not match the certificate'' None)
          else if \<not> c_isCA cert then Inl (newUnusableMaterialError ''certificate is not a CA'' None)
          else if c_keyUsage cert \<noteq> 0 \<and> c_keyUsage cert AND KeyUsageCertSign = 0
          then Inl (newUnusableMaterialError ''certificate cannot sign certificates'' None)
          else Inr (cert, key)))))"

definition MintLeaf :: "('r, 'k, 'p) crypto \<Rightarrow> material \<Rightarrow> 'r mint_request \<Rightarrow> (material \<times> 'r) res" where
  "MintLeaf C ca req =
     (case parseMaterial C ca of
        Inl e \<Rightarrow> Inl e
      | Inr (caCert, caKey) \<Rightarrow>
     (case newKeyAndSerial C (m_rand req) of
        Inl e \<Rightarrow> Inl (newMintError subjectLeaf e)
      | Inr (key, serial, r) \<Rightarrow>
     (case signAndEncode C r (leafTemplate (m_domain req) (m_now req) serial) caCert key caKey of
        Inl e \<Rightarrow> Inl (newMintError subjectLeaf e)
      | Inr m \<Rightarrow> Inr m)))"

definition Mint :: "('r, 'k, 'p) crypto \<Rightarrow> 'r mint_request \<Rightarrow> (material \<times> material \<times> 'r) res" where
  "Mint C req =
     (case mintCA C req of
        Inl e \<Rightarrow> Inl e
      | Inr (ca, r) \<Rightarrow>
          (case MintLeaf C ca (req\<lparr>m_rand := r\<rparr>) of
             Inl e \<Rightarrow> Inl e
           | Inr (leaf, r') \<Rightarrow> Inr (ca, leaf, r')))"

record ensure_result =
  CA :: material
  Leaf :: material
  Minted :: bool

definition Ensure :: "('r, 'k, 'p) crypto \<Rightarrow> 'r mint_request \<Rightarrow> material option \<Rightarrow> ensure_result res" where
  "Ensure C req existing =
     (case existing of
        None \<Rightarrow>
          (case Mint C req of
             Inl e \<Rightarrow> Inl e
           | Inr (ca, leaf, r) \<Rightarrow> Inr \<lparr>CA = ca, Leaf = leaf, Minted = True\<rparr>)
      | Some m \<Rightarrow>
          (case parseMaterial C m of
             Inl e \<Rightarrow> Inl e
           | Inr x \<Rightarrow>
               (case MintLeaf C m req of
                  Inl e \<Rightarrow> Inl e
                | Inr (leaf, r) \<Rightarrow> Inr \<lparr>CA = m, Leaf = leaf, Minted = False\<rparr>)))"

subsection \<open>The library's laws\<close>

text \<open>
  What parsing an issued certificate gives back: what the template asked for, where \<open>IsCA\<close> and
  the path length count only when \<open>BasicConstraintsValid\<close> says that they are valid. Without it
  the certificate carries no basic constraints and is no CA.
\<close>

definition issued_as :: "string \<Rightarrow> 'p certificate \<Rightarrow> 'p \<Rightarrow> 'p certificate \<Rightarrow> bool" where
  "issued_as der tpl pub c \<longleftrightarrow>
     c_raw c = der \<and> c_public c = Some pub \<and> c_serial c = c_serial tpl \<and> c_cn c = c_cn tpl \<and>
     c_ous c = c_ous tpl \<and> c_dns c = c_dns tpl \<and> c_notBefore c = c_notBefore tpl \<and>
     c_notAfter c = c_notAfter tpl \<and> c_keyUsage c = c_keyUsage tpl \<and> c_serverAuth c = c_serverAuth tpl \<and>
     c_basicConstraints c = c_basicConstraints tpl \<and> (c_isCA c \<longleftrightarrow> c_basicConstraints tpl \<and> c_isCA tpl) \<and>
     (c_basicConstraints tpl \<and> c_maxPathLen tpl = 0 \<and> c_maxPathLenZero tpl \<longrightarrow> c_maxPathLen c = 0 \<and> c_maxPathLenZero c)"

definition crypto_ok :: "('r, 'k, 'p) crypto \<Rightarrow> bool" where
  "crypto_ok C \<longleftrightarrow>
     (\<forall>t b. t \<in> {''CERTIFICATE'', ''PRIVATE KEY''} \<longrightarrow> cr_pem_decode C (cr_pem_encode C t b) = Some (t, b)) \<and>
     (\<forall>k der. cr_marshal_key C k = Inr der \<longrightarrow> cr_parse_key C der = Inr (EcdsaKey k)) \<and>
     (\<forall>r lim n r'. 0 < lim \<longrightarrow> cr_rand_int C r lim = Inr (n, r') \<longrightarrow> 0 \<le> n \<and> n < lim) \<and>
     (\<forall>r tpl parent pub k der r'. cr_create C r tpl parent pub k = Inr (der, r') \<longrightarrow>
        (\<exists>c. cr_parse_cert C der = Inr c \<and> issued_as der tpl pub c))"

lemma newSerial_range:
  "crypto_ok C \<Longrightarrow> newSerial C r = Inr (s, r') \<Longrightarrow> 1 \<le> s \<and> s \<le> 2 ^ 128 - 1"
proof -
  assume ok: "crypto_ok C" and n: "newSerial C r = Inr (s, r')"
  have p: "push_bit serialBits (1 :: int) = 2 ^ 128"
    by (simp add: serialBits_def push_bit_eq_mult)
  from n obtain k where k: "cr_rand_int C r (2 ^ 128 - 1) = Inr (k, r')" and s: "s = k + 1"
    unfolding newSerial_def Let_def p by (auto split: sum.splits)
  have "0 < (2 ^ 128 - 1 :: int)" by simp
  with ok k have "0 \<le> k \<and> k < 2 ^ 128 - 1"
    unfolding crypto_ok_def by blast
  with s show ?thesis by simp
qed

lemma newKeyAndSerial_serial:
  "crypto_ok C \<Longrightarrow> newKeyAndSerial C r = Inr (k, s, r') \<Longrightarrow> 1 \<le> s \<and> s \<le> 2 ^ 128 - 1"
  by (auto simp: newKeyAndSerial_def split: sum.splits dest: newSerial_range)

lemma signAndEncode_Inr:
  assumes "crypto_ok C" and "signAndEncode C r tpl parent key signer = Inr (m, r')"
  shows "\<exists>der kder c. cr_create C r tpl parent (cr_public C key) signer = Inr (der, r') \<and>
    cr_pem_decode C (CertPEM m) = Some (''CERTIFICATE'', der) \<and> cr_parse_cert C der = Inr c \<and>
    issued_as der tpl (cr_public C key) c \<and>
    cr_pem_decode C (KeyPEM m) = Some (''PRIVATE KEY'', kder) \<and> cr_parse_key C kder = Inr (EcdsaKey key)"
proof -
  from assms(2) obtain der kder where d: "cr_create C r tpl parent (cr_public C key) signer = Inr (der, r')"
    "cr_marshal_key C key = Inr kder"
    "m = \<lparr>CertPEM = cr_pem_encode C ''CERTIFICATE'' der, KeyPEM = cr_pem_encode C ''PRIVATE KEY'' kder\<rparr>"
    by (auto simp: signAndEncode_def split: sum.splits)
  with assms(1) obtain c where "cr_parse_cert C der = Inr c" "issued_as der tpl (cr_public C key) c"
    unfolding crypto_ok_def by blast
  with d assms(1) show ?thesis
    unfolding crypto_ok_def by (intro exI [of _ der] exI [of _ kder] exI [of _ c]) simp
qed

lemma parseMaterial_Inl: "parseMaterial C m = Inl e \<Longrightarrow> err_code e = Some ''CUBE-CA-002''"
  by (auto simp: parseMaterial_def newUnusableMaterialError_def Let_def
      split: sum.splits option.splits if_splits parsed_key.splits)

lemma usage_sign: "KeyUsageCertSign OR KeyUsageCRLSign \<noteq> 0 \<and> (KeyUsageCertSign OR KeyUsageCRLSign) AND KeyUsageCertSign \<noteq> 0"
  by (simp add: KeyUsageCertSign_def KeyUsageCRLSign_def)

lemma mintCA_Inr:
  assumes "crypto_ok C" and "mintCA C req = Inr (m, r)"
  shows "\<exists>c k der. parseMaterial C m = Inr (c, k) \<and> 1 \<le> c_serial c \<and> c_serial c \<le> 2 ^ 128 - 1 \<and>
    issued_as der (caTemplate (m_cubeName req) (m_now req) (c_serial c)) (cr_public C k) c"
proof -
  from assms(2) obtain key s r0 where k: "newKeyAndSerial C (m_rand req) = Inr (key, s, r0)"
    and m: "signAndEncode C r0 (caTemplate (m_cubeName req) (m_now req) s)
      (caTemplate (m_cubeName req) (m_now req) s) key key = Inr (m, r)"
    by (auto simp: mintCA_def Let_def split: sum.splits)
  from signAndEncode_Inr [OF assms(1) m] obtain der kder c where
    d: "cr_pem_decode C (CertPEM m) = Some (''CERTIFICATE'', der)" "cr_parse_cert C der = Inr c"
      "cr_pem_decode C (KeyPEM m) = Some (''PRIVATE KEY'', kder)" "cr_parse_key C kder = Inr (EcdsaKey key)"
    and i: "issued_as der (caTemplate (m_cubeName req) (m_now req) s) (cr_public C key) c"
    by blast
  have f: "c_public c = Some (cr_public C key)" "c_isCA c" "c_keyUsage c = KeyUsageCertSign OR KeyUsageCRLSign"
    "c_serial c = s"
    using i by (simp_all add: issued_as_def caTemplate_def)
  have "parseMaterial C m = Inr (c, key)"
    using d f usage_sign by (simp add: parseMaterial_def)
  with i f(4) newKeyAndSerial_serial [OF assms(1) k] show ?thesis by blast
qed

lemma MintLeaf_cases:
  "MintLeaf C ca req = Inl e \<Longrightarrow>
     parseMaterial C ca = Inl e \<or> (\<exists>x. parseMaterial C ca = Inr x) \<and> err_code e = Some ''CUBE-CA-001''"
  by (auto simp: MintLeaf_def newMintError_def split: sum.splits prod.splits)

lemma MintLeaf_Inr:
  assumes "crypto_ok C" and "MintLeaf C ca req = Inr (m, r)"
  shows "\<exists>cc ck key s r0 der kder c. parseMaterial C ca = Inr (cc, ck) \<and> 1 \<le> s \<and> s \<le> 2 ^ 128 - 1 \<and>
    cr_create C r0 (leafTemplate (m_domain req) (m_now req) s) cc (cr_public C key) ck = Inr (der, r) \<and>
    cr_pem_decode C (CertPEM m) = Some (''CERTIFICATE'', der) \<and> cr_parse_cert C der = Inr c \<and>
    issued_as der (leafTemplate (m_domain req) (m_now req) s) (cr_public C key) c \<and>
    cr_pem_decode C (KeyPEM m) = Some (''PRIVATE KEY'', kder) \<and> cr_parse_key C kder = Inr (EcdsaKey key)"
proof -
  from assms(2) obtain cc ck key s r0 where p: "parseMaterial C ca = Inr (cc, ck)"
    and k: "newKeyAndSerial C (m_rand req) = Inr (key, s, r0)"
    and m: "signAndEncode C r0 (leafTemplate (m_domain req) (m_now req) s) cc key ck = Inr (m, r)"
    by (auto simp: MintLeaf_def split: sum.splits)
  from signAndEncode_Inr [OF assms(1) m] newKeyAndSerial_serial [OF assms(1) k] p show ?thesis
    by (intro exI [of _ cc] exI [of _ ck] exI [of _ key] exI [of _ s] exI [of _ r0]) simp
qed

text \<open>Ten years are never less than 3651 days, two never less than 729.\<close>

definition leap_days :: "int \<Rightarrow> int" where
  "leap_days y = y div 4 - y div 100 + y div 400"

lemma leap_days_step:
  assumes "0 \<le> n" "n \<le> 100"
  shows "leap_days y + n div 4 - 1 \<le> leap_days (y + n)"
proof -
  have "y div 4 + n div 4 \<le> (y + n) div 4" by linarith
  moreover have "(y + n) div 100 \<le> (y + 100) div 100"
    using assms(2) by (intro zdiv_mono1) simp_all
  then have "(y + n) div 100 \<le> y div 100 + 1" by simp
  moreover have "y div 400 \<le> (y + n) div 400"
    using assms(1) by (intro zdiv_mono1) simp_all
  ultimately show ?thesis by (simp add: leap_days_def)
qed

lemma civil_days_add:
  assumes "0 \<le> n" "n \<le> 100"
  shows "civil_days y m d + 365 * n + n div 4 - 1 \<le> civil_days (y + n) m d"
proof -
  have *: "civil_days z m d = 365 * (if m \<le> 2 then z - 1 else z) + leap_days (if m \<le> 2 then z - 1 else z) +
      (153 * (if m \<le> 2 then m + 9 else m - 3) + 2) div 5 + d - 1 - 719468" for z
    by (simp add: civil_days_def leap_days_def Let_def)
  have "(if m \<le> 2 then y + n - 1 else y + n) = (if m \<le> 2 then y - 1 else y) + n"
    by simp
  moreover have "365 * u + leap_days u + c + d - 1 - 719468 + 365 * n + n div 4 - 1
      \<le> 365 * (u + n) + leap_days (u + n) + c + d - 1 - 719468" for u c
    using leap_days_step [OF assms, of u] by simp
  ultimately show ?thesis
    unfolding * by (simp only:)
qed

lemma civil_days_10: "civil_days y m d + 3651 \<le> civil_days (y + 10) m d"
  using civil_days_add [of 10 y m d] by simp

lemma civil_days_2: "civil_days y m d + 729 \<le> civil_days (y + 2) m d"
  using civil_days_add [of 2 y m d] by simp

lemma ca_window: "unix now + 3651 * 86400 \<le> unix (add_years now caValidityYears)"
  using civil_days_10 [of "t_year now" "t_month now" "t_day now"]
  by (simp add: unix_def add_years_def caValidityYears_def)

lemma leaf_window: "unix now + 729 * 86400 \<le> unix (add_years now leafValidityYears)"
  using civil_days_2 [of "t_year now" "t_month now" "t_day now"]
  by (simp add: unix_def add_years_def leafValidityYears_def)

subsection \<open>The reuse contract\<close>

text \<open>
  Existing material decides: unusable material is \<open>CUBE-CA-002\<close> and nothing is minted over
  it, whatever the entropy; usable material is kept byte for byte, reported as reused, and the
  only failure left is \<open>CUBE-CA-001\<close> while minting the leaf.
\<close>

theorem Ensure_existing:
  "(case parseMaterial C m of
      Inl e \<Rightarrow> Ensure C req (Some m) = Inl e \<and> err_code e = Some ''CUBE-CA-002''
    | Inr x \<Rightarrow>
        (case Ensure C req (Some m) of
           Inl e \<Rightarrow> err_code e = Some ''CUBE-CA-001''
         | Inr res \<Rightarrow> CA res = m \<and> \<not> Minted res))"
proof (cases "parseMaterial C m")
  case (Inl e)
  then show ?thesis by (simp add: Ensure_def parseMaterial_Inl)
next
  case (Inr x)
  then show ?thesis
    using MintLeaf_cases [of C m req] by (auto simp: Ensure_def split: sum.splits)
qed

text \<open>
  C24. Trust is stable across bootstraps: a CA minted by one bootstrap is usable, carries the
  cube's marker identity, is a CA that may sign certificates but no further CA, has a positive
  serial number of at most 128 bits, is valid from an hour before now for ten years, and every
  later bootstrap, of any cube and domain and with any entropy, either reuses exactly its bytes
  or fails to mint a leaf; it never rejects it.
\<close>

theorem Ensure_stable:
  assumes "crypto_ok C" and "Ensure C req None = Inr res"
  shows "(\<exists>c k. parseMaterial C (CA res) = Inr (c, k) \<and> HasMarker (Some c) (m_cubeName req) \<and>
      c_isCA c \<and> c_maxPathLen c = 0 \<and> c_maxPathLenZero c \<and> c_keyUsage c AND KeyUsageCertSign \<noteq> 0 \<and>
      1 \<le> c_serial c \<and> c_serial c \<le> 2 ^ 128 - 1 \<and> c_notBefore c = unix (m_now req) - 3600 \<and>
      c_notAfter c = unix (add_years (m_now req) 10) \<and> unix (m_now req) + 3651 * 86400 \<le> c_notAfter c) \<and>
    Minted res \<and>
    (case Ensure C req' (Some (CA res)) of
       Inl e \<Rightarrow> err_code e = Some ''CUBE-CA-001''
     | Inr res' \<Rightarrow> CA res' = CA res \<and> \<not> Minted res')"
proof -
  from assms(2) obtain r where m: "mintCA C req = Inr (CA res, r)" and mt: "Minted res"
    by (auto simp: Ensure_def Mint_def split: sum.splits)
  from mintCA_Inr [OF assms(1) m] obtain c k der where
    c: "parseMaterial C (CA res) = Inr (c, k)" "1 \<le> c_serial c" "c_serial c \<le> 2 ^ 128 - 1"
      "issued_as der (caTemplate (m_cubeName req) (m_now req) (c_serial c)) (cr_public C k) c"
    by blast
  have "c_isCA c \<and> c_maxPathLen c = 0 \<and> c_maxPathLenZero c \<and> c_keyUsage c AND KeyUsageCertSign \<noteq> 0"
    using c(4) usage_sign by (simp add: issued_as_def caTemplate_def)
  moreover have "HasMarker (Some c) (m_cubeName req) \<and> c_notBefore c = unix (m_now req) - 3600 \<and>
      c_notAfter c = unix (add_years (m_now req) 10) \<and> unix (m_now req) + 3651 * 86400 \<le> c_notAfter c"
    using c(4) ca_window [of "m_now req"] by (simp add: issued_as_def caTemplate_def HasMarker_def clockSkew_def caValidityYears_def)
  moreover have "case Ensure C req' (Some (CA res)) of
       Inl e \<Rightarrow> err_code e = Some ''CUBE-CA-001''
     | Inr res' \<Rightarrow> CA res' = CA res \<and> \<not> Minted res'"
    using Ensure_existing [where C = C and m = "CA res" and req = req'] c(1) by simp
  ultimately show ?thesis
    using c mt by blast
qed

text \<open>
  Whatever the CA was, reused or minted, the leaf returned beside it was issued by it: the
  certificate \<open>CreateCertificate\<close> made with the CA's certificate as parent and the CA's key as
  signer, for the key stored beside it, covering the wildcard of the current domain and nothing
  else, a server certificate that cannot sign.
\<close>

theorem Ensure_leaf:
  assumes "crypto_ok C" and "Ensure C req existing = Inr res"
  shows "\<exists>cc ck tpl key r0 r der kder c. parseMaterial C (CA res) = Inr (cc, ck) \<and>
    cr_create C r0 tpl cc (cr_public C key) ck = Inr (der, r) \<and>
    cr_pem_decode C (CertPEM (Leaf res)) = Some (''CERTIFICATE'', der) \<and> cr_parse_cert C der = Inr c \<and>
    cr_pem_decode C (KeyPEM (Leaf res)) = Some (''PRIVATE KEY'', kder) \<and>
    cr_parse_key C kder = Inr (EcdsaKey key) \<and> c_public c = Some (cr_public C key) \<and>
    c_dns c = [''*.'' @ m_domain req] \<and> c_serverAuth c \<and> \<not> c_isCA c \<and> c_keyUsage c AND KeyUsageCertSign = 0 \<and>
    c_notBefore c = unix (m_now req) - 3600 \<and> c_notAfter c = unix (add_years (m_now req) 2)"
proof -
  have "\<exists>req' r. MintLeaf C (CA res) req' = Inr (Leaf res, r) \<and> m_domain req' = m_domain req \<and> m_now req' = m_now req"
  proof (cases existing)
    case None
    with assms(2) obtain r0 r where "MintLeaf C (CA res) (req\<lparr>m_rand := r0\<rparr>) = Inr (Leaf res, r)"
      by (auto simp: Ensure_def Mint_def split: sum.splits)
    then show ?thesis
      by (intro exI [of _ "req\<lparr>m_rand := r0\<rparr>"] exI [of _ r]) simp
  next
    case (Some m)
    with assms(2) show ?thesis
      by (intro exI [of _ req]) (auto simp: Ensure_def split: sum.splits)
  qed
  then obtain req' r where m: "MintLeaf C (CA res) req' = Inr (Leaf res, r)"
    and q: "m_domain req' = m_domain req" "m_now req' = m_now req" by blast
  from MintLeaf_Inr [OF assms(1) m] obtain cc ck key s r0 der kder c where
    x: "parseMaterial C (CA res) = Inr (cc, ck)"
      "cr_create C r0 (leafTemplate (m_domain req') (m_now req') s) cc (cr_public C key) ck = Inr (der, r)"
      "cr_pem_decode C (CertPEM (Leaf res)) = Some (''CERTIFICATE'', der)" "cr_parse_cert C der = Inr c"
      "issued_as der (leafTemplate (m_domain req') (m_now req') s) (cr_public C key) c"
      "cr_pem_decode C (KeyPEM (Leaf res)) = Some (''PRIVATE KEY'', kder)"
      "cr_parse_key C kder = Inr (EcdsaKey key)" by blast
  have "c_public c = Some (cr_public C key) \<and> c_dns c = [''*.'' @ m_domain req] \<and> c_serverAuth c \<and> \<not> c_isCA c \<and>
      c_keyUsage c AND KeyUsageCertSign = 0 \<and> c_notBefore c = unix (m_now req) - 3600 \<and>
      c_notAfter c = unix (add_years (m_now req) 2)"
    using x(5) q by (simp add: issued_as_def leafTemplate_def Let_def clockSkew_def leafValidityYears_def
        KeyUsageDigitalSignature_def KeyUsageCertSign_def)
  with x show ?thesis by blast
qed

subsection \<open>Instances of the hypotheses\<close>

text \<open>A library with one key, which issues the CA of cube \<open>dev\<close> and the leaf of one domain.\<close>

definition sample_now :: gotime where
  "sample_now = \<lparr>t_year = 2026, t_month = 7, t_day = 1, t_secs = 0\<rparr>"

definition sample_cert :: "string \<Rightarrow> unit certificate option" where
  "sample_cert der =
     (if der = ''ca'' then Some (caTemplate ''dev'' sample_now 1)
      else if der = ''leaf'' then Some (leafTemplate ''dev.test'' sample_now 1)
      else None)"

definition sample_crypto :: "(unit, unit, unit) crypto" where
  "sample_crypto =
     \<lparr>cr_generate = (\<lambda>r. Inr ((), r)),
      cr_rand_int = (\<lambda>r lim. Inr (0, r)),
      cr_public = (\<lambda>k. ()),
      cr_create = (\<lambda>r tpl parent pub k.
        if Some tpl = sample_cert ''ca'' then Inr (''ca'', r)
        else if Some tpl = sample_cert ''leaf'' then Inr (''leaf'', r) else Inl (Plain ''template'')),
      cr_parse_cert = (\<lambda>der. case sample_cert der of
        None \<Rightarrow> Inl (Plain ''malformed'')
      | Some c \<Rightarrow> Inr (c\<lparr>c_raw := der, c_public := Some ()\<rparr>)),
      cr_marshal_key = (\<lambda>k. Inr ''key''),
      cr_parse_key = (\<lambda>der. if der = ''key'' then Inr (EcdsaKey ()) else Inl (Plain ''malformed'')),
      cr_pem_encode = (\<lambda>t b. t @ CHR '':'' # b),
      cr_pem_decode = (\<lambda>s. if CHR '':'' \<in> set s
        then Some (takeWhile (\<lambda>c. c \<noteq> CHR '':'') s, tl (dropWhile (\<lambda>c. c \<noteq> CHR '':'') s)) else None),
      cr_sha256 = (\<lambda>s. CHR ''h'' # s)\<rparr>"

lemma sample_crypto_ok: "crypto_ok sample_crypto"
proof -
  have "\<exists>c. cr_parse_cert sample_crypto der = Inr c \<and> issued_as der tpl pub c"
    if "cr_create sample_crypto r tpl parent pub k = Inr (der, r')" for r tpl parent pub k der r'
  proof -
    from that have "sample_cert der = Some tpl"
      by (auto simp: sample_crypto_def split: if_splits)
    moreover from this have "c_basicConstraints tpl"
      by (auto simp: sample_cert_def caTemplate_def leafTemplate_def Let_def split: if_splits)
    ultimately show ?thesis
      by (simp add: sample_crypto_def issued_as_def)
  qed
  moreover have "0 \<le> n \<and> n < lim" if "0 < lim" "cr_rand_int sample_crypto r lim = Inr (n, r')" for r lim n r'
    using that by (simp add: sample_crypto_def)
  moreover have "cr_pem_decode sample_crypto (cr_pem_encode sample_crypto t b) = Some (t, b)"
    if "t \<in> {''CERTIFICATE'', ''PRIVATE KEY''}" for t b
    using that by (auto simp: sample_crypto_def)
  moreover have "cr_parse_key sample_crypto der = Inr (EcdsaKey k)" if "cr_marshal_key sample_crypto k = Inr der" for k der
    using that by (auto simp: sample_crypto_def)
  ultimately show ?thesis unfolding crypto_ok_def by blast
qed

definition sample_mint :: "unit mint_request" where
  "sample_mint = \<lparr>m_cubeName = ''dev'', m_domain = ''dev.test'', m_now = sample_now, m_rand = ()\<rparr>"

definition sample_ensured :: ensure_result where
  "sample_ensured =
     \<lparr>CA = \<lparr>CertPEM = ''CERTIFICATE:ca'', KeyPEM = ''PRIVATE KEY:key''\<rparr>,
      Leaf = \<lparr>CertPEM = ''CERTIFICATE:leaf'', KeyPEM = ''PRIVATE KEY:key''\<rparr>, Minted = True\<rparr>"

lemma sample_keyserial: "newKeyAndSerial sample_crypto r = Inr ((), 1, r)"
  by (simp add: newKeyAndSerial_def newKey_def newSerial_def sample_crypto_def Let_def)

lemma sample_sign:
  "signAndEncode sample_crypto r (caTemplate ''dev'' sample_now 1) p k g = Inr (CA sample_ensured, r)"
  "signAndEncode sample_crypto r (leafTemplate ''dev.test'' sample_now 1) p k g = Inr (Leaf sample_ensured, r)"
  by (simp_all add: signAndEncode_def sample_crypto_def sample_cert_def sample_ensured_def caTemplate_def leafTemplate_def
      Let_def CommonName_def)

lemma sample_usable: "\<exists>c. parseMaterial sample_crypto (CA sample_ensured) = Inr (c, ())"
  using usage_sign
  by (simp add: parseMaterial_def sample_crypto_def sample_ensured_def sample_cert_def caTemplate_def)

lemma sample_Ensure: "Ensure sample_crypto sample_mint None = Inr sample_ensured"
proof -
  have "mintCA sample_crypto sample_mint = Inr (CA sample_ensured, ())"
    by (simp add: mintCA_def sample_keyserial sample_mint_def sample_sign Let_def)
  moreover have "MintLeaf sample_crypto (CA sample_ensured) sample_mint = Inr (Leaf sample_ensured, ())"
    using sample_usable by (auto simp: MintLeaf_def sample_keyserial sample_sign sample_mint_def)
  ultimately show ?thesis
    by (simp add: Ensure_def Mint_def sample_mint_def sample_ensured_def)
qed

theorem Ensure_stable_witness:
  "Minted sample_ensured \<and>
    (case Ensure sample_crypto sample_mint (Some (CA sample_ensured)) of
       Inl e \<Rightarrow> err_code e = Some ''CUBE-CA-001''
     | Inr res' \<Rightarrow> CA res' = CA sample_ensured \<and> \<not> Minted res')"
  using Ensure_stable [OF sample_crypto_ok sample_Ensure, of sample_mint] by blast

theorem Ensure_leaf_witness:
  "\<exists>c. cr_parse_cert sample_crypto ''leaf'' = Inr c \<and> c_dns c = [''*.dev.test''] \<and> \<not> c_isCA c"
  using Ensure_leaf [OF sample_crypto_ok sample_Ensure]
  by (auto simp: sample_ensured_def sample_mint_def sample_crypto_def)

end
