(* ===== verification/CaTrust.thy ===== *)
theory CaTrust
  imports CaMint
begin

section \<open>The trust stores (\<open>internal/ca\<close>: trust.go, trust\_macos.go, trust\_p11kit.go)\<close>

text \<open>
  A driver reaches the operating system only through the injected \<open>Runner\<close>. The runner is a
  parameter: a function of the state of the machine \<open>'w\<close> and the command, giving what the
  command printed, whether it failed, and the machine afterwards. Every command run is logged
  in order, so a property can say what was run and what was not.
\<close>

subsection \<open>The runner\<close>

type_synonym command = "string \<times> string list"

record 'w shell =
  sh_machine :: 'w
  sh_log :: "command list"

record tool_result =
  stdout :: string
  stderr :: string
  exit_err :: "err option"

type_synonym 'w runner = "'w \<Rightarrow> command \<Rightarrow> tool_result \<times> 'w"

definition run_cmd :: "'w runner \<Rightarrow> string \<Rightarrow> string list \<Rightarrow> 'w shell \<Rightarrow> tool_result \<times> 'w shell" where
  "run_cmd R name args sh =
     (case R (sh_machine sh) (name, args) of
        (x, w) \<Rightarrow> (x, \<lparr>sh_machine = w, sh_log = sh_log sh @ [(name, args)]\<rparr>))"

text \<open>\<open>exec.ErrNotFound\<close> and \<open>errors.Is\<close>, the sentinels being errors without a cause.\<close>

definition exec_ErrNotFound :: err where
  "exec_ErrNotFound = Plain ''executable file not found in PATH''"

fun errors_is :: "err \<Rightarrow> err \<Rightarrow> bool" where
  "errors_is (Coded c ps None) t = (Coded c ps None = t)"
| "errors_is (Coded c ps (Some e)) t = (Coded c ps (Some e) = t \<or> errors_is e t)"
| "errors_is (Wrapf m e) t = (Wrapf m e = t \<or> errors_is e t)"
| "errors_is (Plain m) t = (Plain m = t)"

definition runFailure :: "err \<Rightarrow> string \<Rightarrow> err" where
  "runFailure e errout = (let detail = trim_space errout in if detail \<noteq> '''' then Wrapf detail e else e)"

subsection \<open>Identification\<close>

record remove_request =
  rr_Cube :: string
  rr_Fingerprint :: string
  rr_CertPath :: string
  rr_CertPEM :: "string option"

record remove_outcome =
  Found :: bool

text \<open>\<open>strings.EqualFold\<close> on ASCII, which is what the tools and the ledger hold here.\<close>

definition lower_char :: "char \<Rightarrow> char" where
  "lower_char c = (if is_upper c then char_of (of_char c + 32 :: nat) else c)"

definition equal_fold :: "string \<Rightarrow> string \<Rightarrow> bool" where
  "equal_fold s t \<longleftrightarrow> map lower_char s = map lower_char t"

text \<open>A nil certificate decodes like the empty one: not at all.\<close>

definition verifyRemovable ::
  "('r, 'k, 'p) crypto \<Rightarrow> string \<Rightarrow> remove_request \<Rightarrow> string \<Rightarrow> err option" where
  "verifyRemovable C certPEM req source =
     (case cr_pem_decode C certPEM of
        None \<Rightarrow> Some (newRemovalRefusedError (rr_Cube req) (Plain (''the '' @ source @ '' does not decode as a PEM certificate'')))
      | Some (t, der) \<Rightarrow>
     (case cr_parse_cert C der of
        Inl e \<Rightarrow> Some (newRemovalRefusedError (rr_Cube req) (Wrapf (''the '' @ source @ '' does not parse'') e))
      | Inr cert \<Rightarrow>
          let got = hex_encode (cr_sha256 C (c_raw cert))
          in if \<not> equal_fold got (rr_Fingerprint req)
             then Some (newRemovalRefusedError (rr_Cube req)
               (Plain (''the '' @ source @ '' has fingerprint '' @ got @ '', but the ledger records '' @ rr_Fingerprint req)))
             else if \<not> HasMarker (Some cert) (rr_Cube req)
             then Some (newRemovalRefusedError (rr_Cube req)
               (Plain (''the '' @ source @ '' has CN '' @ c_cn cert @ '' and does not carry the cube-idp marker'')))
             else None))"

text \<open>What a passed check has established about the bytes.\<close>

definition identified :: "('r, 'k, 'p) crypto \<Rightarrow> remove_request \<Rightarrow> string \<Rightarrow> bool" where
  "identified C req pem \<longleftrightarrow>
     (\<exists>t der cert. cr_pem_decode C pem = Some (t, der) \<and> cr_parse_cert C der = Inr cert \<and>
        equal_fold (hex_encode (cr_sha256 C (c_raw cert))) (rr_Fingerprint req) \<and>
        c_cn cert = CommonName (rr_Cube req) \<and> MarkerOrganizationalUnit \<in> set (c_ous cert))"

lemma verifyRemovable_None: "verifyRemovable C pem req src = None \<longleftrightarrow> identified C req pem"
  by (auto simp: verifyRemovable_def identified_def Let_def HasMarker_def
      split: option.splits sum.splits if_splits)

lemma verifyRemovable_code: "verifyRemovable C pem req src = Some e \<Longrightarrow> err_code e = Some ''CUBE-CA-004''"
  by (auto simp: verifyRemovable_def Let_def newRemovalRefusedError_def newTrustStoreError_def
      split: option.splits sum.splits if_splits)

subsection \<open>The interface of a store\<close>

record 'w store =
  Name :: string
  Install :: "string \<Rightarrow> string \<Rightarrow> 'w shell \<Rightarrow> err option \<times> 'w shell"
  Remove_cert :: "remove_request \<Rightarrow> 'w shell \<Rightarrow> remove_outcome res \<times> 'w shell"

text \<open>The commands a state change of the shell ran.\<close>

definition ran :: "'w shell \<Rightarrow> 'w shell \<Rightarrow> command list" where
  "ran sh sh' = drop (length (sh_log sh)) (sh_log sh')"

definition logs_extend :: "'w shell \<Rightarrow> 'w shell \<Rightarrow> bool" where
  "logs_extend sh sh' \<longleftrightarrow> (\<exists>cs. sh_log sh' = sh_log sh @ cs)"

text \<open>The commands that delete an anchor, of either tool.\<close>

definition deletes :: "command \<Rightarrow> bool" where
  "deletes c \<longleftrightarrow>
     (fst c = ''security'' \<and> snd c \<noteq> [] \<and> hd (snd c) = ''delete-certificate'') \<or>
     (fst c = ''trust'' \<and> take 2 (snd c) = [''anchor'', ''--remove''])"

text \<open>
  What every store promises the trust verbs: a command that deletes is one its own check allows,
  which is the store's \<open>Match\<close> on the request, the machine as the call found it and the command,
  and a match has identified a certificate; it deletes at most once, installing deletes nothing, the
  log only grows, and every failure is \<open>CUBE-CA-004\<close>.
\<close>

locale trust_store =
  fixes S :: "'w store" and C :: "('r, 'k, 'p) crypto" and Match :: "remove_request \<Rightarrow> 'w \<Rightarrow> command \<Rightarrow> bool"
  assumes install_log: "logs_extend sh (snd (Install S cube path sh))"
    and install_deletes: "c \<in> set (ran sh (snd (Install S cube path sh))) \<Longrightarrow> \<not> deletes c"
    and install_code: "fst (Install S cube path sh) = Some e \<Longrightarrow> err_code e = Some ''CUBE-CA-004''"
    and remove_log: "logs_extend sh (snd (Remove_cert S req sh))"
    and remove_matched: "c \<in> set (ran sh (snd (Remove_cert S req sh))) \<Longrightarrow> deletes c \<Longrightarrow> Match req (sh_machine sh) c"
    and match_identified: "Match req m c \<Longrightarrow> \<exists>pem. identified C req pem"
    and remove_once: "length (filter deletes (ran sh (snd (Remove_cert S req sh)))) \<le> 1"
    and remove_code: "fst (Remove_cert S req sh) = Inl e \<Longrightarrow> err_code e = Some ''CUBE-CA-004''"
    and remove_found: "fst (Remove_cert S req sh) = Inr x \<Longrightarrow> Found x \<Longrightarrow>
      length (filter deletes (ran sh (snd (Remove_cert S req sh)))) = 1"
begin

text \<open>A forged or foreign identity deletes nothing and is never reported as removed.\<close>

lemma unidentified_safe:
  assumes "\<And>pem. \<not> identified C req pem"
  shows "filter deletes (ran sh (snd (Remove_cert S req sh))) = []"
    and "fst (Remove_cert S req sh) = Inr x \<Longrightarrow> \<not> Found x"
proof -
  show *: "filter deletes (ran sh (snd (Remove_cert S req sh))) = []"
    using remove_matched match_identified assms by (fastforce simp: filter_empty_conv)
  show "fst (Remove_cert S req sh) = Inr x \<Longrightarrow> \<not> Found x"
    using remove_found [of req sh x] * by auto
qed

end

lemma ran_simps: "sh_log sh' = sh_log sh @ cs \<Longrightarrow> ran sh sh' = cs"
  by (simp add: ran_def)

lemma run_cmd_log: "run_cmd R n a sh = (x, sh') \<Longrightarrow> sh_log sh' = sh_log sh @ [(n, a)]"
  by (auto simp: run_cmd_def split: prod.splits)

text \<open>The contract of one call, as the drivers establish it.\<close>

definition install_spec :: "'w shell \<Rightarrow> err option \<times> 'w shell \<Rightarrow> bool" where
  "install_spec sh out \<longleftrightarrow>
     logs_extend sh (snd out) \<and> (\<forall>c \<in> set (ran sh (snd out)). \<not> deletes c) \<and>
     (\<forall>e. fst out = Some e \<longrightarrow> err_code e = Some CodeTrustStore)"

definition remove_spec ::
  "(remove_request \<Rightarrow> 'w \<Rightarrow> command \<Rightarrow> bool) \<Rightarrow> remove_request \<Rightarrow> 'w shell \<Rightarrow> remove_outcome res \<times> 'w shell \<Rightarrow> bool" where
  "remove_spec M req sh out \<longleftrightarrow>
     logs_extend sh (snd out) \<and>
     (\<forall>e. fst out = Inl e \<longrightarrow> err_code e = Some CodeTrustStore) \<and>
     (\<forall>x. fst out = Inr x \<longrightarrow> Found x \<longrightarrow> length (filter deletes (ran sh (snd out))) = 1) \<and>
     length (filter deletes (ran sh (snd out))) \<le> 1 \<and>
     (\<forall>c \<in> set (ran sh (snd out)). deletes c \<longrightarrow> M req (sh_machine sh) c)"

lemmas store_specs = install_spec_def remove_spec_def

lemma trust_storeI:
  assumes "\<And>cube path sh. install_spec sh (Install S cube path sh)"
    and "\<And>req sh. remove_spec M req sh (Remove_cert S req sh)"
    and "\<And>req m c. M req m c \<Longrightarrow> \<exists>pem. identified C req pem"
  shows "trust_store S C M"
  using assms unfolding store_specs by unfold_locales blast+

subsection \<open>The macOS login keychain\<close>

definition securityTool :: string where "securityTool = ''security''"
definition storeNameMacOS :: string where "storeNameMacOS = ''macos-login''"

definition manualInstallMacOS :: "string \<Rightarrow> string" where
  "manualInstallMacOS certPath = ''install the CA by hand: open Keychain Access, drag '' @ certPath"

definition manualRemoveMacOS :: "string \<Rightarrow> string" where
  "manualRemoveMacOS cube = ''remove the CA by hand: find the certificate named '' @ CommonName cube"

definition newMacOSKeychainError :: "string \<Rightarrow> err \<Rightarrow> err" where
  "newMacOSKeychainError remediation cause =
     newTrustStoreError ''cannot use the macOS login keychain: security(1) is unavailable'' remediation (Some cause)"

definition trim_char :: "char \<Rightarrow> string \<Rightarrow> string" where
  "trim_char c s = rev (dropWhile (\<lambda>d. d = c) (rev (dropWhile (\<lambda>d. d = c) s)))"

definition loginKeychain :: "'w runner \<Rightarrow> 'w shell \<Rightarrow> string res \<times> 'w shell" where
  "loginKeychain R sh =
     (case run_cmd R securityTool [''login-keychain''] sh of
        (x, sh1) \<Rightarrow>
          (case exit_err x of
             Some e \<Rightarrow> (Inl (Wrapf ''security login-keychain'' (runFailure e (stderr x))), sh1)
           | None \<Rightarrow>
               let path = trim_char CHR 0x22 (trim_space (stdout x))
               in if path = '''' then (Inl (Plain ''security login-keychain named no keychain''), sh1)
                  else (Inr path, sh1)))"

record keychain_cert =
  kc_sha256 :: string
  kc_certPEM :: string

definition hashPrefix :: string where "hashPrefix = ''SHA-256 hash: ''"
definition pemBegin :: string where "pemBegin = ''-----BEGIN CERTIFICATE-----''"
definition pemEnd :: string where "pemEnd = ''-----END CERTIFICATE-----''"

text \<open>
  The loop over the lines: the current hash and the block being read, \<open>None\<close> for a nil block.
  A certificate is complete at the END line.
\<close>

fun parse_keychain_lines :: "string \<Rightarrow> string list option \<Rightarrow> string list \<Rightarrow> keychain_cert list" where
  "parse_keychain_lines current block [] = []"
| "parse_keychain_lines current block (l # ls) =
     (let line = trim_space l
      in if has_prefix line hashPrefix
         then parse_keychain_lines (drop (length hashPrefix) line) block ls
         else if line = pemBegin then parse_keychain_lines current (Some [line]) ls
         else case block of
             None \<Rightarrow> parse_keychain_lines current None ls
           | Some b \<Rightarrow>
               if line = pemEnd
               then \<lparr>kc_sha256 = current, kc_certPEM = join_with CHR 0x0A (b @ [line]) @ [CHR 0x0A]\<rparr>
                    # parse_keychain_lines current None ls
               else parse_keychain_lines current (Some (b @ [line])) ls)"

definition parseKeychainCerts :: "string \<Rightarrow> keychain_cert list" where
  "parseKeychainCerts out = parse_keychain_lines '''' None (split_on CHR 0x0A out)"

definition find_kc :: "'w runner \<Rightarrow> string \<Rightarrow> remove_request \<Rightarrow> 'w shell \<Rightarrow> keychain_cert option res \<times> 'w shell" where
  "find_kc R keychain req sh =
     (case run_cmd R securityTool [''find-certificate'', ''-a'', ''-p'', ''-Z'', ''-c'', CommonName (rr_Cube req), keychain] sh of
        (x, sh1) \<Rightarrow>
          (case exit_err x of
             Some e \<Rightarrow>
               (Inl (newTrustStoreError (''cannot search the macOS login keychain for the CA of '' @ rr_Cube req)
                  (manualRemoveMacOS (rr_Cube req)) (Some (runFailure e (stderr x)))), sh1)
           | None \<Rightarrow>
               (Inr (find (\<lambda>c. equal_fold (kc_sha256 c) (rr_Fingerprint req)) (parseKeychainCerts (stdout x))), sh1)))"

definition confirmGone :: "'w runner \<Rightarrow> string \<Rightarrow> remove_request \<Rightarrow> 'w shell \<Rightarrow> err option \<times> 'w shell" where
  "confirmGone R keychain req sh =
     (case find_kc R keychain req sh of
        (Inl e, sh1) \<Rightarrow> (Some e, sh1)
      | (Inr (Some c), sh1) \<Rightarrow>
          (Some (newTrustStoreError (''the CA of '' @ rr_Cube req @ '' is still in the macOS login keychain after deleting it'')
             (manualRemoveMacOS (rr_Cube req)) None), sh1)
      | (Inr None, sh1) \<Rightarrow> (None, sh1))"

definition macOS_Install :: "'w runner \<Rightarrow> string \<Rightarrow> string \<Rightarrow> 'w shell \<Rightarrow> err option \<times> 'w shell" where
  "macOS_Install R cube certPath sh =
     (case loginKeychain R sh of
        (Inl e, sh1) \<Rightarrow> (Some (newMacOSKeychainError (manualInstallMacOS certPath) e), sh1)
      | (Inr keychain, sh1) \<Rightarrow>
          (case run_cmd R securityTool [''add-trusted-cert'', ''-r'', ''trustRoot'', ''-k'', keychain, certPath] sh1 of
             (x, sh2) \<Rightarrow>
               (case exit_err x of
                  Some e \<Rightarrow>
                    (Some (newTrustStoreError (''cannot add the CA at '' @ certPath @ '' to the macOS login keychain'')
                       (manualInstallMacOS certPath) (Some (runFailure e (stderr x)))), sh2)
                | None \<Rightarrow> (None, sh2))))"

definition macOS_Remove ::
  "('r, 'k, 'p) crypto \<Rightarrow> 'w runner \<Rightarrow> remove_request \<Rightarrow> 'w shell \<Rightarrow> remove_outcome res \<times> 'w shell" where
  "macOS_Remove C R req sh =
     (case loginKeychain R sh of
        (Inl e, sh1) \<Rightarrow> (Inl (newMacOSKeychainError (manualRemoveMacOS (rr_Cube req)) e), sh1)
      | (Inr keychain, sh1) \<Rightarrow>
          (case find_kc R keychain req sh1 of
             (Inl e, sh2) \<Rightarrow> (Inl e, sh2)
           | (Inr None, sh2) \<Rightarrow> (Inr \<lparr>Found = False\<rparr>, sh2)
           | (Inr (Some c), sh2) \<Rightarrow>
               (case verifyRemovable C (kc_certPEM c) req ''keychain certificate'' of
                  Some e \<Rightarrow> (Inl e, sh2)
                | None \<Rightarrow>
                    (case run_cmd R securityTool [''delete-certificate'', ''-Z'', kc_sha256 c, ''-t'', keychain] sh2 of
                       (x, sh3) \<Rightarrow>
                         (case exit_err x of
                            Some e \<Rightarrow>
                              (Inl (newTrustStoreError (''cannot delete the CA of '' @ rr_Cube req @ '' from the macOS login keychain'')
                                 (manualRemoveMacOS (rr_Cube req)) (Some (runFailure e (stderr x)))), sh3)
                          | None \<Rightarrow>
                              (case confirmGone R keychain req sh3 of
                                 (Some e, sh4) \<Rightarrow> (Inl e, sh4)
                               | (None, sh4) \<Rightarrow> (Inr \<lparr>Found = True\<rparr>, sh4)))))))"

definition macOSStore :: "('r, 'k, 'p) crypto \<Rightarrow> 'w runner \<Rightarrow> 'w store" where
  "macOSStore C R = \<lparr>Name = storeNameMacOS, Install = macOS_Install R, Remove_cert = macOS_Remove C R\<rparr>"

lemma loginKeychain_log:
  "loginKeychain R sh = (r, sh') \<Longrightarrow> sh_log sh' = sh_log sh @ [(''security'', [''login-keychain''])]"
  by (auto simp: loginKeychain_def Let_def securityTool_def split: prod.splits option.splits if_splits dest: run_cmd_log)

definition find_command :: "remove_request \<Rightarrow> string \<Rightarrow> command" where
  "find_command req keychain =
     (''security'', [''find-certificate'', ''-a'', ''-p'', ''-Z'', ''-c'', CommonName (rr_Cube req), keychain])"

lemma find_kc_log: "find_kc R k req sh = (r, sh') \<Longrightarrow> sh_log sh' = sh_log sh @ [find_command req k]"
  by (auto simp: find_kc_def find_command_def securityTool_def split: prod.splits option.splits dest: run_cmd_log)

lemma find_kc_code: "find_kc R k req sh = (Inl e, sh') \<Longrightarrow> err_code e = Some ''CUBE-CA-004''"
  by (auto simp: find_kc_def newTrustStoreError_def split: prod.splits option.splits)

lemma confirmGone_log: "confirmGone R k req sh = (r, sh') \<Longrightarrow> sh_log sh' = sh_log sh @ [find_command req k]"
  by (auto simp: confirmGone_def split: prod.splits sum.splits option.splits dest: find_kc_log)

lemma confirmGone_code: "confirmGone R k req sh = (Some e, sh') \<Longrightarrow> err_code e = Some ''CUBE-CA-004''"
  by (auto simp: confirmGone_def newTrustStoreError_def split: prod.splits sum.splits option.splits dest: find_kc_code)

text \<open>
  What licenses a deletion from the keychain of the machine \<open>m\<close>: \<open>login-keychain\<close> named the keychain
  \<open>k\<close>, the search of it printed a certificate whose bytes are identified and whose printed hash is
  the ledger's, and the command deletes the certificate of that hash from that keychain.
\<close>

definition keychain_path :: "string \<Rightarrow> string" where
  "keychain_path out = trim_char CHR 0x22 (trim_space out)"

definition keychain_match ::
  "('r, 'k, 'p) crypto \<Rightarrow> 'w runner \<Rightarrow> remove_request \<Rightarrow> 'w \<Rightarrow> command \<Rightarrow> bool" where
  "keychain_match C R req m c \<longleftrightarrow>
     (\<exists>x1 m1 x2 m2 kc. R m (''security'', [''login-keychain'']) = (x1, m1) \<and> exit_err x1 = None \<and>
        R m1 (find_command req (keychain_path (stdout x1))) = (x2, m2) \<and> exit_err x2 = None \<and>
        kc \<in> set (parseKeychainCerts (stdout x2)) \<and> equal_fold (kc_sha256 kc) (rr_Fingerprint req) \<and>
        identified C req (kc_certPEM kc) \<and>
        c = (''security'', [''delete-certificate'', ''-Z'', kc_sha256 kc, ''-t'', keychain_path (stdout x1)]))"

lemma keychain_matchI:
  assumes "loginKeychain R sh = (Inr k, sh1)" and "find_kc R k req sh1 = (Inr (Some kc), sh2)"
    and "identified C req (kc_certPEM kc)"
  shows "keychain_match C R req (sh_machine sh) (''security'', [''delete-certificate'', ''-Z'', kc_sha256 kc, ''-t'', k])"
proof -
  obtain x1 m1 where 1: "R (sh_machine sh) (''security'', [''login-keychain'']) = (x1, m1)" by fastforce
  with assms(1) have k: "exit_err x1 = None" "k = keychain_path (stdout x1)" "sh_machine sh1 = m1"
    by (auto simp: loginKeychain_def run_cmd_def securityTool_def keychain_path_def Let_def split: option.splits if_splits)
  obtain x2 m2 where 2: "R m1 (find_command req k) = (x2, m2)" by fastforce
  with assms(2) k(3) have x: "exit_err x2 = None"
      "find (\<lambda>c. equal_fold (kc_sha256 c) (rr_Fingerprint req)) (parseKeychainCerts (stdout x2)) = Some kc"
    by (auto simp: find_kc_def run_cmd_def securityTool_def find_command_def split: option.splits)
  from x(2) have "kc \<in> set (parseKeychainCerts (stdout x2))" "equal_fold (kc_sha256 kc) (rr_Fingerprint req)"
    by (auto simp: find_Some_iff)
  with 1 2 k x(1) assms(3) show ?thesis unfolding keychain_match_def by blast
qed

text \<open>The four ways a removal can go, with the commands of each.\<close>

lemma macOS_Remove_cases:
  assumes "macOS_Remove C R req sh = (r, sh')"
  obtains (no_keychain) e where "r = Inl e" "err_code e = Some ''CUBE-CA-004''"
      "sh_log sh' = sh_log sh @ [(''security'', [''login-keychain''])]"
  | (searched) k where "\<forall>e. r = Inl e \<longrightarrow> err_code e = Some ''CUBE-CA-004''" "\<forall>x. r = Inr x \<longrightarrow> \<not> Found x"
      "sh_log sh' = sh_log sh @ [(''security'', [''login-keychain'']), find_command req k]"
  | (deleted) c :: keychain_cert and k cs where
      "keychain_match C R req (sh_machine sh) (''security'', [''delete-certificate'', ''-Z'', kc_sha256 c, ''-t'', k])" "set cs \<subseteq> {find_command req k}"
      "\<forall>e. r = Inl e \<longrightarrow> err_code e = Some ''CUBE-CA-004''"
      "sh_log sh' = sh_log sh @ [(''security'', [''login-keychain'']), find_command req k,
         (''security'', [''delete-certificate'', ''-Z'', kc_sha256 c, ''-t'', k])] @ cs"
proof (cases "loginKeychain R sh")
  case (Pair lk sh1)
  note log1 = loginKeychain_log [OF Pair]
  show thesis
  proof (cases lk)
    case (Inl e)
    with Pair assms have "r = Inl (newMacOSKeychainError (manualRemoveMacOS (rr_Cube req)) e)" "sh' = sh1"
      by (simp_all add: macOS_Remove_def)
    then show thesis
      using log1 no_keychain by (simp add: newMacOSKeychainError_def newTrustStoreError_def)
  next
    case (Inr k)
    obtain fr sh2 where f: "find_kc R k req sh1 = (fr, sh2)" by (cases "find_kc R k req sh1")
    note log2 = find_kc_log [OF f]
    consider (a) "\<exists>e. fr = Inl e" | (b) "fr = Inr None" | (c) c where "fr = Inr (Some c)"
      by (cases fr; auto)
    then show thesis
    proof cases
      case a
      with Pair Inr f assms obtain e where "fr = Inl e" "r = Inl e" "sh' = sh2"
        by (auto simp: macOS_Remove_def)
      then show thesis using log1 log2 f by (intro searched [of k]) (auto dest: find_kc_code)
    next
      case b
      with Pair Inr f assms have "r = Inr \<lparr>Found = False\<rparr>" "sh' = sh2"
        by (simp_all add: macOS_Remove_def)
      then show thesis using log1 log2 by (intro searched [of k]) simp_all
    next
      case (c c)
      show thesis
      proof (cases "verifyRemovable C (kc_certPEM c) req ''keychain certificate''")
        case (Some e)
        with c Pair Inr f assms have "r = Inl e" "sh' = sh2"
          by (simp_all add: macOS_Remove_def)
        then show thesis using log1 log2 verifyRemovable_code [OF Some] by (intro searched [of k]) simp_all
      next
        case None
        then have "identified C req (kc_certPEM c)" by (simp add: verifyRemovable_None)
        from keychain_matchI [OF Pair [unfolded Inr] f [unfolded c] this]
        have i: "keychain_match C R req (sh_machine sh) (''security'', [''delete-certificate'', ''-Z'', kc_sha256 c, ''-t'', k])" .
        obtain x sh3 where d: "run_cmd R securityTool [''delete-certificate'', ''-Z'', kc_sha256 c, ''-t'', k] sh2 = (x, sh3)"
          by (cases "run_cmd R securityTool [''delete-certificate'', ''-Z'', kc_sha256 c, ''-t'', k] sh2")
        note log3 = run_cmd_log [OF d, unfolded securityTool_def]
        show thesis
        proof (cases "exit_err x")
          case (Some e)
          with None c Pair Inr f d assms have "sh' = sh3" "\<exists>a b e. r = Inl (newTrustStoreError a b e)"
            by (auto simp: macOS_Remove_def)
          then show thesis
            using log1 log2 log3 by (intro deleted [OF i, of "[]"]) (auto simp: newTrustStoreError_def)
        next
          case ok: None
          obtain g sh4 where g: "confirmGone R k req sh3 = (g, sh4)" by (cases "confirmGone R k req sh3")
          with ok None c Pair Inr f d assms
          have "sh' = sh4" "r = (case g of None \<Rightarrow> Inr \<lparr>Found = True\<rparr> | Some e \<Rightarrow> Inl e)"
            by (auto simp: macOS_Remove_def split: option.splits)
          then show thesis
            using log1 log2 log3 confirmGone_log [OF g] confirmGone_code [of R k req sh3 _ sh4] g
            by (intro deleted [OF i, of "[find_command req k]"]) (auto split: option.splits)
        qed
      qed
    qed
  qed
qed

lemma not_deletes [simp]:
  "\<not> deletes (''security'', [''login-keychain''])" "\<not> deletes (find_command req k)"
  "\<not> deletes (''security'', ''add-trusted-cert'' # as)"
  "\<not> deletes (''trust'', ''list'' # as)" "\<not> deletes (''trust'', [''anchor'', ''--store'', p])"
  by (simp_all add: deletes_def find_command_def)

lemma does_delete [simp]:
  "deletes (''security'', ''delete-certificate'' # as)" "deletes (''trust'', ''anchor'' # ''--remove'' # as)"
  by (simp_all add: deletes_def)

lemma macOS_Remove_ran: "remove_spec (keychain_match C R) req sh (macOS_Remove C R req sh)"
proof (cases "macOS_Remove C R req sh")
  case (Pair r sh')
  then show ?thesis
  proof (cases rule: macOS_Remove_cases)
    case (no_keychain e)
    with Pair show ?thesis by (auto simp: store_specs logs_extend_def ran_simps)
  next
    case (searched k)
    with Pair show ?thesis by (auto simp: store_specs logs_extend_def ran_simps)
  next
    case (deleted c k cs)
    have "filter deletes cs = []"
      using deleted(2) by (auto simp: filter_empty_conv)
    with deleted Pair show ?thesis by (auto simp: store_specs logs_extend_def ran_simps)
  qed
qed

lemma macOS_Install_ran: "install_spec sh (macOS_Install R cube path sh)"
proof (cases "loginKeychain R sh")
  case (Pair lk sh1)
  note log1 = loginKeychain_log [OF Pair]
  show ?thesis
  proof (cases lk)
    case (Inl e)
    with Pair log1 show ?thesis
      by (auto simp: macOS_Install_def store_specs logs_extend_def ran_simps newMacOSKeychainError_def newTrustStoreError_def)
  next
    case (Inr k)
    obtain x sh2 where d: "run_cmd R securityTool [''add-trusted-cert'', ''-r'', ''trustRoot'', ''-k'', k, path] sh1 = (x, sh2)"
      by (cases "run_cmd R securityTool [''add-trusted-cert'', ''-r'', ''trustRoot'', ''-k'', k, path] sh1")
    note log2 = run_cmd_log [OF d, unfolded securityTool_def]
    show ?thesis
      using Pair Inr d log1 log2
      by (auto simp: macOS_Install_def store_specs logs_extend_def ran_simps newTrustStoreError_def split: option.splits)
  qed
qed

interpretation mac: trust_store "macOSStore C R" C "keychain_match C R" for C R
  by (rule trust_storeI) (auto simp: macOSStore_def macOS_Install_ran macOS_Remove_ran keychain_match_def)

subsection \<open>The p11-kit user anchors\<close>

definition trustTool :: string where "trustTool = ''trust''"
definition storeNameP11Kit :: string where "storeNameP11Kit = ''p11-kit''"

definition systemCertFileName :: "string \<Rightarrow> string" where
  "systemCertFileName cube = ''cube-idp-'' @ cube @ ''.crt''"

definition systemInstallLinux :: "string \<Rightarrow> string \<Rightarrow> string" where
  "systemInstallLinux cube certPath = ''sudo cp '' @ certPath @ '' '' @ systemCertFileName cube"

definition manualRemoveLinux :: "string \<Rightarrow> string" where
  "manualRemoveLinux cube = ''remove it by hand: sudo rm -f '' @ systemCertFileName cube"

definition newP11KitMissingError :: "string \<Rightarrow> string \<Rightarrow> err \<Rightarrow> err" where
  "newP11KitMissingError cube certPath cause =
     newTrustStoreError ''cannot use the Linux trust store: trust(1) (p11-kit) is not installed''
       (systemInstallLinux cube certPath) (Some cause)"

definition newP11KitAnchorError :: "string \<Rightarrow> string \<Rightarrow> string \<Rightarrow> err \<Rightarrow> err" where
  "newP11KitAnchorError summary cube certPath cause =
     newTrustStoreError summary (systemInstallLinux cube certPath) (Some cause)"

definition p11Kit_Install :: "'w runner \<Rightarrow> string \<Rightarrow> string \<Rightarrow> 'w shell \<Rightarrow> err option \<times> 'w shell" where
  "p11Kit_Install R cube certPath sh =
     (case run_cmd R trustTool [''list'', ''--filter=ca-anchors''] sh of
        (x, sh1) \<Rightarrow>
          (case exit_err x of
             Some e \<Rightarrow> (Some (newP11KitMissingError cube certPath e), sh1)
           | None \<Rightarrow>
               (case run_cmd R trustTool [''anchor'', ''--store'', certPath] sh1 of
                  (y, sh2) \<Rightarrow>
                    (case exit_err y of
                       Some e \<Rightarrow>
                         (Some (newP11KitAnchorError (''cannot store the CA at '' @ certPath @ '' as a user trust anchor'')
                            cube certPath (runFailure e (stderr y))), sh2)
                     | None \<Rightarrow> (None, sh2)))))"

definition p11Kit_Remove ::
  "('r, 'k, 'p) crypto \<Rightarrow> 'w runner \<Rightarrow> remove_request \<Rightarrow> 'w shell \<Rightarrow> remove_outcome res \<times> 'w shell" where
  "p11Kit_Remove C R req sh =
     (let pem = (case rr_CertPEM req of None \<Rightarrow> '''' | Some p \<Rightarrow> p)
      in if length pem = 0
         then (Inl (newTrustStoreError (''cannot remove the CA of '' @ rr_Cube req @ '': there is no certificate at '' @
                      rr_CertPath req @ '' to verify it against'') (manualRemoveLinux (rr_Cube req)) None), sh)
         else case verifyRemovable C pem req (''certificate at '' @ rr_CertPath req) of
             Some e \<Rightarrow> (Inl e, sh)
           | None \<Rightarrow>
               (case run_cmd R trustTool [''anchor'', ''--remove'', rr_CertPath req] sh of
                  (x, sh1) \<Rightarrow>
                    (case exit_err x of
                       Some e \<Rightarrow>
                         if errors_is e exec_ErrNotFound
                         then (Inl (newP11KitMissingError (rr_Cube req) (rr_CertPath req) e), sh1)
                         else (Inl (newTrustStoreError (''cannot remove the CA of '' @ rr_Cube req @ '' from the p11-kit anchor store'')
                                 (manualRemoveLinux (rr_Cube req)) (Some (runFailure e (stderr x)))), sh1)
                     | None \<Rightarrow> (Inr \<lparr>Found = True\<rparr>, sh1))))"

definition p11KitStore :: "('r, 'k, 'p) crypto \<Rightarrow> 'w runner \<Rightarrow> 'w store" where
  "p11KitStore C R = \<lparr>Name = storeNameP11Kit, Install = p11Kit_Install R, Remove_cert = p11Kit_Remove C R\<rparr>"

lemma p11Kit_Install_ran: "install_spec sh (p11Kit_Install R cube path sh)"
  by (auto simp: p11Kit_Install_def store_specs newP11KitMissingError_def newP11KitAnchorError_def newTrustStoreError_def
      trustTool_def logs_extend_def ran_def split: prod.splits option.splits dest!: run_cmd_log)

text \<open>
  What licenses \<open>trust anchor --remove\<close>, which takes a file: the bytes of that file, as the verb read
  them, are identified. The store itself cannot be asked what it holds.
\<close>

definition anchor_match :: "('r, 'k, 'p) crypto \<Rightarrow> remove_request \<Rightarrow> 'w \<Rightarrow> command \<Rightarrow> bool" where
  "anchor_match C req m c \<longleftrightarrow>
     (\<exists>pem. rr_CertPEM req = Some pem \<and> identified C req pem \<and> c = (''trust'', [''anchor'', ''--remove'', rr_CertPath req]))"

lemma p11Kit_Remove_ran: "remove_spec (anchor_match C) req sh (p11Kit_Remove C R req sh)"
  by (auto simp: p11Kit_Remove_def anchor_match_def Let_def store_specs newP11KitMissingError_def newTrustStoreError_def trustTool_def
      verifyRemovable_None logs_extend_def ran_def split: option.splits prod.splits
      dest: verifyRemovable_code dest!: run_cmd_log)

interpretation p11: trust_store "p11KitStore C R" C "anchor_match C" for C R
  by (rule trust_storeI) (auto simp: p11KitStore_def p11Kit_Install_ran p11Kit_Remove_ran anchor_match_def)

end
