(* ===== verification/CliTrust.thy ===== *)
theory CliTrust
  imports CaTrust
begin

section \<open>The trust verbs (\<open>internal/cli\<close>: trust.go, trust\_files.go, trust\_install.go, trust\_remove.go, trust\_store.go)\<close>

text \<open>
  The verbs work on three pieces of state: the files (the certificate artifact and the ledger),
  the machine behind the runner with the log of commands, and what was printed.
\<close>

record 'w trust_deps =
  td_homeDir :: "string res"
  td_now :: gotime
  td_goos :: string
  td_run :: "'w runner"

record 'w trust_state =
  ts_fs :: fsys
  ts_sh :: "'w shell"
  ts_out :: "string list"

definition say :: "string \<Rightarrow> 'w trust_state \<Rightarrow> 'w trust_state" where
  "say msg st = st\<lparr>ts_out := ts_out st @ [msg]\<rparr>"

subsection \<open>Files\<close>

definition trustRoot :: "string \<Rightarrow> string" where
  "trustRoot home = path_join home DirName"

definition artifactRoot :: "string res \<Rightarrow> string res" where
  "artifactRoot homeDir =
     (case homeDir of
        Inl e \<Rightarrow> Inl (Wrapf ''determine the cube-idp artifact directory'' e)
      | Inr home \<Rightarrow> Inr (trustRoot home))"

definition writeArtifact :: "os_env \<Rightarrow> string \<Rightarrow> string \<Rightarrow> fsys \<Rightarrow> err option \<times> fsys" where
  "writeArtifact E path data fs =
     replace_file E True (\<lambda>e. e) (''create artifact dir '' @ path_dir path) (''temp file for '' @ path)
       (''write '' @ path) path data fs"

definition loadLedger :: "ledger_yaml \<Rightarrow> os_env \<Rightarrow> string \<Rightarrow> fsys \<Rightarrow> ledger res" where
  "loadLedger Y E path fs =
     (case read_file E path fs of
        Inl e \<Rightarrow> if e = ErrNotExist then Inr \<lparr>l_entries = []\<rparr> else Inl (NewLedgerUnreadableError path e)
      | Inr raw \<Rightarrow> ParseLedger Y raw)"

definition saveLedger :: "ledger_yaml \<Rightarrow> os_env \<Rightarrow> string \<Rightarrow> ledger \<Rightarrow> fsys \<Rightarrow> err option \<times> fsys" where
  "saveLedger Y E path l fs =
     (case Marshal Y l of
        Inl e \<Rightarrow> (Some e, fs)
      | Inr data \<Rightarrow> writeArtifact E path data fs)"

definition syncCertFile :: "os_env \<Rightarrow> string \<Rightarrow> string \<Rightarrow> fsys \<Rightarrow> bool res \<times> fsys" where
  "syncCertFile E path certPEM fs =
     (let existing = read_file E path fs
      in if existing = Inr certPEM then (Inr False, fs)
         else case existing of
             Inl e \<Rightarrow>
               if e \<noteq> ErrNotExist then (Inl (Wrapf (''read CA certificate '' @ path) e), fs)
               else (case writeArtifact E path certPEM fs of
                       (Some e', fs') \<Rightarrow> (Inl e', fs')
                     | (None, fs') \<Rightarrow> (Inr True, fs'))
           | Inr old \<Rightarrow>
               (case writeArtifact E path certPEM fs of
                  (Some e', fs') \<Rightarrow> (Inl e', fs')
                | (None, fs') \<Rightarrow> (Inr True, fs')))"

definition readCertFile :: "os_env \<Rightarrow> string \<Rightarrow> string \<Rightarrow> fsys \<Rightarrow> string option res" where
  "readCertFile E cube path fs =
     (case read_file E path fs of
        Inl e \<Rightarrow> if e = ErrNotExist then Inr None else Inl (NewArtifactReadError cube path e)
      | Inr certPEM \<Rightarrow> Inr (Some certPEM))"

definition artifactFingerprint ::
  "('r, 'k, 'p) crypto \<Rightarrow> os_env \<Rightarrow> string \<Rightarrow> string \<Rightarrow> fsys \<Rightarrow> string res" where
  "artifactFingerprint C E cube certPath fs =
     (case readCertFile E cube certPath fs of
        Inl e \<Rightarrow> Inl e
      | Inr None \<Rightarrow> Inl (NewMissingArtifactError cube certPath None)
      | Inr (Some certPEM) \<Rightarrow>
          (case Fingerprint C certPEM of
             Inl e \<Rightarrow> Inl (NewUnusableArtifactError cube certPath e)
           | Inr fp \<Rightarrow> Inr fp))"

text \<open>The ledger's date, \<open>Format("2006-01-02")\<close>.\<close>

definition pad2 :: "int \<Rightarrow> string" where
  "pad2 n = (if 0 \<le> n \<and> n < 10 then CHR ''0'' # itoa n else itoa n)"

definition dateFormat :: "gotime \<Rightarrow> string" where
  "dateFormat t = pad2 (t_year t div 100) @ pad2 (t_year t mod 100) @ ''-'' @ pad2 (t_month t) @ ''-'' @ pad2 (t_day t)"

subsection \<open>The verbs\<close>

definition trustStore :: "('r, 'k, 'p) crypto \<Rightarrow> 'w trust_deps \<Rightarrow> string \<Rightarrow> 'w store res" where
  "trustStore C deps certPath =
     (if td_goos deps = ''darwin'' then Inr (macOSStore C (td_run deps))
      else if td_goos deps = ''linux'' then Inr (p11KitStore C (td_run deps))
      else Inl (NewUnsupportedStoreError (td_goos deps) certPath))"

definition apostrophe_s :: string where "apostrophe_s = CHR 0x27 # ''s''"

definition runTrustInstall ::
  "('r, 'k, 'p) crypto \<Rightarrow> ledger_yaml \<Rightarrow> os_env \<Rightarrow> 'w trust_deps \<Rightarrow> string \<Rightarrow> 'w trust_state \<Rightarrow>
   err option \<times> 'w trust_state" where
  "runTrustInstall C Y E deps cube st =
     (case artifactRoot (td_homeDir deps) of
        Inl e \<Rightarrow> (Some e, st)
      | Inr root \<Rightarrow>
     (let certPath = CertPath root cube; ledgerPath = LedgerPath root
      in case trustStore C deps certPath of
        Inl e \<Rightarrow> (Some e, st)
      | Inr S \<Rightarrow>
     (case artifactFingerprint C E cube certPath (ts_fs st) of
        Inl e \<Rightarrow> (Some e, st)
      | Inr fingerprint \<Rightarrow>
     (case loadLedger Y E ledgerPath (ts_fs st) of
        Inl e \<Rightarrow> (Some e, st)
      | Inr l \<Rightarrow>
     (case Install S cube certPath (ts_sh st) of
        (Some e, sh) \<Rightarrow> (Some e, st\<lparr>ts_sh := sh\<rparr>)
      | (None, sh) \<Rightarrow>
     (let entry = \<lparr>e_cube = cube, e_fingerprint = fingerprint, e_store = Name S, e_date = dateFormat (td_now deps)\<rparr>
      in case saveLedger Y E ledgerPath (Upsert l entry) (ts_fs st) of
        (Some e, fs) \<Rightarrow> (Some e, st\<lparr>ts_sh := sh, ts_fs := fs\<rparr>)
      | (None, fs) \<Rightarrow>
          (None, say (''installed cube '' @ quoted E cube @ apostrophe_s @ '' CA from '' @ certPath @ '' into the '' @ Name S @ '' trust store'')
             (st\<lparr>ts_sh := sh, ts_fs := fs\<rparr>))))))))"

definition removeFromStore ::
  "os_env \<Rightarrow> 'w store \<Rightarrow> entry \<Rightarrow> string \<Rightarrow> 'w trust_state \<Rightarrow> remove_outcome res \<times> 'w trust_state" where
  "removeFromStore E S entry certPath st =
     (case readCertFile E (e_cube entry) certPath (ts_fs st) of
        Inl e \<Rightarrow> (Inl e, st)
      | Inr certPEM \<Rightarrow>
          (case Remove_cert S \<lparr>rr_Cube = e_cube entry, rr_Fingerprint = e_fingerprint entry,
                               rr_CertPath = certPath, rr_CertPEM = certPEM\<rparr> (ts_sh st) of
             (r, sh) \<Rightarrow> (r, st\<lparr>ts_sh := sh\<rparr>)))"

definition runTrustRemove ::
  "('r, 'k, 'p) crypto \<Rightarrow> ledger_yaml \<Rightarrow> os_env \<Rightarrow> 'w trust_deps \<Rightarrow> string \<Rightarrow> 'w trust_state \<Rightarrow>
   err option \<times> 'w trust_state" where
  "runTrustRemove C Y E deps cube st =
     (case artifactRoot (td_homeDir deps) of
        Inl e \<Rightarrow> (Some e, st)
      | Inr root \<Rightarrow>
     (let ledgerPath = LedgerPath root
      in case loadLedger Y E ledgerPath (ts_fs st) of
        Inl e \<Rightarrow> (Some e, st)
      | Inr l \<Rightarrow>
     (case Find l cube of
        None \<Rightarrow> (None, say (''cube-idp has no record of installing a CA for cube '' @ quoted E cube) st)
      | Some entry \<Rightarrow>
     (let certPath = CertPath root cube
      in case trustStore C deps certPath of
        Inl e \<Rightarrow> (Some e, st)
      | Inr S \<Rightarrow>
     (if e_store entry \<noteq> Name S then (Some (NewStoreMismatchError cube (e_store entry) (Name S)), st)
      else case removeFromStore E S entry certPath st of
        (Inl e, st1) \<Rightarrow> (Some e, st1)
      | (Inr outcome, st1) \<Rightarrow>
     (case saveLedger Y E ledgerPath (Remove l cube) (ts_fs st1) of
        (Some e, fs) \<Rightarrow> (Some e, st1\<lparr>ts_fs := fs\<rparr>)
      | (None, fs) \<Rightarrow>
          (None, say (if Found outcome then ''removed cube '' @ quoted E cube @ apostrophe_s @ '' CA from the '' @ Name S @ '' trust store''
                      else ''no certificate for cube '' @ quoted E cube @ '' in the '' @ Name S @ '' store '' @ em_dash @
                        '' dropping the stale ledger entry'')
             (st1\<lparr>ts_fs := fs\<rparr>))))))))"

text \<open>\<open>trust list\<close>: the columns follow the widest value.\<close>

definition pad_right :: "nat \<Rightarrow> string \<Rightarrow> string" where
  "pad_right n s = s @ replicate (n - length (rune_chunks s)) CHR '' ''"

definition list_row :: "nat \<Rightarrow> nat \<Rightarrow> string \<Rightarrow> string \<Rightarrow> string \<Rightarrow> string \<Rightarrow> string" where
  "list_row cw sw c f s d = pad_right cw c @ ''  '' @ pad_right 64 f @ ''  '' @ pad_right sw s @ ''  '' @ d @ [CHR 0x0A]"

definition writeTrustList :: "entry list \<Rightarrow> string list" where
  "writeTrustList es =
     (let cw = foldl (\<lambda>m e. max m (length (e_cube e))) (length ''CUBE'') es;
          sw = foldl (\<lambda>m e. max m (length (e_store e))) (length ''STORE'') es
      in list_row cw sw ''CUBE'' ''FINGERPRINT (SHA-256)'' ''STORE'' ''INSTALLED'' #
         map (\<lambda>e. list_row cw sw (e_cube e) (e_fingerprint e) (e_store e) (e_date e)) es)"

definition runTrustList ::
  "ledger_yaml \<Rightarrow> os_env \<Rightarrow> 'w trust_deps \<Rightarrow> 'w trust_state \<Rightarrow> err option \<times> 'w trust_state" where
  "runTrustList Y E deps st =
     (case artifactRoot (td_homeDir deps) of
        Inl e \<Rightarrow> (Some e, st)
      | Inr root \<Rightarrow>
     (case loadLedger Y E (LedgerPath root) (ts_fs st) of
        Inl e \<Rightarrow> (Some e, st)
      | Inr l \<Rightarrow>
          if l_entries l = [] then (None, say ''no CA certificates installed by cube-idp'' st)
          else (None, st\<lparr>ts_out := ts_out st @ writeTrustList (l_entries l)\<rparr>)))"

subsection \<open>What the verbs keep\<close>

text \<open>What licenses a deletion on the machine's operating system.\<close>

definition store_match :: "('r, 'k, 'p) crypto \<Rightarrow> 'w trust_deps \<Rightarrow> remove_request \<Rightarrow> 'w \<Rightarrow> command \<Rightarrow> bool" where
  "store_match C deps = (if td_goos deps = ''darwin'' then keychain_match C (td_run deps) else anchor_match C)"

lemma trustStore_store: "trustStore C deps p = Inr S \<Longrightarrow> trust_store S C (store_match C deps) \<and> Name S \<noteq> ''''"
  using mac.trust_store_axioms [of C "td_run deps"] p11.trust_store_axioms [of C "td_run deps"]
  by (auto simp: trustStore_def store_match_def macOSStore_def p11KitStore_def storeNameMacOS_def storeNameP11Kit_def split: if_splits)

lemma loadLedger_Inr: "loadLedger Y E path fs = Inr l \<Longrightarrow> ledger_ok l \<and> \<not> call_fails E ''read'' path"
proof -
  have "ledger_ok \<lparr>l_entries = []\<rparr>" by (simp add: ledger_ok_def)
  then show "loadLedger Y E path fs = Inr l \<Longrightarrow> ?thesis"
    by (auto simp: loadLedger_def read_file_def os_err_def ErrNotExist_def split: sum.splits if_splits option.splits
        dest: ParseLedger_ledger_ok)
qed

lemma loadLedger_same:
  "map_of (files fs') path = map_of (files fs) path \<Longrightarrow> loadLedger Y E path fs' = loadLedger Y E path fs"
  by (simp add: loadLedger_def read_file_def)

lemma writeArtifact_replaced:
  "fresh_temps E \<Longrightarrow> temp_apart E path \<Longrightarrow> replaced path data fs (writeArtifact E path data fs)"
  unfolding writeArtifact_def by (rule replace_file_replaced)

lemma saveLedger_failed:
  assumes "fresh_temps E" "temp_apart E path" "saveLedger Y E path l fs = (Some e, fs')"
  shows "loadLedger Y E path fs' = loadLedger Y E path fs"
proof (rule loadLedger_same)
  show "map_of (files fs') path = map_of (files fs) path"
  proof (cases "Marshal Y l")
    case (Inl x)
    with assms(3) show ?thesis by (simp add: saveLedger_def)
  next
    case (Inr data)
    with assms(3) have "writeArtifact E path data fs = (Some e, fs')"
      by (simp add: saveLedger_def)
    then show ?thesis
      using writeArtifact_replaced [OF assms(1,2), of data fs] by (auto simp: replaced_def)
  qed
qed

lemma saveLedger_saved:
  assumes "fresh_temps E" "temp_apart E path" "yaml_roundtrip Y" "ledger_ok l" "\<not> call_fails E ''read'' path"
    and "saveLedger Y E path l fs = (None, fs')"
  shows "\<exists>l'. loadLedger Y E path fs' = Inr l' \<and> Find l' = Find l"
proof -
  from assms(6) obtain data where m: "Marshal Y l = Inr data" and w: "writeArtifact E path data fs = (None, fs')"
    by (auto simp: saveLedger_def split: sum.splits)
  have "read_file E path fs' = Inr data"
    using writeArtifact_replaced [OF assms(1,2), of data fs] w assms(5) by (simp add: read_after_replace)
  moreover obtain l' where "ParseLedger Y data = Inr l'" "Find l' = Find l"
    using ledger_reread [OF assms(3,4) m] by blast
  ultimately show ?thesis by (simp add: loadLedger_def)
qed

lemma hex_encode_Nil: "hex_encode s = '''' \<longleftrightarrow> s = ''''"
  by (simp add: hex_encode_def)

lemma artifactFingerprint_nonempty:
  "\<forall>s. cr_sha256 C s \<noteq> '''' \<Longrightarrow> artifactFingerprint C E cube p fs = Inr fp \<Longrightarrow> fp \<noteq> ''''"
  by (auto simp: artifactFingerprint_def Fingerprint_def hex_encode_Nil split: sum.splits option.splits)

lemma ran_same [simp]: "ran sh sh = []"
  by (simp add: ran_def)

text \<open>
  \<open>trust install\<close> records what it installed: on success the ledger reads back with this
  cube's entry, the fingerprint being the emitted certificate's, and every other cube's entry as
  before; on any failure the ledger reads as before. No store command runs unless the ledger
  and the certificate were both readable, and none of them deletes anything.
\<close>

theorem trust_install_records:
  assumes "artifactRoot (td_homeDir deps) = Inr root"
    and "fresh_temps E" and "temp_apart E (LedgerPath root)" and "yaml_roundtrip Y"
    and "\<forall>s. cr_sha256 C s \<noteq> ''''" and "cube \<noteq> ''''"
    and "runTrustInstall C Y E deps cube st = (r, st')"
  shows "(case r of
      Some e \<Rightarrow> loadLedger Y E (LedgerPath root) (ts_fs st') = loadLedger Y E (LedgerPath root) (ts_fs st)
    | None \<Rightarrow> \<exists>l l' fp S. loadLedger Y E (LedgerPath root) (ts_fs st) = Inr l \<and>
        loadLedger Y E (LedgerPath root) (ts_fs st') = Inr l' \<and>
        artifactFingerprint C E cube (CertPath root cube) (ts_fs st) = Inr fp \<and>
        trustStore C deps (CertPath root cube) = Inr S \<and>
        Find l' = (Find l)(cube \<mapsto> \<lparr>e_cube = cube, e_fingerprint = fp, e_store = Name S, e_date = dateFormat (td_now deps)\<rparr>)) \<and>
    (\<forall>c \<in> set (ran (ts_sh st) (ts_sh st')). \<not> deletes c \<and>
       (\<exists>l fp. loadLedger Y E (LedgerPath root) (ts_fs st) = Inr l \<and>
          artifactFingerprint C E cube (CertPath root cube) (ts_fs st) = Inr fp))"
proof (cases "\<exists>S fp l. trustStore C deps (CertPath root cube) = Inr S \<and>
    artifactFingerprint C E cube (CertPath root cube) (ts_fs st) = Inr fp \<and>
    loadLedger Y E (LedgerPath root) (ts_fs st) = Inr l")
  case False
  with assms(1,7) have "st' = st" "r \<noteq> None"
    by (auto simp: runTrustInstall_def Let_def split: sum.splits)
  then show ?thesis by (auto split: option.splits)
next
  case True
  then obtain S fp l where s: "trustStore C deps (CertPath root cube) = Inr S"
    and f: "artifactFingerprint C E cube (CertPath root cube) (ts_fs st) = Inr fp"
    and l: "loadLedger Y E (LedgerPath root) (ts_fs st) = Inr l" by blast
  define entry where "entry = \<lparr>e_cube = cube, e_fingerprint = fp, e_store = Name S, e_date = dateFormat (td_now deps)\<rparr>"
  obtain ir sh where i: "Install S cube (CertPath root cube) (ts_sh st) = (ir, sh)"
    by (cases "Install S cube (CertPath root cube) (ts_sh st)")
  have nd: "\<forall>c \<in> set (ran (ts_sh st) sh). \<not> deletes c"
    using trust_store.install_deletes [OF conjunct1 [OF trustStore_store [OF s]], of _ "ts_sh st" cube "CertPath root cube"] i
    by simp
  have ok: "ledger_ok (Upsert l entry)"
    using loadLedger_Inr [OF l] assms(6) trustStore_store [OF s] artifactFingerprint_nonempty [OF assms(5) f]
    by (intro ledger_ok_Upsert) (simp_all add: entry_ok_def entry_def dateFormat_def)
  have find: "Find (Upsert l entry) = (Find l)(cube \<mapsto> entry)"
    by (simp add: fun_eq_iff Find_Upsert entry_def)
  show ?thesis
  proof (cases ir)
    case (Some e)
    with assms(1,7) s f l i have "r = Some e" "st' = st\<lparr>ts_sh := sh\<rparr>"
      by (auto simp: runTrustInstall_def Let_def)
    then show ?thesis using nd f l by auto
  next
    case None
    obtain sr fs where sv: "saveLedger Y E (LedgerPath root) (Upsert l entry) (ts_fs st) = (sr, fs)"
      by (cases "saveLedger Y E (LedgerPath root) (Upsert l entry) (ts_fs st)")
    have st': "r = sr \<and> ts_fs st' = fs \<and> ts_sh st' = sh"
      using assms(1,7) s f l i None sv
      by (auto simp: runTrustInstall_def Let_def entry_def [symmetric] say_def split: option.splits)
    show ?thesis
    proof (cases sr)
      case (Some e)
      then show ?thesis
        using st' nd f l sv saveLedger_failed [OF assms(2,3)] by auto
    next
      case None
      with saveLedger_saved [OF assms(2,3,4) ok conjunct2 [OF loadLedger_Inr [OF l]]] sv obtain l' where
        "loadLedger Y E (LedgerPath root) fs = Inr l'" "Find l' = (Find l)(cube \<mapsto> entry)"
        by (auto simp: find)
      then show ?thesis
        using st' None nd f l s by (simp add: entry_def)
    qed
  qed
qed

definition sample_env :: os_env where
  "sample_env = \<lparr>call_fails = (\<lambda>c p. False), torn = (\<lambda>p. ''''), temp_name = (\<lambda>d fs. CHR ''~'' # concat (map fst (files fs))), is_print = (\<lambda>r. True)\<rparr>"

lemma fresh_longer: "map_of m (CHR ''~'' # concat (map fst m)) = (None :: string option)"
proof -
  have "k \<in> set (map fst m) \<Longrightarrow> length k \<le> length (concat (map fst m))" for k :: string
    by (auto simp: length_concat image_iff intro!: member_le_sum_list) force
  then show ?thesis
    by (metis Suc_n_not_le_n length_Cons list.set_map map_of_eq_None_iff)
qed

lemma sample_env_ok: "fresh_temps sample_env" "hd p \<noteq> CHR ''~'' \<Longrightarrow> temp_apart sample_env p"
  by (auto simp: fresh_temps_def sample_env_def temp_apart_def fresh_longer)

definition sample_deps :: "unit trust_deps" where
  "sample_deps =
     \<lparr>td_homeDir = Inr ''/h'', td_now = sample_now, td_goos = ''linux'',
      td_run = (\<lambda>w c. (\<lparr>stdout = '''', stderr = '''', exit_err = None\<rparr>, w))\<rparr>"

definition sample_recorded :: entry where
  "sample_recorded = \<lparr>e_cube = ''dev'', e_fingerprint = ''686361'', e_store = ''p11-kit'', e_date = ''2026-07-01''\<rparr>"

definition sample_state :: "unit trust_state" where
  "sample_state =
     \<lparr>ts_fs = \<lparr>files = [(''/h/.cube-idp/dev/ca.crt'', ''CERTIFICATE:ca'')], dirs = []\<rparr>,
      ts_sh = \<lparr>sh_machine = (), sh_log = []\<rparr>, ts_out = []\<rparr>"

lemma sample_root: "artifactRoot (td_homeDir sample_deps) = Inr ''/h/.cube-idp''"
  by (simp add: artifactRoot_def sample_deps_def trustRoot_def path_join_def DirName_def)

lemma sample_store: "trustStore C sample_deps p = Inr (p11KitStore C (td_run sample_deps))"
  by (simp add: trustStore_def sample_deps_def)

lemma sample_installs:
  "fst (runTrustInstall sample_crypto (yaml_of \<lparr>l_entries = [sample_recorded]\<rparr>) sample_env sample_deps ''dev'' sample_state) = None"
proof -
  let ?E = sample_env and ?fs = "ts_fs sample_state" and ?S = "p11KitStore sample_crypto (td_run sample_deps)"
  have cert: "artifactFingerprint sample_crypto ?E ''dev'' (CertPath ''/h/.cube-idp'' ''dev'') ?fs = Inr ''686361''"
    by (simp add: artifactFingerprint_def readCertFile_def read_file_def sample_env_def sample_state_def CertPath_def
        CertFileName_def path_join_def Fingerprint_def sample_crypto_def sample_cert_def hex_encode_def hex_digit_def
        caTemplate_def)
  have led: "loadLedger Y ?E (LedgerPath ''/h/.cube-idp'') ?fs = Inr \<lparr>l_entries = []\<rparr>" for Y
    by (simp add: loadLedger_def read_file_def sample_env_def sample_state_def LedgerPath_def LedgerFileName_def path_join_def)
  have "fst (Install ?S c p sh) = None" for c p sh
    by (simp add: p11KitStore_def p11Kit_Install_def run_cmd_def sample_deps_def)
  moreover have "fst (saveLedger (yaml_of \<lparr>l_entries = [sample_recorded]\<rparr>) ?E p
      (Upsert \<lparr>l_entries = []\<rparr> \<lparr>e_cube = ''dev'', e_fingerprint = ''686361'', e_store = Name ?S,
        e_date = dateFormat (td_now sample_deps)\<rparr>) ?fs) = None" for p
    by (simp add: saveLedger_def Marshal_def Upsert_def yaml_of_def sample_recorded_def p11KitStore_def storeNameP11Kit_def
        sample_deps_def sample_now_def dateFormat_def pad2_def itoa_def digits_of.simps char_of_def bit_0 writeArtifact_def replace_file_def Let_def
        mkdir_all_def create_temp_def write_open_def close_file_def chmod_file_def rename_file_def sample_env_def)
  ultimately show ?thesis
    by (auto simp: runTrustInstall_def sample_root sample_store cert led Let_def say_def split: prod.splits option.splits)
      (metis fst_conv option.distinct(1))+
qed

theorem trust_install_records_witness:
  "\<exists>l'. loadLedger (yaml_of \<lparr>l_entries = [sample_recorded]\<rparr>) sample_env (LedgerPath ''/h/.cube-idp'')
      (ts_fs (snd (runTrustInstall sample_crypto (yaml_of \<lparr>l_entries = [sample_recorded]\<rparr>) sample_env sample_deps ''dev''
         sample_state))) = Inr l' \<and> Find l' ''dev'' \<noteq> None"
proof -
  have "temp_apart sample_env (LedgerPath ''/h/.cube-idp'')"
    by (rule sample_env_ok) (simp add: LedgerPath_def path_join_def LedgerFileName_def)
  moreover have "\<forall>s. cr_sha256 sample_crypto s \<noteq> ''''" by (simp add: sample_crypto_def)
  ultimately show ?thesis
    using trust_install_records [OF sample_root sample_env_ok(1) _ yaml_of_roundtrip _ _ surjective_pairing,
        where l4 = "\<lparr>l_entries = [sample_recorded]\<rparr>" and C = sample_crypto and cube = "''dev''" and st = sample_state]
    by (auto simp: sample_installs)
qed

text \<open>Saving the ledger without a cube: all of the effect, or none.\<close>

lemma removed_ledger:
  assumes "fresh_temps E" "temp_apart E path" "yaml_roundtrip Y" and l: "loadLedger Y E path fs = Inr l"
    and sv: "saveLedger Y E path (Remove l cube) fs = (r, fs')"
  shows "case r of
      Some e \<Rightarrow> loadLedger Y E path fs' = loadLedger Y E path fs
    | None \<Rightarrow> \<exists>l'. loadLedger Y E path fs' = Inr l' \<and> Find l' = (Find l)(cube := None)"
proof (cases r)
  case (Some x)
  with sv saveLedger_failed [OF assms(1,2)] show ?thesis by auto
next
  case None
  have "Find (Remove l cube) = (Find l)(cube := None)" by (simp add: fun_eq_iff Find_Remove)
  with None sv saveLedger_saved [OF assms(1-3), of "Remove l cube" fs] loadLedger_Inr [OF l] ledger_ok_Remove
  show ?thesis by auto
qed

text \<open>
  C31. \<open>trust remove\<close> deletes only the certificate it has identified, and at most one deleting command
  runs. On macOS its argument is the hash, and the keychain the one, under which the keychain itself
  printed a certificate whose bytes have the SHA-256 the ledger records for this cube and carry this
  cube's marker; on Linux its argument is the cube's certificate file, whose bytes, read before, are
  identified in the same way. On success the ledger reads back without this cube and otherwise as
  before; on any failure, refusals included, it reads as before.
\<close>

theorem trust_remove_identified:
  assumes "artifactRoot (td_homeDir deps) = Inr root"
    and "fresh_temps E" and "temp_apart E (LedgerPath root)" and "yaml_roundtrip Y"
    and "runTrustRemove C Y E deps cube st = (r, st')"
  shows "(case r of
      Some e \<Rightarrow> loadLedger Y E (LedgerPath root) (ts_fs st') = loadLedger Y E (LedgerPath root) (ts_fs st)
    | None \<Rightarrow> \<exists>l l'. loadLedger Y E (LedgerPath root) (ts_fs st) = Inr l \<and>
        loadLedger Y E (LedgerPath root) (ts_fs st') = Inr l' \<and> Find l' = (Find l)(cube := None)) \<and>
    length (filter deletes (ran (ts_sh st) (ts_sh st'))) \<le> 1 \<and>
    (\<forall>c \<in> set (ran (ts_sh st) (ts_sh st')). deletes c \<longrightarrow>
       (\<exists>l entry f. loadLedger Y E (LedgerPath root) (ts_fs st) = Inr l \<and> Find l cube = Some entry \<and>
          readCertFile E cube (CertPath root cube) (ts_fs st) = Inr f \<and>
          (let req = \<lparr>rr_Cube = cube, rr_Fingerprint = e_fingerprint entry, rr_CertPath = CertPath root cube, rr_CertPEM = f\<rparr>
           in if td_goos deps = ''darwin'' then keychain_match C (td_run deps) req (sh_machine (ts_sh st)) c
              else \<exists>pem. f = Some pem \<and> identified C req pem \<and> c = (''trust'', [''anchor'', ''--remove'', CertPath root cube]))))"
proof (cases "\<exists>l entry S f. loadLedger Y E (LedgerPath root) (ts_fs st) = Inr l \<and> Find l cube = Some entry \<and>
    trustStore C deps (CertPath root cube) = Inr S \<and> e_store entry = Name S \<and>
    readCertFile E cube (CertPath root cube) (ts_fs st) = Inr f")
  case False
  with assms(1,5) have "ts_fs st' = ts_fs st \<and> ts_sh st' = ts_sh st \<and>
      (r = None \<longrightarrow> (\<exists>l. loadLedger Y E (LedgerPath root) (ts_fs st) = Inr l \<and> Find l cube = None))"
    by (auto simp: runTrustRemove_def removeFromStore_def Let_def say_def Find_cube
        split: sum.splits option.splits if_splits prod.splits)
  moreover have "Find l cube = None \<Longrightarrow> (Find l)(cube := None) = Find l" for l
    by (simp add: fun_eq_iff)
  ultimately show ?thesis by (fastforce split: option.splits)
next
  case True
  then obtain l entry S f where l: "loadLedger Y E (LedgerPath root) (ts_fs st) = Inr l"
    and e: "Find l cube = Some entry" and s: "trustStore C deps (CertPath root cube) = Inr S"
    and n: "e_store entry = Name S" and f: "readCertFile E cube (CertPath root cube) (ts_fs st) = Inr f" by blast
  define req where "req = \<lparr>rr_Cube = cube, rr_Fingerprint = e_fingerprint entry, rr_CertPath = CertPath root cube, rr_CertPEM = f\<rparr>"
  obtain rr sh where rm: "Remove_cert S req (ts_sh st) = (rr, sh)" by (cases "Remove_cert S req (ts_sh st)")
  have ts: "trust_store S C (store_match C deps)" using trustStore_store [OF s] by blast
  have del: "length (filter deletes (ran (ts_sh st) sh)) \<le> 1"
    "\<forall>c \<in> set (ran (ts_sh st) sh). deletes c \<longrightarrow> store_match C deps req (sh_machine (ts_sh st)) c"
    using trust_store.remove_once [OF ts, of "ts_sh st" req] trust_store.remove_matched [OF ts, of _ "ts_sh st" req] rm
    by auto
  have rfs: "removeFromStore E S entry (CertPath root cube) st = (rr, st\<lparr>ts_sh := sh\<rparr>)"
    using Find_cube [OF e] f rm by (simp add: removeFromStore_def req_def)
  have sh: "ts_sh st' = sh \<and> (case rr of
        Inl x \<Rightarrow> r = Some x \<and> ts_fs st' = ts_fs st
      | Inr y \<Rightarrow> saveLedger Y E (LedgerPath root) (Remove l cube) (ts_fs st) = (r, ts_fs st'))"
    using assms(1,5) l e s n rfs
    by (auto simp: runTrustRemove_def Let_def say_def split: sum.splits prod.splits option.splits)
  have led: "case r of
      Some e \<Rightarrow> loadLedger Y E (LedgerPath root) (ts_fs st') = loadLedger Y E (LedgerPath root) (ts_fs st)
    | None \<Rightarrow> \<exists>l'. loadLedger Y E (LedgerPath root) (ts_fs st') = Inr l' \<and> Find l' = (Find l)(cube := None)"
  proof (cases rr)
    case (Inl x)
    with sh show ?thesis by simp
  next
    case (Inr y)
    with sh have sv: "saveLedger Y E (LedgerPath root) (Remove l cube) (ts_fs st) = (r, ts_fs st')" by simp
    from removed_ledger [OF assms(2-4) l this] show ?thesis .
  qed
  have "\<forall>c \<in> set (ran (ts_sh st) sh). deletes c \<longrightarrow>
      (let req = \<lparr>rr_Cube = cube, rr_Fingerprint = e_fingerprint entry, rr_CertPath = CertPath root cube, rr_CertPEM = f\<rparr>
       in if td_goos deps = ''darwin'' then keychain_match C (td_run deps) req (sh_machine (ts_sh st)) c
          else \<exists>pem. f = Some pem \<and> identified C req pem \<and> c = (''trust'', [''anchor'', ''--remove'', CertPath root cube]))"
    using del(2) by (auto simp: Let_def store_match_def anchor_match_def req_def split: if_splits)
  then have "\<forall>c \<in> set (ran (ts_sh st) (ts_sh st')). deletes c \<longrightarrow>
       (\<exists>l entry f. loadLedger Y E (LedgerPath root) (ts_fs st) = Inr l \<and> Find l cube = Some entry \<and>
          readCertFile E cube (CertPath root cube) (ts_fs st) = Inr f \<and>
          (let req = \<lparr>rr_Cube = cube, rr_Fingerprint = e_fingerprint entry, rr_CertPath = CertPath root cube, rr_CertPEM = f\<rparr>
           in if td_goos deps = ''darwin'' then keychain_match C (td_run deps) req (sh_machine (ts_sh st)) c
              else \<exists>pem. f = Some pem \<and> identified C req pem \<and> c = (''trust'', [''anchor'', ''--remove'', CertPath root cube])))"
    using sh l e f by metis
  with led del(1) sh l show ?thesis by (auto split: option.splits)
qed

text \<open>A machine that recorded the installation of the sample certificate.\<close>

definition sample_recorded_state :: "unit trust_state" where
  "sample_recorded_state =
     \<lparr>ts_fs = \<lparr>files = [(''/h/.cube-idp/dev/ca.crt'', ''CERTIFICATE:ca''), (''/h/.cube-idp/trust.yaml'', ''entries'')], dirs = []\<rparr>,
      ts_sh = \<lparr>sh_machine = (), sh_log = []\<rparr>, ts_out = []\<rparr>"

theorem trust_remove_identified_witness:
  "filter (\<lambda>c. deletes c \<and> c \<noteq> (''trust'', [''anchor'', ''--remove'', ''/h/.cube-idp/dev/ca.crt'']))
     (ran (ts_sh sample_recorded_state)
       (ts_sh (snd (runTrustRemove sample_crypto (yaml_of \<lparr>l_entries = [sample_recorded]\<rparr>) sample_env sample_deps ''dev''
          sample_recorded_state)))) = []"
proof -
  have "temp_apart sample_env (LedgerPath ''/h/.cube-idp'')"
    by (rule sample_env_ok) (simp add: LedgerPath_def path_join_def LedgerFileName_def)
  from trust_remove_identified [OF sample_root sample_env_ok(1) this yaml_of_roundtrip surjective_pairing]
  have "\<forall>c \<in> set (ran (ts_sh sample_recorded_state)
     (ts_sh (snd (runTrustRemove sample_crypto (yaml_of \<lparr>l_entries = [sample_recorded]\<rparr>) sample_env sample_deps ''dev''
        sample_recorded_state)))). deletes c \<longrightarrow> c = (''trust'', [''anchor'', ''--remove'', CertPath ''/h/.cube-idp'' ''dev''])"
    unfolding Let_def by (fastforce simp: sample_deps_def)
  then show ?thesis by (auto simp: filter_empty_conv CertPath_def CertFileName_def path_join_def)
qed

subsection \<open>Synchronizing the certificate artifact\<close>

text \<open>
  The emitted certificate is synchronized atomically and idempotently: on success the file
  holds exactly the certificate, every other file is as before, and \<open>changed\<close> says whether it
  held it already, so a second run changes nothing; a failure leaves the old file in place.
\<close>

theorem syncCertFile_syncs:
  assumes "fresh_temps E" and "temp_apart E path" and "syncCertFile E path pem fs = (r, fs')"
  shows "(case r of
      Inl e \<Rightarrow> map_of (files fs') path = map_of (files fs) path
    | Inr changed \<Rightarrow> map_of (files fs') = (map_of (files fs))(path \<mapsto> pem) \<and>
        (changed \<longleftrightarrow> map_of (files fs) path \<noteq> Some pem) \<and> syncCertFile E path pem fs' = (Inr False, fs'))"
proof (cases "read_file E path fs = Inr pem \<or> (\<exists>e. read_file E path fs = Inl e \<and> e \<noteq> ErrNotExist)")
  case True
  with assms(3) show ?thesis
    by (auto simp: syncCertFile_def read_file_def fun_eq_iff split: if_splits option.splits)
next
  case False
  obtain w fs1 where w: "writeArtifact E path pem fs = (w, fs1)" by (cases "writeArtifact E path pem fs")
  with False assms(3) have out: "fs' = fs1" "r = (case w of None \<Rightarrow> Inr True | Some e \<Rightarrow> Inl e)"
    by (auto simp: syncCertFile_def Let_def split: sum.splits option.splits prod.splits)
  have nf: "\<not> call_fails E ''read'' path" "map_of (files fs) path \<noteq> Some pem"
    using False by (auto simp: read_file_def os_err_def ErrNotExist_def split: if_splits)
  show ?thesis
  proof (cases w)
    case (Some e)
    then show ?thesis
      using writeArtifact_replaced [OF assms(1,2), of pem fs] w out by (auto simp: replaced_def)
  next
    case None
    with w have rp: "replaced path pem fs (None, fs1)"
      using writeArtifact_replaced [OF assms(1,2), of pem fs] by simp
    from read_after_replace [OF rp nf(1)] rp nf(2) None out show ?thesis
      by (simp add: replaced_def syncCertFile_def)
  qed
qed

theorem syncCertFile_syncs_witness:
  "\<exists>changed. fst (syncCertFile sample_env ''/h/ca.crt'' ''x'' (ts_fs sample_state)) = Inr changed \<and> changed"
proof -
  have "temp_apart sample_env ''/h/ca.crt''" by (rule sample_env_ok) simp
  note S = syncCertFile_syncs [OF sample_env_ok(1) this surjective_pairing, of "''x''" "ts_fs sample_state"]
  have "fst (syncCertFile sample_env ''/h/ca.crt'' ''x'' (ts_fs sample_state)) = Inr True"
    by (simp add: syncCertFile_def read_file_def sample_env_def sample_state_def Let_def writeArtifact_def replace_file_def
        mkdir_all_def create_temp_def write_open_def close_file_def chmod_file_def rename_file_def split: prod.split)
  with S show ?thesis
    by (auto simp: sample_state_def)
qed

end
