(* ===== verification/CliTree.thy ===== *)
theory CliTree
  imports CliPack CliTrust
begin

section \<open>The command tree (\<open>internal/cli\<close>: root.go and the constructors of the commands)\<close>

text \<open>
  A \<open>cobra.Command\<close> as the constructors build it: its use line, its help texts, the arguments it
  admits, the function it runs, its own and its persistent flags, its subcommands. The function is
  an \<open>action\<close>, whose meaning \<open>CliRoot\<close> gives.
\<close>

subsection \<open>Commands\<close>

datatype action =
    InitAction | CreateAction | DeleteAction | StatusAction | BootstrapAction
  | ConfigValidateAction | ConfigShowAction
  | PackRenderAction | PackValidateAction | PackNewAction
  | TrustListAction | TrustInstallAction | TrustRemoveAction

datatype args_rule = DefaultArgs | NoArgs | ExactArgs nat | MaximumNArgs nat

text \<open>A duration is counted in seconds.\<close>

datatype flag_value = FString string | FDuration int

record flag =
  fg_name :: string
  fg_short :: string
  fg_default :: flag_value
  fg_usage :: string

datatype command =
  Command (cd_use: string) (cd_help: string) (cd_long: string) (cd_args: args_rule) (cd_run: "action option")
    (cd_flags: "flag list") (cd_persistent: "flag list") (cd_subs: "command list")

definition string_flag :: "string \<Rightarrow> string \<Rightarrow> string \<Rightarrow> flag" where
  "string_flag name value usage = \<lparr>fg_name = name, fg_short = '''', fg_default = FString value, fg_usage = usage\<rparr>"

definition leaf :: "string \<Rightarrow> string \<Rightarrow> args_rule \<Rightarrow> action \<Rightarrow> flag list \<Rightarrow> command" where
  "leaf use help rule a fs = Command use help '''' rule (Some a) fs [] []"

definition command_group :: "string \<Rightarrow> string \<Rightarrow> command list \<Rightarrow> command" where
  "command_group use help cs = Command use help '''' DefaultArgs None [] [] cs"

subsection \<open>The constructors\<close>

definition newConfigValidateCmd :: command where
  "newConfigValidateCmd =
     leaf ''validate'' ''Load, default, and validate the Config; report every problem'' DefaultArgs ConfigValidateAction []"

definition newConfigShowCmd :: command where
  "newConfigShowCmd = leaf ''show'' ''Print the loaded, defaulted Config back as YAML'' DefaultArgs ConfigShowAction []"

definition newConfigCmd :: command where
  "newConfigCmd = command_group ''config'' ''Inspect and validate the Config document'' [newConfigValidateCmd, newConfigShowCmd]"

definition newInitCmd :: command where
  "newInitCmd =
     leaf ''init'' ''Scaffold the config document if absent and validate it'' DefaultArgs InitAction
       [string_flag ''name'' ''''
          ''cube name for a scaffolded config (must match metadata.name when the file already exists)'']"

definition newCreateCmd :: command where
  "newCreateCmd =
     leaf ''create'' ''Create the cluster from the Config and install its kubeconfig context'' DefaultArgs CreateAction
       [string_flag ''kubeconfig'' '''' ''write the kubeconfig to this file instead of merging into the default location'',
        string_flag ''kubeconfig-context-name'' ''''
          ''override the generated context name (default: cube-idp.dev/<cluster-name>)'']"

definition newDeleteCmd :: command where
  "newDeleteCmd =
     leaf ''delete'' ''Delete the cluster from the Config and remove its kubeconfig context'' DefaultArgs DeleteAction
       [string_flag ''kubeconfig'' '''' ''clean up this kubeconfig file instead of the default location'',
        string_flag ''kubeconfig-context-name'' ''''
          ''override the context name to remove (default: cube-idp.dev/<cluster-name>)'']"

definition newStatusCmd :: command where
  "newStatusCmd =
     leaf ''status'' ''Report whether the cluster exists and its kubeconfig context is installed'' DefaultArgs StatusAction
       [string_flag ''kubeconfig'' '''' ''inspect this kubeconfig file instead of the default location'',
        string_flag ''kubeconfig-context-name'' ''''
          ''override the context name to look for (default: cube-idp.dev/<cluster-name>)'']"

definition defaultBootstrapTimeout :: int where "defaultBootstrapTimeout = 10 * 60"

definition newBootstrapCmd :: command where
  "newBootstrapCmd =
     leaf ''bootstrap'' ''Install the gitops engine (Flux) into the cluster and wait for it to be ready'' DefaultArgs BootstrapAction
       [string_flag ''kubeconfig'' '''' ''use this kubeconfig file instead of the default location'',
        string_flag ''kubeconfig-context-name'' ''''
          ''override the context name to use (default: cube-idp.dev/<cluster-name>)'',
        \<lparr>fg_name = ''timeout'', fg_short = '''', fg_default = FDuration defaultBootstrapTimeout,
         fg_usage = ''how long to wait for the bootstrap resources to become ready''\<rparr>]"

definition newPackNewCmd :: command where
  "newPackNewCmd =
     Command ''new <dir>'' ''Create a new pack that renders as written''
       (''Create a new pack in a directory that does not exist yet.'' @ newline1 @ newline1 @
        ''The result is a complete pack '' @ em_dash @ '' pack.cue plus a payload matching its type '' @ em_dash @ '' '' @
        ''so `cube-idp pack render <dir>` works on it immediately. With --from, an '' @
        ''existing pack is copied instead of scaffolded, and keeps the type it declares. '' @
        ''With --from-chart, a local Helm chart directory is read (Chart.yaml and '' @
        ''values.yaml only, never fetched or copied) and a thin helm pack is scaffolded '' @
        ''from it, with a placeholder repository URL to replace.'')
       (ExactArgs 1) (Some PackNewAction)
       [string_flag ''type'' TypeRaw ''pack type to scaffold: raw, helm, or kustomize'',
        string_flag ''name'' '''' (''pack name (default: the directory'' @ apostrophe_s @ '' base name)''),
        string_flag ''from'' '''' ''reference to an existing pack to fork instead of scaffolding'',
        string_flag ''from-chart'' '''' ''local Helm chart directory to scaffold a thin helm pack from''] [] []"

definition newPackRenderCmd :: command where
  "newPackRenderCmd =
     Command ''render [<ref>]'' ''Render a pack, or a configured pack instance, to Kubernetes YAML on stdout''
       (''Render a pack to Kubernetes YAML on stdout.'' @ newline1 @ newline1 @
        ''`pack render <ref>` renders a pack as its author wrote it. '' @
        ''`pack render -f <config> --id <id>` renders one instance of that pack as a '' @
        ''Config document configures it: its values, its external manifests, and the '' @
        ''namespace its pack forces. The two forms are mutually exclusive.'' @ newline1 @ newline1 @
        ''Only rendered YAML reaches stdout '' @ em_dash @ '' diagnostics go to stderr '' @ em_dash @ '' so the '' @
        ''output pipes straight into `kubectl apply -f -`. Nothing is written when '' @
        ''rendering fails.'')
       (MaximumNArgs 1) (Some PackRenderAction)
       [string_flag ''id'' '''' ''render this pack instance from the Config document given with -f''] [] []"

definition newPackValidateCmd :: command where
  "newPackValidateCmd =
     leaf ''validate <ref>'' ''Load a pack and validate its metadata and payload'' (ExactArgs 1) PackValidateAction []"

definition newPackCmd :: command where
  "newPackCmd = command_group ''pack'' ''Define, validate, and render packs'' [newPackRenderCmd, newPackValidateCmd, newPackNewCmd]"

definition newTrustListCmd :: command where
  "newTrustListCmd = leaf ''list'' ''Print the trust ledger'' NoArgs TrustListAction []"

definition newTrustInstallCmd :: command where
  "newTrustInstallCmd =
     leaf ''install <cube>'' (''Install a cube'' @ apostrophe_s @ '' CA into this user'' @ apostrophe_s @ '' OS trust store'')
       (ExactArgs 1) TrustInstallAction []"

definition newTrustRemoveCmd :: command where
  "newTrustRemoveCmd =
     leaf ''remove <cube>'' (''Remove a cube'' @ apostrophe_s @ '' CA from this user'' @ apostrophe_s @ '' OS trust store'')
       (ExactArgs 1) TrustRemoveAction []"

definition newTrustCmd :: command where
  "newTrustCmd =
     command_group ''trust'' ''Manage the CA certificates cube-idp installs into OS trust stores''
       [newTrustListCmd, newTrustInstallCmd, newTrustRemoveCmd]"

definition newRootCmd :: command where
  "newRootCmd =
     Command ''cube-idp'' (''cube-idp '' @ em_dash @ '' internal developer platform, from a single config'') '''' DefaultArgs None []
       [\<lparr>fg_name = ''config'', fg_short = ''f'', fg_default = FString ''cube.yaml'', fg_usage = ''path to the Config document''\<rparr>]
       [newConfigCmd, newInitCmd, newCreateCmd, newDeleteCmd, newStatusCmd, newBootstrapCmd, newPackCmd, newTrustCmd]"

lemmas command_defs = leaf_def command_group_def string_flag_def newConfigValidateCmd_def newConfigShowCmd_def newConfigCmd_def
  newInitCmd_def newCreateCmd_def newDeleteCmd_def newStatusCmd_def newBootstrapCmd_def newPackNewCmd_def
  newPackRenderCmd_def newPackValidateCmd_def newPackCmd_def newTrustListCmd_def newTrustInstallCmd_def
  newTrustRemoveCmd_def newTrustCmd_def newRootCmd_def

subsection \<open>Finding a command\<close>

text \<open>The name of a command is the first word of its use line.\<close>

definition cd_name :: "command \<Rightarrow> string" where
  "cd_name c = takeWhile (\<lambda>x. x \<noteq> CHR '' '') (cd_use c)"

text \<open>
  The command a path of names leads to, and the flags in force there: its own, its persistent ones
  and those of its ancestors, of which \<open>inherited\<close> is what reaches the start of the path.
\<close>

fun command_at :: "flag list \<Rightarrow> command \<Rightarrow> string list \<Rightarrow> (command \<times> flag list) option" where
  "command_at inherited c [] = Some (c, cd_flags c @ cd_persistent c @ inherited)"
| "command_at inherited c (n # ns) =
     (case find (\<lambda>s. cd_name s = n) (cd_subs c) of
        None \<Rightarrow> None
      | Some s \<Rightarrow> command_at (cd_persistent c @ inherited) s ns)"

text \<open>
  What cobra needs of a tree: siblings have distinct names, no flag and no shorthand is defined
  twice along a path, and a command either runs something or only holds other commands.
\<close>

fun tree_ok :: "flag list \<Rightarrow> command \<Rightarrow> bool" where
  "tree_ok inherited (Command u h l a r own pers subs) \<longleftrightarrow>
     distinct (map fg_name (own @ pers @ inherited)) \<and>
     distinct (filter (\<lambda>x. x \<noteq> '''') (map fg_short (own @ pers @ inherited))) \<and>
     distinct (map cd_name subs) \<and> (r = None \<longleftrightarrow> subs \<noteq> []) \<and> list_all (tree_ok (pers @ inherited)) subs"

text \<open>Every command of a tree, with its path.\<close>

fun command_table :: "command \<Rightarrow> (string list \<times> command) list" where
  "command_table (Command u h l a r own pers subs) =
     ([], Command u h l a r own pers subs) # concat (map (\<lambda>s. map (\<lambda>(p, x). (cd_name s # p, x)) (command_table s)) subs)"

lemma find_named: "find (\<lambda>s. cd_name s = n) cs = Some s \<Longrightarrow> s \<in> set cs \<and> cd_name s = n"
  by (auto simp: find_Some_iff)

lemma find_named_distinct: "distinct (map cd_name cs) \<Longrightarrow> s \<in> set cs \<Longrightarrow> find (\<lambda>x. cd_name x = cd_name s) cs = Some s"
  by (induction cs) auto

lemma command_at_table: "command_at i c p = Some (d, fs) \<Longrightarrow> (p, d) \<in> set (command_table c)"
proof (induction i c p rule: command_at.induct)
  case (1 i c)
  then show ?case by (cases d) auto
next
  case (2 i c n ns)
  then obtain s where s: "find (\<lambda>s. cd_name s = n) (cd_subs c) = Some s" "command_at (cd_persistent c @ i) s ns = Some (d, fs)"
    by (auto split: option.splits)
  from "2.IH" [OF this] find_named [OF s(1)] show ?case by (cases c) force
qed

lemma table_command_at:
  "tree_ok i c \<Longrightarrow> (p, d) \<in> set (command_table c) \<Longrightarrow> \<exists>fs. command_at j c p = Some (d, fs)"
proof (induction p arbitrary: i j c)
  case Nil
  then show ?case by (cases c) auto
next
  case (Cons n ns)
  obtain u h l a x own pers subs where c: "c = Command u h l a x own pers subs" by (cases c)
  with Cons.prems obtain s where s: "s \<in> set subs" "cd_name s = n" "(ns, d) \<in> set (command_table s)" by auto
  from c Cons.prems(1) s(1) have "tree_ok (pers @ i) s" "distinct (map cd_name subs)" by (auto simp: list_all_iff)
  with Cons.IH [of "pers @ i" s "pers @ j"] s find_named_distinct [of subs s] c show ?case by simp
qed

lemma command_at_ok:
  "tree_ok i c \<Longrightarrow> command_at i c p = Some (d, fs) \<Longrightarrow>
     distinct (map fg_name fs) \<and> set (cd_persistent c) \<union> set i \<subseteq> set fs \<and> (cd_run d = None \<longleftrightarrow> cd_subs d \<noteq> [])"
proof (induction i c p rule: command_at.induct)
  case (1 i c)
  then show ?case by (cases c) auto
next
  case (2 i c n ns)
  from "2.prems"(2) obtain s where s: "find (\<lambda>s. cd_name s = n) (cd_subs c) = Some s" "command_at (cd_persistent c @ i) s ns = Some (d, fs)"
    by (auto split: option.splits)
  with "2.prems"(1) find_named [OF s(1)] have "tree_ok (cd_persistent c @ i) s" by (cases c) (auto simp: list_all_iff)
  from "2.IH" [OF s(1) this s(2)] show ?case by auto
qed

subsection \<open>The tree of this program\<close>

lemma newRootCmd_ok: "tree_ok [] newRootCmd"
  by code_simp

lemma newRootCmd_table:
  "map (\<lambda>(p, c). (p, cd_run c, cd_args c)) (command_table newRootCmd) =
     [([], None, DefaultArgs),
      ([''config''], None, DefaultArgs),
      ([''config'', ''validate''], Some ConfigValidateAction, DefaultArgs),
      ([''config'', ''show''], Some ConfigShowAction, DefaultArgs),
      ([''init''], Some InitAction, DefaultArgs), ([''create''], Some CreateAction, DefaultArgs),
      ([''delete''], Some DeleteAction, DefaultArgs), ([''status''], Some StatusAction, DefaultArgs),
      ([''bootstrap''], Some BootstrapAction, DefaultArgs),
      ([''pack''], None, DefaultArgs),
      ([''pack'', ''render''], Some PackRenderAction, MaximumNArgs 1),
      ([''pack'', ''validate''], Some PackValidateAction, ExactArgs 1),
      ([''pack'', ''new''], Some PackNewAction, ExactArgs 1),
      ([''trust''], None, DefaultArgs), ([''trust'', ''list''], Some TrustListAction, NoArgs),
      ([''trust'', ''install''], Some TrustInstallAction, ExactArgs 1),
      ([''trust'', ''remove''], Some TrustRemoveAction, ExactArgs 1)]"
  by code_simp

text \<open>The entries of the table are what the paths lead to.\<close>

lemma newRootCmd_at:
  "(\<exists>c fs. command_at [] newRootCmd p = Some (c, fs) \<and> cd_run c = r \<and> cd_args c = k) \<longleftrightarrow>
     (p, r, k) \<in> set (map (\<lambda>(p, c). (p, cd_run c, cd_args c)) (command_table newRootCmd))"
proof -
  have at: "(p, c) \<in> set (command_table newRootCmd) \<longleftrightarrow> (\<exists>fs. command_at [] newRootCmd p = Some (c, fs))" for c
    using command_at_table [of "[]" newRootCmd p c] table_command_at [OF newRootCmd_ok, of p c "[]"] by blast
  have "(p, r, k) \<in> set (map (\<lambda>(p, c). (p, cd_run c, cd_args c)) (command_table newRootCmd)) \<longleftrightarrow>
      (\<exists>c. (p, c) \<in> set (command_table newRootCmd) \<and> cd_run c = r \<and> cd_args c = k)" by auto
  also have "\<dots> \<longleftrightarrow> (\<exists>c fs. command_at [] newRootCmd p = Some (c, fs) \<and> cd_run c = r \<and> cd_args c = k)"
    unfolding at by blast
  finally show ?thesis by (rule sym)
qed

lemma newRootCmd_config:
  "cd_persistent newRootCmd = [\<lparr>fg_name = ''config'', fg_short = ''f'', fg_default = FString ''cube.yaml'',
     fg_usage = ''path to the Config document''\<rparr>]"
  by (simp add: newRootCmd_def)

text \<open>
  The command tree is unambiguous and complete: every verb of the program is run by exactly one
  path of names; and wherever a path leads, the command runs something exactly when it has no
  subcommand, each flag in force is defined once, and the persistent \<open>config\<close> flag with its default
  is among them, never shadowed.
\<close>

theorem command_tree_unambiguous:
  "(\<exists>!p. \<exists>c fs. command_at [] newRootCmd p = Some (c, fs) \<and> cd_run c = Some a) \<and>
   (\<forall>p c fs. command_at [] newRootCmd p = Some (c, fs) \<longrightarrow>
      (cd_run c = None \<longleftrightarrow> cd_subs c \<noteq> []) \<and> distinct (map fg_name fs) \<and>
      (\<exists>f \<in> set fs. fg_name f = ''config'' \<and> fg_default f = FString ''cube.yaml''))"
proof (intro conjI allI impI)
  have "\<exists>!p. \<exists>k. (p, Some a, k) \<in> set (map (\<lambda>(p, c). (p, cd_run c, cd_args c)) (command_table newRootCmd))"
    unfolding newRootCmd_table by (cases a) auto
  moreover have "(\<exists>k. (p, Some a, k) \<in> set (map (\<lambda>(p, c). (p, cd_run c, cd_args c)) (command_table newRootCmd))) \<longleftrightarrow>
      (\<exists>c fs. command_at [] newRootCmd p = Some (c, fs) \<and> cd_run c = Some a)" for p
    unfolding newRootCmd_at [symmetric] by blast
  ultimately show "\<exists>!p. \<exists>c fs. command_at [] newRootCmd p = Some (c, fs) \<and> cd_run c = Some a" by simp
next
  fix p c fs
  assume "command_at [] newRootCmd p = Some (c, fs)"
  from command_at_ok [OF newRootCmd_ok this]
  have ok: "distinct (map fg_name fs)" "set (cd_persistent newRootCmd) \<subseteq> set fs" "cd_run c = None \<longleftrightarrow> cd_subs c \<noteq> []" by auto
  from ok(1,3) show "cd_run c = None \<longleftrightarrow> cd_subs c \<noteq> []" "distinct (map fg_name fs)" by blast+
  from ok(2) show "\<exists>f \<in> set fs. fg_name f = ''config'' \<and> fg_default f = FString ''cube.yaml''"
    by (intro bexI) (auto simp: newRootCmd_config)
qed

theorem command_tree_unambiguous_witness:
  "\<exists>c fs. command_at [] newRootCmd [''pack'', ''new''] = Some (c, fs) \<and> cd_subs c = [] \<and> distinct (map fg_name fs)"
proof -
  have "([''pack'', ''new''], Some PackNewAction, ExactArgs 1) \<in>
      set (map (\<lambda>(p, c). (p, cd_run c, cd_args c)) (command_table newRootCmd))" by (simp add: newRootCmd_table)
  then obtain c fs where c: "command_at [] newRootCmd [''pack'', ''new''] = Some (c, fs)" "cd_run c = Some PackNewAction"
    unfolding newRootCmd_at [symmetric] by blast
  from command_tree_unambiguous [THEN conjunct2, rule_format, OF c(1)] c show ?thesis by auto
qed

end
