(* ===== verification/ClusterKubeconfig.thy ===== *)
theory ClusterKubeconfig
  imports JsonVal ConfigTypes
begin

section \<open>Kubeconfig documents (\<open>internal/cluster/kubeconfig.go\<close>)\<close>

text \<open>
  Rebranding works on the typed model, whose entry bodies stay raw JSON; merging and removing work
  on the decoded document, so that keys the program does not know pass through. \<open>sigs.k8s.io/yaml\<close>
  is the record \<open>kube_yaml\<close>. The theorems: a merge touches nothing of another name, and a
  removal undoes the merge of a rebranded document.
\<close>

subsection \<open>The typed model\<close>

type_synonym raw_json = string

record named_entry =
  ne_Name :: string
  ne_Cluster :: "raw_json option"
  ne_User :: "raw_json option"

record context_body =
  cb_Cluster :: string
  cb_User :: string
  cb_Namespace :: string
  cb_Extensions :: "raw_json option"

record context_entry =
  ce_Name :: string
  ce_Context :: context_body

record kubeconfig =
  kc_APIVersion :: string
  kc_Kind :: string
  kc_Preferences :: "raw_json option"
  kc_Clusters :: "named_entry list"
  kc_Contexts :: "context_entry list"
  kc_Users :: "named_entry list"
  kc_CurrentContext :: string
  kc_Extensions :: "raw_json option"

text \<open>A document that decodes to nothing is the nil map, \<open>None\<close>.\<close>

record kube_yaml =
  ky_decode_typed :: "string \<Rightarrow> kubeconfig res"
  ky_render_typed :: "kubeconfig \<Rightarrow> string res"
  ky_decode :: "string \<Rightarrow> obj option res"
  ky_render :: "obj \<Rightarrow> string res"

definition ContextName :: "string \<Rightarrow> string" where
  "ContextName clusterName = api_group @ ''/'' @ clusterName"

definition Rebrand :: "kube_yaml \<Rightarrow> string \<Rightarrow> string \<Rightarrow> string \<Rightarrow> string res" where
  "Rebrand Y raw contextName namespace =
     (case ky_decode_typed Y raw of
        Inl e \<Rightarrow> Inl (Wrapf ''parse kubeconfig'' e)
      | Inr kc \<Rightarrow>
          (case (kc_Clusters kc, kc_Contexts kc, kc_Users kc) of
             ([cl], [ct], [us]) \<Rightarrow>
               let body = (ce_Context ct)\<lparr>cb_Cluster := contextName, cb_User := contextName\<rparr>;
                   body = (if namespace \<noteq> '''' then body\<lparr>cb_Namespace := namespace\<rparr> else body);
                   kc' = kc\<lparr>kc_Clusters := [cl\<lparr>ne_Name := contextName\<rparr>], kc_Users := [us\<lparr>ne_Name := contextName\<rparr>],
                     kc_Contexts := [ct\<lparr>ce_Name := contextName, ce_Context := body\<rparr>], kc_CurrentContext := contextName\<rparr>
               in (case ky_render_typed Y kc' of
                     Inl e \<Rightarrow> Inl (Wrapf ''render kubeconfig'' e)
                   | Inr s \<Rightarrow> Inr s)
           | (cls, cts, uss) \<Rightarrow>
               Inl (Plain (''expected single-cluster kubeconfig, got '' @ itoa (int (length cls)) @ '' clusters / '' @
                 itoa (int (length cts)) @ '' contexts / '' @ itoa (int (length uss)) @ '' users''))))"

subsection \<open>The document model\<close>

fun as_list :: "val option \<Rightarrow> val list" where
  "as_list (Some (VArr xs)) = xs"
| "as_list v = []"

fun entryName :: "val \<Rightarrow> string" where
  "entryName (VObj m) = as_string (map_of m ''name'')"
| "entryName v = ''''"

fun replace_first :: "('a \<Rightarrow> bool) \<Rightarrow> 'a \<Rightarrow> 'a list \<Rightarrow> 'a list option" where
  "replace_first P s [] = None"
| "replace_first P s (d # ds) = (if P d then Some (s # ds) else map_option ((#) d) (replace_first P s ds))"

fun upsert :: "'a list \<Rightarrow> 'a list \<Rightarrow> ('a \<Rightarrow> string) \<Rightarrow> 'a list" where
  "upsert dst [] name = dst"
| "upsert dst (s # src) name =
     upsert (case replace_first (\<lambda>d. name d = name s) s dst of None \<Rightarrow> dst @ [s] | Some dst' \<Rightarrow> dst') src name"

definition list_keys :: "string list" where
  "list_keys = [''clusters'', ''contexts'', ''users'']"

definition merge_key :: "obj \<Rightarrow> string \<Rightarrow> obj \<Rightarrow> obj" where
  "merge_key src key dst =
     (let merged = upsert (as_list (map_of dst key)) (as_list (map_of src key)) entryName
      in if length merged > 0 then AList.update key (VArr merged) dst else dst)"

definition or_null :: "val option \<Rightarrow> val" where
  "or_null v = (case v of None \<Rightarrow> VNull | Some x \<Rightarrow> x)"

definition merge_doc :: "obj \<Rightarrow> obj \<Rightarrow> obj" where
  "merge_doc dst src =
     (let dst = fold (merge_key src) list_keys dst;
          cc = as_string (map_of src ''current-context'');
          dst = (if cc \<noteq> '''' then AList.update ''current-context'' (VStr cc) dst else dst)
      in if as_string (map_of dst ''apiVersion'') = ''''
         then AList.update ''kind'' (or_null (map_of src ''kind''))
           (AList.update ''apiVersion'' (or_null (map_of src ''apiVersion'')) dst)
         else dst)"

definition nil_map :: "obj option \<Rightarrow> obj" where
  "nil_map m = (case m of None \<Rightarrow> [] | Some d \<Rightarrow> d)"

definition Merge :: "kube_yaml \<Rightarrow> string \<Rightarrow> string \<Rightarrow> string res" where
  "Merge Y existing incoming =
     (if length existing = 0 then Inr incoming
      else case ky_decode Y existing of
          Inl e \<Rightarrow> Inl (Wrapf ''parse existing kubeconfig'' e)
        | Inr dst \<Rightarrow>
            (case ky_decode Y incoming of
               Inl e \<Rightarrow> Inl (Wrapf ''parse incoming kubeconfig'' e)
             | Inr src \<Rightarrow>
                 (case ky_render Y (merge_doc (nil_map dst) (nil_map src)) of
                    Inl e \<Rightarrow> Inl (Wrapf ''render merged kubeconfig'' e)
                  | Inr s \<Rightarrow> Inr s)))"

definition remove_key :: "string \<Rightarrow> string \<Rightarrow> obj \<times> bool \<Rightarrow> obj \<times> bool" where
  "remove_key contextName key st =
     (case st of (kc, changed) \<Rightarrow>
        let xs = as_list (map_of kc key); kept = filter (\<lambda>e. entryName e \<noteq> contextName) xs
        in if length kept = length xs then (kc, changed)
           else if length kept = 0 then (AList.delete key kc, True)
           else (AList.update key (VArr kept) kc, True))"

definition remove_doc :: "string \<Rightarrow> obj \<Rightarrow> obj \<times> bool" where
  "remove_doc contextName kc =
     (case fold (remove_key contextName) list_keys (kc, False) of (kc1, changed) \<Rightarrow>
        if as_string (map_of kc1 ''current-context'') = contextName
        then (AList.delete ''current-context'' kc1, True) else (kc1, changed))"

definition Remove_context :: "kube_yaml \<Rightarrow> string \<Rightarrow> string \<Rightarrow> (string \<times> bool) res" where
  "Remove_context Y existing contextName =
     (if length existing = 0 then Inr (existing, False)
      else case ky_decode Y existing of
          Inl e \<Rightarrow> Inl (Wrapf ''parse kubeconfig'' e)
        | Inr kc \<Rightarrow>
            (case remove_doc contextName (nil_map kc) of (kc', changed) \<Rightarrow>
               if \<not> changed then Inr (existing, False)
               else (case ky_render Y kc' of
                  Inl e \<Rightarrow> Inl (Wrapf ''render kubeconfig'' e)
                | Inr s \<Rightarrow> Inr (s, True))))"

subsection \<open>Lookups\<close>

lemma replace_first_None: "replace_first P s ds = None \<longleftrightarrow> (\<forall>d \<in> set ds. \<not> P d)"
  by (induction ds) auto

lemma replace_first_filter:
  "replace_first P s ds = Some ds' \<Longrightarrow> \<not> Q s \<Longrightarrow> (\<And>d. P d \<Longrightarrow> \<not> Q d) \<Longrightarrow> filter Q ds' = filter Q ds"
  by (induction ds arbitrary: ds') (auto split: if_splits)

lemma replace_first_set: "replace_first P s ds = Some ds' \<Longrightarrow> s \<in> set ds' \<and> length ds' = length ds \<and> set ds' \<subseteq> insert s (set ds)"
  by (induction ds arbitrary: ds') (auto split: if_splits)

lemma replace_first_keeps: "replace_first P s ds = Some ds' \<Longrightarrow> d \<in> set ds \<Longrightarrow> \<not> P d \<Longrightarrow> d \<in> set ds'"
  by (induction ds arbitrary: ds') (auto split: if_splits)

definition upsert_one :: "'a \<Rightarrow> ('a \<Rightarrow> string) \<Rightarrow> 'a list \<Rightarrow> 'a list" where
  "upsert_one s name dst = (case replace_first (\<lambda>d. name d = name s) s dst of None \<Rightarrow> dst @ [s] | Some dst' \<Rightarrow> dst')"

lemma upsert_Cons: "upsert dst (s # src) name = upsert (upsert_one s name dst) src name"
  by (simp add: upsert_one_def)

lemma upsert_one_filter: "\<not> Q s \<Longrightarrow> (\<And>d. name d = name s \<Longrightarrow> \<not> Q d) \<Longrightarrow> filter Q (upsert_one s name dst) = filter Q dst"
  using replace_first_filter [of "\<lambda>d. name d = name s" s dst _ Q]
  by (auto simp: upsert_one_def split: option.split)

lemma upsert_one_has: "s \<in> set (upsert_one s name dst)" "name d \<noteq> name s \<Longrightarrow> d \<in> set dst \<Longrightarrow> d \<in> set (upsert_one s name dst)"
  using replace_first_set [of "\<lambda>d. name d = name s" s dst] replace_first_keeps [of "\<lambda>d. name d = name s" s dst]
  by (auto simp: upsert_one_def split: option.split)

lemma upsert_foreign:
  "filter (\<lambda>d. name d \<notin> name ` set src) (upsert dst src name) = filter (\<lambda>d. name d \<notin> name ` set src) dst"
proof -
  have "name ` set src \<subseteq> N \<Longrightarrow> filter (\<lambda>d. name d \<notin> N) (upsert dst src name) = filter (\<lambda>d. name d \<notin> N) dst" for N
  proof (induction src arbitrary: dst)
    case (Cons s src)
    then show ?case
      unfolding upsert_Cons by (subst Cons.IH) (auto intro!: upsert_one_filter)
  qed simp
  then show ?thesis by blast
qed

lemma upsert_keeps: "d \<in> set dst \<Longrightarrow> name d \<notin> name ` set src \<Longrightarrow> d \<in> set (upsert dst src name)"
proof -
  assume "d \<in> set dst" "name d \<notin> name ` set src"
  then have "d \<in> set (filter (\<lambda>d. name d \<notin> name ` set src) (upsert dst src name))"
    unfolding upsert_foreign by simp
  then show ?thesis by simp
qed

lemma upsert_has: "distinct (map name src) \<Longrightarrow> s \<in> set src \<Longrightarrow> s \<in> set (upsert dst src name)"
proof (induction src arbitrary: dst)
  case (Cons t src)
  show ?case
  proof (cases "s = t")
    case True
    with Cons.prems show ?thesis
      unfolding upsert_Cons by (intro upsert_keeps upsert_one_has(1)) (auto simp: upsert_one_has(1))
  next
    case False
    with Cons show ?thesis unfolding upsert_Cons by simp
  qed
qed simp

lemma upsert_Nil_iff: "upsert dst src name = [] \<longleftrightarrow> dst = [] \<and> src = []"
proof (induction src arbitrary: dst)
  case (Cons s src)
  have "upsert_one s name dst \<noteq> []" using upsert_one_has(1) [of s name dst] by auto
  with Cons [of "upsert_one s name dst"] show ?case unfolding upsert_Cons by simp
qed simp

definition merged_list :: "obj \<Rightarrow> obj \<Rightarrow> string \<Rightarrow> val list" where
  "merged_list dst src key = upsert (as_list (map_of dst key)) (as_list (map_of src key)) entryName"

definition merged_at :: "obj \<Rightarrow> obj \<Rightarrow> string \<Rightarrow> val option" where
  "merged_at dst src key = (if merged_list dst src key = [] then map_of dst key else Some (VArr (merged_list dst src key)))"

lemma merge_key_lookup: "map_of (merge_key src key dst) k = (if k = key then merged_at dst src key else map_of dst k)"
  by (auto simp: merge_key_def merged_at_def merged_list_def Let_def)

lemma merged_at_cong: "map_of dst key = map_of dst' key \<Longrightarrow> merged_at dst src key = merged_at dst' src key"
  by (simp add: merged_at_def merged_list_def)

lemma merge_lists_lookup:
  "map_of (fold (merge_key src) list_keys dst) k = (if k \<in> set list_keys then merged_at dst src k else map_of dst k)"
proof -
  have "merged_at (merge_key src ''clusters'' dst) src ''contexts'' = merged_at dst src ''contexts''"
    "merged_at (merge_key src ''contexts'' (merge_key src ''clusters'' dst)) src ''users'' = merged_at dst src ''users''"
    by (rule merged_at_cong, simp add: merge_key_lookup)+
  then show ?thesis by (auto simp: list_keys_def merge_key_lookup)
qed

lemma merge_doc_lookup:
  "map_of (merge_doc dst src) k =
     (if k \<in> set list_keys then merged_at dst src k
      else if k = ''current-context'' then
        (if as_string (map_of src k) \<noteq> '''' then Some (VStr (as_string (map_of src k))) else map_of dst k)
      else if (k = ''apiVersion'' \<or> k = ''kind'') \<and> as_string (map_of dst ''apiVersion'') = ''''
      then Some (or_null (map_of src k)) else map_of dst k)"
proof -
  define d1 where "d1 = fold (merge_key src) list_keys dst"
  define d2 where "d2 = (if as_string (map_of src ''current-context'') \<noteq> ''''
      then AList.update ''current-context'' (VStr (as_string (map_of src ''current-context''))) d1 else d1)"
  have m: "merge_doc dst src = (if as_string (map_of d2 ''apiVersion'') = ''''
      then AList.update ''kind'' (or_null (map_of src ''kind''))
        (AList.update ''apiVersion'' (or_null (map_of src ''apiVersion'')) d2) else d2)"
    by (simp only: merge_doc_def Let_def d1_def d2_def)
  have d1: "map_of d1 k = (if k \<in> set list_keys then merged_at dst src k else map_of dst k)" for k
    unfolding d1_def by (rule merge_lists_lookup)
  have d2: "map_of d2 k = (if k = ''current-context'' \<and> as_string (map_of src k) \<noteq> ''''
      then Some (VStr (as_string (map_of src k))) else map_of d1 k)" for k
    by (cases "k = ''current-context''") (simp_all add: d2_def)
  have nk: "''current-context'' \<notin> set list_keys" "''apiVersion'' \<notin> set list_keys" "''kind'' \<notin> set list_keys"
    by (simp_all add: list_keys_def)
  have a: "map_of d2 ''apiVersion'' = map_of dst ''apiVersion''" by (simp add: d2 d1 nk)
  show ?thesis
  proof (cases "as_string (map_of dst ''apiVersion'') = ''''")
    case True
    then have "map_of (merge_doc dst src) k = (if k = ''kind'' \<or> k = ''apiVersion'' then Some (or_null (map_of src k)) else map_of d2 k)"
      unfolding m a by simp
    with True show ?thesis by (auto simp: d2 d1 nk)
  next
    case False
    then have "map_of (merge_doc dst src) k = map_of d2 k" unfolding m a by simp
    with False show ?thesis by (auto simp: d2 d1 nk)
  qed
qed

lemma merged_as_list: "key \<in> set list_keys \<Longrightarrow> as_list (map_of (merge_doc dst src) key) = merged_list dst src key"
  unfolding merge_doc_lookup by (auto simp: merged_at_def merged_list_def upsert_Nil_iff)

text \<open>What a removal leaves under a list key.\<close>

definition left_at :: "string \<Rightarrow> val option \<Rightarrow> val option" where
  "left_at c v =
     (let kept = filter (\<lambda>e. entryName e \<noteq> c) (as_list v)
      in if length kept = length (as_list v) then v else if kept = [] then None else Some (VArr kept))"

definition drops_at :: "string \<Rightarrow> val option \<Rightarrow> bool" where
  "drops_at c v \<longleftrightarrow> length (filter (\<lambda>e. entryName e \<noteq> c) (as_list v)) \<noteq> length (as_list v)"

lemma remove_key_lookup:
  "map_of (fst (remove_key c key (kc, ch))) k = (if k = key then left_at c (map_of kc key) else map_of kc k)"
  "snd (remove_key c key (kc, ch)) \<longleftrightarrow> ch \<or> drops_at c (map_of kc key)"
  by (auto simp: remove_key_def left_at_def drops_at_def Let_def)

lemma remove_doc_lookup:
  "map_of (fst (remove_doc c kc)) k =
     (if k \<in> set list_keys then left_at c (map_of kc k)
      else if k = ''current-context'' \<and> as_string (map_of kc k) = c then None else map_of kc k)"
  "snd (remove_doc c kc) \<longleftrightarrow>
     (\<exists>key \<in> set list_keys. drops_at c (map_of kc key)) \<or> as_string (map_of kc ''current-context'') = c"
proof -
  obtain k1 c1 where 1: "remove_key c ''clusters'' (kc, False) = (k1, c1)" by fastforce
  obtain k2 c2 where 2: "remove_key c ''contexts'' (k1, c1) = (k2, c2)" by fastforce
  obtain k3 c3 where 3: "remove_key c ''users'' (k2, c2) = (k3, c3)" by fastforce
  have f: "fold (remove_key c) list_keys (kc, False) = (k3, c3)" by (simp add: list_keys_def 1 2 3)
  note l1 = remove_key_lookup [of c "''clusters''" kc False, unfolded 1 fst_conv snd_conv]
  note l2 = remove_key_lookup [of c "''contexts''" k1 c1, unfolded 2 fst_conv snd_conv]
  note l3 = remove_key_lookup [of c "''users''" k2 c2, unfolded 3 fst_conv snd_conv]
  have m: "map_of k3 k = (if k \<in> set list_keys then left_at c (map_of kc k) else map_of kc k)" for k
    unfolding l3(1) l2(1) l1(1) by (auto simp: list_keys_def)
  then have cc: "map_of k3 ''current-context'' = map_of kc ''current-context''" by (simp add: list_keys_def)
  show "map_of (fst (remove_doc c kc)) k =
     (if k \<in> set list_keys then left_at c (map_of kc k)
      else if k = ''current-context'' \<and> as_string (map_of kc k) = c then None else map_of kc k)"
    unfolding remove_doc_def f prod.case cc by (auto simp: m list_keys_def)
  have "c3 \<longleftrightarrow> (\<exists>key \<in> set list_keys. drops_at c (map_of kc key))"
    unfolding l3(2) l2(2) l1(2) by (auto simp: l1(1) l2(1) list_keys_def)
  then show "snd (remove_doc c kc) \<longleftrightarrow>
     (\<exists>key \<in> set list_keys. drops_at c (map_of kc key)) \<or> as_string (map_of kc ''current-context'') = c"
    unfolding remove_doc_def f prod.case cc by simp
qed

subsection \<open>What the library keeps of a document\<close>

text \<open>
  The law of \<open>sigs.k8s.io/yaml\<close>: decoding yields maps over the values the format carries
  (\<open>C\<close>: a list is carried when its elements are), and a map over carried values that was
  rendered is not empty text and decodes to a map with the same lookups.
\<close>

definition yaml_keeps :: "kube_yaml \<Rightarrow> (val \<Rightarrow> bool) \<Rightarrow> bool" where
  "yaml_keeps Y C \<longleftrightarrow>
     C VNull \<and> (\<forall>xs. C (VArr xs) \<longleftrightarrow> list_all C xs) \<and>
     (\<forall>s m. ky_decode Y s = Inr (Some m) \<longrightarrow> (\<forall>k v. map_of m k = Some v \<longrightarrow> C v)) \<and>
     (\<forall>m s. (\<forall>k v. map_of m k = Some v \<longrightarrow> C v) \<longrightarrow> ky_render Y m = Inr s \<longrightarrow>
        s \<noteq> '''' \<and> (\<exists>m'. ky_decode Y s = Inr (Some m') \<and> map_of m' = map_of m))"

lemma yaml_keeps_decode:
  "yaml_keeps Y C \<Longrightarrow> ky_decode Y s = Inr d \<Longrightarrow> map_of (nil_map d) k = Some v \<Longrightarrow> C v"
  by (cases d) (auto simp: yaml_keeps_def nil_map_def)

lemma yaml_keeps_render:
  assumes "yaml_keeps Y C" "\<And>k v. map_of m k = Some v \<Longrightarrow> C v" "ky_render Y m = Inr s"
  obtains m' where "s \<noteq> ''''" "ky_decode Y s = Inr (Some m')" "map_of m' = map_of m"
  using assms unfolding yaml_keeps_def by blast

lemma yaml_keeps_list: "yaml_keeps Y C \<Longrightarrow> C (VArr xs) \<longleftrightarrow> (\<forall>x \<in> set xs. C x)"
  by (simp add: yaml_keeps_def list_all_iff)

lemma as_list_carried:
  "yaml_keeps Y C \<Longrightarrow> (\<And>v. x = Some v \<Longrightarrow> C v) \<Longrightarrow> e \<in> set (as_list x) \<Longrightarrow> C e"
  by (cases x rule: as_list.cases) (auto simp: yaml_keeps_list)

lemma upsert_set: "set (upsert dst src name) \<subseteq> set dst \<union> set src"
proof (induction src arbitrary: dst)
  case (Cons s src)
  have "set (upsert_one s name dst) \<subseteq> insert s (set dst)"
    using replace_first_set [of "\<lambda>d. name d = name s" s dst] by (auto simp: upsert_one_def split: option.split)
  with Cons [of "upsert_one s name dst"] show ?case unfolding upsert_Cons by auto
qed simp

lemma merged_at_carried:
  assumes Y: "yaml_keeps Y C" and d: "\<And>k v. map_of dst k = Some v \<Longrightarrow> C v" and s: "\<And>k v. map_of src k = Some v \<Longrightarrow> C v"
    and "merged_at dst src key = Some v"
  shows "C v"
proof (cases "merged_list dst src key = []")
  case True
  with assms(4) d show ?thesis by (simp add: merged_at_def)
next
  case False
  have "C e" if "e \<in> set (merged_list dst src key)" for e
    using that upsert_set [of "as_list (map_of dst key)" "as_list (map_of src key)" entryName]
      as_list_carried [OF Y, of "map_of dst key" e] as_list_carried [OF Y, of "map_of src key" e] d s
    unfolding merged_list_def by blast
  with False assms(4) Y show ?thesis by (auto simp: merged_at_def yaml_keeps_list)
qed

lemma merge_doc_carried:
  assumes Y: "yaml_keeps Y C" and d: "\<And>k v. map_of dst k = Some v \<Longrightarrow> C v" and s: "\<And>k v. map_of src k = Some v \<Longrightarrow> C v"
    and m: "map_of (merge_doc dst src) k = Some v"
  shows "C v"
proof -
  have cc: "C (VStr (as_string (map_of src k)))" if "as_string (map_of src k) \<noteq> ''''"
    using as_string_nonempty [OF that] s by metis
  have l: "merged_at dst src k = Some v \<Longrightarrow> C v"
    using merged_at_carried [OF Y, of dst src k v] d s by blast
  have null: "C (or_null (map_of src k))"
    using Y s by (auto simp: or_null_def yaml_keeps_def split: option.split)
  show ?thesis
    using m l cc null d [of k v] unfolding merge_doc_lookup by (auto split: if_splits)
qed

lemma remove_doc_carried:
  assumes Y: "yaml_keeps Y C" and d: "\<And>k v. map_of kc k = Some v \<Longrightarrow> C v"
    and m: "map_of (fst (remove_doc c kc)) k = Some v"
  shows "C v"
proof -
  have "C v" if "left_at c (map_of kc k) = Some v"
    using that as_list_carried [OF Y, of "map_of kc k"] d
    by (auto simp: left_at_def Let_def yaml_keeps_list [OF Y] split: if_splits)
  with m show ?thesis unfolding remove_doc_lookup by (auto split: if_splits intro: d)
qed

lemma Merge_decodes:
  assumes Y: "yaml_keeps Y C" and x: "existing \<noteq> ''''"
    and d: "ky_decode Y existing = Inr dst" and s: "ky_decode Y incoming = Inr src"
    and M: "Merge Y existing incoming = Inr out"
  obtains m where "out \<noteq> ''''" "ky_decode Y out = Inr (Some m)" "map_of m = map_of (merge_doc (nil_map dst) (nil_map src))"
proof -
  have r: "ky_render Y (merge_doc (nil_map dst) (nil_map src)) = Inr out"
    using M x d s by (auto simp: Merge_def split: sum.splits)
  have c: "C v" if "map_of (merge_doc (nil_map dst) (nil_map src)) k = Some v" for k v
    by (rule merge_doc_carried [OF Y _ _ that]) (auto intro: yaml_keeps_decode [OF Y d] yaml_keeps_decode [OF Y s])
  show ?thesis by (rule yaml_keeps_render [OF Y _ r]) (fact c, fact that)
qed

lemma Remove_decodes:
  assumes Y: "yaml_keeps Y C" and x: "existing \<noteq> ''''" and d: "ky_decode Y existing = Inr (Some kc)"
    and R: "Remove_context Y existing c = Inr (out, True)"
  obtains m where "out \<noteq> ''''" "ky_decode Y out = Inr (Some m)" "map_of m = map_of (fst (remove_doc c kc))"
proof -
  have r: "ky_render Y (fst (remove_doc c kc)) = Inr out"
    using R x d by (auto simp: Remove_context_def nil_map_def split: sum.splits prod.splits if_splits)
  have d': "\<And>k v. map_of kc k = Some v \<Longrightarrow> C v"
    using yaml_keeps_decode [OF Y d] by (simp add: nil_map_def)
  have c: "C v" if "map_of (fst (remove_doc c kc)) k = Some v" for k v
    by (rule remove_doc_carried [OF Y d' that])
  show ?thesis by (rule yaml_keeps_render [OF Y _ r]) (fact c, fact that)
qed

subsection \<open>Merging destroys nothing of another name\<close>

definition merge_touches :: "string set" where
  "merge_touches = set list_keys \<union> {''current-context'', ''apiVersion'', ''kind''}"

definition named_in :: "obj \<Rightarrow> string \<Rightarrow> string set" where
  "named_in src key = entryName ` set (as_list (map_of src key))"

lemma merged_list_foreign:
  "filter (\<lambda>e. entryName e \<notin> named_in src key) (merged_list dst src key) =
   filter (\<lambda>e. entryName e \<notin> named_in src key) (as_list (map_of dst key))"
  unfolding merged_list_def named_in_def by (rule upsert_foreign)

text \<open>
  C27. When a merge of an incoming kubeconfig into a non-empty existing one succeeds, the result
  decodes to a document in which every key the program does not know has the value it had, the
  entries of clusters, contexts and users whose names do not occur among the incoming ones are
  all there, unchanged and in their order, and every incoming entry is there when the incoming
  names are distinct; an incoming \<open>current-context\<close> is adopted, and \<open>apiVersion\<close> and \<open>kind\<close> are
  left alone when \<open>apiVersion\<close> was set.
\<close>

theorem Merge_preserves:
  assumes "yaml_keeps Y C" "existing \<noteq> ''''" "ky_decode Y existing = Inr dst" "ky_decode Y incoming = Inr (Some src)"
    "Merge Y existing incoming = Inr out"
  shows "\<exists>m. ky_decode Y out = Inr (Some m) \<and>
    (\<forall>k. k \<notin> merge_touches \<longrightarrow> map_of m k = map_of (nil_map dst) k) \<and>
    (\<forall>key \<in> set list_keys.
       filter (\<lambda>e. entryName e \<notin> named_in src key) (as_list (map_of m key)) =
         filter (\<lambda>e. entryName e \<notin> named_in src key) (as_list (map_of (nil_map dst) key)) \<and>
       (distinct (map entryName (as_list (map_of src key))) \<longrightarrow>
          set (as_list (map_of src key)) \<subseteq> set (as_list (map_of m key)))) \<and>
    (as_string (map_of src ''current-context'') \<noteq> '''' \<longrightarrow>
       map_of m ''current-context'' = map_of src ''current-context'') \<and>
    (as_string (map_of (nil_map dst) ''apiVersion'') \<noteq> '''' \<longrightarrow>
       map_of m ''apiVersion'' = map_of (nil_map dst) ''apiVersion'' \<and> map_of m ''kind'' = map_of (nil_map dst) ''kind'')"
proof -
  from Merge_decodes [OF assms] obtain m where dm: "ky_decode Y out = Inr (Some m)"
    and m: "map_of m = map_of (merge_doc (nil_map dst) src)" by (auto simp: nil_map_def)
  have l: "as_list (map_of m key) = merged_list (nil_map dst) src key" if "key \<in> set list_keys" for key
    unfolding m using that by (rule merged_as_list)
  have nk: "''current-context'' \<notin> set list_keys" "''apiVersion'' \<notin> set list_keys" "''kind'' \<notin> set list_keys"
    by (simp_all add: list_keys_def)
  have f: "map_of m k = map_of (nil_map dst) k" if "k \<notin> merge_touches" for k
    using that unfolding m merge_doc_lookup merge_touches_def by simp
  have s: "set (as_list (map_of src key)) \<subseteq> set (merged_list (nil_map dst) src key)"
    if "distinct (map entryName (as_list (map_of src key)))" for key
    using upsert_has [OF that] by (auto simp: merged_list_def)
  show ?thesis
    using as_string_nonempty [of "map_of src ''current-context''"]
    by (intro exI [of _ m] conjI ballI impI allI dm)
      (simp_all add: f l s merged_list_foreign, simp_all add: m merge_doc_lookup nk)
qed

subsection \<open>Removing undoes merging\<close>

definition installs_one :: "string \<Rightarrow> obj \<Rightarrow> bool" where
  "installs_one c src \<longleftrightarrow>
     (\<forall>key \<in> set list_keys. map entryName (as_list (map_of src key)) = [c]) \<and>
     as_string (map_of src ''current-context'') = c \<and> c \<noteq> ''''"

definition unknown_name :: "string \<Rightarrow> obj \<Rightarrow> bool" where
  "unknown_name c dst \<longleftrightarrow> (\<forall>key \<in> set list_keys. \<forall>e \<in> set (as_list (map_of dst key)). entryName e \<noteq> c)"

lemma upsert_new: "entryName e = c \<Longrightarrow> \<forall>d \<in> set ds. entryName d \<noteq> c \<Longrightarrow> upsert ds [e] entryName = ds @ [e]"
proof -
  assume "entryName e = c" "\<forall>d \<in> set ds. entryName d \<noteq> c"
  then have "replace_first (\<lambda>d. entryName d = entryName e) e ds = None" by (auto simp: replace_first_None)
  then show ?thesis by simp
qed

lemma left_after_merge:
  assumes "map entryName (as_list (map_of src key)) = [c]" "\<forall>e \<in> set (as_list (map_of dst key)). entryName e \<noteq> c"
  shows "left_at c (merged_at dst src key) =
      (if as_list (map_of dst key) = [] then None else Some (VArr (as_list (map_of dst key))))"
    and "drops_at c (merged_at dst src key)"
proof -
  obtain e where e: "as_list (map_of src key) = [e]" "entryName e = c" using assms(1) by auto
  have m: "merged_list dst src key = as_list (map_of dst key) @ [e]"
    unfolding merged_list_def e(1) by (rule upsert_new) (use e assms(2) in auto)
  have f: "filter (\<lambda>d. entryName d \<noteq> c) (as_list (map_of dst key)) = as_list (map_of dst key)"
    using assms(2) by (auto intro!: filter_True)
  show "left_at c (merged_at dst src key) =
      (if as_list (map_of dst key) = [] then None else Some (VArr (as_list (map_of dst key))))"
    "drops_at c (merged_at dst src key)"
    by (simp_all add: merged_at_def m left_at_def drops_at_def Let_def f e(2))
qed

lemma as_list_eq: "as_list v \<noteq> [] \<Longrightarrow> Some (VArr (as_list v)) = v"
  by (cases v rule: as_list.cases) auto

text \<open>
  C26. Removing a context undoes the merge that installed it: when the incoming document holds one
  cluster, one context and one user, all named \<open>c\<close>, with \<open>c\<close> current, and the existing one names
  \<open>c\<close> nowhere, then removing \<open>c\<close> from the merged text changes it, and the text it returns decodes
  to the existing document again: every other key as it was, \<open>apiVersion\<close> and \<open>kind\<close> when they
  were set, each of the three lists as it was (one that held nothing is absent), and
  \<open>current-context\<close> unset.
\<close>

theorem Remove_undoes_Merge:
  assumes "yaml_keeps Y C" "existing \<noteq> ''''" "ky_decode Y existing = Inr dst" "ky_decode Y incoming = Inr (Some src)"
    and one: "installs_one c src" and new: "unknown_name c (nil_map dst)"
    and M: "Merge Y existing incoming = Inr merged" and R: "Remove_context Y merged c = Inr (out, changed)"
  shows "changed \<and> (\<exists>m. ky_decode Y out = Inr (Some m) \<and>
    (\<forall>k. k \<notin> merge_touches \<longrightarrow> map_of m k = map_of (nil_map dst) k) \<and>
    (\<forall>key \<in> set list_keys. map_of m key =
       (if as_list (map_of (nil_map dst) key) = [] then None else map_of (nil_map dst) key)) \<and>
    map_of m ''current-context'' = None \<and>
    (as_string (map_of (nil_map dst) ''apiVersion'') \<noteq> '''' \<longrightarrow>
       map_of m ''apiVersion'' = map_of (nil_map dst) ''apiVersion'' \<and> map_of m ''kind'' = map_of (nil_map dst) ''kind''))"
proof -
  let ?d = "nil_map dst"
  from Merge_decodes [OF assms(1-4) M] obtain g where ne: "merged \<noteq> ''''" and dg: "ky_decode Y merged = Inr (Some g)"
    and g: "map_of g = map_of (merge_doc ?d src)" by (auto simp: nil_map_def)
  have nk: "''current-context'' \<notin> set list_keys" "''apiVersion'' \<notin> set list_keys" "''kind'' \<notin> set list_keys"
    by (simp_all add: list_keys_def)
  have cc: "as_string (map_of g ''current-context'') = c" "c \<noteq> ''''"
    using one by (auto simp: g merge_doc_lookup nk installs_one_def)
  have ch: "snd (remove_doc c g)" unfolding remove_doc_lookup cc by simp
  have changed: changed
    using R dg ne ch by (auto simp: Remove_context_def nil_map_def split: prod.splits if_splits sum.splits)
  from R changed have "Remove_context Y merged c = Inr (out, True)" by simp
  from Remove_decodes [OF assms(1) ne dg this] obtain m where dm: "ky_decode Y out = Inr (Some m)"
    and m: "map_of m = map_of (fst (remove_doc c g))" by blast
  have lk: "map_of m key = (if as_list (map_of ?d key) = [] then None else map_of ?d key)" if k: "key \<in> set list_keys" for key
  proof -
    have "map_of m key = left_at c (merged_at ?d src key)"
      using k by (simp add: m remove_doc_lookup g merge_doc_lookup)
    also have "\<dots> = (if as_list (map_of ?d key) = [] then None else Some (VArr (as_list (map_of ?d key))))"
      using one new k by (intro left_after_merge(1)) (auto simp: installs_one_def unknown_name_def)
    finally show ?thesis by (auto simp: as_list_eq)
  qed
  have f: "map_of m k = map_of ?d k" if "k \<notin> merge_touches" for k
    using that unfolding m remove_doc_lookup g merge_doc_lookup merge_touches_def by simp
  have c: "map_of m ''current-context'' = None"
    using cc by (simp add: m remove_doc_lookup nk)
  have a: "map_of m ''apiVersion'' = map_of ?d ''apiVersion'' \<and> map_of m ''kind'' = map_of ?d ''kind''"
    if "as_string (map_of ?d ''apiVersion'') \<noteq> ''''"
    using that by (simp add: m remove_doc_lookup g merge_doc_lookup nk)
  show ?thesis using changed dm lk f c a by blast
qed

subsection \<open>A concrete library\<close>

text \<open>A library that knows a table of texts and the documents they stand for.\<close>

definition same_obj :: "obj \<Rightarrow> obj \<Rightarrow> bool" where
  "same_obj m n \<longleftrightarrow> (\<forall>k \<in> set (map fst m @ map fst n). map_of m k = map_of n k)"

lemma same_obj_lookup: "same_obj m n \<Longrightarrow> map_of m = map_of n"
proof
  fix k assume "same_obj m n"
  then show "map_of m k = map_of n k"
    by (cases "k \<in> set (map fst m @ map fst n)") (auto simp: same_obj_def map_of_eq_None_iff [THEN iffD2])
qed

definition table_yaml :: "(string \<times> obj) list \<Rightarrow> (string \<times> kubeconfig) list \<Rightarrow> kube_yaml" where
  "table_yaml docs typed =
     \<lparr>ky_decode_typed = (\<lambda>s. case map_of typed s of None \<Rightarrow> Inl (Plain ''typed'') | Some k \<Rightarrow> Inr k),
      ky_render_typed = (\<lambda>k. case find (\<lambda>(s, j). j = k) typed of None \<Rightarrow> Inl (Plain ''typed'') | Some (s, _) \<Rightarrow> Inr s),
      ky_decode = (\<lambda>s. case map_of docs s of None \<Rightarrow> Inl (Plain ''yaml'') | Some m \<Rightarrow> Inr (Some m)),
      ky_render = (\<lambda>m. case find (\<lambda>(s, n). same_obj m n) docs of None \<Rightarrow> Inl (Plain ''yaml'') | Some (s, _) \<Rightarrow> Inr s)\<rparr>"

lemma table_yaml_keeps:
  assumes "distinct (map fst docs)" "'''' \<notin> fst ` set docs"
  shows "yaml_keeps (table_yaml docs typed) (\<lambda>_. True)"
proof -
  have "s \<noteq> '''' \<and> (\<exists>m'. ky_decode (table_yaml docs typed) s = Inr (Some m') \<and> map_of m' = map_of m)"
    if r: "ky_render (table_yaml docs typed) m = Inr s" for m s
  proof -
    from r obtain n where f: "find (\<lambda>(s, n). same_obj m n) docs = Some (s, n)"
      by (auto simp: table_yaml_def split: option.splits)
    then have "(s, n) \<in> set docs" "same_obj m n" by (auto simp: find_Some_iff) (metis nth_mem)
    with assms show ?thesis
      by (auto simp: table_yaml_def map_of_eq_Some_iff [OF assms(1), THEN iffD2] same_obj_lookup)
        (metis image_eqI fst_conv)
  qed
  then show ?thesis by (simp add: yaml_keeps_def list_all_iff)
qed

definition sample_entry :: "string \<Rightarrow> string \<Rightarrow> val" where
  "sample_entry kind name = VObj [(''name'', VStr name), (kind, VObj [])]"

definition sample_user_doc :: obj where
  "sample_user_doc =
     [(''apiVersion'', VStr ''v1''), (''kind'', VStr ''Config''), (''preferences'', VObj []),
      (''clusters'', VArr [sample_entry ''cluster'' ''prod'']), (''contexts'', VArr [sample_entry ''context'' ''prod'']),
      (''users'', VArr [sample_entry ''user'' ''admin'']), (''current-context'', VStr ''prod'')]"

definition sample_cube_doc :: obj where
  "sample_cube_doc =
     [(''apiVersion'', VStr ''v1''), (''kind'', VStr ''Config''),
      (''clusters'', VArr [sample_entry ''cluster'' ''cube/dev'']), (''contexts'', VArr [sample_entry ''context'' ''cube/dev'']),
      (''users'', VArr [sample_entry ''user'' ''cube/dev'']), (''current-context'', VStr ''cube/dev'')]"

definition sample_merged_doc :: obj where
  "sample_merged_doc =
     [(''apiVersion'', VStr ''v1''), (''kind'', VStr ''Config''), (''preferences'', VObj []),
      (''clusters'', VArr [sample_entry ''cluster'' ''prod'', sample_entry ''cluster'' ''cube/dev'']),
      (''contexts'', VArr [sample_entry ''context'' ''prod'', sample_entry ''context'' ''cube/dev'']),
      (''users'', VArr [sample_entry ''user'' ''admin'', sample_entry ''user'' ''cube/dev'']),
      (''current-context'', VStr ''cube/dev'')]"

definition sample_removed_doc :: obj where
  "sample_removed_doc = filter (\<lambda>(k, v). k \<noteq> ''current-context'') sample_user_doc"

definition sample_yaml :: kube_yaml where
  "sample_yaml = table_yaml [(''user'', sample_user_doc), (''cube'', sample_cube_doc),
     (''merged'', sample_merged_doc), (''removed'', sample_removed_doc)] []"

lemmas sample_yaml_defs = sample_yaml_def sample_user_doc_def sample_cube_doc_def sample_merged_doc_def
  sample_removed_doc_def sample_entry_def

lemma sample_yaml_keeps: "yaml_keeps sample_yaml (\<lambda>_. True)"
  unfolding sample_yaml_def by (rule table_yaml_keeps) simp_all

lemma sample_merge: "Merge sample_yaml ''user'' ''cube'' = Inr ''merged''" by code_simp

lemma sample_remove: "Remove_context sample_yaml ''merged'' ''cube/dev'' = Inr (''removed'', True)" by code_simp

lemma sample_decode:
  "ky_decode sample_yaml ''user'' = Inr (Some sample_user_doc)" "ky_decode sample_yaml ''cube'' = Inr (Some sample_cube_doc)"
  by (simp_all add: sample_yaml_def table_yaml_def)

lemma sample_preferences: "''preferences'' \<notin> merge_touches" "map_of (nil_map (Some sample_user_doc)) ''preferences'' = Some (VObj [])"
  by (simp_all add: merge_touches_def list_keys_def nil_map_def sample_user_doc_def)

lemma Merge_preserves_witness:
  "\<exists>m. ky_decode sample_yaml ''merged'' = Inr (Some m) \<and> map_of m ''preferences'' = Some (VObj [])"
  using Merge_preserves [OF sample_yaml_keeps _ sample_decode sample_merge]
  by (metis (lifting) sample_preferences Nil_is_append_conv list.distinct(1))

lemma Remove_undoes_Merge_witness:
  "\<exists>m. ky_decode sample_yaml ''removed'' = Inr (Some m) \<and> map_of m ''current-context'' = None"
proof -
  have "installs_one ''cube/dev'' sample_cube_doc" "unknown_name ''cube/dev'' (nil_map (Some sample_user_doc))"
    by (simp_all add: installs_one_def unknown_name_def nil_map_def list_keys_def sample_yaml_defs)
  from Remove_undoes_Merge [OF sample_yaml_keeps _ sample_decode this sample_merge sample_remove]
  show ?thesis by auto
qed

end
