(* ===== verification/Cluster.thy ===== *)
theory Cluster
  imports ClusterKubeconfig GoOS
begin

section \<open>The cluster domain (\<open>internal/cluster\<close>: cluster.go, errors.go, init.go, delete.go, status.go)\<close>

text \<open>
  A provisioner acts on a backend state \<open>'w\<close>; installing and removing the cube's kubeconfig
  context acts on the files. A driver's own delete acts on the files as well: a backend library
  may clean up kubeconfigs of its own accord. The contract that \<open>cluster.go\<close> states for every driver is the locale
  \<open>provisioner_contract\<close>, over a family of drivers; \<open>ClusterKind\<close> interprets it.
\<close>

subsection \<open>Errors\<close>

abbreviation CodeNoClusterConfigured :: code where "CodeNoClusterConfigured \<equiv> ''CUBE-CLU-001''"

definition NewNoClusterConfiguredError :: err where
  "NewNoClusterConfiguredError = wrap CodeNoClusterConfigured [] None"

abbreviation CodeUnsupportedProvider :: code where "CodeUnsupportedProvider \<equiv> ''CUBE-CLU-002''"

definition clusterUnsupportedProviderError :: "string \<Rightarrow> err" where
  "clusterUnsupportedProviderError p = wrap CodeUnsupportedProvider [p] None"

abbreviation CodeInvalidForProvider :: code where "CodeInvalidForProvider \<equiv> ''CUBE-CLU-003''"

definition NewInvalidForProviderError :: "err \<Rightarrow> err" where
  "NewInvalidForProviderError cause = wrap CodeInvalidForProvider [] (Some cause)"

abbreviation CodeProvisionFailed :: code where "CodeProvisionFailed \<equiv> ''CUBE-CLU-004''"

definition NewProvisionFailedError :: "string \<Rightarrow> string \<Rightarrow> err \<Rightarrow> err" where
  "NewProvisionFailedError action name cause = wrap CodeProvisionFailed [action, name] (Some cause)"

abbreviation CodeKubeconfigFailed :: code where "CodeKubeconfigFailed \<equiv> ''CUBE-CLU-005''"

definition NewKubeconfigFailedError :: "err \<Rightarrow> err" where
  "NewKubeconfigFailedError cause = wrap CodeKubeconfigFailed [] (Some cause)"

subsection \<open>The driver seam\<close>

text \<open>\<open>cluster.Spec\<close>; \<open>ForProvider\<close> is \<open>None\<close> for nil.\<close>

record provision_spec =
  vs_Name :: string
  vs_ForProvider :: "raw_ext option"

record 'w provisioner =
  pv_Ensure :: "provision_spec \<Rightarrow> 'w \<Rightarrow> err option \<times> 'w"
  pv_Exists :: "string \<Rightarrow> 'w \<Rightarrow> bool res \<times> 'w"
  pv_Delete :: "string \<Rightarrow> 'w \<times> fsys \<Rightarrow> err option \<times> 'w \<times> fsys"
  pv_Kubeconfig :: "string \<Rightarrow> 'w \<Rightarrow> string res \<times> 'w"

subsection \<open>The kubeconfig target\<close>

record kube_env =
  env_KUBECONFIG :: string
  env_home :: "string res"

definition defaultKubeconfigPath :: "kube_env \<Rightarrow> string res" where
  "defaultKubeconfigPath V =
     (case find (\<lambda>p. p \<noteq> '''') (split_on CHR '':'' (env_KUBECONFIG V)) of
        Some p \<Rightarrow> Inr p
      | None \<Rightarrow>
          (case env_home V of
             Inl e \<Rightarrow> Inl (Wrapf ''determine default kubeconfig location'' e)
           | Inr home \<Rightarrow> Inr (path_join (path_join home ''.kube'') ''config'')))"

definition writeKubeconfig :: "os_env \<Rightarrow> string \<Rightarrow> string \<Rightarrow> fsys \<Rightarrow> err option \<times> fsys" where
  "writeKubeconfig E path data fs =
     replace_file E False NewKubeconfigFailedError (''create kubeconfig dir for '' @ path) (''temp file for '' @ path)
       (''write kubeconfig '' @ path) path data fs"

definition mergeIntoDefault :: "kube_yaml \<Rightarrow> kube_env \<Rightarrow> os_env \<Rightarrow> string \<Rightarrow> fsys \<Rightarrow> err option \<times> fsys" where
  "mergeIntoDefault Y V E branded fs =
     (case defaultKubeconfigPath V of
        Inl e \<Rightarrow> (Some (NewKubeconfigFailedError e), fs)
      | Inr target \<Rightarrow>
          let r = read_file E target fs;
              existing = (case r of Inl e \<Rightarrow> '''' | Inr d \<Rightarrow> d)
          in case r of
               Inl e \<Rightarrow>
                 if e \<noteq> ErrNotExist then (Some (NewKubeconfigFailedError (Wrapf (''read kubeconfig '' @ target) e)), fs)
                 else (case Merge Y existing branded of
                     Inl e \<Rightarrow> (Some (NewKubeconfigFailedError (Wrapf (''merge into '' @ target) e)), fs)
                   | Inr merged \<Rightarrow> writeKubeconfig E target merged fs)
             | Inr d \<Rightarrow>
                 (case Merge Y existing branded of
                    Inl e \<Rightarrow> (Some (NewKubeconfigFailedError (Wrapf (''merge into '' @ target) e)), fs)
                  | Inr merged \<Rightarrow> writeKubeconfig E target merged fs))"

subsection \<open>Init, Delete and Status\<close>

record init_options =
  io_Spec :: provision_spec
  io_ContextName :: string
  io_Namespace :: string
  io_KubeconfigPath :: string

definition context_name :: "string \<Rightarrow> string \<Rightarrow> string" where
  "context_name ctx clusterName = (if ctx = '''' then ContextName clusterName else ctx)"

definition Init ::
  "kube_yaml \<Rightarrow> kube_env \<Rightarrow> os_env \<Rightarrow> 'w provisioner \<Rightarrow> init_options \<Rightarrow> 'w \<times> fsys \<Rightarrow> err option \<times> 'w \<times> fsys" where
  "Init Y V E P opts st =
     (case st of (w, fs) \<Rightarrow>
      case pv_Ensure P (io_Spec opts) w of
        (Some e, w1) \<Rightarrow> (Some e, w1, fs)
      | (None, w1) \<Rightarrow>
     (case pv_Kubeconfig P (vs_Name (io_Spec opts)) w1 of
        (Inl e, w2) \<Rightarrow>
          (Some (NewKubeconfigFailedError (Wrapf (''fetch kubeconfig for '' @ vs_Name (io_Spec opts)) e)), w2, fs)
      | (Inr raw, w2) \<Rightarrow>
          let name = context_name (io_ContextName opts) (vs_Name (io_Spec opts))
          in case Rebrand Y raw name (io_Namespace opts) of
               Inl e \<Rightarrow> (Some (NewKubeconfigFailedError (Wrapf (''rebrand kubeconfig as '' @ name) e)), w2, fs)
             | Inr branded \<Rightarrow>
                 (case (if io_KubeconfigPath opts \<noteq> '''' then writeKubeconfig E (io_KubeconfigPath opts) branded fs
                        else mergeIntoDefault Y V E branded fs) of
                    (r, fs') \<Rightarrow> (r, w2, fs'))))"

definition removeFromKubeconfig ::
  "kube_yaml \<Rightarrow> kube_env \<Rightarrow> os_env \<Rightarrow> string \<Rightarrow> string \<Rightarrow> fsys \<Rightarrow> (bool \<times> err option) \<times> fsys" where
  "removeFromKubeconfig Y V E path contextName fs =
     (case (if path = '''' then defaultKubeconfigPath V else Inr path) of
        Inl e \<Rightarrow> ((False, Some (NewKubeconfigFailedError e)), fs)
      | Inr path \<Rightarrow>
     (case read_file E path fs of
        Inl e \<Rightarrow>
          if e = ErrNotExist then ((False, None), fs)
          else ((False, Some (NewKubeconfigFailedError (Wrapf (''read kubeconfig '' @ path) e))), fs)
      | Inr existing \<Rightarrow>
     (case Remove_context Y existing contextName of
        Inl e \<Rightarrow>
          ((False, Some (NewKubeconfigFailedError (Wrapf (''remove context '' @ contextName @ '' from '' @ path) e))), fs)
      | Inr (cleaned, changed) \<Rightarrow>
          if \<not> changed then ((False, None), fs)
          else (case writeKubeconfig E path cleaned fs of (r, fs') \<Rightarrow> ((True, r), fs')))))"

record delete_options =
  do_Name :: string
  do_ContextName :: string
  do_KubeconfigPath :: string

definition Delete ::
  "kube_yaml \<Rightarrow> kube_env \<Rightarrow> os_env \<Rightarrow> 'w provisioner \<Rightarrow> delete_options \<Rightarrow> 'w \<times> fsys \<Rightarrow> (bool \<times> err option) \<times> 'w \<times> fsys" where
  "Delete Y V E P opts st =
     (case pv_Delete P (do_Name opts) st of
        (Some e, w1, fs) \<Rightarrow> ((False, Some e), w1, fs)
      | (None, w1, fs) \<Rightarrow>
          (case removeFromKubeconfig Y V E (do_KubeconfigPath opts) (context_name (do_ContextName opts) (do_Name opts)) fs of
             (r, fs') \<Rightarrow> (r, w1, fs')))"

type_synonym status_options = delete_options

record status_report =
  sr_ClusterExists :: bool
  sr_ContextInstalled :: bool
  sr_ContextName :: string
  sr_KubeconfigPath :: string

definition contextInstalled :: "kube_yaml \<Rightarrow> os_env \<Rightarrow> string \<Rightarrow> string \<Rightarrow> fsys \<Rightarrow> bool res" where
  "contextInstalled Y E path name fs =
     (case read_file E path fs of
        Inl e \<Rightarrow>
          if e = ErrNotExist then Inr False
          else Inl (NewKubeconfigFailedError (Wrapf (''read kubeconfig '' @ path) e))
      | Inr raw \<Rightarrow>
          (case ky_decode_typed Y raw of
             Inl e \<Rightarrow> Inl (NewKubeconfigFailedError (Wrapf (''parse kubeconfig '' @ path) e))
           | Inr kc \<Rightarrow> Inr (list_ex (\<lambda>c. ce_Name c = name) (kc_Contexts kc))))"

definition Status ::
  "kube_yaml \<Rightarrow> kube_env \<Rightarrow> os_env \<Rightarrow> 'w provisioner \<Rightarrow> status_options \<Rightarrow> 'w \<times> fsys \<Rightarrow> status_report res \<times> 'w \<times> fsys" where
  "Status Y V E P opts st =
     (case st of (w, fs) \<Rightarrow>
      case pv_Exists P (do_Name opts) w of
        (Inl e, w1) \<Rightarrow> (Inl e, w1, fs)
      | (Inr ex, w1) \<Rightarrow>
          let name = context_name (do_ContextName opts) (do_Name opts)
          in case (if do_KubeconfigPath opts = '''' then defaultKubeconfigPath V else Inr (do_KubeconfigPath opts)) of
               Inl e \<Rightarrow> (Inl (NewKubeconfigFailedError e), w1, fs)
             | Inr path \<Rightarrow>
                 (case contextInstalled Y E path name fs of
                    Inl e \<Rightarrow> (Inl e, w1, fs)
                  | Inr installed \<Rightarrow>
                      (Inr \<lparr>sr_ClusterExists = ex, sr_ContextInstalled = installed, sr_ContextName = name,
                         sr_KubeconfigPath = path\<rparr>, w1, fs)))"

subsection \<open>The driver contract\<close>

text \<open>
  What \<open>Provisioner\<close> promises, for every driver of a family: \<open>lawful p\<close> holds when the backend
  library behind the driver \<open>p\<close> behaves as documented.
\<close>

locale provisioner_contract =
  fixes driver :: "'p \<Rightarrow> 'w provisioner"
    and lawful :: "'p \<Rightarrow> bool"
  assumes ensured: "lawful p \<Longrightarrow> pv_Ensure (driver p) s w = (None, w1) \<Longrightarrow>
      pv_Exists (driver p) (vs_Name s) w1 = (Inr b, w2) \<Longrightarrow> b"
    and ensure_noop: "lawful p \<Longrightarrow> pv_Exists (driver p) (vs_Name s) w = (Inr True, w1) \<Longrightarrow>
      pv_Ensure (driver p) s w1 = (r, w2) \<Longrightarrow>
      fst (pv_Kubeconfig (driver p) (vs_Name s) w2) = fst (pv_Kubeconfig (driver p) (vs_Name s) w1)"
    and kubeconfig_keeps: "lawful p \<Longrightarrow> pv_Kubeconfig (driver p) n w = (Inr raw, w1) \<Longrightarrow>
      fst (pv_Exists (driver p) n w1) = fst (pv_Exists (driver p) n w)"
    and deleted: "lawful p \<Longrightarrow> pv_Delete (driver p) n (w, fs) = (None, w1, fs1) \<Longrightarrow>
      pv_Exists (driver p) n w1 = (Inr b, w2) \<Longrightarrow> \<not> b"
    and deleted_kubeconfig: "lawful p \<Longrightarrow> pv_Delete (driver p) n (w, fs) = (None, w1, fs1) \<Longrightarrow>
      \<exists>e w2. pv_Kubeconfig (driver p) n w1 = (Inl e, w2)"
begin

lemma Init_then_Status_exists:
  assumes "lawful p" and I: "Init Y V E (driver p) opts (w, fs) = (None, w', fs')"
    and S: "Status Y V E (driver p) sopts (w', fs') = (Inr r, w'', fs'')" and n: "do_Name sopts = vs_Name (io_Spec opts)"
  shows "sr_ClusterExists r"
proof -
  from I obtain w1 raw where 1: "pv_Ensure (driver p) (io_Spec opts) w = (None, w1)"
    and 2: "pv_Kubeconfig (driver p) (vs_Name (io_Spec opts)) w1 = (Inr raw, w')"
    by (auto simp: Init_def Let_def split: prod.splits option.splits sum.splits)
  from S obtain b w3 where 3: "pv_Exists (driver p) (do_Name sopts) w' = (Inr b, w3)" and r: "sr_ClusterExists r = b"
    by (auto simp: Status_def Let_def split: prod.splits sum.splits)
  obtain w4 where "pv_Exists (driver p) (vs_Name (io_Spec opts)) w1 = (Inr b, w4)"
    using kubeconfig_keeps [OF assms(1) 2] 3 unfolding n by (cases "pv_Exists (driver p) (vs_Name (io_Spec opts)) w1") auto
  from ensured [OF assms(1) 1 this] show ?thesis unfolding r .
qed

lemma Delete_then_Status_gone:
  assumes "lawful p" and D: "Delete Y V E (driver p) opts (w, fs) = ((ch, None), w', fs')"
    and S: "Status Y V E (driver p) sopts (w', fs') = (Inr r, w'', fs'')" and n: "do_Name sopts = do_Name opts"
  shows "\<not> sr_ClusterExists r"
proof -
  from D obtain fs1 where 1: "pv_Delete (driver p) (do_Name opts) (w, fs) = (None, w', fs1)"
    by (auto simp: Delete_def split: prod.splits option.splits)
  from S obtain b w3 where 3: "pv_Exists (driver p) (do_Name sopts) w' = (Inr b, w3)" and r: "sr_ClusterExists r = b"
    by (auto simp: Status_def Let_def split: prod.splits sum.splits)
  from deleted [OF assms(1) 1 3 [unfolded n]] show ?thesis unfolding r .
qed

end

subsection \<open>The files\<close>

text \<open>What a failed or a successful replacement of one file promises about all the others.\<close>

lemma writeKubeconfig_replaced:
  "fresh_temps E \<Longrightarrow> temp_apart E path \<Longrightarrow> replaced path data fs (writeKubeconfig E path data fs)"
  unfolding writeKubeconfig_def by (rule replace_file_replaced)

definition kube_target :: "kube_env \<Rightarrow> string \<Rightarrow> string res" where
  "kube_target V path = (if path = '''' then defaultKubeconfigPath V else Inr path)"

lemma mergeIntoDefault_cases:
  assumes "mergeIntoDefault Y V E branded fs = (r, fs')"
  shows "(\<exists>e. r = Some e \<and> err_code e = Some ''CUBE-CLU-005'' \<and> fs' = fs) \<or>
    (\<exists>target merged. defaultKubeconfigPath V = Inr target \<and> writeKubeconfig E target merged fs = (r, fs') \<and>
       Merge Y (case map_of (files fs) target of None \<Rightarrow> '''' | Some d \<Rightarrow> d) branded = Inr merged)"
  using assms
  by (auto simp: mergeIntoDefault_def Let_def NewKubeconfigFailedError_def read_file_def os_err_def ErrNotExist_def
      split: sum.splits if_splits option.splits)

lemma defaultKubeconfigPath_nonempty:
  "defaultKubeconfigPath V = Inr p \<Longrightarrow> p \<noteq> ''''"
  by (auto simp: defaultKubeconfigPath_def path_join_def find_Some_iff split: option.splits sum.splits if_splits)

lemma replaced_None: "replaced path data fs (None, fs') \<Longrightarrow> map_of (files fs') = (map_of (files fs))(path \<mapsto> data)"
  by (simp add: replaced_def)

lemma replaced_Some:
  "replaced path data fs (Some e, fs') \<Longrightarrow>
     \<exists>t. map_of (files fs) t = None \<and> (\<forall>p. p \<noteq> t \<longrightarrow> map_of (files fs') p = map_of (files fs) p)"
  by (auto simp: replaced_def)

lemma writeKubeconfig_code:
  "writeKubeconfig E path data fs = (Some e, fs') \<Longrightarrow> err_code e = Some ''CUBE-CLU-005''"
  unfolding writeKubeconfig_def
  by (drule arg_cong [where f = fst], unfold fst_conv, drule replace_file_code) (auto simp: NewKubeconfigFailedError_def)

definition unharmed :: "fsys \<Rightarrow> fsys \<Rightarrow> bool" where
  "unharmed fs fs' \<longleftrightarrow> (\<exists>t. map_of (files fs) t = None \<and> (\<forall>p. p \<noteq> t \<longrightarrow> map_of (files fs') p = map_of (files fs) p))"

lemma unharmed_cong: "map_of (files fs') = map_of (files fs) \<Longrightarrow> map_of (files fs) t = None \<Longrightarrow> unharmed fs fs'"
  by (auto simp: unharmed_def)

lemma unharmed_refl: "unharmed fs fs"
proof -
  have "finite (dom (map_of (files fs)))" by (rule finite_dom_map_of)
  then obtain t where "t \<notin> dom (map_of (files fs))"
    using ex_new_if_finite [OF infinite_UNIV_listI] by blast
  then show ?thesis by (auto intro: unharmed_cong)
qed

lemma writeKubeconfig_unharmed:
  "fresh_temps E \<Longrightarrow> temp_apart E path \<Longrightarrow> writeKubeconfig E path data fs = (Some e, fs') \<Longrightarrow> unharmed fs fs'"
  using writeKubeconfig_replaced [of E path data fs] unfolding unharmed_def by (auto intro: replaced_Some)

lemma writeKubeconfig_done:
  "fresh_temps E \<Longrightarrow> temp_apart E path \<Longrightarrow> writeKubeconfig E path data fs = (None, fs') \<Longrightarrow>
     map_of (files fs') = (map_of (files fs))(path \<mapsto> data)"
  using writeKubeconfig_replaced [of E path data fs] by (auto intro: replaced_None)

definition file_text :: "fsys \<Rightarrow> string \<Rightarrow> string" where
  "file_text fs p = (case map_of (files fs) p of None \<Rightarrow> '''' | Some d \<Rightarrow> d)"

lemma Init_cases:
  assumes I: "Init Y V E P opts (w, fs) = (r, w', fs')"
  obtains (early) e where "r = Some e" "fs' = fs"
      "err_code e = Some ''CUBE-CLU-005'' \<or> fst (pv_Ensure P (io_Spec opts) w) = Some e"
  | (written) target raw w1 branded data where "kube_target V (io_KubeconfigPath opts) = Inr target"
      "pv_Kubeconfig P (vs_Name (io_Spec opts)) w1 = (Inr raw, w')"
      "Rebrand Y raw (context_name (io_ContextName opts) (vs_Name (io_Spec opts))) (io_Namespace opts) = Inr branded"
      "if io_KubeconfigPath opts \<noteq> '''' then data = branded else Merge Y (file_text fs target) branded = Inr data"
      "writeKubeconfig E target data fs = (r, fs')"
proof -
  let ?n = "context_name (io_ContextName opts) (vs_Name (io_Spec opts))"
  obtain r1 w1 where 1: "pv_Ensure P (io_Spec opts) w = (r1, w1)" by fastforce
  obtain k w2 where 2: "pv_Kubeconfig P (vs_Name (io_Spec opts)) w1 = (k, w2)" by fastforce
  show thesis
  proof (cases "\<exists>raw branded. r1 = None \<and> k = Inr raw \<and> Rebrand Y raw ?n (io_Namespace opts) = Inr branded")
    case False
    then have "\<exists>e. r = Some e \<and> fs' = fs \<and> (err_code e = Some ''CUBE-CLU-005'' \<or> fst (pv_Ensure P (io_Spec opts) w) = Some e)"
      using I 1 2 by (auto simp: Init_def Let_def NewKubeconfigFailedError_def split: sum.splits option.splits)
    with early show thesis by blast
  next
    case True
    then obtain raw branded where k: "r1 = None" "k = Inr raw" "Rebrand Y raw ?n (io_Namespace opts) = Inr branded" by blast
    have w: "w' = w2" and f: "(if io_KubeconfigPath opts \<noteq> '''' then writeKubeconfig E (io_KubeconfigPath opts) branded fs
        else mergeIntoDefault Y V E branded fs) = (r, fs')"
      using I 1 2 k by (auto simp: Init_def Let_def split: prod.splits)
    show thesis
    proof (cases "io_KubeconfigPath opts = ''''")
      case True
      with f mergeIntoDefault_cases [of Y V E branded fs r fs'] show thesis
        using early written [OF _ 2 [unfolded k w [symmetric]] k(3)] by (auto simp: kube_target_def file_text_def)
    next
      case False
      with f show thesis
        by (intro written [OF _ 2 [unfolded k w [symmetric]] k(3)]) (auto simp: kube_target_def)
    qed
  qed
qed

text \<open>
  C28. Init changes one file or none. When it fails, every file but an unused temporary name is as
  it was, and the error is the driver's own or carries CUBE-CLU-005. When it succeeds, exactly the
  target changed: the driver's kubeconfig, rebranded to the context name of the options, written
  as it is to the path given, or merged into what the default path held.
\<close>

theorem Init_transaction:
  assumes t: "fresh_temps E" "\<And>target. kube_target V (io_KubeconfigPath opts) = Inr target \<Longrightarrow> temp_apart E target"
    and I: "Init Y V E P opts (w, fs) = (r, w', fs')"
  shows "case r of
      Some e \<Rightarrow> unharmed fs fs' \<and> (err_code e = Some ''CUBE-CLU-005'' \<or> fst (pv_Ensure P (io_Spec opts) w) = Some e)
    | None \<Rightarrow> \<exists>target raw w1 branded data.
        kube_target V (io_KubeconfigPath opts) = Inr target \<and>
        pv_Kubeconfig P (vs_Name (io_Spec opts)) w1 = (Inr raw, w') \<and>
        Rebrand Y raw (context_name (io_ContextName opts) (vs_Name (io_Spec opts))) (io_Namespace opts) = Inr branded \<and>
        (if io_KubeconfigPath opts \<noteq> '''' then data = branded
         else Merge Y (file_text fs target) branded = Inr data) \<and>
        map_of (files fs') = (map_of (files fs))(target \<mapsto> data)"
  using I
proof (cases rule: Init_cases)
  case (early e)
  then show ?thesis by (simp add: unharmed_refl)
next
  case (written target raw w1 branded data)
  note tgt = t(2) [OF written(1)]
  show ?thesis
  proof (cases r)
    case None
    with written(5) have "map_of (files fs') = (map_of (files fs))(target \<mapsto> data)"
      by (intro writeKubeconfig_done [OF t(1) tgt]) simp
    with written(1-4) show ?thesis unfolding None option.case by (intro exI conjI) assumption+
  next
    case (Some e)
    with written(5) writeKubeconfig_unharmed [OF t(1) tgt] writeKubeconfig_code show ?thesis by fastforce
  qed
qed

text \<open>
  On top of what the driver's own delete did to the files, Delete never removes or truncates a
  kubeconfig: it reports a change exactly when it set out to rewrite the target, with the text that
  removing the context from the file's content gives; it then changed that file alone, or failed
  with CUBE-CLU-005 and left every file but an unused temporary name as it was. In every other
  case it changed no file itself.
\<close>

theorem Delete_transaction:
  assumes t: "fresh_temps E" "\<And>target. kube_target V (do_KubeconfigPath opts) = Inr target \<Longrightarrow> temp_apart E target"
    and D: "Delete Y V E P opts (w, fs) = ((ch, r), w', fs')"
  shows "case pv_Delete P (do_Name opts) (w, fs) of (r1, w1, fs1) \<Rightarrow>
    if ch then \<exists>target existing cleaned.
        kube_target V (do_KubeconfigPath opts) = Inr target \<and> map_of (files fs1) target = Some existing \<and>
        Remove_context Y existing (context_name (do_ContextName opts) (do_Name opts)) = Inr (cleaned, True) \<and>
        (case r of
           None \<Rightarrow> map_of (files fs') = (map_of (files fs1))(target \<mapsto> cleaned)
         | Some e \<Rightarrow> err_code e = Some ''CUBE-CLU-005'' \<and> unharmed fs1 fs')
    else fs' = fs1 \<and> (\<forall>e. r = Some e \<longrightarrow> err_code e = Some ''CUBE-CLU-005'' \<or> r1 = Some e)"
proof -
  let ?n = "context_name (do_ContextName opts) (do_Name opts)"
  obtain r1 w1 fs1 where 1: "pv_Delete P (do_Name opts) (w, fs) = (r1, w1, fs1)" by (metis prod.exhaust)
  show ?thesis
  proof (cases r1)
    case (Some e)
    with D 1 show ?thesis by (auto simp: Delete_def)
  next
    case None
    with D 1 have R: "removeFromKubeconfig Y V E (do_KubeconfigPath opts) ?n fs1 = ((ch, r), fs')"
      by (auto simp: Delete_def split: prod.splits)
    have "(\<not> ch \<and> fs' = fs1 \<and> (\<forall>e. r = Some e \<longrightarrow> err_code e = Some ''CUBE-CLU-005'')) \<or>
      (ch \<and> (\<exists>target existing cleaned. kube_target V (do_KubeconfigPath opts) = Inr target \<and>
        read_file E target fs1 = Inr existing \<and> Remove_context Y existing ?n = Inr (cleaned, True) \<and>
        writeKubeconfig E target cleaned fs1 = (r, fs')))"
      using R unfolding removeFromKubeconfig_def kube_target_def [symmetric]
      by (auto simp: NewKubeconfigFailedError_def split: sum.splits if_splits prod.splits)
    then show ?thesis
    proof (elim disjE conjE exE)
      fix target existing cleaned
      assume c: ch and a: "kube_target V (do_KubeconfigPath opts) = Inr target" "read_file E target fs1 = Inr existing"
        "Remove_context Y existing ?n = Inr (cleaned, True)" "writeKubeconfig E target cleaned fs1 = (r, fs')"
      have "map_of (files fs1) target = Some existing"
        using a(2) by (auto simp: read_file_def split: if_splits option.splits)
      moreover have "case r of None \<Rightarrow> map_of (files fs') = (map_of (files fs1))(target \<mapsto> cleaned)
         | Some e \<Rightarrow> err_code e = Some ''CUBE-CLU-005'' \<and> unharmed fs1 fs'"
        using a(4) writeKubeconfig_done [OF t(1) t(2) [OF a(1)], of cleaned fs1 fs']
          writeKubeconfig_unharmed [OF t(1) t(2) [OF a(1)], of cleaned fs1 _ fs'] writeKubeconfig_code [of E target cleaned fs1 _ fs']
        by (auto split: option.split)
      ultimately show ?thesis using c a 1 by auto
    qed (use 1 in auto)
  qed
qed

subsection \<open>Deleting twice\<close>

lemma left_drops_nothing: "\<not> drops_at c (left_at c v)"
  by (auto simp: drops_at_def left_at_def Let_def)

lemma remove_doc_again:
  assumes "map_of m = map_of (fst (remove_doc c kc))" "c \<noteq> ''''"
  shows "\<not> snd (remove_doc c m)"
proof -
  have "''current-context'' \<notin> set list_keys" by (simp add: list_keys_def)
  then have "as_string (map_of m ''current-context'') \<noteq> c"
    using assms by (simp add: remove_doc_lookup)
  moreover have "\<not> drops_at c (map_of m key)" if "key \<in> set list_keys" for key
    using that assms(1) by (simp add: remove_doc_lookup left_drops_nothing)
  ultimately show ?thesis by (simp add: remove_doc_lookup(2))
qed

lemma Remove_again:
  assumes "yaml_keeps Y C" "Remove_context Y existing c = Inr (cleaned, True)" "c \<noteq> ''''"
  shows "Remove_context Y cleaned c = Inr (cleaned, False)"
proof -
  have x: "existing \<noteq> ''''" using assms(2) by (auto simp: Remove_context_def)
  obtain d where d: "ky_decode Y existing = Inr d"
    using assms(2) x by (auto simp: Remove_context_def split: sum.splits)
  have "\<exists>kc. d = Some kc"
  proof (cases d)
    case None
    have "\<not> snd (remove_doc c [])" using assms(3) by (simp add: remove_doc_lookup(2) drops_at_def)
    with None assms(2) x d show ?thesis
      by (auto simp: Remove_context_def nil_map_def split: sum.splits prod.splits if_splits)
  qed blast
  then obtain kc where "d = Some kc" ..
  from Remove_decodes [OF assms(1) x d [unfolded this] assms(2)] obtain m where
    m: "cleaned \<noteq> ''''" "ky_decode Y cleaned = Inr (Some m)" "map_of m = map_of (fst (remove_doc c kc))" .
  from remove_doc_again [OF m(3) assms(3)] m(1,2) show ?thesis
    by (auto simp: Remove_context_def nil_map_def split: prod.splits)
qed

lemma removeFromKubeconfig_again:
  assumes t: "fresh_temps E" "\<And>target. kube_target V path = Inr target \<Longrightarrow> temp_apart E target"
    and "yaml_keeps Y C" "c \<noteq> ''''" and R: "removeFromKubeconfig Y V E path c fs = ((ch, None), fs')"
  shows "removeFromKubeconfig Y V E path c fs' = ((False, None), fs')"
proof (cases ch)
  case False
  with R show ?thesis
    by (auto simp: removeFromKubeconfig_def split: sum.splits if_splits prod.splits)
next
  case True
  then obtain target existing cleaned where a: "kube_target V path = Inr target" "read_file E target fs = Inr existing"
      "Remove_context Y existing c = Inr (cleaned, True)" "writeKubeconfig E target cleaned fs = (None, fs')"
    using R unfolding removeFromKubeconfig_def kube_target_def [symmetric]
    by (auto split: sum.splits if_splits prod.splits)
  have "\<not> call_fails E ''read'' target" using a(2) by (auto simp: read_file_def split: if_splits)
  then have "read_file E target fs' = Inr cleaned"
    using writeKubeconfig_done [OF t(1) t(2) [OF a(1)] a(4)] by (simp add: read_file_def)
  moreover have "Remove_context Y cleaned c = Inr (cleaned, False)"
    by (rule Remove_again) (use assms(3,4) a(3) in auto)
  ultimately show ?thesis
    using a(1) by (simp add: removeFromKubeconfig_def kube_target_def)
qed

lemma context_name_nonempty: "context_name ctx n \<noteq> ''''"
  by (simp add: context_name_def ContextName_def api_group_def)

text \<open>
  Deleting twice: once a delete returned without an error, running it again with the same
  options, where the driver leaves the files alone this time, changes no kubeconfig, reports none
  changed, and can fail only with the driver's error.
\<close>

theorem Delete_twice:
  assumes "fresh_temps E" "\<And>target. kube_target V (do_KubeconfigPath opts) = Inr target \<Longrightarrow> temp_apart E target"
    and "yaml_keeps Y C" and D: "Delete Y V E P opts (w, fs) = ((ch, None), w', fs')"
    and D2: "Delete Y V E P opts (w', fs') = ((ch2, r2), w'', fs'')"
    and same: "snd (snd (pv_Delete P (do_Name opts) (w', fs'))) = fs'"
  shows "\<not> ch2 \<and> fs'' = fs' \<and> r2 = fst (pv_Delete P (do_Name opts) (w', fs'))"
proof -
  let ?n = "context_name (do_ContextName opts) (do_Name opts)"
  from D obtain fs1 where "removeFromKubeconfig Y V E (do_KubeconfigPath opts) ?n fs1 = ((ch, None), fs')"
    by (auto simp: Delete_def split: prod.splits option.splits)
  from removeFromKubeconfig_again [OF assms(1) assms(2) assms(3) context_name_nonempty this]
  have "removeFromKubeconfig Y V E (do_KubeconfigPath opts) ?n fs' = ((False, None), fs')" by simp
  with D2 same show ?thesis by (auto simp: Delete_def split: prod.splits option.splits)
qed

end
