(* ===== verification/ClusterKind.thy ===== *)
theory ClusterKind
  imports Cluster
begin

section \<open>The kind driver (\<open>internal/cluster/kind/kind.go\<close>)\<close>

text \<open>
  The kind library and the two temporary-directory calls of \<open>os\<close> are the record \<open>kind_lib\<close>: a
  handle \<open>'h\<close> on a detected container runtime, and a host state \<open>'k\<close>, which also holds the
  temporary directory a create exports its kubeconfig to. A delete that is given no kubeconfig
  path cleans up the user's own kubeconfigs, so it acts on the files too. The driver's own state is
  the cached result of the runtime detection. Its laws are the library's documented behaviour;
  under them the driver keeps the contract of \<open>Cluster\<close>.
\<close>

record port_mapping =
  pm_ContainerPort :: int
  pm_HostPort :: int
  pm_Protocol :: string

record kind_node =
  kn_Role :: string
  kn_Labels :: "(string, string) gomap"
  kn_ExtraPortMappings :: "port_mapping list"

text \<open>Of \<open>v1alpha4.Cluster\<close>, the fields the driver sets; the others are kept as they decode.\<close>

record kind_cluster =
  kk_Name :: string
  kk_Nodes :: "kind_node list"
  kk_Other :: raw_ext

record ('h, 'k) kind_lib =
  kl_Detect :: "'k \<Rightarrow> 'h res"
  kl_List :: "'h \<Rightarrow> 'k \<Rightarrow> string list res"
  kl_Create :: "'h \<Rightarrow> string \<Rightarrow> kind_cluster \<Rightarrow> string \<Rightarrow> 'k \<Rightarrow> err option \<times> 'k"
  kl_Delete :: "'h \<Rightarrow> string \<Rightarrow> string \<Rightarrow> 'k \<times> fsys \<Rightarrow> err option \<times> 'k \<times> fsys"
  kl_KubeConfig :: "'h \<Rightarrow> string \<Rightarrow> bool \<Rightarrow> 'k \<Rightarrow> string res"
  kl_UnmarshalStrict :: "raw_ext \<Rightarrow> kind_cluster res"
  kl_MkdirTemp :: "string \<Rightarrow> 'k \<Rightarrow> (string \<times> 'k) res"
  kl_RemoveAll :: "string \<Rightarrow> 'k \<Rightarrow> 'k"

text \<open>The state: what \<open>sync.OnceValues\<close> cached, and the host.\<close>

type_synonym ('h, 'k) kind_state = "'h res option \<times> 'k"

definition kp :: "('h, 'k) kind_lib \<Rightarrow> ('h, 'k) kind_state \<Rightarrow> 'h res \<times> ('h, 'k) kind_state" where
  "kp L st =
     (case st of (cache, k) \<Rightarrow>
      case cache of
        Some r \<Rightarrow> (r, st)
      | None \<Rightarrow>
          let r = (case kl_Detect L k of
                     Inl e \<Rightarrow> Inl (Wrapf ''detect container runtime for kind'' e)
                   | Inr h \<Rightarrow> Inr h)
          in (r, (Some r, k)))"

definition hasForProvider :: "provision_spec \<Rightarrow> bool" where
  "hasForProvider s = (case vs_ForProvider s of None \<Rightarrow> False | Some raw \<Rightarrow> length raw > 0)"

definition zero_cluster :: kind_cluster where
  "zero_cluster = \<lparr>kk_Name = '''', kk_Nodes = [], kk_Other = ''''\<rparr>"

definition decodeForProvider :: "('h, 'k) kind_lib \<Rightarrow> provision_spec \<Rightarrow> kind_cluster res" where
  "decodeForProvider L s =
     (if hasForProvider s then
        (case kl_UnmarshalStrict L (the (vs_ForProvider s)) of
           Inl e \<Rightarrow> Inl (NewInvalidForProviderError (Wrapf ''decode forProvider as kind.x-k8s.io/v1alpha4 Cluster'' e))
         | Inr cfg \<Rightarrow> Inr cfg)
      else Inr zero_cluster)"

definition defaultClusterConfig :: kind_cluster where
  "defaultClusterConfig = zero_cluster\<lparr>kk_Nodes :=
     [\<lparr>kn_Role = ''control-plane'', kn_Labels = [(''ingress-ready'', ''true'')],
       kn_ExtraPortMappings =
         [\<lparr>pm_ContainerPort = 80, pm_HostPort = 8080, pm_Protocol = ''TCP''\<rparr>,
          \<lparr>pm_ContainerPort = 443, pm_HostPort = 8443, pm_Protocol = ''TCP''\<rparr>]\<rparr>]\<rparr>"

definition clusterConfig :: "('h, 'k) kind_lib \<Rightarrow> provision_spec \<Rightarrow> kind_cluster res" where
  "clusterConfig L s = (if \<not> hasForProvider s then Inr defaultClusterConfig else decodeForProvider L s)"

definition ValidateSpec :: "('h, 'k) kind_lib \<Rightarrow> provision_spec \<Rightarrow> err option" where
  "ValidateSpec L s = (case decodeForProvider L s of Inl e \<Rightarrow> Some e | Inr _ \<Rightarrow> None)"

definition kind_Exists :: "('h, 'k) kind_lib \<Rightarrow> string \<Rightarrow> ('h, 'k) kind_state \<Rightarrow> bool res \<times> ('h, 'k) kind_state" where
  "kind_Exists L name st =
     (case kp L st of
        (Inl e, st1) \<Rightarrow> (Inl (NewProvisionFailedError ''list'' name e), st1)
      | (Inr h, st1) \<Rightarrow>
          (case kl_List L h (snd st1) of
             Inl e \<Rightarrow> (Inl (NewProvisionFailedError ''list'' name e), st1)
           | Inr names \<Rightarrow> (Inr (name \<in> set names), st1)))"

definition kind_create :: "('h, 'k) kind_lib \<Rightarrow> 'h \<Rightarrow> string \<Rightarrow> kind_cluster \<Rightarrow> 'k \<Rightarrow> err option \<times> 'k" where
  "kind_create L h name cfg k =
     (case kl_MkdirTemp L ''cube-idp-kind-*'' k of
        Inl e \<Rightarrow> (Some (NewProvisionFailedError ''create'' name (Wrapf ''temp kubeconfig dir'' e)), k)
      | Inr (tmp, k1) \<Rightarrow>
          (case kl_Create L h name cfg (path_join tmp ''kubeconfig'') k1 of
             (Some e, k2) \<Rightarrow> (Some (NewProvisionFailedError ''create'' name e), kl_RemoveAll L tmp k2)
           | (None, k2) \<Rightarrow> (None, kl_RemoveAll L tmp k2)))"

definition kind_Ensure :: "('h, 'k) kind_lib \<Rightarrow> provision_spec \<Rightarrow> ('h, 'k) kind_state \<Rightarrow> err option \<times> ('h, 'k) kind_state" where
  "kind_Ensure L s st =
     (case clusterConfig L s of
        Inl e \<Rightarrow> (Some e, st)
      | Inr cfg \<Rightarrow>
     (case kind_Exists L (vs_Name s) st of
        (Inl e, st1) \<Rightarrow> (Some e, st1)
      | (Inr exists, st1) \<Rightarrow>
          if exists then (None, st1)
          else (case kp L st1 of
               (Inl e, st2) \<Rightarrow> (Some (NewProvisionFailedError ''create'' (vs_Name s) e), st2)
             | (Inr h, st2) \<Rightarrow>
                 (case kind_create L h (vs_Name s) (cfg\<lparr>kk_Name := vs_Name s\<rparr>) (snd st2) of
                    (r, k) \<Rightarrow> (r, (fst st2, k))))))"

definition kind_Delete ::
  "('h, 'k) kind_lib \<Rightarrow> string \<Rightarrow> ('h, 'k) kind_state \<times> fsys \<Rightarrow> err option \<times> ('h, 'k) kind_state \<times> fsys" where
  "kind_Delete L name s =
     (case s of (st, fs) \<Rightarrow>
      case kp L st of
        (Inl e, st1) \<Rightarrow> (Some (NewProvisionFailedError ''delete'' name e), st1, fs)
      | (Inr h, st1) \<Rightarrow>
          (case kl_Delete L h name '''' (snd st1, fs) of
             (Some e, k, fs') \<Rightarrow> (Some (NewProvisionFailedError ''delete'' name e), (fst st1, k), fs')
           | (None, k, fs') \<Rightarrow> (None, (fst st1, k), fs')))"

definition kind_Kubeconfig :: "('h, 'k) kind_lib \<Rightarrow> string \<Rightarrow> ('h, 'k) kind_state \<Rightarrow> string res \<times> ('h, 'k) kind_state" where
  "kind_Kubeconfig L name st =
     (case kp L st of
        (Inl e, st1) \<Rightarrow> (Inl (Wrapf (''kind kubeconfig for '' @ name) e), st1)
      | (Inr h, st1) \<Rightarrow>
          (case kl_KubeConfig L h name False (snd st1) of
             Inl e \<Rightarrow> (Inl (Wrapf (''kind kubeconfig for '' @ name) e), st1)
           | Inr kc \<Rightarrow> (Inr kc, st1)))"

definition kind_provisioner :: "('h, 'k) kind_lib \<Rightarrow> ('h, 'k) kind_state provisioner" where
  "kind_provisioner L =
     \<lparr>pv_Ensure = kind_Ensure L, pv_Exists = kind_Exists L, pv_Delete = kind_Delete L,
      pv_Kubeconfig = kind_Kubeconfig L\<rparr>"

subsection \<open>The library's documented behaviour\<close>

text \<open>
  A created cluster is listed, a deleted one is not and has no kubeconfig; temporary directories
  do not change the clusters.
\<close>

definition kind_laws :: "('h, 'k) kind_lib \<Rightarrow> bool" where
  "kind_laws L \<longleftrightarrow>
     (\<forall>h n c p k k'. kl_Create L h n c p k = (None, k') \<longrightarrow> (\<forall>ns. kl_List L h k' = Inr ns \<longrightarrow> n \<in> set ns)) \<and>
     (\<forall>h n p k fs k' fs'. kl_Delete L h n p (k, fs) = (None, k', fs') \<longrightarrow>
        (\<forall>ns. kl_List L h k' = Inr ns \<longrightarrow> n \<notin> set ns) \<and> (\<exists>e. kl_KubeConfig L h n False k' = Inl e)) \<and>
     (\<forall>h t k. kl_List L h (kl_RemoveAll L t k) = kl_List L h k)"

text \<open>
  The kubeconfigs a delete cleans up: the one of the explicit path, else those of \<open>KUBECONFIG\<close>, else
  the one of the home directory, where there is one to be found. No other file that exists is
  touched, whatever the call returns.
\<close>

definition kind_kubeconfig :: "kube_env \<Rightarrow> string \<Rightarrow> string \<Rightarrow> bool" where
  "kind_kubeconfig V explicit p \<longleftrightarrow>
     (if explicit \<noteq> '''' then p = explicit
      else let ps = filter (\<lambda>q. q \<noteq> '''') (split_on CHR '':'' (env_KUBECONFIG V))
           in if ps \<noteq> [] then p \<in> set ps
              else (case env_home V of Inl e \<Rightarrow> True | Inr home \<Rightarrow> p = path_join (path_join home ''.kube'') ''config''))"

definition kind_deletes_own :: "kube_env \<Rightarrow> ('h, 'k) kind_lib \<Rightarrow> bool" where
  "kind_deletes_own V L \<longleftrightarrow>
     (\<forall>h n p k fs r k' fs' q d. kl_Delete L h n p (k, fs) = (r, k', fs') \<longrightarrow>
        map_of (files fs) q = Some d \<longrightarrow> \<not> kind_kubeconfig V p q \<longrightarrow> map_of (files fs') q = Some d)"

lemma kind_Delete_files:
  assumes "kind_deletes_own V L" "kind_Delete L n (w, fs) = (r, w', fs')" "map_of (files fs) q = Some d"
    and "\<not> kind_kubeconfig V '''' q"
  shows "map_of (files fs') q = Some d"
  using assms unfolding kind_Delete_def kind_deletes_own_def
  by (auto split: prod.splits sum.splits option.splits)

lemma kp_cached: "kp L st = (r, st1) \<Longrightarrow> kp L st1 = (r, st1) \<and> fst st1 = Some r \<and> snd st1 = snd st"
  by (auto simp: kp_def Let_def split: prod.splits option.splits)

lemma kp_of_cache: "fst st = Some r \<Longrightarrow> kp L st = (r, st)"
  by (auto simp: kp_def split: prod.split)

lemma kind_Exists_Inr:
  "kind_Exists L n st = (Inr b, st1) \<longleftrightarrow>
     (\<exists>h ns. kp L st = (Inr h, st1) \<and> kl_List L h (snd st1) = Inr ns \<and> b = (n \<in> set ns))"
  by (auto simp: kind_Exists_def split: prod.splits sum.splits)

text \<open>Once the detection succeeded, the cache holds the handle for good.\<close>

lemma kind_Exists_again:
  assumes "fst st = Some (Inr h)"
  shows "kind_Exists L n st = (case kl_List L h (snd st) of
      Inl e \<Rightarrow> (Inl (NewProvisionFailedError ''list'' n e), st) | Inr ns \<Rightarrow> (Inr (n \<in> set ns), st))"
  using kp_of_cache [OF assms, of L] by (simp add: kind_Exists_def split: sum.split)

lemma kind_create_listed:
  assumes "kind_laws L" "kind_create L h n cfg k = (None, k')" "kl_List L h k' = Inr ns"
  shows "n \<in> set ns"
  using assms unfolding kind_laws_def kind_create_def
  by (auto split: sum.splits prod.splits option.splits)

lemma kind_ensured:
  assumes "kind_laws L" "kind_Ensure L s w = (None, w1)" "kind_Exists L (vs_Name s) w1 = (Inr b, w2)"
  shows b
proof -
  from assms(2) obtain cfg ex st1 where c: "clusterConfig L s = Inr cfg"
    and x: "kind_Exists L (vs_Name s) w = (Inr ex, st1)"
    by (auto simp: kind_Ensure_def split: sum.splits prod.splits)
  from x obtain h ns where h: "kp L w = (Inr h, st1)" "kl_List L h (snd st1) = Inr ns" "ex = (vs_Name s \<in> set ns)"
    unfolding kind_Exists_Inr by blast
  have cache: "fst st1 = Some (Inr h)" "kp L st1 = (Inr h, st1)" using kp_cached [OF h(1)] by auto
  show ?thesis
  proof (cases ex)
    case True
    with assms(2) c x have "w1 = st1" by (simp add: kind_Ensure_def)
    with assms(3) h True kind_Exists_again [OF cache(1), of L] show ?thesis by simp
  next
    case False
    with assms(2) c x cache obtain k where k: "kind_create L h (vs_Name s) (cfg\<lparr>kk_Name := vs_Name s\<rparr>) (snd st1) = (None, k)"
      and w1: "w1 = (fst st1, k)" by (auto simp: kind_Ensure_def split: prod.splits)
    have "fst w1 = Some (Inr h)" using w1 cache by simp
    from kind_Exists_again [OF this, of L "vs_Name s"] assms(3) obtain ms where "kl_List L h k = Inr ms" "b = (vs_Name s \<in> set ms)"
      by (auto simp: w1 split: sum.splits)
    with kind_create_listed [OF assms(1) k] show ?thesis by blast
  qed
qed

lemma kind_Kubeconfig_state:
  "kind_Kubeconfig L n st = (Inr raw, st1) \<Longrightarrow> \<exists>h. kp L st = (Inr h, st1)"
  by (auto simp: kind_Kubeconfig_def split: prod.splits sum.splits)

lemma kind_deleted:
  assumes "kind_laws L" "kind_Delete L n (w, fs) = (None, w1, fs1)"
  obtains h where "fst w1 = Some (Inr h)" "\<And>ns. kl_List L h (snd w1) = Inr ns \<Longrightarrow> n \<notin> set ns"
    "\<exists>e. kl_KubeConfig L h n False (snd w1) = Inl e"
proof -
  from assms(2) obtain h st1 k where 1: "kp L w = (Inr h, st1)" "kl_Delete L h n '''' (snd st1, fs) = (None, k, fs1)" "w1 = (fst st1, k)"
    by (auto simp: kind_Delete_def split: prod.splits sum.splits option.splits)
  have l: "(\<forall>ns. kl_List L h k = Inr ns \<longrightarrow> n \<notin> set ns) \<and> (\<exists>e. kl_KubeConfig L h n False k = Inl e)"
    using assms(1) 1(2) unfolding kind_laws_def by blast
  show thesis using that [of h] kp_cached [OF 1(1)] 1(3) l by auto
qed

interpretation kind: provisioner_contract kind_provisioner kind_laws
proof unfold_locales
  fix L :: "('h, 'k) kind_lib" and s w w1 b w2
  assume "kind_laws L" "pv_Ensure (kind_provisioner L) s w = (None, w1)"
    "pv_Exists (kind_provisioner L) (vs_Name s) w1 = (Inr b, w2)"
  then show b using kind_ensured by (fastforce simp: kind_provisioner_def)
next
  fix L :: "('h, 'k) kind_lib" and s w w1 r w2
  assume "kind_laws L" and x: "pv_Exists (kind_provisioner L) (vs_Name s) w = (Inr True, w1)"
    and e: "pv_Ensure (kind_provisioner L) s w1 = (r, w2)"
  from x obtain h ns where h: "kp L w = (Inr h, w1)" "kl_List L h (snd w1) = Inr ns" "vs_Name s \<in> set ns"
    by (auto simp: kind_provisioner_def kind_Exists_Inr)
  have "kind_Exists L (vs_Name s) w1 = (Inr True, w1)"
    using h kind_Exists_again [of w1 h L "vs_Name s"] kp_cached [OF h(1)] by simp
  with e have "w2 = w1" by (auto simp: kind_provisioner_def kind_Ensure_def split: sum.splits)
  then show "fst (pv_Kubeconfig (kind_provisioner L) (vs_Name s) w2) = fst (pv_Kubeconfig (kind_provisioner L) (vs_Name s) w1)"
    by simp
next
  fix L :: "('h, 'k) kind_lib" and n w raw w1
  assume "kind_laws L" "pv_Kubeconfig (kind_provisioner L) n w = (Inr raw, w1)"
  then obtain h where h: "kp L w = (Inr h, w1)" using kind_Kubeconfig_state by (fastforce simp: kind_provisioner_def)
  then show "fst (pv_Exists (kind_provisioner L) n w1) = fst (pv_Exists (kind_provisioner L) n w)"
    using kp_cached [OF h] by (simp add: kind_provisioner_def kind_Exists_def)
next
  fix L :: "('h, 'k) kind_lib" and n w fs w1 fs1 b w2
  assume l: "kind_laws L" and d: "pv_Delete (kind_provisioner L) n (w, fs) = (None, w1, fs1)"
    and x: "pv_Exists (kind_provisioner L) n w1 = (Inr b, w2)"
  from d have "kind_Delete L n (w, fs) = (None, w1, fs1)" by (simp add: kind_provisioner_def)
  from kind_deleted [OF l this] obtain h where "fst w1 = Some (Inr h)"
    "\<And>ns. kl_List L h (snd w1) = Inr ns \<Longrightarrow> n \<notin> set ns" by blast
  with x kind_Exists_again [of w1 h L n] show "\<not> b"
    by (auto simp: kind_provisioner_def split: sum.splits)
next
  fix L :: "('h, 'k) kind_lib" and n w fs w1 fs1
  assume l: "kind_laws L" and d: "pv_Delete (kind_provisioner L) n (w, fs) = (None, w1, fs1)"
  from d have "kind_Delete L n (w, fs) = (None, w1, fs1)" by (simp add: kind_provisioner_def)
  from kind_deleted [OF l this] obtain h where "fst w1 = Some (Inr h)"
    "\<exists>e. kl_KubeConfig L h n False (snd w1) = Inl e" by blast
  then show "\<exists>e w2. pv_Kubeconfig (kind_provisioner L) n w1 = (Inl e, w2)"
    using kp_of_cache [of w1 "Inr h" L] by (auto simp: kind_provisioner_def kind_Kubeconfig_def)
qed

subsection \<open>Create, then status; delete, then status\<close>

text \<open>A rendered typed kubeconfig decodes to one with the same contexts by name.\<close>

definition typed_keeps :: "kube_yaml \<Rightarrow> bool" where
  "typed_keeps Y \<longleftrightarrow> (\<forall>kc s kc'. ky_render_typed Y kc = Inr s \<longrightarrow> ky_decode_typed Y s = Inr kc' \<longrightarrow>
     map ce_Name (kc_Contexts kc') = map ce_Name (kc_Contexts kc))"

lemma Rebrand_names:
  assumes "typed_keeps Y" "Rebrand Y raw name ns = Inr branded" "ky_decode_typed Y branded = Inr kc"
  shows "map ce_Name (kc_Contexts kc) = [name]"
proof -
  from assms(2) obtain k where "ky_render_typed Y k = Inr branded" "map ce_Name (kc_Contexts k) = [name]"
    by (auto simp: Rebrand_def Let_def split: sum.splits list.splits)
  with assms(1,3) show ?thesis unfolding typed_keeps_def by metis
qed

definition options_of :: "init_options \<Rightarrow> delete_options" where
  "options_of opts = \<lparr>do_Name = vs_Name (io_Spec opts), do_ContextName = io_ContextName opts,
     do_KubeconfigPath = io_KubeconfigPath opts\<rparr>"

lemma Status_cases:
  assumes "Status Y V E P opts (w, fs) = (Inr r, w', fs')"
  shows "sr_ContextName r = context_name (do_ContextName opts) (do_Name opts)"
    "kube_target V (do_KubeconfigPath opts) = Inr (sr_KubeconfigPath r)"
    "contextInstalled Y E (sr_KubeconfigPath r) (sr_ContextName r) fs = Inr (sr_ContextInstalled r)"
  using assms by (auto simp: Status_def Let_def kube_target_def split: prod.splits sum.splits)

text \<open>
  What Init installs, Status reports. With the kind driver over a library that behaves as
  documented: when Init wrote a standalone kubeconfig without an error, a Status with the same
  name, context name and path that reports at all reports that the cluster exists, that the
  context is installed, and the names both agree on.
\<close>

lemma kind_create_status:
  assumes "kind_laws L" "typed_keeps Y" "fresh_temps E" "temp_apart E (io_KubeconfigPath opts)" "io_KubeconfigPath opts \<noteq> ''''"
    and I: "Init Y V E (kind_provisioner L) opts (w, fs) = (None, w', fs')"
    and S: "Status Y V E (kind_provisioner L) (options_of opts) (w', fs') = (Inr r, w'', fs'')"
  shows "r = \<lparr>sr_ClusterExists = True, sr_ContextInstalled = True,
      sr_ContextName = context_name (io_ContextName opts) (vs_Name (io_Spec opts)), sr_KubeconfigPath = io_KubeconfigPath opts\<rparr>"
proof -
  let ?n = "context_name (io_ContextName opts) (vs_Name (io_Spec opts))" and ?p = "io_KubeconfigPath opts"
  have ex: "sr_ClusterExists r"
    by (rule kind.Init_then_Status_exists [OF assms(1) I S]) (simp add: options_of_def)
  note s = Status_cases [OF S]
  have np: "sr_ContextName r = ?n" "sr_KubeconfigPath r = ?p"
    using s(1,2) assms(5) by (auto simp: options_of_def kube_target_def)
  from I obtain target raw branded where b: "Rebrand Y raw ?n (io_Namespace opts) = Inr branded"
    and wk: "kube_target V ?p = Inr target" "writeKubeconfig E target branded fs = (None, fs')"
    using assms(5) by (cases rule: Init_cases) auto
  have "target = ?p" using wk(1) assms(5) by (simp add: kube_target_def)
  then have f: "map_of (files fs') ?p = Some branded"
    using writeKubeconfig_done [OF assms(3,4)] wk(2) by simp
  have "sr_ContextInstalled r"
    using s(3) Rebrand_names [OF assms(2) b] f
    by (auto simp: np contextInstalled_def read_file_def os_err_def ErrNotExist_def list_ex_iff map_eq_Cons_conv
        split: sum.splits if_splits)
  with ex np show ?thesis by simp
qed

text \<open>
  After a delete with the kind driver that returned no error, a Status for the name that
  reports at all reports that the cluster does not exist, and its kubeconfig cannot be fetched.
\<close>

theorem kind_delete_status:
  assumes "kind_laws L" and D: "Delete Y V E (kind_provisioner L) opts (w, fs) = ((ch, None), w', fs')"
    and S: "Status Y V E (kind_provisioner L) sopts (w', fs') = (Inr r, w'', fs'')" and n: "do_Name sopts = do_Name opts"
  shows "\<not> sr_ClusterExists r \<and> (\<exists>e w3. kind_Kubeconfig L (do_Name opts) w' = (Inl e, w3))"
proof -
  from D obtain fs1 where "pv_Delete (kind_provisioner L) (do_Name opts) (w, fs) = (None, w', fs1)"
    by (auto simp: Delete_def split: prod.splits option.splits)
  from kind.deleted_kubeconfig [OF assms(1) this]
  have "\<exists>e w3. kind_Kubeconfig L (do_Name opts) w' = (Inl e, w3)" by (simp add: kind_provisioner_def)
  with kind.Delete_then_Status_gone [OF assms] show ?thesis by blast
qed

text \<open>
  The spec alone decides the configuration a cluster is created with: without a payload (nil
  or of length zero) it is the ingress-ready default, 8080 and 8443 on the host, and nothing is
  decoded; with one it is what the payload decodes to, never merged with the default, and a
  payload that does not decode fails with CUBE-CLU-003 before the host is touched, in Ensure as
  in ValidateSpec.
\<close>

theorem clusterConfig_choice:
  "clusterConfig L s =
     (case vs_ForProvider s of
        None \<Rightarrow> Inr defaultClusterConfig
      | Some raw \<Rightarrow>
          if raw = '''' then Inr defaultClusterConfig
          else case kl_UnmarshalStrict L raw of Inl e \<Rightarrow> decodeForProvider L s | Inr cfg \<Rightarrow> Inr cfg) \<and>
   (\<forall>e. clusterConfig L s = Inl e \<longrightarrow>
      err_code e = Some ''CUBE-CLU-003'' \<and> ValidateSpec L s = Some e \<and> kind_Ensure L s st = (Some e, st)) \<and>
   (ValidateSpec L s = None \<longrightarrow> (\<exists>cfg. clusterConfig L s = Inr cfg))"
  by (auto simp: clusterConfig_def hasForProvider_def decodeForProvider_def ValidateSpec_def kind_Ensure_def
      NewInvalidForProviderError_def split: option.splits sum.splits if_splits)

subsection \<open>A concrete backend\<close>

definition sample_kind :: "(unit, string list) kind_lib" where
  "sample_kind =
     \<lparr>kl_Detect = (\<lambda>k. Inr ()), kl_List = (\<lambda>h k. Inr k), kl_Create = (\<lambda>h n c p k. (None, List.insert n k)),
      kl_Delete = (\<lambda>h n p (k, fs). (None, removeAll n k, fs)),
      kl_KubeConfig = (\<lambda>h n i k. if n \<in> set k then Inr ''raw'' else Inl (Plain ''absent'')),
      kl_UnmarshalStrict = (\<lambda>raw. Inl (Plain ''yaml'')), kl_MkdirTemp = (\<lambda>p k. Inr (''/tmp/d'', k)), kl_RemoveAll = (\<lambda>t k. k)\<rparr>"

lemma sample_kind_laws: "kind_laws sample_kind" "kind_deletes_own V sample_kind"
  by (simp_all add: kind_laws_def kind_deletes_own_def sample_kind_def)

definition sample_kubeconfig :: "string \<Rightarrow> kubeconfig" where
  "sample_kubeconfig name =
     \<lparr>kc_APIVersion = ''v1'', kc_Kind = ''Config'', kc_Preferences = None,
      kc_Clusters = [\<lparr>ne_Name = name, ne_Cluster = Some ''{}'', ne_User = None\<rparr>],
      kc_Contexts = [\<lparr>ce_Name = name, ce_Context = \<lparr>cb_Cluster = name, cb_User = name, cb_Namespace = '''', cb_Extensions = None\<rparr>\<rparr>],
      kc_Users = [\<lparr>ne_Name = name, ne_Cluster = None, ne_User = Some ''{}''\<rparr>],
      kc_CurrentContext = name, kc_Extensions = None\<rparr>"

definition sample_typed_yaml :: kube_yaml where
  "sample_typed_yaml = table_yaml [(''user'', sample_user_doc), (''cube'', sample_cube_doc),
     (''merged'', sample_merged_doc), (''removed'', sample_removed_doc)]
     [(''raw'', sample_kubeconfig ''kind-dev''), (''cube'', sample_kubeconfig ''cube/dev'')]"

lemma sample_typed_keeps: "typed_keeps sample_typed_yaml" "yaml_keeps sample_typed_yaml (\<lambda>_. True)"
proof -
  show "typed_keeps sample_typed_yaml"
    by (auto simp: typed_keeps_def sample_typed_yaml_def table_yaml_def split: if_splits)
  show "yaml_keeps sample_typed_yaml (\<lambda>_. True)"
    unfolding sample_typed_yaml_def by (rule table_yaml_keeps) simp_all
qed

definition kube_os :: os_env where
  "kube_os = \<lparr>call_fails = (\<lambda>c p. False), torn = (\<lambda>p. ''''), temp_name = (\<lambda>d fs. CHR ''.'' # concat (map fst (files fs)) @ ''x''), is_print = (\<lambda>r. True)\<rparr>"

lemma kube_os_fresh: "fresh_temps kube_os"
proof -
  have "length p \<le> length (concat (map fst m))" if "(p, d) \<in> set m" for p d and m :: "(string \<times> string) list"
    using that by (induction m) auto
  then have "map_of m (CHR ''.'' # concat (map fst m) @ ''x'') = None" for m :: "(string \<times> string) list"
    unfolding map_of_eq_None_iff by fastforce
  then show ?thesis by (simp add: fresh_temps_def kube_os_def)
qed

lemma kube_os_apart: "p = [] \<or> hd p \<noteq> CHR ''.'' \<Longrightarrow> temp_apart kube_os p"
  by (auto simp: temp_apart_def kube_os_def)

definition sample_files :: fsys where
  "sample_files = \<lparr>files = [(''/h/.kube/config'', ''user'')], dirs = []\<rparr>"

definition sample_kube_env :: kube_env where
  "sample_kube_env = \<lparr>env_KUBECONFIG = ''::'', env_home = Inr ''/h''\<rparr>"

definition sample_init :: "string \<Rightarrow> init_options" where
  "sample_init path = \<lparr>io_Spec = \<lparr>vs_Name = ''dev'', vs_ForProvider = None\<rparr>, io_ContextName = ''cube/dev'',
     io_Namespace = '''', io_KubeconfigPath = path\<rparr>"

lemma kind_delete_status_witness:
  "\<exists>e w3. kind_Kubeconfig sample_kind ''dev'' (Some (Inr ()), [''prod'']) = (Inl e, w3)"
proof -
  let ?P = "kind_provisioner sample_kind" and ?o = "\<lparr>do_Name = ''dev'', do_ContextName = ''cube/dev'', do_KubeconfigPath = ''/k''\<rparr>"
  have D: "Delete sample_typed_yaml sample_kube_env kube_os ?P ?o ((None, [''prod'', ''dev'']), sample_files) =
    ((False, None), (Some (Inr ()), [''prod'']), sample_files)" by code_simp
  have S: "Status sample_typed_yaml sample_kube_env kube_os ?P ?o ((Some (Inr ()), [''prod'']), sample_files) =
    (Inr \<lparr>sr_ClusterExists = False, sr_ContextInstalled = False, sr_ContextName = ''cube/dev'', sr_KubeconfigPath = ''/k''\<rparr>,
     (Some (Inr ()), [''prod'']), sample_files)" by code_simp
  show ?thesis using kind_delete_status [OF sample_kind_laws(1) D S refl] by simp
qed

lemma sample_target: "kube_target sample_kube_env '''' = Inr ''/h/.kube/config''"
  by code_simp

lemma Init_transaction_witness:
  "\<exists>data. Merge sample_typed_yaml ''user'' ''cube'' = Inr data \<and>
     map_of (files (snd (snd (Init sample_typed_yaml sample_kube_env kube_os (kind_provisioner sample_kind) (sample_init '''')
       ((None, []), sample_files))))) = (map_of (files sample_files))(''/h/.kube/config'' \<mapsto> data)"
proof -
  let ?o = "sample_init ''''"
  let ?I = "Init sample_typed_yaml sample_kube_env kube_os (kind_provisioner sample_kind) ?o ((None, []), sample_files)"
  have r: "fst ?I = None" by code_simp
  have I: "?I = (fst ?I, fst (snd ?I), snd (snd ?I))" by (metis prod.collapse)
  have o: "io_KubeconfigPath ?o = ''''" by (simp add: sample_init_def)
  have b: "branded = ''cube''" if "Rebrand sample_typed_yaml raw ''cube/dev'' '''' = Inr branded" for raw branded
    using that by (auto simp: Rebrand_def sample_typed_yaml_def table_yaml_def Let_def sample_kubeconfig_def split: sum.splits list.splits if_splits)
  have f: "file_text sample_files ''/h/.kube/config'' = ''user''" by code_simp
  have "case fst ?I of
      Some e \<Rightarrow> unharmed sample_files (snd (snd ?I)) \<and>
        (err_code e = Some ''CUBE-CLU-005'' \<or> fst (pv_Ensure (kind_provisioner sample_kind) (io_Spec ?o) (None, [])) = Some e)
    | None \<Rightarrow> \<exists>target raw w1 branded data. kube_target sample_kube_env (io_KubeconfigPath ?o) = Inr target \<and>
        pv_Kubeconfig (kind_provisioner sample_kind) (vs_Name (io_Spec ?o)) w1 = (Inr raw, fst (snd ?I)) \<and>
        Rebrand sample_typed_yaml raw (context_name (io_ContextName ?o) (vs_Name (io_Spec ?o))) (io_Namespace ?o) = Inr branded \<and>
        (if io_KubeconfigPath ?o \<noteq> '''' then data = branded
         else Merge sample_typed_yaml (file_text sample_files target) branded = Inr data) \<and>
        map_of (files (snd (snd ?I))) = (map_of (files sample_files))(target \<mapsto> data)"
    by (rule Init_transaction [OF kube_os_fresh _ I]) (auto simp: o sample_target kube_os_apart)
  then show ?thesis
    unfolding r option.case o sample_target by (auto simp: sample_init_def context_name_def dest!: b simp: f)
qed

definition sample_delete :: delete_options where
  "sample_delete = \<lparr>do_Name = ''dev'', do_ContextName = ''cube/dev'', do_KubeconfigPath = ''''\<rparr>"

definition sample_installed :: fsys where
  "sample_installed = \<lparr>files = [(''/h/.kube/config'', ''merged'')], dirs = []\<rparr>"

definition sample_cleaned :: fsys where
  "sample_cleaned = \<lparr>files = [(''/h/.kube/config'', ''removed'')], dirs = [''/h/.kube'']\<rparr>"

lemma sample_delete_run:
  "Delete sample_typed_yaml sample_kube_env kube_os (kind_provisioner sample_kind) sample_delete
     ((None, [''dev'']), sample_installed) = ((True, None), (Some (Inr ()), []), sample_cleaned)"
  "Delete sample_typed_yaml sample_kube_env kube_os (kind_provisioner sample_kind) sample_delete
     ((Some (Inr ()), []), sample_cleaned) = ((False, None), (Some (Inr ()), []), sample_cleaned)"
  by code_simp+

lemma sample_delete_apart:
  "kube_target sample_kube_env (do_KubeconfigPath sample_delete) = Inr target \<Longrightarrow> temp_apart kube_os target"
  by (auto simp: sample_delete_def sample_target kube_os_apart)

lemma sample_delete_files:
  "pv_Delete (kind_provisioner sample_kind) n ((None, ks), fs) = (None, (Some (Inr ()), removeAll n ks), fs)"
  "pv_Delete (kind_provisioner sample_kind) n ((Some (Inr ()), ks), fs) = (None, (Some (Inr ()), removeAll n ks), fs)"
  by (simp_all add: kind_provisioner_def kind_Delete_def kp_def sample_kind_def Let_def)

lemma Delete_transaction_witness:
  "\<exists>cleaned. Remove_context sample_typed_yaml ''merged'' ''cube/dev'' = Inr (cleaned, True) \<and>
     map_of (files sample_cleaned) = [''/h/.kube/config'' \<mapsto> cleaned]"
  using Delete_transaction [OF kube_os_fresh sample_delete_apart sample_delete_run(1)]
  by (auto simp: sample_delete_def sample_target sample_installed_def context_name_def sample_delete_files)

lemma Delete_twice_witness:
  "fst (pv_Delete (kind_provisioner sample_kind) ''dev'' ((Some (Inr ()), []), sample_cleaned)) = None"
  using Delete_twice [OF kube_os_fresh sample_delete_apart sample_typed_keeps(2) sample_delete_run]
  by (simp add: sample_delete_def sample_delete_files)

end
