(* ===== verification/ConfigScaffold.thy ===== *)
theory ConfigScaffold
  imports ConfigLoad
begin

section \<open>Scaffolding a configuration document (\<open>internal/config/scaffold.go\<close>, \<open>names.go\<close>)\<close>

text \<open>
  Generated cube names and the scaffolding of a first document: refused when one exists, and
  otherwise a document that the loader accepts.
\<close>

subsection \<open>Generated names\<close>

definition nameAdjectives :: "string list" where
  "nameAdjectives =
     [''agile'', ''amber'', ''bold'', ''brave'', ''breezy'', ''bright'', ''calm'',
      ''clever'', ''cosmic'', ''crisp'', ''eager'', ''gentle'', ''happy'', ''jolly'',
      ''keen'', ''lively'', ''mellow'', ''nimble'', ''quirky'', ''sunny'', ''swift'',
      ''witty'']"

definition nameNouns :: "string list" where
  "nameNouns =
     [''badger'', ''beacon'', ''comet'', ''falcon'', ''fjord'', ''gecko'', ''glacier'',
      ''harbor'', ''heron'', ''koala'', ''lemur'', ''marmot'', ''meadow'', ''nebula'',
      ''otter'', ''panda'', ''pebble'', ''quartz'', ''raven'', ''sparrow'', ''summit'',
      ''tundra'', ''walrus'', ''wombat'']"

text \<open>\<open>rand\<close> stands for \<open>rand.IntN\<close>, whose documented range is \<open>[0, n)\<close>: two draws.\<close>

definition GenerateName :: "(nat \<Rightarrow> nat) \<Rightarrow> (nat \<Rightarrow> nat) \<Rightarrow> string" where
  "GenerateName rand1 rand2 =
     nameAdjectives ! rand1 (length nameAdjectives) @ ''-'' @ nameNouns ! rand2 (length nameNouns)"

lemma name_words:
  "list_all (\<lambda>a. list_all name_char a \<and> is_lower (hd a) \<and> 0 < length a \<and> length a \<le> 6) nameAdjectives"
  "list_all (\<lambda>n. list_all name_char n \<and> 0 < length n \<and> length n \<le> 7) nameNouns"
  by code_simp+

text \<open>
  Whatever \<open>rand.IntN\<close> draws within its documented range, the generated name is a
  valid cube name, so \<open>cube init\<close> never scaffolds a document its own loader rejects.
\<close>

theorem GenerateName_valid:
  assumes "\<And>n. 0 < n \<Longrightarrow> rand1 n < n" and "\<And>n. 0 < n \<Longrightarrow> rand2 n < n"
  shows "nameRE (GenerateName rand1 rand2)"
proof -
  have "rand1 (length nameAdjectives) < length nameAdjectives"
    and "rand2 (length nameNouns) < length nameNouns"
    by (rule assms; simp add: nameAdjectives_def nameNouns_def)+
  then have a: "nameAdjectives ! rand1 (length nameAdjectives) \<in> set nameAdjectives"
    and n: "nameNouns ! rand2 (length nameNouns) \<in> set nameNouns"
    by simp_all
  define A where "A = nameAdjectives ! rand1 (length nameAdjectives)"
  define N where "N = nameNouns ! rand2 (length nameNouns)"
  have "list_all name_char A" "is_lower (hd A)" "A \<noteq> []" "length A \<le> 6"
    using name_words(1) a by (auto simp: list_all_iff A_def)
  moreover have "list_all name_char N" "length N \<le> 7"
    using name_words(2) n by (auto simp: list_all_iff N_def)
  ultimately show ?thesis
    unfolding GenerateName_def A_def [symmetric] N_def [symmetric]
    by (cases A) (auto simp: nameRE_def list_all_iff)
qed

theorem GenerateName_valid_witness: "nameRE (GenerateName (\<lambda>n. 0) (\<lambda>n. n - 1))"
  by (rule GenerateName_valid [where ?rand1.0 = "\<lambda>n. 0" and ?rand2.0 = "\<lambda>n. n - 1"]) auto

subsection \<open>Writing the document\<close>

definition scaffold_doc :: "string \<Rightarrow> string" where
  "scaffold_doc name =
     ''apiVersion: '' @ group_version @ [CHR 0x0A] @
     ''kind: Config'' @ [CHR 0x0A] @
     ''metadata:'' @ [CHR 0x0A] @
     ''  name: '' @ name @ [CHR 0x0A] @
     ''spec:'' @ [CHR 0x0A] @
     ''  cluster: {}'' @ [CHR 0x0A]"

definition ScaffoldFile ::
  "yaml_env \<Rightarrow> os_env \<Rightarrow> string \<Rightarrow> string \<Rightarrow> fsys \<Rightarrow> err option \<times> fsys" where
  "ScaffoldFile Y E path name fs =
     (let doc = scaffold_doc name in
      case decode Y doc of
        Inl e \<Rightarrow> (Some e, fs)
      | Inr c \<Rightarrow>
          (case open_excl E path fs of
             Inl e \<Rightarrow>
               (if e = ErrExist then (Some (newAlreadyExistsError path), fs)
                else (Some (newConfigScaffoldFailedError path e), fs))
           | Inr fs1 \<Rightarrow>
               (case write_open E path doc fs1 of
                  (Some e, fs2) \<Rightarrow> (Some (newConfigScaffoldFailedError path e), remove_file E path fs2)
                | (None, fs2) \<Rightarrow>
                    (case close_file E path of
                       Some e \<Rightarrow> (Some (newConfigScaffoldFailedError path e), remove_file E path fs2)
                     | None \<Rightarrow> (None, fs2)))))"

lemma delete_update_fresh: "map_of m k = None \<Longrightarrow> AList.delete k (AList.update k v m) = m"
  by (induction m) (auto simp: delete_absent split: if_splits)

lemma delete_update_twice:
  "map_of m k = None \<Longrightarrow> AList.delete k (AList.update k v (AList.update k w m)) = m"
  by (induction m) (auto simp: delete_absent split: if_splits)

lemma os_err_not_exist [simp]: "os_err a b \<noteq> ErrExist"
  by (simp add: os_err_def ErrExist_def)

text \<open>
  Scaffolding is all or nothing. An existing document is never touched; a document the
  load pipeline rejects is never written; a failed write or close leaves the file system as
  it was as long as the clean-up \<open>os.Remove\<close> works; and on success the file holds exactly
  the rendered document, which loads.
\<close>

theorem ScaffoldFile_spec:
  "case ScaffoldFile Y E path name fs of
     (None, fs') \<Rightarrow>
        map_of (files fs) path = None \<and>
        fs' = fs\<lparr>files := files fs'\<rparr> \<and>
        map_of (files fs') = (map_of (files fs))(path \<mapsto> scaffold_doc name) \<and>
        (\<exists>c. decode Y (scaffold_doc name) = Inr c)
   | (Some e, fs') \<Rightarrow>
        (if call_fails E ''remove'' path \<and> \<not> exists_path fs path then True else fs' = fs) \<and>
        (if exists_path fs path then fs' = fs \<and>
           (case decode Y (scaffold_doc name) of
              Inl d \<Rightarrow> e = d | Inr c \<Rightarrow> e = newAlreadyExistsError path) else True)"
proof -
  show ?thesis
    by (auto simp: ScaffoldFile_def Let_def open_excl_def write_open_def close_file_def
        remove_file_def exists_path_def delete_update_fresh delete_update_twice fun_eq_iff
        split: sum.splits option.splits if_splits)
qed

end
