(* ===== verification/CliVerbs.thy ===== *)
theory CliVerbs
  imports ClusterKind ConfigScaffold
begin

section \<open>Client construction and the cluster verbs (\<open>internal/kube\<close>; \<open>internal/cli\<close>: exit.go, init.go, create.go, delete.go, status.go, config.go)\<close>

text \<open>
  A verb reads its flags, loads the document and calls one domain operation. The state is the
  provisioner's backend, the files and the lines printed to standard output. The client-go constructors behind
  \<open>kube.New\<close> are the record \<open>kube_lib\<close>.
\<close>

subsection \<open>Kubernetes clients (\<open>internal/kube\<close>)\<close>

abbreviation CodeInvalidKubeconfig :: code where "CodeInvalidKubeconfig \<equiv> ''CUBE-KUB-001''"

definition newInvalidKubeconfigError :: "err \<Rightarrow> err" where
  "newInvalidKubeconfigError cause = wrap CodeInvalidKubeconfig [] (Some cause)"

abbreviation CodeContextNotFound :: code where "CodeContextNotFound \<equiv> ''CUBE-KUB-002''"

definition newContextNotFoundError :: "string \<Rightarrow> err" where
  "newContextNotFoundError ctx = wrap CodeContextNotFound [ctx] None"

abbreviation CodeConstructionFailed :: code where "CodeConstructionFailed \<equiv> ''CUBE-KUB-003''"

definition newConstructionFailedError :: "string \<Rightarrow> err \<Rightarrow> err" where
  "newConstructionFailedError ctx cause = wrap CodeConstructionFailed [ctx] (Some cause)"

abbreviation CodeUnreachable :: code where "CodeUnreachable \<equiv> ''CUBE-KUB-004''"

definition newUnreachableError :: "string \<Rightarrow> err \<Rightarrow> err" where
  "newUnreachableError host cause = wrap CodeUnreachable [host] (Some cause)"

text \<open>\<open>clientcmdapi.Config\<close>: its current context and the names of its contexts; the rest is opaque.\<close>

record 'x api_config =
  ac_CurrentContext :: string
  ac_Contexts :: "string list"
  ac_Body :: 'x

record ('x, 'r, 'd, 'm, 'y) kube_lib =
  kb_Load :: "string \<Rightarrow> 'x api_config res"
  kb_ClientConfig :: "'x api_config \<Rightarrow> string \<Rightarrow> 'r res"
  kb_Host :: "'r \<Rightarrow> string"
  kb_Discovery :: "'r \<Rightarrow> 'd res"
  kb_Dynamic :: "'r \<Rightarrow> 'y res"
  kb_Mapper :: "'d \<Rightarrow> 'm"
  kb_Readyz :: "'d \<Rightarrow> err option"

record ('r, 'd, 'm, 'y) kube_client =
  kcl_restConfig :: 'r
  kcl_discovery :: 'd
  kcl_mapper :: 'm
  kcl_dynamic :: 'y

definition kube_New :: "('x, 'r, 'd, 'm, 'y) kube_lib \<Rightarrow> string \<Rightarrow> string \<Rightarrow> ('r, 'd, 'm, 'y) kube_client res" where
  "kube_New K kubeconfig contextName =
     (case kb_Load K kubeconfig of
        Inl e \<Rightarrow> Inl (newInvalidKubeconfigError e)
      | Inr apiConfig \<Rightarrow>
          let contextName = (if contextName = '''' then ac_CurrentContext apiConfig else contextName)
          in if contextName \<notin> set (ac_Contexts apiConfig) then Inl (newContextNotFoundError contextName)
             else case kb_ClientConfig K apiConfig contextName of
                 Inl e \<Rightarrow> Inl (newConstructionFailedError contextName e)
               | Inr restConfig \<Rightarrow>
             (case kb_Discovery K restConfig of
                Inl e \<Rightarrow> Inl (newConstructionFailedError contextName e)
              | Inr discoveryClient \<Rightarrow>
             (case kb_Dynamic K restConfig of
                Inl e \<Rightarrow> Inl (newConstructionFailedError contextName e)
              | Inr dynamicClient \<Rightarrow>
                  Inr \<lparr>kcl_restConfig = restConfig, kcl_discovery = discoveryClient,
                    kcl_mapper = kb_Mapper K discoveryClient, kcl_dynamic = dynamicClient\<rparr>)))"

definition Ping :: "('x, 'r, 'd, 'm, 'y) kube_lib \<Rightarrow> ('r, 'd, 'm, 'y) kube_client \<Rightarrow> err option" where
  "Ping K c = map_option (newUnreachableError (kb_Host K (kcl_restConfig c))) (kb_Readyz K (kcl_discovery c))"

subsection \<open>Flags, drivers and state\<close>

record verb_flags =
  fl_config :: string
  fl_kubeconfig :: string
  fl_contextName :: string
  fl_name :: string

text \<open>
  A factory's driver: the provisioner, and the optional \<open>SpecValidator\<close> capability. Constructing
  one may change the backend state: a new kind driver starts with nothing cached.
\<close>

record 'w driver =
  dr_provisioner :: "'w provisioner"
  dr_validator :: "(provision_spec \<Rightarrow> err option) option"

type_synonym 'w provisionerFactory = "string \<Rightarrow> 'w \<Rightarrow> ('w driver \<times> 'w) res"

definition kind_New :: "('h, 'k) kind_lib \<Rightarrow> ('h, 'k) kind_state \<Rightarrow> ('h, 'k) kind_state driver \<times> ('h, 'k) kind_state" where
  "kind_New L w = (\<lparr>dr_provisioner = kind_provisioner L, dr_validator = Some (ValidateSpec L)\<rparr>, (None, snd w))"

definition defaultProvisioner :: "('h, 'k) kind_lib \<Rightarrow> ('h, 'k) kind_state provisionerFactory" where
  "defaultProvisioner L p w =
     (if p = ClusterProviderKind then Inr (kind_New L w) else Inl (clusterUnsupportedProviderError p))"

text \<open>\<open>vb_probes\<close>: the hosts whose readiness endpoint was asked, in order.\<close>

record 'w verb_state =
  vb_backend :: 'w
  vb_fs :: fsys
  vb_out :: "string list"
  vb_probes :: "string list"

record ('x, 'r, 'd, 'm, 'y) verb_env =
  ve_config :: yaml_env
  ve_kubeconfig :: kube_yaml
  ve_kube :: kube_env
  ve_os :: os_env
  ve_client :: "('x, 'r, 'd, 'm, 'y) kube_lib"

definition println :: "string \<Rightarrow> 'w verb_state \<Rightarrow> 'w verb_state" where
  "println msg st = st\<lparr>vb_out := vb_out st @ [msg]\<rparr>"

definition spec_of :: "config \<Rightarrow> cluster_spec \<Rightarrow> provision_spec" where
  "spec_of cfg c = \<lparr>vs_Name = cfg_name cfg, vs_ForProvider = cs_forProvider c\<rparr>"

text \<open>What create, delete, status and bootstrap begin with: the document, its cluster, the driver.\<close>

definition open_cube ::
  "('x, 'r, 'd, 'm, 'y) verb_env \<Rightarrow> 'w provisionerFactory \<Rightarrow> verb_flags \<Rightarrow> 'w verb_state \<Rightarrow>
   (config \<times> cluster_spec \<times> 'w driver \<times> 'w verb_state) res" where
  "open_cube X F fl st =
     (case LoadFile (ve_config X) (ve_os X) (vb_fs st) (fl_config fl) of
        Inl e \<Rightarrow> Inl e
      | Inr cfg \<Rightarrow>
     (case cfg_cluster cfg of
        None \<Rightarrow> Inl NewNoClusterConfiguredError
      | Some c \<Rightarrow>
     (case F (cs_provider c) (vb_backend st) of
        Inl e \<Rightarrow> Inl e
      | Inr (d, w) \<Rightarrow> Inr (cfg, c, d, st\<lparr>vb_backend := w\<rparr>))))"

subsection \<open>create, delete and status\<close>

definition runCreate ::
  "('x, 'r, 'd, 'm, 'y) verb_env \<Rightarrow> 'w provisionerFactory \<Rightarrow> verb_flags \<Rightarrow> 'w verb_state \<Rightarrow> err option \<times> 'w verb_state" where
  "runCreate X F fl st =
     (case open_cube X F fl st of
        Inl e \<Rightarrow> (Some e, st)
      | Inr (cfg, c, d, st) \<Rightarrow>
     (case Init (ve_kubeconfig X) (ve_kube X) (ve_os X) (dr_provisioner d)
             \<lparr>io_Spec = spec_of cfg c, io_ContextName = fl_contextName fl, io_Namespace = '''', io_KubeconfigPath = fl_kubeconfig fl\<rparr>
             (vb_backend st, vb_fs st) of
        (Some e, w, fs) \<Rightarrow> (Some e, st\<lparr>vb_backend := w, vb_fs := fs\<rparr>)
      | (None, w, fs) \<Rightarrow>
          let name = (if fl_contextName fl = '''' then ContextName (cfg_name cfg) else fl_contextName fl)
          in (None, println (''cluster '' @ quoted (ve_os X) (cfg_name cfg) @ '' ready '' @ em_dash @ '' kubeconfig context '' @
                quoted (ve_os X) name @ '' installed'')
               (st\<lparr>vb_backend := w, vb_fs := fs\<rparr>))))"

definition target_options :: "config \<Rightarrow> verb_flags \<Rightarrow> delete_options" where
  "target_options cfg fl = \<lparr>do_Name = cfg_name cfg, do_ContextName = fl_contextName fl, do_KubeconfigPath = fl_kubeconfig fl\<rparr>"

definition runDelete ::
  "('x, 'r, 'd, 'm, 'y) verb_env \<Rightarrow> 'w provisionerFactory \<Rightarrow> verb_flags \<Rightarrow> 'w verb_state \<Rightarrow> err option \<times> 'w verb_state" where
  "runDelete X F fl st =
     (case open_cube X F fl st of
        Inl e \<Rightarrow> (Some e, st)
      | Inr (cfg, c, d, st) \<Rightarrow>
     (case Delete (ve_kubeconfig X) (ve_kube X) (ve_os X) (dr_provisioner d) (target_options cfg fl)
             (vb_backend st, vb_fs st) of
        ((ch, Some e), w, fs) \<Rightarrow> (Some e, st\<lparr>vb_backend := w, vb_fs := fs\<rparr>)
      | ((ch, None), w, fs) \<Rightarrow>
          let name = (if fl_contextName fl = '''' then ContextName (cfg_name cfg) else fl_contextName fl);
              msg = (if ch then ''cluster '' @ quoted (ve_os X) (cfg_name cfg) @ '' deleted '' @ em_dash @ '' kubeconfig context '' @
                       quoted (ve_os X) name @ '' removed''
                     else ''cluster '' @ quoted (ve_os X) (cfg_name cfg) @ '' deleted '' @ em_dash @ '' no kubeconfig changes needed'')
          in (None, println msg (st\<lparr>vb_backend := w, vb_fs := fs\<rparr>))))"

text \<open>The state to report and the probes made to find it: one, where a client could be built.\<close>

definition apiServerState ::
  "('x, 'r, 'd, 'm, 'y) verb_env \<Rightarrow> status_report \<Rightarrow> fsys \<Rightarrow> string res \<times> string list" where
  "apiServerState X rep fs =
     (if \<not> sr_ContextInstalled rep then (Inr ''not checked (context not installed)'', [])
      else case read_file (ve_os X) (sr_KubeconfigPath rep) fs of
          Inl e \<Rightarrow> (Inl (NewKubeconfigFailedError (Wrapf (''read kubeconfig '' @ sr_KubeconfigPath rep) e)), [])
        | Inr raw \<Rightarrow>
            (case kube_New (ve_client X) raw (sr_ContextName rep) of
               Inl e \<Rightarrow> (Inl e, [])
             | Inr client \<Rightarrow>
                 (Inr (case Ping (ve_client X) client of Some e \<Rightarrow> ''unreachable'' | None \<Rightarrow> ''reachable''),
                  [kb_Host (ve_client X) (kcl_restConfig client)])))"

definition runStatus ::
  "('x, 'r, 'd, 'm, 'y) verb_env \<Rightarrow> 'w provisionerFactory \<Rightarrow> verb_flags \<Rightarrow> 'w verb_state \<Rightarrow> err option \<times> 'w verb_state" where
  "runStatus X F fl st =
     (case open_cube X F fl st of
        Inl e \<Rightarrow> (Some e, st)
      | Inr (cfg, c, d, st) \<Rightarrow>
     (case Status (ve_kubeconfig X) (ve_kube X) (ve_os X) (dr_provisioner d) (target_options cfg fl)
             (vb_backend st, vb_fs st) of
        (Inl e, w, fs) \<Rightarrow> (Some e, st\<lparr>vb_backend := w\<rparr>)
      | (Inr rep, w, fs) \<Rightarrow>
          let (state, probes) = apiServerState X rep fs;
              st = st\<lparr>vb_backend := w, vb_probes := vb_probes st @ probes\<rparr>
          in case state of
               Inl e \<Rightarrow> (Some e, st)
             | Inr apiState \<Rightarrow>
                 let clusterState = (if sr_ClusterExists rep then ''exists'' else ''not found'');
                     contextState = (if sr_ContextInstalled rep then ''installed in '' @ sr_KubeconfigPath rep else ''not installed'')
                 in (None, println (''api server: '' @ apiState)
                      (println (''kubeconfig context '' @ quoted (ve_os X) (sr_ContextName rep) @ '': '' @ contextState)
                        (println (''cluster '' @ quoted (ve_os X) (cfg_name cfg) @ '': '' @ clusterState) st)))))"

subsection \<open>init and config validate\<close>

definition os_stat :: "os_env \<Rightarrow> string \<Rightarrow> fsys \<Rightarrow> err option" where
  "os_stat E p fs =
     (if call_fails E ''stat'' p then Some (os_err ''stat'' p)
      else if exists_path fs p then None else Some ErrNotExist)"

text \<open>\<open>rand1\<close> and \<open>rand2\<close> are the two draws of \<open>GenerateName\<close>.\<close>

definition scaffoldIfAbsent ::
  "yaml_env \<Rightarrow> os_env \<Rightarrow> (nat \<Rightarrow> nat) \<Rightarrow> (nat \<Rightarrow> nat) \<Rightarrow> string \<Rightarrow> string \<Rightarrow> 'w verb_state \<Rightarrow> bool res \<times> 'w verb_state" where
  "scaffoldIfAbsent Y E rand1 rand2 path nameFlag st =
     (if os_stat E path (vb_fs st) \<noteq> Some ErrNotExist then (Inr False, st)
      else let name = (if nameFlag = '''' then GenerateName rand1 rand2 else nameFlag)
      in case ScaffoldFile Y E path name (vb_fs st) of
           (Some e, fs) \<Rightarrow> (Inl e, st\<lparr>vb_fs := fs\<rparr>)
         | (None, fs) \<Rightarrow> (Inr True, println (''scaffolded '' @ path @ '' '' @ em_dash @ '' cube '' @ quoted E name) (st\<lparr>vb_fs := fs\<rparr>)))"

definition runInit ::
  "yaml_env \<Rightarrow> os_env \<Rightarrow> (nat \<Rightarrow> nat) \<Rightarrow> (nat \<Rightarrow> nat) \<Rightarrow> verb_flags \<Rightarrow> 'w verb_state \<Rightarrow> err option \<times> 'w verb_state" where
  "runInit Y E rand1 rand2 fl st =
     (case scaffoldIfAbsent Y E rand1 rand2 (fl_config fl) (fl_name fl) st of
        (Inl e, st) \<Rightarrow> (Some e, st)
      | (Inr scaffolded, st) \<Rightarrow>
     (case LoadFile Y E (vb_fs st) (fl_config fl) of
        Inl e \<Rightarrow> (Some e, st)
      | Inr cfg \<Rightarrow>
          if fl_name fl \<noteq> '''' \<and> cfg_name cfg \<noteq> fl_name fl
          then (Some (NewNameConflictError (fl_config fl) (cfg_name cfg) (fl_name fl)), st)
          else if scaffolded then (None, println ''run \"cube-idp create\" to provision the cluster'' st)
          else (None, println (''config '' @ fl_config fl @ '' exists '' @ em_dash @ '' cube '' @ quoted E (cfg_name cfg)) st)))"

definition validateProviderSpec :: "'w provisionerFactory \<Rightarrow> config \<Rightarrow> 'w \<Rightarrow> err option \<times> 'w" where
  "validateProviderSpec F cfg w =
     (case cfg_cluster cfg of
        None \<Rightarrow> (None, w)
      | Some c \<Rightarrow>
          (case F (cs_provider c) w of
             Inl e \<Rightarrow> (Some e, w)
           | Inr (d, w') \<Rightarrow>
               (case dr_validator d of
                  None \<Rightarrow> (None, w')
                | Some v \<Rightarrow> (v (spec_of cfg c), w'))))"

definition runConfigValidate ::
  "yaml_env \<Rightarrow> os_env \<Rightarrow> 'w provisionerFactory \<Rightarrow> verb_flags \<Rightarrow> 'w verb_state \<Rightarrow> err option \<times> 'w verb_state" where
  "runConfigValidate Y E F fl st =
     (case LoadFile Y E (vb_fs st) (fl_config fl) of
        Inl e \<Rightarrow> (Some e, st)
      | Inr cfg \<Rightarrow>
          (case validateProviderSpec F cfg (vb_backend st) of
             (Some e, w) \<Rightarrow> (Some e, st\<lparr>vb_backend := w\<rparr>)
           | (None, w) \<Rightarrow> (None, println (''config '' @ quoted E (cfg_name cfg) @ '' is valid'') (st\<lparr>vb_backend := w\<rparr>))))"

text \<open>\<open>config show\<close>: the encoder of the document is an argument.\<close>

definition runConfigShow ::
  "(config \<Rightarrow> string res) \<Rightarrow> yaml_env \<Rightarrow> os_env \<Rightarrow> verb_flags \<Rightarrow> 'w verb_state \<Rightarrow> err option \<times> 'w verb_state" where
  "runConfigShow marshal Y E fl st =
     (case LoadFile Y E (vb_fs st) (fl_config fl) of
        Inl e \<Rightarrow> (Some e, st)
      | Inr cfg \<Rightarrow>
          (case marshal cfg of
             Inl e \<Rightarrow> (Some (Wrapf ''render config'' e), st)
           | Inr out \<Rightarrow> (None, println out st)))"

text \<open>
  The header of a document is the one of its typed form, and an encoded document decodes to what
  was encoded.
\<close>

definition yaml_document :: "yaml_env \<Rightarrow> (config \<Rightarrow> string res) \<Rightarrow> bool" where
  "yaml_document Y marshal \<longleftrightarrow>
     (\<forall>raw c. y_strict Y raw = Inr c \<longrightarrow> y_type_header Y raw = Inr (cfg_apiVersion c, cfg_kind c)) \<and>
     (\<forall>c out. marshal c = Inr out \<longrightarrow> y_strict Y out = Inr c)"

text \<open>What \<open>config show\<close> prints is a document that loads to the configuration in force.\<close>

lemma runConfigShow_reads_back:
  assumes "yaml_document Y marshal" and "runConfigShow marshal Y E fl st = (None, st')"
  shows "\<exists>cfg out. LoadFile Y E (vb_fs st) (fl_config fl) = Inr cfg \<and> st' = println out st \<and> decode Y out = Inr cfg"
proof -
  from assms(2) obtain cfg out where c: "LoadFile Y E (vb_fs st) (fl_config fl) = Inr cfg" "marshal cfg = Inr out"
    "st' = println out st"
    by (auto simp: runConfigShow_def split: sum.splits)
  from c(1) obtain raw where "decode Y raw = Inr cfg" by (auto simp: LoadFile_def split: sum.splits)
  then obtain av k d where d: "y_type_header Y raw = Inr (av, k)" "\<not> (av = '''' \<and> k = '''')"
    "av @ ''/'' @ k = group_version @ ''/Config''" "y_strict Y raw = Inr d" "cfg = config_default d"
    "config_validate (y_dns1123 Y) (y_type_meta Y) cfg = []"
    by (auto simp: decode_def Let_def split: sum.splits if_splits)
  have "cfg_apiVersion cfg = av" "cfg_kind cfg = k"
    using assms(1) d(1,4) unfolding yaml_document_def by (force simp: d(5) config_default_def)+
  moreover have o: "y_strict Y out = Inr cfg" using assms(1) c(2) by (simp add: yaml_document_def)
  ultimately have "y_type_header Y out = Inr (av, k)" using assms(1) by (simp add: yaml_document_def)
  then have "decode Y out = Inr cfg"
    using d(2,3,6) o by (simp add: decode_def Let_def d(5) config_default_idempotent)
  with c show ?thesis by blast
qed

text \<open>\<open>execute\<close>: the exit code of a verb that ran.\<close>

definition execute :: "err option \<times> 'w verb_state \<Rightarrow> int" where
  "execute out = (case fst out of Some e \<Rightarrow> exit_code (Some e) | None \<Rightarrow> ExitSuccess)"

subsection \<open>Initialising twice\<close>

lemma scaffoldIfAbsent_backend: "scaffoldIfAbsent Y E r1 r2 path n st = (r, st') \<Longrightarrow> vb_backend st' = vb_backend st"
  by (auto simp: scaffoldIfAbsent_def Let_def println_def split: if_splits prod.splits option.splits)

lemma LoadFile_exists: "LoadFile Y E fs path = Inr cfg \<Longrightarrow> exists_path fs path"
  by (auto simp: LoadFile_def read_file_def exists_path_def split: sum.splits if_splits option.splits)

text \<open>
  Init is idempotent and keeps its hands off what exists: it never touches the cluster
  backend; where the document exists it changes no file, whatever happens next; and once it
  succeeded, running it again with the same flags (and any randomness) succeeds, changes no
  file, and reports the document that is there.
\<close>

theorem init_idempotent:
  assumes "runInit Y E r1 r2 fl st = (r, st')"
  shows "vb_backend st' = vb_backend st \<and>
    (exists_path (vb_fs st) (fl_config fl) \<longrightarrow> vb_fs st' = vb_fs st) \<and>
    (r = None \<longrightarrow> (\<exists>cfg. LoadFile Y E (vb_fs st') (fl_config fl) = Inr cfg \<and> (fl_name fl \<noteq> '''' \<longrightarrow> cfg_name cfg = fl_name fl) \<and>
       runInit Y E q1 q2 fl st' = (None, println (''config '' @ fl_config fl @ '' exists '' @ em_dash @ '' cube '' @ quoted E (cfg_name cfg)) st')))"
proof -
  obtain s st1 where s: "scaffoldIfAbsent Y E r1 r2 (fl_config fl) (fl_name fl) st = (s, st1)" by fastforce
  have fs: "vb_fs st' = vb_fs st1 \<and> vb_backend st' = vb_backend st1"
    using assms s by (auto simp: runInit_def println_def split: sum.splits if_splits)
  have ex: "exists_path (vb_fs st) (fl_config fl) \<longrightarrow> vb_fs st1 = vb_fs st"
    using s by (auto simp: scaffoldIfAbsent_def os_stat_def os_err_def ErrNotExist_def split: if_splits)
  have "\<exists>cfg. LoadFile Y E (vb_fs st') (fl_config fl) = Inr cfg \<and> (fl_name fl \<noteq> '''' \<longrightarrow> cfg_name cfg = fl_name fl)" if "r = None"
    using assms s that fs by (auto simp: runInit_def split: sum.splits if_splits)
  moreover have "runInit Y E q1 q2 fl st' = (None, println (''config '' @ fl_config fl @ '' exists '' @ em_dash @ '' cube '' @ quoted E (cfg_name cfg)) st')"
    if l: "LoadFile Y E (vb_fs st') (fl_config fl) = Inr cfg" and n: "fl_name fl \<noteq> '''' \<longrightarrow> cfg_name cfg = fl_name fl" for cfg
  proof -
    have "os_stat E (fl_config fl) (vb_fs st') \<noteq> Some ErrNotExist"
      using LoadFile_exists [OF l] by (simp add: os_stat_def os_err_def ErrNotExist_def)
    then have "scaffoldIfAbsent Y E q1 q2 (fl_config fl) (fl_name fl) st' = (Inr False, st')"
      by (simp add: scaffoldIfAbsent_def)
    with l n show ?thesis by (auto simp: runInit_def)
  qed
  ultimately show ?thesis using scaffoldIfAbsent_backend [OF s] fs ex by auto
qed

subsection \<open>Errors, exit codes and what they leave behind\<close>

text \<open>Every error the kind driver, the cluster domain and the kube client return is coded, outside CFG.\<close>

definition domain_error :: "err \<Rightarrow> bool" where
  "domain_error e \<longleftrightarrow> (\<exists>c. err_code e = Some c \<and> tag c \<in> {''CLU'', ''KUB''})"

lemma domain_tags:
  "tag ''CUBE-CLU-001'' = ''CLU''" "tag ''CUBE-CLU-002'' = ''CLU''" "tag ''CUBE-CLU-003'' = ''CLU''"
  "tag ''CUBE-CLU-004'' = ''CLU''" "tag ''CUBE-CLU-005'' = ''CLU''" "tag ''CUBE-KUB-001'' = ''KUB''"
  "tag ''CUBE-KUB-002'' = ''KUB''" "tag ''CUBE-KUB-003'' = ''KUB''"
  by code_simp+

lemma domain_error_new [simp]:
  "domain_error NewNoClusterConfiguredError" "domain_error (clusterUnsupportedProviderError p)"
  "domain_error (NewInvalidForProviderError e)" "domain_error (NewProvisionFailedError a n e)"
  "domain_error (NewKubeconfigFailedError e)" "domain_error (newInvalidKubeconfigError e)"
  "domain_error (newContextNotFoundError c)" "domain_error (newConstructionFailedError c e)"
  by (simp_all add: domain_error_def domain_tags NewNoClusterConfiguredError_def clusterUnsupportedProviderError_def
      NewInvalidForProviderError_def NewProvisionFailedError_def NewKubeconfigFailedError_def
      newInvalidKubeconfigError_def newContextNotFoundError_def newConstructionFailedError_def)

lemma domain_error_exit: "domain_error e \<Longrightarrow> exit_code (Some e) = ExitError"
  by (auto simp: domain_error_def exit_code_def err_code_def split: option.splits)

lemma code5_domain: "err_code e = Some ''CUBE-CLU-005'' \<Longrightarrow> domain_error e"
  by (simp add: domain_error_def domain_tags)

lemma kind_errors:
  "kind_Exists L n w = (Inl e, w1) \<Longrightarrow> domain_error e"
  "kind_Delete L n s1 = (Some e, s2) \<Longrightarrow> domain_error e"
  "kind_Ensure L s w = (Some e, w1) \<Longrightarrow> domain_error e"
  "ValidateSpec L s = Some e \<Longrightarrow> domain_error e"
proof -
  show ex: "kind_Exists L n w = (Inl e, w1) \<Longrightarrow> domain_error e" for n w w1 e
    by (auto simp: kind_Exists_def split: prod.splits sum.splits)
  show "kind_Delete L n s1 = (Some e, s2) \<Longrightarrow> domain_error e"
    by (auto simp: kind_Delete_def split: prod.splits sum.splits option.splits)
  have dec: "decodeForProvider L s = Inl e \<Longrightarrow> domain_error e" for s e
    by (auto simp: decodeForProvider_def split: sum.splits if_splits)
  then show "ValidateSpec L s = Some e \<Longrightarrow> domain_error e"
    by (auto simp: ValidateSpec_def split: sum.splits)
  have cr: "kind_create L h n cfg k = (Some e, k') \<Longrightarrow> domain_error e" for h n cfg k e k'
    by (auto simp: kind_create_def split: sum.splits prod.splits option.splits)
  show "kind_Ensure L s w = (Some e, w1) \<Longrightarrow> domain_error e"
    by (auto simp: kind_Ensure_def clusterConfig_def dest: ex dec cr split: sum.splits prod.splits if_splits)
qed

lemma Init_error:
  assumes "Init Y V E (kind_provisioner L) opts (w, fs) = (Some e, w', fs')"
  shows "domain_error e"
  using assms
proof (cases rule: Init_cases)
  case (early e')
  moreover obtain w1 where "fst (kind_Ensure L (io_Spec opts) w) = Some e' \<Longrightarrow> kind_Ensure L (io_Spec opts) w = (Some e', w1)"
    by (metis prod.collapse)
  ultimately show ?thesis
    using kind_errors(3) [of L "io_Spec opts" w e' w1] by (auto simp: kind_provisioner_def dest: code5_domain)
qed (auto dest: code5_domain writeKubeconfig_code)

lemma Delete_error:
  assumes "Delete Y V E (kind_provisioner L) opts (w, fs) = ((ch, Some e), w', fs')"
  shows "domain_error e"
proof (cases "fst (kind_Delete L (do_Name opts) (w, fs))")
  case None
  with assms obtain fs1 where "removeFromKubeconfig Y V E (do_KubeconfigPath opts) (context_name (do_ContextName opts) (do_Name opts)) fs1 =
      ((ch, Some e), fs')" by (auto simp: Delete_def kind_provisioner_def split: prod.splits)
  then show ?thesis
    by (auto simp: removeFromKubeconfig_def dest: code5_domain writeKubeconfig_code split: sum.splits if_splits prod.splits)
next
  case (Some e')
  then obtain s2 where d: "kind_Delete L (do_Name opts) (w, fs) = (Some e', s2)" by (metis prod.collapse)
  with assms kind_errors(2) [OF this] show ?thesis by (cases s2) (simp add: Delete_def kind_provisioner_def)
qed

lemma Status_error:
  "Status Y V E (kind_provisioner L) opts (w, fs) = (Inl e, w', fs') \<Longrightarrow> domain_error e"
  by (auto simp: Status_def Let_def kind_provisioner_def contextInstalled_def split: prod.splits sum.splits if_splits
      dest: kind_errors(1))

lemma Status_reads:
  "Status Y V E (kind_provisioner L) opts (w, fs) = (r, w', fs') \<Longrightarrow> fs' = fs \<and> snd w' = snd w"
  by (auto simp: Status_def Let_def kind_provisioner_def kind_Exists_def split: prod.splits sum.splits dest: kp_cached)

lemma apiServerState_error: "apiServerState X rep fs = (Inl e, ps) \<Longrightarrow> domain_error e"
  by (auto simp: apiServerState_def kube_New_def Let_def split: sum.splits if_splits option.splits)

lemma open_cube_error:
  "open_cube X (defaultProvisioner L) fl st = Inl e \<Longrightarrow>
     LoadFile (ve_config X) (ve_os X) (vb_fs st) (fl_config fl) = Inl e \<or> domain_error e"
  by (auto simp: open_cube_def defaultProvisioner_def split: sum.splits option.splits if_splits)

lemma open_cube_state:
  "open_cube X (defaultProvisioner L) fl st = Inr (cfg, c, d, st1) \<Longrightarrow>
     LoadFile (ve_config X) (ve_os X) (vb_fs st) (fl_config fl) = Inr cfg \<and> cfg_cluster cfg = Some c \<and>
     dr_provisioner d = kind_provisioner L \<and> st1 = st\<lparr>vb_backend := (None, snd (vb_backend st))\<rparr>"
  by (auto simp: open_cube_def defaultProvisioner_def kind_New_def split: sum.splits option.splits if_splits)

text \<open>
  How the cluster verbs fail, with the kind driver. A verb that returns an error returns the
  loader's, and then it changed nothing at all, or one of the cluster and kube domains, and then
  the process exits with 1; so exit code 2 means that nothing was touched. Status changes no
  file and nothing in the backend, whatever it returns.
\<close>

theorem verbs_fail_closed:
  assumes "verb \<in> {runCreate, runDelete, runStatus}" and v: "verb X (defaultProvisioner L) fl st = (r, st')"
  shows "(\<forall>e. r = Some e \<longrightarrow>
      (LoadFile (ve_config X) (ve_os X) (vb_fs st) (fl_config fl) = Inl e \<and> st' = st) \<or>
      (domain_error e \<and> execute (r, st') = 1)) \<and>
    (execute (r, st') = 2 \<longrightarrow> st' = st) \<and>
    (verb = runStatus \<longrightarrow> vb_fs st' = vb_fs st \<and> snd (vb_backend st') = snd (vb_backend st))"
proof (cases "open_cube X (defaultProvisioner L) fl st")
  case (Inl e)
  with assms have "r = Some e" "st' = st" by (auto simp: runCreate_def runDelete_def runStatus_def)
  with open_cube_error [OF Inl] show ?thesis by (auto simp: execute_def domain_error_exit ExitError_def)
next
  case (Inr x)
  then obtain cfg c d st1 where o: "open_cube X (defaultProvisioner L) fl st = Inr (cfg, c, d, st1)"
    by (cases x) auto
  note oc = open_cube_state [OF o]
  have "domain_error e" if "r = Some e" for e
    using assms o oc that Init_error Delete_error Status_error apiServerState_error
    by (auto simp: runCreate_def runDelete_def runStatus_def Let_def split: prod.splits option.splits sum.splits)
  moreover have "vb_fs st' = vb_fs st \<and> snd (vb_backend st') = snd (vb_backend st)" if "verb = runStatus"
    using v o oc that
    by (auto simp: runStatus_def Let_def println_def split: prod.splits sum.splits dest: Status_reads)
  ultimately show ?thesis
    by (auto simp: execute_def domain_error_exit ExitError_def ExitSuccess_def split: option.splits)
qed

subsection \<open>create, then status\<close>

text \<open>Which container runtime is detected does not depend on the clusters or temporary directories.\<close>

definition detects_same :: "('h, 'k) kind_lib \<Rightarrow> bool" where
  "detects_same L \<longleftrightarrow>
     (\<forall>h n c p k. kl_Detect L (snd (kl_Create L h n c p k)) = kl_Detect L k) \<and>
     (\<forall>t k. kl_Detect L (kl_RemoveAll L t k) = kl_Detect L k) \<and>
     (\<forall>p k t k'. kl_MkdirTemp L p k = Inr (t, k') \<longrightarrow> kl_Detect L k' = kl_Detect L k)"

lemma kind_create_detect:
  "detects_same L \<Longrightarrow> kind_create L h n cfg k = (r, k') \<Longrightarrow> kl_Detect L k' = kl_Detect L k"
  unfolding kind_create_def detects_same_def
  by (auto split: sum.splits prod.splits option.splits) (metis snd_conv)+

definition remembers :: "('h, 'k) kind_lib \<Rightarrow> ('h, 'k) kind_state \<Rightarrow> bool" where
  "remembers L w \<longleftrightarrow> (case fst w of None \<Rightarrow> True | Some r \<Rightarrow> fst (kp L (None, snd w)) = r)"

lemma remembers_kp: "remembers L w \<Longrightarrow> kp L w = (r, w1) \<Longrightarrow> remembers L w1 \<and> fst (kp L (None, snd w)) = r \<and> snd w1 = snd w"
  by (cases w, cases "fst w") (auto simp: remembers_def kp_def Let_def split: prod.splits option.splits)

lemma remembers_world: "remembers L (c, k) \<Longrightarrow> kl_Detect L k' = kl_Detect L k \<Longrightarrow> remembers L (c, k')"
  by (cases c) (auto simp: remembers_def kp_def Let_def)

lemma remembers_Exists: "remembers L w \<Longrightarrow> kind_Exists L n w = (r, w1) \<Longrightarrow> remembers L w1"
  by (auto simp: kind_Exists_def split: prod.splits sum.splits dest: remembers_kp)

lemma remembers_Kubeconfig: "remembers L w \<Longrightarrow> kind_Kubeconfig L n w = (r, w1) \<Longrightarrow> remembers L w1"
  by (auto simp: kind_Kubeconfig_def split: prod.splits sum.splits dest: remembers_kp)

lemma remembers_Ensure:
  assumes "detects_same L" "remembers L w" "kind_Ensure L s w = (r, w1)"
  shows "remembers L w1"
proof -
  have "remembers L (fst w2, k)" if "remembers L w2" "kind_create L h n cfg (snd w2) = (r', k)" for w2 h n cfg r' k
    using that remembers_world [of L "fst w2" "snd w2" k] kind_create_detect [OF assms(1)] by simp
  then show ?thesis
    using assms(2,3)
    by (auto simp: kind_Ensure_def split: sum.splits prod.splits if_splits
        dest: remembers_Exists dest!: remembers_kp [THEN conjunct1, rotated])
qed

lemma remembers_Init:
  assumes "detects_same L" "Init Y V E (kind_provisioner L) opts ((None, k), fs) = (r, w', fs')"
  shows "remembers L w'"
proof -
  have n: "remembers L (None, k)" by (simp add: remembers_def)
  from assms(2) show ?thesis
    by (auto simp: Init_def Let_def kind_provisioner_def split: prod.splits sum.splits option.splits
        dest: remembers_Ensure [OF assms(1) n] remembers_Kubeconfig)
qed

lemma Exists_fresh:
  assumes "remembers L w"
  shows "fst (kind_Exists L n w) = fst (kind_Exists L n (None, snd w))"
proof -
  obtain r w1 where r: "kp L w = (r, w1)" by (rule prod.exhaust)
  obtain w2 where w2: "kp L (None, snd w) = (r, w2)" using remembers_kp [OF assms r] by (metis prod.collapse)
  from kp_cached [OF this] kp_cached [OF r] have "snd w2 = snd w1" by simp
  with r w2 show ?thesis by (simp add: kind_Exists_def split: sum.split)
qed

lemma Status_fresh:
  assumes "remembers L w" "Status Y V E (kind_provisioner L) opts ((None, snd w), fs) = (Inr r, w', fs')"
  shows "\<exists>w1. Status Y V E (kind_provisioner L) opts (w, fs) = (Inr r, w1, fs)"
proof -
  let ?path = "if do_KubeconfigPath opts = '''' then defaultKubeconfigPath V else Inr (do_KubeconfigPath opts)"
  from assms(2) obtain ex p i where x: "fst (kind_Exists L (do_Name opts) (None, snd w)) = Inr ex"
    and p: "?path = Inr p" and i: "contextInstalled Y E p (context_name (do_ContextName opts) (do_Name opts)) fs = Inr i"
    and r: "r = \<lparr>sr_ClusterExists = ex, sr_ContextInstalled = i,
      sr_ContextName = context_name (do_ContextName opts) (do_Name opts), sr_KubeconfigPath = p\<rparr>"
    by (cases ?path) (auto simp: Status_def Let_def kind_provisioner_def split: prod.splits sum.splits)
  obtain w1 where "kind_Exists L (do_Name opts) w = (Inr ex, w1)"
    using x Exists_fresh [OF assms(1), of "do_Name opts"] by (metis prod.collapse)
  with p i r show ?thesis by (simp add: Status_def Let_def kind_provisioner_def)
qed

definition status_lines :: "os_env \<Rightarrow> string \<Rightarrow> status_report \<Rightarrow> string \<Rightarrow> string list" where
  "status_lines E name rep api =
     [''cluster '' @ quoted E name @ '': '' @ (if sr_ClusterExists rep then ''exists'' else ''not found''),
      ''kubeconfig context '' @ quoted E (sr_ContextName rep) @ '': '' @ (if sr_ContextInstalled rep then ''installed in '' @ sr_KubeconfigPath rep else ''not installed''),
      ''api server: '' @ api]"

lemma runStatus_lines:
  assumes o: "open_cube X F fl st = Inr (cfg, c, d, s1)" and S: "runStatus X F fl st = (None, st2)"
  obtains rep w fs api ps where
    "Status (ve_kubeconfig X) (ve_kube X) (ve_os X) (dr_provisioner d) (target_options cfg fl) (vb_backend s1, vb_fs s1) = (Inr rep, w, fs)"
    "apiServerState X rep fs = (Inr api, ps)" "vb_fs st2 = vb_fs s1" "vb_backend st2 = w" "vb_probes st2 = vb_probes s1 @ ps"
    "vb_out st2 = vb_out s1 @ status_lines (ve_os X) (cfg_name cfg) rep api"
proof -
  from S o obtain rep w fs where r: "Status (ve_kubeconfig X) (ve_kube X) (ve_os X) (dr_provisioner d) (target_options cfg fl)
      (vb_backend s1, vb_fs s1) = (Inr rep, w, fs)" by (auto simp: runStatus_def split: prod.splits sum.splits)
  with S o obtain api ps where a: "apiServerState X rep fs = (Inr api, ps)"
    by (auto simp: runStatus_def Let_def split: prod.splits sum.splits)
  from S have st2: "st2 = snd (runStatus X F fl st)" by simp
  show thesis
    by (rule that [OF r a]) (unfold st2 runStatus_def o sum.case prod.case r a Let_def snd_conv println_def status_lines_def, simp_all)
qed

text \<open>
  C30. What create reports installed, status finds. After a create that wrote a standalone
  kubeconfig and returned no error, a status with the same flags, if it can report at all, leaves
  every file and the state of the container host as they were and prints that the cluster exists and
  that its context is installed in that file; it asks exactly one API server whether it is ready,
  and reports it reachable or unreachable, never unchecked.
\<close>

theorem create_then_status:
  assumes l: "kind_laws L" "detects_same L" "typed_keeps (ve_kubeconfig X)"
    and t: "fresh_temps (ve_os X)" "temp_apart (ve_os X) (fl_kubeconfig fl)"
    and p: "fl_kubeconfig fl \<noteq> ''''" "fl_config fl \<noteq> fl_kubeconfig fl"
    and C: "runCreate X (defaultProvisioner L) fl st = (None, st1)"
    and S: "runStatus X (defaultProvisioner L) fl st1 = (None, st2)"
  shows "\<exists>cfg api. LoadFile (ve_config X) (ve_os X) (vb_fs st) (fl_config fl) = Inr cfg \<and>
    api \<in> {''reachable'', ''unreachable''} \<and> vb_fs st2 = vb_fs st1 \<and>
    snd (vb_backend st2) = snd (vb_backend st1) \<and> (\<exists>host. vb_probes st2 = vb_probes st1 @ [host]) \<and>
    vb_out st2 = vb_out st1 @ [''cluster '' @ quoted (ve_os X) (cfg_name cfg) @ '': exists'',
      ''kubeconfig context '' @ quoted (ve_os X) (context_name (fl_contextName fl) (cfg_name cfg)) @ '': installed in '' @ fl_kubeconfig fl,
      ''api server: '' @ api]"
proof -
  from C obtain cfg c d s0 where o: "open_cube X (defaultProvisioner L) fl st = Inr (cfg, c, d, s0)"
    by (auto simp: runCreate_def split: sum.splits)
  note oc = open_cube_state [OF o]
  define opts where "opts = \<lparr>io_Spec = spec_of cfg c, io_ContextName = fl_contextName fl, io_Namespace = '''', io_KubeconfigPath = fl_kubeconfig fl\<rparr>"
  from C o oc obtain w fs where I: "Init (ve_kubeconfig X) (ve_kube X) (ve_os X) (kind_provisioner L) opts ((None, snd (vb_backend st)), vb_fs st) = (None, w, fs)"
    and s1: "vb_backend st1 = w" "vb_fs st1 = fs"
    by (auto simp: runCreate_def opts_def Let_def println_def split: prod.splits option.splits)
  have path: "io_KubeconfigPath opts = fl_kubeconfig fl" by (simp add: opts_def)
  obtain data where f: "map_of (files fs) = (map_of (files (vb_fs st)))(fl_kubeconfig fl \<mapsto> data)"
    using I
  proof (cases rule: Init_cases)
    case (written target raw w1 branded data)
    then have "target = fl_kubeconfig fl" using p(1) by (simp add: kube_target_def path)
    with written(5) writeKubeconfig_done [OF t] that show thesis by blast
  qed simp
  from S obtain cfg2 c2 d2 s2 where o2: "open_cube X (defaultProvisioner L) fl st1 = Inr (cfg2, c2, d2, s2)"
    by (auto simp: runStatus_def split: sum.splits)
  note oc2 = open_cube_state [OF o2]
  have "LoadFile (ve_config X) (ve_os X) (vb_fs st1) (fl_config fl) = LoadFile (ve_config X) (ve_os X) (vb_fs st) (fl_config fl)"
    using p(2) by (simp add: LoadFile_def read_file_def s1 f)
  with oc oc2 have same: "cfg2 = cfg" by simp
  have topt: "target_options cfg fl = options_of opts"
    by (simp add: target_options_def options_of_def opts_def spec_of_def)
  have e: "dr_provisioner d2 = kind_provisioner L" "target_options cfg2 fl = options_of opts"
    "vb_backend s2 = (None, snd w)" "vb_fs s2 = fs" "vb_out s2 = vb_out st1" "vb_probes s2 = vb_probes st1"
    using oc2 topt by (simp_all add: same s1)
  obtain rep w3 fs3 api ps where
    R3: "Status (ve_kubeconfig X) (ve_kube X) (ve_os X) (kind_provisioner L) (options_of opts) ((None, snd w), fs) = (Inr rep, w3, fs3)"
    and api: "apiServerState X rep fs3 = (Inr api, ps)"
    and out: "vb_fs st2 = fs" "vb_backend st2 = w3" "vb_probes st2 = vb_probes st1 @ ps" "vb_out st2 = vb_out st1 @ status_lines (ve_os X) (cfg_name cfg2) rep api"
    by (rule runStatus_lines [OF o2 S, unfolded e])
  from Status_reads [OF R3] R3 have R: "Status (ve_kubeconfig X) (ve_kube X) (ve_os X) (kind_provisioner L) (options_of opts)
      ((None, snd w), fs) = (Inr rep, w3, fs)" by simp
  from Status_fresh [OF remembers_Init [OF l(2) I] R] obtain w4 where
    "Status (ve_kubeconfig X) (ve_kube X) (ve_os X) (kind_provisioner L) (options_of opts) (w, fs) = (Inr rep, w4, fs)" ..
  from kind_create_status [OF l(1,3) t(1) _ _ I this] t(2) p(1)
  have rep: "rep = \<lparr>sr_ClusterExists = True, sr_ContextInstalled = True,
      sr_ContextName = context_name (fl_contextName fl) (cfg_name cfg), sr_KubeconfigPath = fl_kubeconfig fl\<rparr>"
    by (simp add: path) (simp add: opts_def spec_of_def)
  have "api \<in> {''reachable'', ''unreachable''}" "\<exists>host. ps = [host]"
    using api by (auto simp: rep apiServerState_def split: sum.splits option.splits)
  moreover have "snd w3 = snd w" using Status_reads [OF R3] by simp
  ultimately show ?thesis using oc out rep s1 same by (intro exI [of _ cfg] exI [of _ api]) (simp add: status_lines_def)
qed

subsection \<open>Instances\<close>

definition sample_client :: "(unit, unit, unit, unit, unit) kube_lib" where
  "sample_client =
     \<lparr>kb_Load = (\<lambda>raw. Inr \<lparr>ac_CurrentContext = '''', ac_Contexts = [''cube/dev''], ac_Body = ()\<rparr>),
      kb_ClientConfig = (\<lambda>a c. Inr ()), kb_Host = (\<lambda>r. ''h''), kb_Discovery = (\<lambda>r. Inr ()), kb_Dynamic = (\<lambda>r. Inr ()),
      kb_Mapper = (\<lambda>d. ()), kb_Readyz = (\<lambda>d. None)\<rparr>"

definition sample_verb_env :: "(unit, unit, unit, unit, unit) verb_env" where
  "sample_verb_env = \<lparr>ve_config = ConfigLoad.sample_yaml, ve_kubeconfig = sample_typed_yaml, ve_kube = sample_kube_env,
     ve_os = kube_os, ve_client = sample_client\<rparr>"

definition sample_flags :: verb_flags where
  "sample_flags = \<lparr>fl_config = ''cube.yaml'', fl_kubeconfig = ''k'', fl_contextName = ''cube/dev'', fl_name = ''''\<rparr>"

definition sample_verbs :: "(unit, string list) kind_state verb_state" where
  "sample_verbs = \<lparr>vb_backend = (None, []), vb_fs = \<lparr>files = [(''cube.yaml'', ''doc'')], dirs = []\<rparr>, vb_out = [], vb_probes = []\<rparr>"

lemma sample_detects: "detects_same sample_kind"
  by (simp add: detects_same_def sample_kind_def)

definition sample_loaded :: config where
  "sample_loaded =
     \<lparr>cfg_apiVersion = group_version, cfg_kind = ''Config'', cfg_name = ''dev'',
      cfg_cluster = Some \<lparr>cs_provider = ''kind'', cs_forProvider = None\<rparr>,
      cfg_engine = None, cfg_gateway = Some \<lparr>gw_domain = ''dev.cube.test''\<rparr>, cfg_ca = None,
      cfg_prereqs = defaultPrerequisites, cfg_packs = []\<rparr>"

lemma sample_default: "config_default sample_config = sample_loaded"
  by code_simp

lemma sample_load:
  "map_of (files fs) ''cube.yaml'' = Some raw \<Longrightarrow> LoadFile ConfigLoad.sample_yaml kube_os fs ''cube.yaml'' = Inr sample_loaded"
  using sample_complete
  by (simp add: LoadFile_def read_file_def kube_os_def decode_def ConfigLoad.sample_yaml_def Let_def sample_default
      config_validate_complete [symmetric])

lemma verb_sample_open:
  "map_of (files (vb_fs st)) ''cube.yaml'' = Some raw \<Longrightarrow>
     open_cube sample_verb_env (defaultProvisioner sample_kind) sample_flags st =
       Inr (sample_loaded, \<lparr>cs_provider = ''kind'', cs_forProvider = None\<rparr>, fst (kind_New sample_kind (vb_backend st)),
         st\<lparr>vb_backend := (None, snd (vb_backend st))\<rparr>)"
  by (simp add: open_cube_def sample_verb_env_def sample_flags_def sample_load)
    (simp add: sample_loaded_def defaultProvisioner_def ClusterProviderKind_def kind_New_def)

lemma sample_doc: "map_of (files (vb_fs sample_verbs)) ''cube.yaml'' = Some ''doc''"
  by (simp add: sample_verbs_def)

abbreviation sample_exists_line :: string where
  "sample_exists_line \<equiv> ''config cube.yaml exists '' @ em_dash @ '' cube \"dev\"''"

lemma sample_quoted [simp]:
  "go_quote print ''dev'' = ''\"dev\"''" "go_quote print ''cube/dev'' = ''\"cube/dev\"''"
  by (simp_all add: go_quote_plain plain_char_def Let_def)

lemma sample_init_run:
  "runInit ConfigLoad.sample_yaml kube_os r1 r2 sample_flags sample_verbs =
     (None, println sample_exists_line sample_verbs)"
  using sample_doc
  by (simp add: runInit_def scaffoldIfAbsent_def os_stat_def kube_os_def exists_path_def sample_flags_def ErrNotExist_def)
    (simp add: sample_load [unfolded kube_os_def] sample_loaded_def)

lemma init_idempotent_witness:
  "runInit ConfigLoad.sample_yaml kube_os (\<lambda>n. 0) (\<lambda>n. 1) sample_flags (println sample_exists_line sample_verbs) =
     (None, println sample_exists_line (println sample_exists_line sample_verbs))"
proof -
  let ?st = "println sample_exists_line sample_verbs"
  have l: "LoadFile ConfigLoad.sample_yaml kube_os (vb_fs ?st) (fl_config sample_flags) = Inr sample_loaded"
    using sample_doc by (simp add: sample_flags_def println_def sample_load)
  from init_idempotent [OF sample_init_run [of "\<lambda>n. 0" "\<lambda>n. 0"], of "\<lambda>n. 0" "\<lambda>n. 1"] l
  show ?thesis by (simp add: sample_flags_def sample_loaded_def)
qed

definition sample_installed_fs :: fsys where
  "sample_installed_fs = \<lparr>files = [(''cube.yaml'', ''doc''), (''k'', ''cube'')], dirs = [''.'']\<rparr>"

definition sample_created :: "(unit, string list) kind_state verb_state" where
  "sample_created = \<lparr>vb_backend = (Some (Inr ()), [''dev'']), vb_fs = sample_installed_fs,
     vb_out = [''cluster \"dev\" ready '' @ em_dash @ '' kubeconfig context \"cube/dev\" installed''], vb_probes = []\<rparr>"

lemma sample_create: "runCreate sample_verb_env (defaultProvisioner sample_kind) sample_flags sample_verbs = (None, sample_created)"
proof -
  have i: "Init sample_typed_yaml sample_kube_env kube_os (kind_provisioner sample_kind)
      \<lparr>io_Spec = \<lparr>vs_Name = ''dev'', vs_ForProvider = None\<rparr>, io_ContextName = ''cube/dev'', io_Namespace = '''', io_KubeconfigPath = ''k''\<rparr>
      ((None, []), \<lparr>files = [(''cube.yaml'', ''doc'')], dirs = []\<rparr>) = (None, (Some (Inr ()), [''dev'']), sample_installed_fs)"
    by code_simp
  show ?thesis
    unfolding runCreate_def verb_sample_open [OF sample_doc]
    using i by (simp add: sample_verb_env_def sample_flags_def kind_New_def spec_of_def sample_loaded_def sample_verbs_def
        println_def sample_created_def)
qed

definition sample_status_state :: "(unit, string list) kind_state verb_state" where
  "sample_status_state = sample_created\<lparr>vb_probes := [''h''], vb_out := vb_out sample_created @
     [''cluster \"dev\": exists'', ''kubeconfig context \"cube/dev\": installed in k'', ''api server: reachable'']\<rparr>"

lemma sample_status: "runStatus sample_verb_env (defaultProvisioner sample_kind) sample_flags sample_created = (None, sample_status_state)"
proof -
  have d: "map_of (files (vb_fs sample_created)) ''cube.yaml'' = Some ''doc''"
    by (simp add: sample_created_def sample_installed_fs_def)
  have s: "Status sample_typed_yaml sample_kube_env kube_os (kind_provisioner sample_kind)
      \<lparr>do_Name = ''dev'', do_ContextName = ''cube/dev'', do_KubeconfigPath = ''k''\<rparr> ((None, [''dev'']), sample_installed_fs) =
      (Inr \<lparr>sr_ClusterExists = True, sr_ContextInstalled = True, sr_ContextName = ''cube/dev'', sr_KubeconfigPath = ''k''\<rparr>,
       (Some (Inr ()), [''dev'']), sample_installed_fs)" by code_simp
  have a: "apiServerState sample_verb_env \<lparr>sr_ClusterExists = True, sr_ContextInstalled = True, sr_ContextName = ''cube/dev'', sr_KubeconfigPath = ''k''\<rparr>
      sample_installed_fs = (Inr ''reachable'', [''h''])"
    by (simp add: apiServerState_def sample_verb_env_def kube_os_def read_file_def sample_installed_fs_def kube_New_def
        sample_client_def Ping_def Let_def)
  show ?thesis
    unfolding runStatus_def verb_sample_open [OF d]
    using s a by (simp add: sample_verb_env_def sample_flags_def kind_New_def target_options_def sample_loaded_def
        println_def sample_created_def sample_status_state_def Let_def)
qed

lemma create_then_status_witness:
  "\<exists>api. api \<in> {''reachable'', ''unreachable''} \<and> vb_fs sample_status_state = vb_fs sample_created \<and>
     snd (vb_backend sample_status_state) = snd (vb_backend sample_created)"
proof -
  have "fresh_temps (ve_os sample_verb_env)" "temp_apart (ve_os sample_verb_env) (fl_kubeconfig sample_flags)"
    "typed_keeps (ve_kubeconfig sample_verb_env)" "fl_kubeconfig sample_flags \<noteq> ''''" "fl_config sample_flags \<noteq> fl_kubeconfig sample_flags"
    by (simp_all add: sample_verb_env_def sample_flags_def kube_os_fresh kube_os_apart sample_typed_keeps)
  from create_then_status [OF sample_kind_laws(1) sample_detects this(3,1,2,4,5) sample_create sample_status]
  show ?thesis by blast
qed

lemma verbs_fail_closed_witness:
  "execute (runStatus sample_verb_env (defaultProvisioner sample_kind) sample_flags sample_created) = 0 \<and>
   vb_fs sample_status_state = vb_fs sample_created"
  using verbs_fail_closed [where verb = runStatus, OF _ sample_status] by (simp add: sample_status execute_def ExitSuccess_def)

end
