(* ===== verification/GatewayCorefile.thy ===== *)
theory GatewayCorefile
  imports ConfigTypes
begin

section \<open>The CoreDNS Corefile splice (\<open>internal/gateway/corefile.go\<close>)\<close>

text \<open>
  A Corefile is its text; the splice works on its lines. Line indexes are the positions of
  \<open>strings.Split(corefile, "\n")\<close>; \<open>findLines\<close> gives them in ascending order. A Go slice
  expression \<open>lines[:b]\<close> is \<open>take b lines\<close>, \<open>lines[e:]\<close> is \<open>drop e lines\<close>.
\<close>

definition gateway_Namespace :: string where "gateway_Namespace = ''gateway-system''"
definition gateway_Name :: string where "gateway_Name = ''gateway''"
definition clusterSuffix :: string where "clusterSuffix = ''svc.cluster.local''"

definition ServiceFQDN :: string where
  "ServiceFQDN = gateway_Name @ ''.'' @ gateway_Namespace @ ''.'' @ clusterSuffix @ ''.''"

abbreviation CodeCorefileStructure :: code where "CodeCorefileStructure \<equiv> ''CUBE-GWY-004''"

definition newCorefileStructureError :: "string \<Rightarrow> err" where
  "newCorefileStructureError detail = wrap CodeCorefileStructure [detail] None"

definition markerBeginPrefix :: string where "markerBeginPrefix = ''# cube-idp:begin ''"
definition markerEndPrefix :: string where "markerEndPrefix = ''# cube-idp:end ''"
definition blockIndent :: string where "blockIndent = ''    ''"
definition ruleIndent :: string where "ruleIndent = ''        ''"
definition defaultServerToken :: string where "defaultServerToken = ''.:53''"

text \<open>\<open>regexp.QuoteMeta\<close>: a backslash before every byte of \<open>\.+*?()|[]{}^$\<close>.\<close>

definition meta_chars :: string where
  "meta_chars = CHR 0x5C # ''.+*?()|[]{}^$''"

definition QuoteMeta :: "string \<Rightarrow> string" where
  "QuoteMeta s = concat (map (\<lambda>c. if c \<in> set meta_chars then [CHR 0x5C, c] else [c]) s)"

definition isDefaultServerOpen :: "string \<Rightarrow> bool" where
  "isDefaultServerOpen line =
     (let t = trim_space line
      in if \<not> has_prefix t defaultServerToken \<or> \<not> has_suffix t ''{'' then False
         else trim_space (drop (length defaultServerToken) (take (length t - 1) t)) = '''')"

fun find_from :: "nat \<Rightarrow> (string \<Rightarrow> bool) \<Rightarrow> string list \<Rightarrow> nat list" where
  "find_from n P [] = []"
| "find_from n P (line # ls) = (if P line then n # find_from (Suc n) P ls else find_from (Suc n) P ls)"

definition findLines :: "string list \<Rightarrow> string \<Rightarrow> nat list" where
  "findLines lines want = find_from 0 (\<lambda>line. trim_space line = want) lines"

definition renderBlock :: "string \<Rightarrow> string \<Rightarrow> string list" where
  "renderBlock cubeName domain =
     [blockIndent @ markerBeginPrefix @ cubeName,
      blockIndent @ ''rewrite stop {'',
      ruleIndent @ ''name regex (.*)'' @ [CHR 0x5C] @ ''.'' @ QuoteMeta domain @ [CHR 0x5C] @ ''.$ '' @ ServiceFQDN,
      ruleIndent @ ''answer auto'',
      blockIndent @ ''}'',
      blockIndent @ markerEndPrefix @ cubeName]"

definition markerRange :: "string list \<Rightarrow> string \<Rightarrow> (nat \<times> nat) option res" where
  "markerRange lines cubeName =
     (let begins = findLines lines (markerBeginPrefix @ cubeName);
          ends = findLines lines (markerEndPrefix @ cubeName)
      in if length begins = 0 \<and> length ends = 0 then Inr None
         else if length begins > 1 \<or> length ends > 1 then
           Inl (newCorefileStructureError (''cube '' @ cubeName @ '' has '' @ itoa (int (length begins)) @
             '' begin and '' @ itoa (int (length ends)) @ '' end markers''))
         else if length ends = 0 then
           Inl (newCorefileStructureError (''marker '' @ markerBeginPrefix @ cubeName @ '' has no matching end''))
         else if length begins = 0 then
           Inl (newCorefileStructureError (''marker '' @ markerEndPrefix @ cubeName @ '' has no matching begin''))
         else if ends ! 0 < begins ! 0 then
           Inl (newCorefileStructureError (''marker '' @ markerEndPrefix @ cubeName @ '' appears first''))
         else Inr (Some (begins ! 0, ends ! 0)))"

definition requireServerBlockAbove :: "string list \<Rightarrow> nat \<Rightarrow> err option" where
  "requireServerBlockAbove lines begin =
     (if list_ex isDefaultServerOpen (take begin lines) then None
      else Some (newCorefileStructureError ''marker block above every server block''))"

definition defaultServerLine :: "string list \<Rightarrow> nat res" where
  "defaultServerLine lines =
     (let opens = find_from 0 isDefaultServerOpen lines
      in if length opens = 0 then Inl (newCorefileStructureError ''no server block to splice into'')
         else if length opens = 1 then Inr (opens ! 0)
         else Inl (newCorefileStructureError (''found '' @ itoa (int (length opens)) @ '' server blocks'')))"

definition newline :: char where "newline = CHR 0x0A"

definition spliceLines :: "string list \<Rightarrow> string list \<Rightarrow> string list \<Rightarrow> string" where
  "spliceLines pre block post = join_with newline (pre @ block @ post)"

definition CorefileSplice :: "string \<Rightarrow> string \<Rightarrow> string \<Rightarrow> string res" where
  "CorefileSplice corefile cubeName domain =
     (let lines = split_on newline corefile; block = renderBlock cubeName domain in
      bindR (markerRange lines cubeName) (\<lambda>found.
        case found of
          Some (b, e) \<Rightarrow>
            (case requireServerBlockAbove lines b of
               Some err \<Rightarrow> Inl err
             | None \<Rightarrow> Inr (spliceLines (take b lines) block (drop (e + 1) lines)))
        | None \<Rightarrow>
            bindR (defaultServerLine lines) (\<lambda>open.
              Inr (spliceLines (take (open + 1) lines) block (drop (open + 1) lines)))))"

subsection \<open>Lines\<close>

lemma find_from_append: "find_from n P (xs @ ys) = find_from n P xs @ find_from (n + length xs) P ys"
  by (induction xs arbitrary: n) auto

lemma find_from_Nil: "find_from n P xs = [] \<longleftrightarrow> list_all (\<lambda>l. \<not> P l) xs"
  by (induction xs arbitrary: n) auto

lemma find_from_single:
  "find_from n P xs = [i] \<Longrightarrow>
     \<exists>us l vs. xs = us @ l # vs \<and> i = n + length us \<and> P l \<and>
       list_all (\<lambda>l. \<not> P l) us \<and> list_all (\<lambda>l. \<not> P l) vs"
proof (induction xs arbitrary: n)
  case Nil
  then show ?case by simp
next
  case (Cons x xs)
  show ?case
  proof (cases "P x")
    case True
    with Cons.prems have "i = n" "list_all (\<lambda>l. \<not> P l) xs" by (auto simp: find_from_Nil)
    with True show ?thesis by (intro exI [of _ "[]"] exI [of _ x] exI [of _ xs]) simp
  next
    case False
    with Cons obtain us l vs where "xs = us @ l # vs" "i = Suc n + length us" "P l"
      "list_all (\<lambda>l. \<not> P l) us" "list_all (\<lambda>l. \<not> P l) vs" by fastforce
    with False show ?thesis by (intro exI [of _ "x # us"] exI [of _ l] exI [of _ vs]) simp
  qed
qed

lemma name_char_clean: "name_char c \<or> c = CHR ''-'' \<Longrightarrow> ascii c \<and> \<not> is_space (of_char c) \<and> c \<noteq> newline"
proof -
  have lo: "ascii c \<and> \<not> is_space (of_char c) \<and> c \<noteq> newline" if "48 \<le> (of_char c :: nat)" "(of_char c :: nat) \<le> 122"
    using that by (auto simp: ascii_def is_space_def newline_def)
  assume "name_char c \<or> c = CHR ''-''"
  then consider "is_lower c" | "is_digit c" | "c = CHR ''-''"
    by (auto simp: name_char_def)
  then show ?thesis
  proof cases
    case 1 then show ?thesis by (intro lo) (simp_all add: is_lower_def less_eq_char_def)
  next
    case 2 then show ?thesis by (intro lo) (simp_all add: is_digit_def less_eq_char_def)
  next
    case 3 then show ?thesis by (simp add: ascii_def is_space_def newline_def)
  qed
qed

lemma nameRE_clean:
  assumes "nameRE c"
  shows "list_all ascii c" "c \<noteq> []" "\<not> is_space (of_char (last c))" "newline \<notin> set c"
proof -
  have "c \<noteq> []" using assms by (auto simp: nameRE_def)
  moreover have "\<forall>d \<in> set c. ascii d \<and> \<not> is_space (of_char d) \<and> d \<noteq> newline"
    using assms nameRE_chars name_char_clean by blast
  ultimately show "list_all ascii c" "c \<noteq> []" "\<not> is_space (of_char (last c))" "newline \<notin> set c"
    by (auto simp: list_all_iff)
qed

abbreviation begin_mark :: "string \<Rightarrow> string" where
  "begin_mark c \<equiv> markerBeginPrefix @ c"

abbreviation end_mark :: "string \<Rightarrow> string" where
  "end_mark c \<equiv> markerEndPrefix @ c"

lemma marks_differ [simp]: "begin_mark c \<noteq> end_mark c'" "end_mark c' \<noteq> begin_mark c"
  by (simp_all add: markerBeginPrefix_def markerEndPrefix_def)

lemma prefixes_differ [simp]:
  "markerBeginPrefix \<noteq> markerEndPrefix" "markerEndPrefix \<noteq> markerBeginPrefix"
  by (simp_all add: markerBeginPrefix_def markerEndPrefix_def)

lemma length_one: "xs \<noteq> [] \<Longrightarrow> length xs \<le> Suc 0 \<Longrightarrow> length xs = Suc 0"
  by (cases xs) auto

lemma singleton_nth: "length xs = 1 \<Longrightarrow> xs ! 0 = x \<Longrightarrow> xs = [x]"
  by (cases xs) auto

lemma trim_marks:
  assumes "nameRE c"
  shows "trim_space (blockIndent @ begin_mark c) = begin_mark c"
    and "trim_space (blockIndent @ end_mark c) = end_mark c"
proof -
  note N = nameRE_clean [OF assms]
  have "trim_space (begin_mark c) = begin_mark c"
    by (rule trim_space_clean) (use N in \<open>auto simp: markerBeginPrefix_def ascii_def is_space_def\<close>)
  then show "trim_space (blockIndent @ begin_mark c) = begin_mark c"
    by (simp add: blockIndent_def)
  have "trim_space (end_mark c) = end_mark c"
    by (rule trim_space_clean) (use N in \<open>auto simp: markerEndPrefix_def ascii_def is_space_def\<close>)
  then show "trim_space (blockIndent @ end_mark c) = end_mark c"
    by (simp add: blockIndent_def)
qed

text \<open>The four lines between the markers: none of them is a marker or opens a server block.\<close>

definition inner_lines :: "string \<Rightarrow> string list" where
  "inner_lines domain =
     [blockIndent @ ''rewrite stop {'',
      ruleIndent @ ''name regex (.*)'' @ [CHR 0x5C] @ ''.'' @ QuoteMeta domain @ [CHR 0x5C] @ ''.$ '' @ ServiceFQDN,
      ruleIndent @ ''answer auto'',
      blockIndent @ ''}'']"

lemma renderBlock_lines:
  "renderBlock c d = (blockIndent @ begin_mark c) # inner_lines d @ [blockIndent @ end_mark c]"
  by (simp add: renderBlock_def inner_lines_def)

lemma length_inner [simp]: "length (inner_lines d) = 4"
  by (simp add: inner_lines_def)

lemma inner_trim:
  "list_all (\<lambda>l. \<exists>h r. trim_space l = h # r \<and> h \<noteq> CHR ''#'' \<and> h \<noteq> CHR ''.'') (inner_lines d)"
proof -
  have "\<exists>r. trim_space (h # s) = h # r" if "h \<in> {CHR ''r'', CHR ''n'', CHR ''a'', CHR ''}''}" for h s
    by (rule trim_space_hd) (use that in \<open>auto simp: ascii_def is_space_def\<close>)
  then have "\<exists>r. trim_space (CHR ''r'' # s) = CHR ''r'' # r" "\<exists>r. trim_space (CHR ''n'' # s) = CHR ''n'' # r"
    "\<exists>r. trim_space (CHR ''a'' # s) = CHR ''a'' # r" "\<exists>r. trim_space (CHR ''}'' # s) = CHR ''}'' # r" for s
    by blast+
  then show ?thesis
    by (fastforce simp: inner_lines_def blockIndent_def ruleIndent_def)
qed

lemma open_dot: "isDefaultServerOpen l \<Longrightarrow> \<exists>r. trim_space l = CHR ''.'' # r"
  by (cases "trim_space l") (auto simp: isDefaultServerOpen_def defaultServerToken_def Let_def split: if_splits)

lemma mark_hash: "\<exists>r. begin_mark c = CHR ''#'' # r" "\<exists>r. end_mark c = CHR ''#'' # r"
  by (simp_all add: markerBeginPrefix_def markerEndPrefix_def)

lemma inner_clean:
  "list_all (\<lambda>l. \<not> isDefaultServerOpen l \<and> trim_space l \<noteq> begin_mark c \<and> trim_space l \<noteq> end_mark c) (inner_lines d)"
  unfolding list_all_iff
proof
  fix l assume "l \<in> set (inner_lines d)"
  then obtain h r where "trim_space l = h # r" "h \<noteq> CHR ''#''" "h \<noteq> CHR ''.''"
    using inner_trim [of d] by (auto simp: list_all_iff)
  then show "\<not> isDefaultServerOpen l \<and> trim_space l \<noteq> begin_mark c \<and> trim_space l \<noteq> end_mark c"
    using open_dot [of l] mark_hash [of c] by auto
qed

lemma block_not_open:
  assumes "nameRE c"
  shows "list_all (\<lambda>l. \<not> isDefaultServerOpen l) (renderBlock c d)"
proof -
  have "\<not> isDefaultServerOpen (blockIndent @ begin_mark c)" "\<not> isDefaultServerOpen (blockIndent @ end_mark c)"
    using trim_marks [OF assms] open_dot [of "blockIndent @ begin_mark c"]
      open_dot [of "blockIndent @ end_mark c"] mark_hash [of c] by auto
  then show ?thesis
    using inner_clean [of c d] by (simp add: renderBlock_lines list_all_iff)
qed

text \<open>No line of \<open>ls\<close> is a marker of cube \<open>c\<close>.\<close>

definition unmarked :: "string \<Rightarrow> string list \<Rightarrow> bool" where
  "unmarked c ls \<longleftrightarrow> list_all (\<lambda>l. trim_space l \<noteq> begin_mark c \<and> trim_space l \<noteq> end_mark c) ls"

lemma unmarked_simps [simp]:
  "unmarked c []" "unmarked c (l # ls) \<longleftrightarrow> trim_space l \<noteq> begin_mark c \<and> trim_space l \<noteq> end_mark c \<and> unmarked c ls"
  "unmarked c (xs @ ys) \<longleftrightarrow> unmarked c xs \<and> unmarked c ys"
  by (auto simp: unmarked_def)

lemma unmarked_findLines:
  "unmarked c ls \<longleftrightarrow> findLines ls (begin_mark c) = [] \<and> findLines ls (end_mark c) = []"
  by (auto simp: unmarked_def findLines_def find_from_Nil list_all_iff)

lemma unmarked_find:
  "unmarked c ls \<Longrightarrow> find_from n (\<lambda>l. trim_space l = begin_mark c) ls = [] \<and>
     find_from n (\<lambda>l. trim_space l = end_mark c) ls = []"
  by (simp add: find_from_Nil unmarked_def list_all_iff)

lemma inner_unmarked: "unmarked c (inner_lines d)"
  using inner_clean [of c d] by (simp add: unmarked_def list_all_iff)

lemma foreign_unmarked: "nameRE c \<Longrightarrow> c \<noteq> c' \<Longrightarrow> unmarked c' (renderBlock c d)"
  by (simp add: renderBlock_lines trim_marks inner_unmarked)

lemma markerRange_block:
  assumes "nameRE c" "unmarked c pre" "unmarked c post"
  shows "markerRange (pre @ renderBlock c d @ post) c = Inr (Some (length pre, length pre + 5))"
proof -
  have "findLines (pre @ renderBlock c d @ post) (begin_mark c) = [length pre]"
    "findLines (pre @ renderBlock c d @ post) (end_mark c) = [length pre + 5]"
    using unmarked_find [OF assms(2)] unmarked_find [OF assms(3)] unmarked_find [OF inner_unmarked]
    by (simp_all add: findLines_def find_from_append renderBlock_lines trim_marks [OF assms(1)])
  then show ?thesis by (simp add: markerRange_def)
qed

lemma QuoteMeta_set: "set (QuoteMeta d) \<subseteq> insert (CHR 0x5C) (set d)"
  by (auto simp: QuoteMeta_def split: if_splits)

lemma const_no_newline:
  "newline \<notin> set markerBeginPrefix" "newline \<notin> set markerEndPrefix" "newline \<notin> set blockIndent"
  "newline \<notin> set ruleIndent" "newline \<notin> set ServiceFQDN" "newline \<notin> set ''rewrite stop {''"
  "newline \<notin> set ''name regex (.*)''" "newline \<notin> set ''.$ ''" "newline \<notin> set ''answer auto''"
  "newline \<noteq> CHR ''.''" "newline \<noteq> CHR 0x5C" "newline \<noteq> CHR ''}''"
  by code_simp+

lemma block_no_newline:
  assumes "nameRE c" "newline \<notin> set d"
  shows "\<forall>l \<in> set (renderBlock c d). newline \<notin> set l"
proof -
  have "newline \<notin> set (QuoteMeta d)"
    using QuoteMeta_set [of d] assms(2) const_no_newline(11) by auto
  then show ?thesis
    using nameRE_clean(4) [OF assms(1)] const_no_newline
    by (simp only: renderBlock_def list.set set_append ball_simps Un_iff insert_iff empty_iff simp_thms)
qed

lemma split_splice:
  assumes "\<forall>l \<in> set (pre @ post). newline \<notin> set l" "nameRE c" "newline \<notin> set d"
  shows "split_on newline (spliceLines pre (renderBlock c d) post) = pre @ renderBlock c d @ post"
  unfolding spliceLines_def
proof (rule split_join)
  show "pre @ renderBlock c d @ post \<noteq> []" by (simp add: renderBlock_lines)
  show "\<forall>l \<in> set (pre @ renderBlock c d @ post). newline \<notin> set l"
    using assms(1) block_no_newline [OF assms(2,3)] by (simp only: set_append ball_Un) blast
qed

lemma splice_again:
  assumes "\<forall>l \<in> set (pre @ post). newline \<notin> set l" "nameRE c" "newline \<notin> set d"
    and "unmarked c pre" "unmarked c post" "list_ex isDefaultServerOpen pre"
  shows "CorefileSplice (spliceLines pre (renderBlock c d) post) c d' = Inr (spliceLines pre (renderBlock c d') post)"
  by (simp add: CorefileSplice_def split_splice [OF assms(1-3)] markerRange_block [OF assms(2,4,5)]
      requireServerBlockAbove_def assms(6)) (simp add: renderBlock_lines)

subsection \<open>The shape of a successful splice\<close>

text \<open>The region between a cube's markers, the markers included; empty when there is none.\<close>

definition marked_region :: "string \<Rightarrow> string list \<Rightarrow> bool" where
  "marked_region c old \<longleftrightarrow>
     (if old = [] then True else trim_space (hd old) = begin_mark c \<and> trim_space (last old) = end_mark c)"

lemma two_marks:
  assumes "us @ l # vs = us' @ l' # vs'" "length us < length us'"
  shows "\<exists>mid. us' = us @ l # mid \<and> vs = mid @ l' # vs'"
  using assms by (auto simp: append_eq_append_conv2 append_eq_Cons_conv Cons_eq_append_conv)

lemma markerRange_Some:
  assumes "markerRange lines c = Inr (Some (b, e))"
  shows "\<exists>pre old post. lines = pre @ old @ post \<and> length pre = b \<and> length (pre @ old) = e + 1 \<and>
    old \<noteq> [] \<and> marked_region c old \<and> unmarked c pre \<and> unmarked c post"
proof -
  let ?B = "\<lambda>l. trim_space l = begin_mark c" and ?E = "\<lambda>l. trim_space l = end_mark c"
  have l: "length (findLines lines (begin_mark c)) = 1" "length (findLines lines (end_mark c)) = 1"
    "findLines lines (begin_mark c) ! 0 = b" "findLines lines (end_mark c) ! 0 = e" and le: "b \<le> e"
    using assms by (auto simp: markerRange_def Let_def not_less intro!: length_one split: if_splits)
  have f: "find_from 0 ?B lines = [b]" "find_from 0 ?E lines = [e]"
    using singleton_nth [OF l(1,3)] singleton_nth [OF l(2,4)] by (simp_all only: findLines_def)
  from find_from_single [OF f(1)] obtain us l vs where
    1: "lines = us @ l # vs" "b = length us" "?B l" "list_all (\<lambda>l. \<not> ?B l) us" "list_all (\<lambda>l. \<not> ?B l) vs"
    by auto
  from find_from_single [OF f(2)] obtain us' l' vs' where
    2: "lines = us' @ l' # vs'" "e = length us'" "?E l'" "list_all (\<lambda>l. \<not> ?E l) us'" "list_all (\<lambda>l. \<not> ?E l) vs'"
    by auto
  have "b \<noteq> e"
    using 1 2 marks_differ by (metis append_eq_append_conv list.inject)
  with le 1(2) 2(2) have "length us < length us'" by simp
  from two_marks [OF _ this, of l vs l' vs'] 1(1) 2(1) obtain mid where
    m: "us' = us @ l # mid" "vs = mid @ l' # vs'" by auto
  show ?thesis
    by (rule exI [of _ us], rule exI [of _ "l # mid @ [l']"], rule exI [of _ vs'])
      (use 1 2 m in \<open>auto simp: marked_region_def unmarked_def list_all_iff\<close>)
qed

lemma find_one_open:
  "defaultServerLine lines = Inr i \<Longrightarrow> \<exists>us l vs. lines = us @ l # vs \<and> i = length us \<and> isDefaultServerOpen l \<and>
     list_all (\<lambda>l. \<not> isDefaultServerOpen l) us \<and> list_all (\<lambda>l. \<not> isDefaultServerOpen l) vs"
  using find_from_single [of 0 isDefaultServerOpen lines i]
  by (auto simp: defaultServerLine_def Let_def length_Suc_conv split: if_splits)

lemma splice_shape:
  assumes "CorefileSplice f c d = Inr g"
  shows "\<exists>pre old post. split_on newline f = pre @ old @ post \<and> g = spliceLines pre (renderBlock c d) post \<and>
    marked_region c old \<and> unmarked c pre \<and> unmarked c post \<and> list_ex isDefaultServerOpen pre \<and>
    (old = [] \<longrightarrow> pre \<noteq> [] \<and> filter isDefaultServerOpen (split_on newline f) = [last pre]) \<and>
    (\<forall>d'. CorefileSplice f c d' = Inr (spliceLines pre (renderBlock c d') post))"
proof -
  let ?ls = "split_on newline f"
  from assms obtain r where r: "markerRange ?ls c = Inr r"
    by (auto simp: CorefileSplice_def Let_def res_simps)
  show ?thesis
  proof (cases r)
    case None
    with r assms obtain i where i: "defaultServerLine ?ls = Inr i"
      and g: "g = spliceLines (take (i + 1) ?ls) (renderBlock c d) (drop (i + 1) ?ls)"
      by (auto simp: CorefileSplice_def Let_def res_simps)
    have u: "unmarked c ?ls"
      using r None by (auto simp: markerRange_def unmarked_findLines Let_def split: if_splits)
    from find_one_open [OF i] obtain us l vs where
      l: "?ls = us @ l # vs" "i = length us" "isDefaultServerOpen l"
        "list_all (\<lambda>l. \<not> isDefaultServerOpen l) us" "list_all (\<lambda>l. \<not> isDefaultServerOpen l) vs" by blast
    have "filter isDefaultServerOpen us = []" "filter isDefaultServerOpen vs = []"
      using l(4,5) by (simp_all add: filter_empty_conv list_all_iff)
    then have "filter isDefaultServerOpen ?ls = [l]" by (simp add: l(1,3))
    moreover have "take (i + 1) ?ls = us @ [l]" "drop (i + 1) ?ls = vs" by (simp_all add: l(1,2))
    ultimately show ?thesis using u g l(1-3) r None i
      by - (rule exI [of _ "us @ [l]"], rule exI [of _ "[]"], rule exI [of _ vs],
        simp add: marked_region_def CorefileSplice_def)
  next
    case (Some p)
    then obtain b e where p: "r = Some (b, e)" by (cases p) auto
    with r assms have o: "list_ex isDefaultServerOpen (take b ?ls)"
      and g: "g = spliceLines (take b ?ls) (renderBlock c d) (drop (e + 1) ?ls)"
      by (auto simp: CorefileSplice_def Let_def requireServerBlockAbove_def split: if_splits)
    from markerRange_Some [OF r [unfolded p]] obtain pre old post where
      m: "?ls = pre @ old @ post" "length pre = b" "length (pre @ old) = e + 1"
        "old \<noteq> []" "marked_region c old" "unmarked c pre" "unmarked c post" by blast
    have t: "take b ?ls = pre" using m(1,2) by simp
    have dr: "drop (e + 1) ?ls = post"
      unfolding m(1) m(3) [symmetric] by simp
    have again: "CorefileSplice f c d' = Inr (spliceLines pre (renderBlock c d') post)" for d'
      using r p o t dr by (simp add: CorefileSplice_def requireServerBlockAbove_def Let_def)
    from m g o t dr again show ?thesis
      by (intro exI [of _ pre] exI [of _ old] exI [of _ post]) simp
  qed
qed

subsection \<open>The contract\<close>

lemma splice_settles:
  assumes "CorefileSplice f c d = Inr g" and "nameRE c" and "newline \<notin> set d"
  shows "CorefileSplice g c d = Inr g"
proof -
  from splice_shape [OF assms(1)] obtain pre old post where
    s: "split_on newline f = pre @ old @ post" "g = spliceLines pre (renderBlock c d) post"
      "unmarked c pre" "unmarked c post" "list_ex isDefaultServerOpen pre" by blast
  have "\<forall>l \<in> set (pre @ post). newline \<notin> set l"
    using split_on_pieces [of _ newline f] s(1) by auto
  from splice_again [OF this assms(2,3) s(3,4,5), of d] s(2) show ?thesis by simp
qed

text \<open>
  C21. A splice that succeeds leaves exactly one block of the cube and changes nothing else: the
  new Corefile is the old one with the six lines of the rendered block put at one place and every
  other line byte for byte where it was. On first insertion, when the cube has no marker in the
  Corefile, nothing is taken out and the block stands directly below the line that opens the
  default server block, of which the Corefile has exactly one. On replacement the block stands
  exactly where the cube's one marked region stood, the markers included, with a line that opens
  the default server block somewhere above it; the code counts no braces, so where that region was
  put by hand the block stays there. Splicing again changes nothing.
\<close>

theorem CorefileSplice_contract:
  assumes "CorefileSplice f c d = Inr g" and "nameRE c" and "newline \<notin> set d"
  shows "\<exists>pre old post.
    split_on newline f = pre @ old @ post \<and>
    split_on newline g = pre @ renderBlock c d @ post \<and>
    (if unmarked c (split_on newline f)
     then old = [] \<and> pre \<noteq> [] \<and> filter isDefaultServerOpen (split_on newline f) = [last pre]
     else old \<noteq> [] \<and> trim_space (hd old) = begin_mark c \<and> trim_space (last old) = end_mark c \<and>
       list_ex isDefaultServerOpen pre) \<and>
    findLines (split_on newline g) (begin_mark c) = [length pre] \<and>
    findLines (split_on newline g) (end_mark c) = [length pre + 5] \<and>
    CorefileSplice g c d = Inr g"
proof -
  from splice_shape [OF assms(1)] obtain pre old post where
    s: "split_on newline f = pre @ old @ post" "g = spliceLines pre (renderBlock c d) post"
      "marked_region c old" "unmarked c pre" "unmarked c post" "list_ex isDefaultServerOpen pre"
      "old = [] \<longrightarrow> pre \<noteq> [] \<and> filter isDefaultServerOpen (split_on newline f) = [last pre]" by blast
  have nl: "\<forall>l \<in> set (pre @ post). newline \<notin> set l"
    using split_on_pieces [of _ newline f] s(1) by auto
  note g = split_splice [OF nl assms(2,3)]
  have "findLines (pre @ renderBlock c d @ post) (begin_mark c) = [length pre]"
    "findLines (pre @ renderBlock c d @ post) (end_mark c) = [length pre + 5]"
    using unmarked_find [OF s(4)] unmarked_find [OF s(5)] unmarked_find [OF inner_unmarked]
    by (simp_all add: findLines_def find_from_append renderBlock_lines trim_marks [OF assms(2)])
  moreover have "unmarked c (split_on newline f) \<longleftrightarrow> old = []"
    using s(1,3-5) by (cases old) (auto simp: marked_region_def unmarked_def)
  ultimately show ?thesis
    using s g splice_again [OF nl assms(2,3) s(4,5,6), of d]
    by - (rule exI [of _ pre], rule exI [of _ old], rule exI [of _ post], simp add: marked_region_def)
qed

text \<open>
  Changing the domain and re-splicing is the same as splicing the original Corefile for
  the new domain: no trace of the old rule is left.
\<close>

theorem CorefileSplice_new_domain:
  assumes "CorefileSplice f c d = Inr g" and "nameRE c" and "newline \<notin> set d"
  shows "CorefileSplice g c d' = CorefileSplice f c d'"
proof -
  from splice_shape [OF assms(1)] obtain pre old post where
    s: "split_on newline f = pre @ old @ post" "g = spliceLines pre (renderBlock c d) post"
      "unmarked c pre" "unmarked c post" "list_ex isDefaultServerOpen pre"
      "\<And>d'. CorefileSplice f c d' = Inr (spliceLines pre (renderBlock c d') post)" by blast
  have "\<forall>l \<in> set (pre @ post). newline \<notin> set l"
    using split_on_pieces [of _ newline f] s(1) by auto
  from splice_again [OF this assms(2,3) s(3,4,5), of d'] s(2,6) show ?thesis by simp
qed

text \<open>
  C22. Cubes share a cluster without disturbing each other: after cube \<open>c\<close> has spliced its
  block, a second cube's first splice keeps it intact, so both cubes find their block settled
  afterwards and neither rewrites anything.
\<close>

theorem CorefileSplice_foreign:
  assumes "nameRE c" and "nameRE c2" and "c \<noteq> c2" and "newline \<notin> set d" and "newline \<notin> set d2"
    and "CorefileSplice f c d = Inr g" and "CorefileSplice g c2 d2 = Inr h"
    and "unmarked c2 (split_on newline f)"
  shows "CorefileSplice h c d = Inr h \<and> CorefileSplice h c2 d2 = Inr h"
proof -
  from splice_shape [OF assms(6)] obtain pre old post where
    s: "split_on newline f = pre @ old @ post" "g = spliceLines pre (renderBlock c d) post"
      "unmarked c pre" "unmarked c post" "list_ex isDefaultServerOpen pre" by blast
  have nl: "\<forall>l \<in> set (pre @ post). newline \<notin> set l"
    using split_on_pieces [of _ newline f] s(1) by auto
  note g = split_splice [OF nl assms(1,4)]
  have u2: "unmarked c2 (pre @ renderBlock c d @ post)"
    using assms(8) s(1) foreign_unmarked [OF assms(1,3)] by simp
  then have r: "markerRange (split_on newline g) c2 = Inr None"
    by (simp add: s(2) g markerRange_def unmarked_findLines)
  with assms(7) obtain i where i: "defaultServerLine (split_on newline g) = Inr i"
    and h: "h = spliceLines (take (i + 1) (split_on newline g)) (renderBlock c2 d2) (drop (i + 1) (split_on newline g))"
    by (auto simp: CorefileSplice_def Let_def res_simps)
  from find_one_open [OF i] obtain us l vs where
    l: "split_on newline g = us @ l # vs" "i = length us" "isDefaultServerOpen l"
      "list_all (\<lambda>l. \<not> isDefaultServerOpen l) us" "list_all (\<lambda>l. \<not> isDefaultServerOpen l) vs" by blast
  have eq: "pre @ renderBlock c d @ post = us @ l # vs"
    using l(1) g s(2) by simp
  have "length us < length pre"
  proof (rule ccontr)
    assume "\<not> length us < length pre"
    then have "pre = take (length pre) us"
      using arg_cong [OF eq, of "take (length pre)"] by simp
    with l(4) s(5) show False
      by (metis in_set_takeD list_all_iff list_ex_iff)
  qed
  then obtain q where q: "pre = us @ l # q" "vs = q @ renderBlock c d @ post"
    using eq by (auto simp: append_eq_append_conv2 append_eq_Cons_conv Cons_eq_append_conv)
  have h': "h = spliceLines (us @ l # renderBlock c2 d2 @ q) (renderBlock c d) post"
    using h l(1,2) q by (simp add: spliceLines_def)
  have nl': "\<forall>x \<in> set ((us @ l # renderBlock c2 d2 @ q) @ post). newline \<notin> set x"
    using nl q(1) block_no_newline [OF assms(2,5)] by auto
  have "unmarked c (renderBlock c2 d2)"
    by (rule foreign_unmarked) (use assms in auto)
  then have u: "unmarked c (us @ l # renderBlock c2 d2 @ q)"
    using s(3) q(1) by simp
  have "CorefileSplice h c d = Inr h"
    unfolding h' by (rule splice_again [OF nl' assms(1,4) u s(4)]) (use l(3) in simp)
  moreover have "CorefileSplice h c2 d2 = Inr h"
    by (rule splice_settles [OF assms(7,2,5)])
  ultimately show ?thesis by simp
qed

subsection \<open>A concrete Corefile\<close>

definition sample_corefile :: string where
  "sample_corefile = ''.:53 {'' @ newline # ''}''"

definition sample_spliced :: string where
  "sample_spliced = spliceLines [''.:53 {''] (renderBlock ''dev'' ''dev.cube.test'') [''}'']"

lemma sample_lines: "split_on newline sample_corefile = [''.:53 {'', ''}'']"
  by (simp add: sample_corefile_def newline_def)

lemma sample_open: "isDefaultServerOpen ''.:53 {''" "\<not> isDefaultServerOpen ''}''"
  by (simp_all add: isDefaultServerOpen_def defaultServerToken_def trim_space_def space_chunk_def is_space_def
      has_suffix_def Let_def)

lemma sample_trim: "trim_space ''.:53 {'' = ''.:53 {''" "trim_space ''}'' = ''}''"
  by (simp_all add: trim_space_def space_chunk_def is_space_def)

lemma sample_unmarked: "unmarked c (split_on newline sample_corefile)"
  by (simp add: sample_lines sample_trim markerBeginPrefix_def markerEndPrefix_def)

lemma sample_splice: "CorefileSplice sample_corefile ''dev'' d =
    Inr (spliceLines [''.:53 {''] (renderBlock ''dev'' d) [''}''])"
  using sample_unmarked [of "''dev''"]
  by (simp add: CorefileSplice_def sample_lines markerRange_def unmarked_findLines defaultServerLine_def
      sample_open)

lemma sample_names: "nameRE ''dev''" "nameRE ''two''" "newline \<notin> set ''dev.cube.test''" "newline \<notin> set ''two.cube.test''"
  by code_simp+

lemmas sample_splice_dev = sample_splice [of "''dev.cube.test''", folded sample_spliced_def]

theorem CorefileSplice_contract_witness:
  "CorefileSplice sample_spliced ''dev'' ''dev.cube.test'' = Inr sample_spliced"
  using CorefileSplice_contract [OF sample_splice_dev sample_names(1,3)] by blast

theorem CorefileSplice_new_domain_witness:
  "CorefileSplice sample_spliced ''dev'' ''new.test'' = CorefileSplice sample_corefile ''dev'' ''new.test''"
  by (rule CorefileSplice_new_domain [OF sample_splice_dev sample_names(1,3)])

theorem CorefileSplice_foreign_witness:
  "\<exists>h. CorefileSplice sample_spliced ''two'' ''two.cube.test'' = Inr h \<and>
     CorefileSplice h ''dev'' ''dev.cube.test'' = Inr h \<and> CorefileSplice h ''two'' ''two.cube.test'' = Inr h"
proof -
  have nl: "\<forall>l \<in> set ([''.:53 {''] @ [''}'']). newline \<notin> set l" by (simp add: newline_def)
  have "unmarked ''two'' ([''.:53 {''] @ renderBlock ''dev'' ''dev.cube.test'' @ [''}''])"
    using foreign_unmarked [OF sample_names(1), of "''two''" "''dev.cube.test''"]
      sample_unmarked [of "''two''", unfolded sample_lines] by simp
  then have r: "markerRange (split_on newline sample_spliced) ''two'' = Inr None"
    by (simp add: sample_spliced_def split_splice [OF nl sample_names(1,3)] markerRange_def unmarked_findLines)
  have "find_from n isDefaultServerOpen (renderBlock ''dev'' ''dev.cube.test'') = []" for n
    using block_not_open [OF sample_names(1)] by (simp add: find_from_Nil)
  then have "defaultServerLine (split_on newline sample_spliced) = Inr 0"
    by (simp add: sample_spliced_def split_splice [OF nl sample_names(1,3)] defaultServerLine_def
        find_from_append sample_open)
  with r obtain h where h: "CorefileSplice sample_spliced ''two'' ''two.cube.test'' = Inr h"
    by (simp add: CorefileSplice_def Let_def)
  have "''dev'' \<noteq> ''two''" by simp
  from CorefileSplice_foreign [OF sample_names(1,2) this sample_names(3,4) sample_splice_dev h sample_unmarked] h
  show ?thesis by blast
qed

end
