(* ===== verification/KubeStatus.thy ===== *)
theory KubeStatus
  imports JsonVal
begin

section \<open>Reading the status of live objects\<close>

text \<open>
  The library's accessors for the generation, integers and slices of an object, as a record
  beside the one for strings; absence and a value of another type both read as \<open>None\<close>, since
  the repository ignores the error. What it means that an object is ready \<^emph>\<open>now\<close> is stated once
  here: both domains that judge custom resources promise it.
\<close>

record ustatus =
  us_generation :: "obj \<Rightarrow> int"
  us_nested_int64 :: "string list \<Rightarrow> obj \<Rightarrow> int option"
  us_nested_slice :: "string list \<Rightarrow> obj \<Rightarrow> val list option"

definition std_status :: ustatus where
  "std_status =
     \<lparr>us_generation = (\<lambda>m. case nested [''metadata'', ''generation''] m of Some (VInt i) \<Rightarrow> i | _ \<Rightarrow> 0),
      us_nested_int64 = (\<lambda>ks m. case nested ks m of Some (VInt i) \<Rightarrow> Some i | _ \<Rightarrow> None),
      us_nested_slice = (\<lambda>ks m. case nested ks m of Some (VArr xs) \<Rightarrow> Some xs | _ \<Rightarrow> None)\<rparr>"

text \<open>The first condition of a type, in the order of the list; entries that are not objects are skipped.\<close>

fun find_condition :: "unstr \<Rightarrow> string \<Rightarrow> val list \<Rightarrow> obj option" where
  "find_condition U ty [] = None"
| "find_condition U ty (VObj cm # cs) =
     (if u_nested_string U [''type''] cm = ty then Some cm else find_condition U ty cs)"
| "find_condition U ty (c # cs) = find_condition U ty cs"

definition conditions_of :: "ustatus \<Rightarrow> obj \<Rightarrow> val list" where
  "conditions_of S m = (case us_nested_slice S [''status'', ''conditions''] m of None \<Rightarrow> [] | Some cs \<Rightarrow> cs)"

lemma find_condition_Some:
  "find_condition U ty cs = Some cm \<Longrightarrow> VObj cm \<in> set cs \<and> u_nested_string U [''type''] cm = ty"
  by (induction U ty cs rule: find_condition.induct) (auto split: if_splits)

text \<open>Ready, and the status describes the spec the object has now.\<close>

definition ready_now :: "unstr \<Rightarrow> ustatus \<Rightarrow> obj \<Rightarrow> bool" where
  "ready_now U S m \<longleftrightarrow>
     (\<exists>cm. find_condition U ''Ready'' (conditions_of S m) = Some cm \<and> u_nested_string U [''status''] cm = ''True'') \<and>
     us_nested_int64 S [''status'', ''observedGeneration''] m = Some (us_generation S m)"

text \<open>
  The interface a judgment of custom resources offers the waits: it says \<open>True\<close> only of an object
  it covers and which is ready now, never of one whose success is stale; what it does not cover
  is an error with a code of its own.
\<close>

type_synonym judge_fun = "obj \<Rightarrow> (bool \<times> string) res"

locale current_judge =
  fixes U :: unstr and S :: ustatus and covers :: "obj \<Rightarrow> bool" and judge :: judge_fun
  assumes judge_true: "judge m = Inr (True, why) \<Longrightarrow> covers m \<and> ready_now U S m"
    and judge_complete: "covers m \<Longrightarrow> ready_now U S m \<Longrightarrow> judge m = Inr (True, '''')"
    and judge_uncovered: "\<not> covers m \<Longrightarrow> \<exists>e. judge m = Inl e \<and> is_coded e"
    and judge_covered: "covers m \<Longrightarrow> \<exists>ok why. judge m = Inr (ok, why)"
begin

lemma judge_iff: "(\<exists>why. judge m = Inr (True, why)) \<longleftrightarrow> covers m \<and> ready_now U S m"
  using judge_true judge_complete by blast

lemma judge_error_coded: "judge m = Inl e \<Longrightarrow> is_coded e \<and> \<not> covers m"
  using judge_uncovered judge_covered by (metis Inl_Inr_False Inl_inject)

end

end
