(* ===== verification/EngineFlux.thy ===== *)
theory EngineFlux
  imports ConfigTypes KubeStatus
begin

section \<open>The engine: substrate and Flux driver (\<open>internal/engine\<close>)\<close>

text \<open>
  The embedded Flux manifests with their provenance check, the sync wiring the driver derives from
  the document's source, and its judgment of that wiring. The manifests, their hash and the YAML
  decoder are parameters.
\<close>

subsection \<open>Coded errors\<close>

abbreviation CodeUnsupportedProvider :: code where "CodeUnsupportedProvider \<equiv> ''CUBE-ENG-001''"

definition NewUnsupportedEngineError :: "string \<Rightarrow> err" where
  "NewUnsupportedEngineError provider = wrap CodeUnsupportedProvider [provider] None"

abbreviation CodeUnrecognizedObject :: code where "CodeUnrecognizedObject \<equiv> ''CUBE-ENG-002''"

definition NewUnrecognizedObjectError :: "string \<Rightarrow> string \<Rightarrow> err" where
  "NewUnrecognizedObjectError apiVersion kind = wrap CodeUnrecognizedObject [apiVersion, kind] None"

abbreviation CodeSubstrateProvenance :: code where "CodeSubstrateProvenance \<equiv> ''CUBE-ENG-003''"

definition NewSubstrateProvenanceError :: "string \<Rightarrow> err option \<Rightarrow> err" where
  "NewSubstrateProvenanceError detail cause = wrap CodeSubstrateProvenance [detail] cause"

abbreviation CodeSubstrateParse :: code where "CodeSubstrateParse \<equiv> ''CUBE-ENG-004''"

definition NewSubstrateParseError :: "err \<Rightarrow> err" where
  "NewSubstrateParseError cause = wrap CodeSubstrateParse [] (Some cause)"

abbreviation CodeUnsupportedSourceKind :: code where "CodeUnsupportedSourceKind \<equiv> ''CUBE-ENG-006''"

definition NewUnsupportedSourceKindError :: "string \<Rightarrow> err" where
  "NewUnsupportedSourceKindError kind = wrap CodeUnsupportedSourceKind [kind] None"

abbreviation CodeVersionMismatch :: code where "CodeVersionMismatch \<equiv> ''CUBE-ENG-005''"

definition NewVersionMismatchError :: "string \<Rightarrow> string \<Rightarrow> err" where
  "NewVersionMismatchError requested pinned = wrap CodeVersionMismatch [requested, pinned] None"

subsection \<open>The substrate\<close>

definition Version :: string where "Version = ''2.9.2''"
definition substrate_Namespace :: string where "substrate_Namespace = ''flux-system''"

definition manifestsSHA256 :: string where
  "manifestsSHA256 = ''f229fa8ace1655b04ccb2566fa3169681061b48c8e1b7a4e72b7d2413915bb84''"

definition CheckVersion :: "string \<Rightarrow> err option" where
  "CheckVersion requested =
     (if requested \<noteq> '''' \<and> requested \<noteq> Version then Some (NewVersionMismatchError requested Version) else None)"

text \<open>
  The embedded payload is read through a parameter (the file the build embeds), and so is SHA-256;
  the YAML decoder is a parameter that gives the documents of a stream up to the first that
  does not decode.
\<close>

definition manifests :: "(string \<Rightarrow> string) \<Rightarrow> string res \<Rightarrow> string res" where
  "manifests sha256hex payload =
     (case payload of
        Inl e \<Rightarrow> Inl (NewSubstrateProvenanceError ''payload unreadable'' (Some e))
      | Inr data \<Rightarrow>
          let got = sha256hex data
          in if got \<noteq> manifestsSHA256
             then Inl (NewSubstrateProvenanceError (''sha256 '' @ got @ '' does not match the pin'') None)
             else Inr data)"

text \<open>The decoding loop, with the domain's error for a document that does not decode.\<close>

fun parse_docs :: "(err \<Rightarrow> err) \<Rightarrow> obj res list \<Rightarrow> obj list res" where
  "parse_docs mk [] = Inr []"
| "parse_docs mk (Inl e # ds) = Inl (mk e)"
| "parse_docs mk (Inr m # ds) = (if length m = 0 then parse_docs mk ds
     else case parse_docs mk ds of Inl e \<Rightarrow> Inl e | Inr ms \<Rightarrow> Inr (m # ms))"

definition parseManifests :: "(string \<Rightarrow> obj res list) \<Rightarrow> string \<Rightarrow> obj list res" where
  "parseManifests decode data = parse_docs NewSubstrateParseError (decode data)"

definition Objects :: "(string \<Rightarrow> string) \<Rightarrow> string res \<Rightarrow> (string \<Rightarrow> obj res list) \<Rightarrow> obj list res" where
  "Objects sha256hex payload decode =
     (case manifests sha256hex payload of
        Inl e \<Rightarrow> Inl e
      | Inr data \<Rightarrow>
          (case parseManifests decode data of
             Inl e \<Rightarrow> Inl e
           | Inr objs \<Rightarrow>
               if length objs = 0 then Inl (NewSubstrateParseError (Plain ''payload holds no objects''))
               else Inr objs))"

lemma parse_docs_Inr: "parse_docs mk ds = Inr ms \<Longrightarrow> map Inr ms = filter (\<lambda>d. d \<noteq> Inr []) ds"
  by (induction mk ds arbitrary: ms rule: parse_docs.induct) (auto split: if_splits sum.splits)

lemma parse_docs_Inl: "parse_docs mk ds = Inl e \<Longrightarrow> \<exists>c. e = mk c"
  by (induction mk ds rule: parse_docs.induct) (auto split: if_splits sum.splits)

text \<open>
  The substrate installs only what it pins: objects come out only when the payload's SHA-256
  is the recorded one, they are the stream's non-empty documents in their order, there is at
  least one, and every failure is \<open>CUBE-ENG-003\<close> or \<open>CUBE-ENG-004\<close>.
\<close>

theorem Objects_pinned:
  "case Objects sha payload decode of
     Inl e \<Rightarrow> err_code e \<in> {Some ''CUBE-ENG-003'', Some ''CUBE-ENG-004''}
   | Inr objs \<Rightarrow> objs \<noteq> [] \<and>
       (\<exists>data. payload = Inr data \<and> sha data = manifestsSHA256 \<and>
          map Inr objs = filter (\<lambda>d. d \<noteq> Inr []) (decode data))"
proof (cases "manifests sha payload")
  case (Inl e)
  then have "err_code e = Some ''CUBE-ENG-003''"
    by (auto simp: manifests_def NewSubstrateProvenanceError_def Let_def split: sum.splits if_splits)
  with Inl show ?thesis by (simp add: Objects_def)
next
  case (Inr data)
  then have "payload = Inr data \<and> sha data = manifestsSHA256"
    by (auto simp: manifests_def Let_def split: sum.splits if_splits)
  with Inr show ?thesis
    by (auto simp: Objects_def parseManifests_def NewSubstrateParseError_def split: sum.split
        dest: parse_docs_Inr dest!: parse_docs_Inl)
qed

subsection \<open>The sync wiring\<close>

definition wiringName :: string where "wiringName = ''flux-system''"
definition sourceAPIVersion :: string where "sourceAPIVersion = ''source.toolkit.fluxcd.io/v1''"
definition kustomizeAPIVersion :: string where "kustomizeAPIVersion = ''kustomize.toolkit.fluxcd.io/v1''"

definition wiring_object :: "string \<Rightarrow> string \<Rightarrow> obj \<Rightarrow> obj" where
  "wiring_object apiVersion kind spec =
     [(''apiVersion'', VStr apiVersion), (''kind'', VStr kind),
      (''metadata'', VObj [(''namespace'', VStr substrate_Namespace), (''name'', VStr wiringName)]),
      (''spec'', VObj spec)]"

definition sourceCR :: "engine_source \<Rightarrow> obj res" where
  "sourceCR src =
     (let spec = [(''interval'', VStr (es_interval src)), (''url'', VStr (es_url src))]
      in if es_kind src = EngineSourceGit
         then Inr (wiring_object sourceAPIVersion ''GitRepository''
                (spec @ [(''ref'', VObj [(''branch'', VStr (es_ref src))])]))
         else if es_kind src = EngineSourceOCI
         then Inr (wiring_object sourceAPIVersion ''OCIRepository''
                (spec @ [(''ref'', VObj [(''tag'', VStr (es_ref src))]), (''provider'', VStr ''generic'')]))
         else Inl (NewUnsupportedSourceKindError (es_kind src)))"

definition sourceCRKind :: "string \<Rightarrow> string" where
  "sourceCRKind k = (if k = EngineSourceOCI then ''OCIRepository'' else ''GitRepository'')"

definition kustomizationCR :: "engine_source \<Rightarrow> obj" where
  "kustomizationCR src =
     wiring_object kustomizeAPIVersion ''Kustomization''
       [(''interval'', VStr (es_interval src)), (''path'', VStr (es_path src)), (''prune'', VBool True),
        (''sourceRef'', VObj [(''kind'', VStr (sourceCRKind (es_kind src))), (''name'', VStr wiringName)])]"

definition SourceObjects :: "engine_spec \<Rightarrow> obj list res" where
  "SourceObjects spec =
     (case en_source spec of
        None \<Rightarrow> Inr []
      | Some src \<Rightarrow>
          if es_url src = '''' then Inr []
          else case sourceCR src of
              Inl e \<Rightarrow> Inl e
            | Inr source \<Rightarrow> Inr [source, kustomizationCR src])"

definition EngineObjects :: "engine_spec \<Rightarrow> obj list res" where
  "EngineObjects spec = Inr []"

definition EngineNamespace :: string where
  "EngineNamespace = substrate_Namespace"

subsection \<open>Judgment\<close>

definition flux_recognized :: "unstr \<Rightarrow> obj \<Rightarrow> bool" where
  "flux_recognized U m =
     (if u_apiVersion U m = sourceAPIVersion then u_kind U m = ''GitRepository'' \<or> u_kind U m = ''OCIRepository''
      else if u_apiVersion U m = kustomizeAPIVersion then u_kind U m = ''Kustomization''
      else False)"

definition describeCondition :: "unstr \<Rightarrow> string \<Rightarrow> obj \<Rightarrow> string" where
  "describeCondition U status cond =
     (let r = u_nested_string U [''reason''] cond; m = u_nested_string U [''message''] cond
      in ''Ready='' @ status @ (if r \<noteq> '''' then '': '' @ r else '''') @ (if m \<noteq> '''' then '': '' @ m else ''''))"

definition readyCondition :: "unstr \<Rightarrow> ustatus \<Rightarrow> obj \<Rightarrow> (string \<times> string) option" where
  "readyCondition U S m =
     (case find_condition U ''Ready'' (conditions_of S m) of
        None \<Rightarrow> None
      | Some cm \<Rightarrow> (let s = u_nested_string U [''status''] cm in Some (s, describeCondition U s cm)))"

text \<open>
  \<open>Reconciled\<close>, past the test for a covered kind; the flux and the gateway domain each have
  this judgment.
\<close>

definition judge_status :: "unstr \<Rightarrow> ustatus \<Rightarrow> obj \<Rightarrow> (bool \<times> string) res" where
  "judge_status U S m =
     (case readyCondition U S m of
        None \<Rightarrow> Inr (False, ''no Ready condition reported yet (the controller may not have observed the object)'')
      | Some (status, condReason) \<Rightarrow>
          if status \<noteq> ''True'' then Inr (False, condReason)
          else (case us_nested_int64 S [''status'', ''observedGeneration''] m of
                  None \<Rightarrow> Inr (False, ''no observedGeneration reported yet (cannot verify the Ready status is current)'')
                | Some observed \<Rightarrow>
                    if observed \<noteq> us_generation S m
                    then Inr (False, ''stale status: observedGeneration '' @ itoa observed @ '' does not match generation '' @
                           itoa (us_generation S m))
                    else Inr (True, '''')))"

definition flux_Reconciled :: "unstr \<Rightarrow> ustatus \<Rightarrow> judge_fun" where
  "flux_Reconciled U S m =
     (if \<not> flux_recognized U m then Inl (NewUnrecognizedObjectError (u_apiVersion U m) (u_kind U m))
      else judge_status U S m)"

lemma judge_status_True: "(\<exists>why. judge_status U S m = Inr (True, why)) \<longleftrightarrow> ready_now U S m"
  by (auto simp: judge_status_def readyCondition_def ready_now_def Let_def split: option.splits if_splits)

lemma judge_status_why: "judge_status U S m = Inr (True, why) \<Longrightarrow> why = ''''"
  by (auto simp: judge_status_def split: option.splits prod.splits if_splits)

lemma judge_status_Inr: "\<exists>ok why. judge_status U S m = Inr (ok, why)"
  by (auto simp: judge_status_def split: option.splits prod.splits)

lemma current_judgeI:
  assumes "\<And>m. covers m \<Longrightarrow> judge m = judge_status U S m"
    and "\<And>m. \<not> covers m \<Longrightarrow> \<exists>e. judge m = Inl e \<and> is_coded e"
  shows "current_judge U S covers judge"
proof
  fix m why assume j: "judge m = Inr (True, why)"
  then have c: "covers m" using assms(2) [of m] by auto
  with assms(1) j show "covers m \<and> ready_now U S m" using judge_status_True by metis
next
  fix m assume "covers m" "ready_now U S m"
  then show "judge m = Inr (True, '''')" using assms(1) judge_status_True judge_status_why by metis
next
  fix m assume "covers m"
  then show "\<exists>ok why. judge m = Inr (ok, why)" using assms(1) judge_status_Inr by metis
qed (rule assms(2))

interpretation flux: current_judge U S "flux_recognized U" "flux_Reconciled U S" for U S
  by (rule current_judgeI) (auto simp: flux_Reconciled_def NewUnrecognizedObjectError_def wrap_def)

text \<open>
  The driver covers what it declares, and accepts no stale success: the wiring for a source
  is nothing, or the source object the kind names with the Kustomization that refers to it by
  kind and name in one namespace, both recognized by the driver's own judgment; and an object
  is judged reconciled exactly when it is recognized, its Ready condition is true and its
  observed generation is its generation.
\<close>

theorem flux_wiring_judged:
  "(case SourceObjects spec of
      Inl e \<Rightarrow> err_code e = Some ''CUBE-ENG-006''
    | Inr objs \<Rightarrow> objs = [] \<or>
        (\<exists>src s. en_source spec = Some src \<and> sourceCR src = Inr s \<and> objs = [s, kustomizationCR src] \<and>
           nested [''spec'', ''sourceRef'', ''kind''] (kustomizationCR src) = nested [''kind''] s \<and>
           nested [''spec'', ''sourceRef'', ''name''] (kustomizationCR src) = nested [''metadata'', ''name''] s \<and>
           list_all (\<lambda>m. flux_recognized std_unstr m \<and> u_namespace std_unstr m = EngineNamespace) objs)) \<and>
   ((\<exists>why. flux_Reconciled U S m = Inr (True, why)) \<longleftrightarrow> flux_recognized U m \<and> ready_now U S m)"
proof (rule conjI)
  have k: "EngineSourceGit \<noteq> EngineSourceOCI"
    by (simp add: EngineSourceGit_def EngineSourceOCI_def)
  show "case SourceObjects spec of
      Inl e \<Rightarrow> err_code e = Some ''CUBE-ENG-006''
    | Inr objs \<Rightarrow> objs = [] \<or>
        (\<exists>src s. en_source spec = Some src \<and> sourceCR src = Inr s \<and> objs = [s, kustomizationCR src] \<and>
           nested [''spec'', ''sourceRef'', ''kind''] (kustomizationCR src) = nested [''kind''] s \<and>
           nested [''spec'', ''sourceRef'', ''name''] (kustomizationCR src) = nested [''metadata'', ''name''] s \<and>
           list_all (\<lambda>m. flux_recognized std_unstr m \<and> u_namespace std_unstr m = EngineNamespace) objs)"
    using k by (auto simp: SourceObjects_def sourceCR_def kustomizationCR_def sourceCRKind_def wiring_object_def
        flux_recognized_def std_unstr_def sourceAPIVersion_def kustomizeAPIVersion_def EngineNamespace_def
        NewUnsupportedSourceKindError_def Let_def split: option.split sum.split)
  show "(\<exists>why. flux_Reconciled U S m = Inr (True, why)) \<longleftrightarrow> flux_recognized U m \<and> ready_now U S m"
    by (rule flux.judge_iff)
qed

end
