(* ===== verification/GatewayObjects.thy ===== *)
theory GatewayObjects
  imports GatewayCorefile EngineFlux
begin

section \<open>The gateway's objects and judgment (\<open>internal/gateway\<close>: gateway.go, platform.go, gatewayobj.go, helmpair.go, packs.go, crds.go, predicates.go, errors.go)\<close>

subsection \<open>Coded errors and platform facts\<close>

abbreviation CodePackProvenance :: code where "CodePackProvenance \<equiv> ''CUBE-GWY-001''"

definition newPackProvenanceError :: "string \<Rightarrow> err option \<Rightarrow> err" where
  "newPackProvenanceError detail cause = wrap CodePackProvenance [detail] cause"

abbreviation CodePackParse :: code where "CodePackParse \<equiv> ''CUBE-GWY-002''"

definition newPackParseError :: "err \<Rightarrow> err" where
  "newPackParseError cause = wrap CodePackParse [] (Some cause)"

abbreviation CodeUnrecognizedObject :: code where "CodeUnrecognizedObject \<equiv> ''CUBE-GWY-003''"

definition newUnrecognizedObjectError :: "string \<Rightarrow> string \<Rightarrow> err" where
  "newUnrecognizedObjectError apiVersion kind = wrap CodeUnrecognizedObject [apiVersion, kind] None"

definition ImplementationID :: string where "ImplementationID = PrerequisiteTraefikGateway"
definition GatewayAPIVersion :: string where "GatewayAPIVersion = ''gateway.networking.k8s.io/v1''"
definition GatewayClassName :: string where "GatewayClassName = ''traefik''"
definition CASecretName :: string where "CASecretName = ''cube-idp-ca''"
definition LeafSecretName :: string where "LeafSecretName = ''gateway-tls''"

definition implementationFQDN :: string where
  "implementationFQDN = ImplementationID @ ''.'' @ gateway_Namespace @ ''.'' @ clusterSuffix"

subsection \<open>The objects\<close>

definition gatewayNamespace :: obj where
  "gatewayNamespace =
     [(''apiVersion'', VStr ''v1''), (''kind'', VStr ''Namespace''), (''metadata'', VObj [(''name'', VStr gateway_Namespace)])]"

definition stableService :: obj where
  "stableService =
     [(''apiVersion'', VStr ''v1''), (''kind'', VStr ''Service''),
      (''metadata'', VObj [(''name'', VStr gateway_Name), (''namespace'', VStr gateway_Namespace)]),
      (''spec'', VObj [(''type'', VStr ''ExternalName''), (''externalName'', VStr implementationFQDN)])]"

definition PlatformObjects :: "obj list" where
  "PlatformObjects = [gatewayNamespace, stableService]"

definition GatewayObject :: "string \<Rightarrow> obj" where
  "GatewayObject domain =
     [(''apiVersion'', VStr GatewayAPIVersion), (''kind'', VStr ''Gateway''),
      (''metadata'', VObj [(''name'', VStr gateway_Name), (''namespace'', VStr gateway_Namespace)]),
      (''spec'', VObj
        [(''gatewayClassName'', VStr GatewayClassName),
         (''listeners'', VArr [VObj
           [(''name'', VStr ''websecure''), (''protocol'', VStr ''HTTPS''), (''port'', VInt 443),
            (''hostname'', VStr (''*.'' @ domain)),
            (''tls'', VObj
              [(''mode'', VStr ''Terminate''),
               (''certificateRefs'', VArr [VObj [(''kind'', VStr ''Secret''), (''name'', VStr LeafSecretName)]])])]])])]"

definition helmReleaseAPIVersion :: string where "helmReleaseAPIVersion = ''helm.toolkit.fluxcd.io/v2''"
definition gw_sourceAPIVersion :: string where "gw_sourceAPIVersion = ''source.toolkit.fluxcd.io/v1''"
definition kindHelmRelease :: string where "kindHelmRelease = ''HelmRelease''"
definition kindOCIRepository :: string where "kindOCIRepository = ''OCIRepository''"
definition gw_helmInterval :: string where "gw_helmInterval = ''10m''"
definition ChartVersion :: string where "ChartVersion = ''41.3.0''"

definition ChartDigest :: string where
  "ChartDigest = ''sha256:dcae2d586d7fbda6a08150eaeeca4132e9dd042d8a4d16ada287e8c40f6ff17a''"

definition helmChartLayerMediaType :: string where
  "helmChartLayerMediaType = ''application/vnd.cncf.helm.chart.content.v1.tar+gzip''"

lemmas gw_consts =
  helmReleaseAPIVersion_def gw_sourceAPIVersion_def kindHelmRelease_def kindOCIRepository_def gw_helmInterval_def
  ChartVersion_def ChartDigest_def helmChartLayerMediaType_def

definition gw_chartSource :: obj where
  "gw_chartSource =
     [(''apiVersion'', VStr gw_sourceAPIVersion), (''kind'', VStr kindOCIRepository),
      (''metadata'', VObj [(''name'', VStr ImplementationID)]),
      (''spec'', VObj
        [(''url'', VStr ''oci://ghcr.io/traefik/helm/traefik''), (''interval'', VStr gw_helmInterval),
         (''layerSelector'', VObj [(''mediaType'', VStr helmChartLayerMediaType), (''operation'', VStr ''copy'')]),
         (''ref'', VObj [(''tag'', VStr ChartVersion), (''digest'', VStr ChartDigest)])])]"

definition chartValues :: obj where
  "chartValues =
     [(''providers'', VObj [(''kubernetesGateway'', VObj [(''enabled'', VBool True)])]),
      (''gateway'', VObj [(''enabled'', VBool False)]),
      (''nodeSelector'', VObj [(''ingress-ready'', VStr ''true'')]),
      (''fullnameOverride'', VStr ImplementationID),
      (''ports'', VObj [(''web'', VObj [(''hostPort'', VFloat 80 0)]), (''websecure'', VObj [(''hostPort'', VFloat 443 0)])])]"

definition gw_helmRelease :: obj where
  "gw_helmRelease =
     [(''apiVersion'', VStr helmReleaseAPIVersion), (''kind'', VStr kindHelmRelease),
      (''metadata'', VObj [(''name'', VStr ImplementationID)]),
      (''spec'', VObj
        [(''interval'', VStr gw_helmInterval), (''releaseName'', VStr ImplementationID),
         (''targetNamespace'', VStr gateway_Namespace), (''install'', VObj [(''createNamespace'', VBool True)]),
         (''chartRef'', VObj [(''kind'', VStr kindOCIRepository), (''name'', VStr ImplementationID)]),
         (''values'', VObj chartValues)])]"

definition HelmPairObjects :: "obj list" where
  "HelmPairObjects = [gw_chartSource, gw_helmRelease]"

subsection \<open>The embedded definitions\<close>

definition crdsSHA256 :: string where
  "crdsSHA256 = ''24d931f22abd8e40c973264319ead7cfa09d0fb7716b7ab1ee2ff174cb063a73''"

definition crdsPayload :: "(string \<Rightarrow> string) \<Rightarrow> string res \<Rightarrow> string res" where
  "crdsPayload sha256hex payload =
     (case payload of
        Inl e \<Rightarrow> Inl (newPackProvenanceError ''payload unreadable'' (Some e))
      | Inr data \<Rightarrow>
          let got = sha256hex data
          in if got \<noteq> crdsSHA256
             then Inl (newPackProvenanceError (''sha256 '' @ got @ '' does not match the pin'') None)
             else Inr data)"

definition gw_parseManifests :: "(string \<Rightarrow> obj res list) \<Rightarrow> string \<Rightarrow> obj list res" where
  "gw_parseManifests decode data = parse_docs newPackParseError (decode data)"

definition CRDsPackObjects :: "(string \<Rightarrow> string) \<Rightarrow> string res \<Rightarrow> (string \<Rightarrow> obj res list) \<Rightarrow> obj list res" where
  "CRDsPackObjects sha256hex payload decode =
     (case crdsPayload sha256hex payload of
        Inl e \<Rightarrow> Inl e
      | Inr data \<Rightarrow>
          (case gw_parseManifests decode data of
             Inl e \<Rightarrow> Inl e
           | Inr objs \<Rightarrow>
               if length objs = 0 then Inl (newPackParseError (Plain ''payload holds no objects''))
               else Inr objs))"

subsection \<open>The judgment\<close>

definition gw_recognized :: "unstr \<Rightarrow> obj \<Rightarrow> bool" where
  "gw_recognized U m =
     (if u_apiVersion U m = gw_sourceAPIVersion then u_kind U m = kindOCIRepository
      else if u_apiVersion U m = helmReleaseAPIVersion then u_kind U m = kindHelmRelease
      else False)"

definition gw_describeCondition :: "unstr \<Rightarrow> string \<Rightarrow> obj \<Rightarrow> string" where
  "gw_describeCondition U status cond =
     (let r = u_nested_string U [''reason''] cond; m = u_nested_string U [''message''] cond
      in ''Ready='' @ status @ (if r \<noteq> '''' then '': '' @ r else '''') @ (if m \<noteq> '''' then '': '' @ m else ''''))"

definition gw_readyCondition :: "unstr \<Rightarrow> ustatus \<Rightarrow> obj \<Rightarrow> (string \<times> string) option" where
  "gw_readyCondition U S m =
     (case find_condition U ''Ready'' (conditions_of S m) of
        None \<Rightarrow> None
      | Some cm \<Rightarrow> (let s = u_nested_string U [''status''] cm in Some (s, gw_describeCondition U s cm)))"

definition gw_Reconciled :: "unstr \<Rightarrow> ustatus \<Rightarrow> judge_fun" where
  "gw_Reconciled U S m =
     (if \<not> gw_recognized U m then Inl (newUnrecognizedObjectError (u_apiVersion U m) (u_kind U m))
      else case gw_readyCondition U S m of
        None \<Rightarrow> Inr (False, ''no Ready condition reported yet (the controller may not have observed the object)'')
      | Some (status, condReason) \<Rightarrow>
          if status \<noteq> ''True'' then Inr (False, condReason)
          else (case us_nested_int64 S [''status'', ''observedGeneration''] m of
                  None \<Rightarrow> Inr (False, ''no observedGeneration reported yet (cannot verify the Ready status is current)'')
                | Some observed \<Rightarrow>
                    if observed \<noteq> us_generation S m
                    then Inr (False, ''stale status: observedGeneration '' @ itoa observed @ '' does not match generation '' @
                           itoa (us_generation S m))
                    else Inr (True, '''')))"

lemma gw_describe_same: "gw_describeCondition = describeCondition"
  by (simp add: fun_eq_iff gw_describeCondition_def describeCondition_def)

lemma gw_ready_same: "gw_readyCondition = readyCondition"
  unfolding fun_eq_iff gw_readyCondition_def readyCondition_def gw_describe_same by blast

lemma gw_Reconciled_status:
  "gw_recognized U m \<Longrightarrow> gw_Reconciled U S m = judge_status U S m"
  unfolding gw_Reconciled_def judge_status_def gw_ready_same by simp

interpretation gw: current_judge U S "gw_recognized U" "gw_Reconciled U S" for U S
proof (rule current_judgeI)
  show "\<not> gw_recognized U m \<Longrightarrow> \<exists>e. gw_Reconciled U S m = Inl e \<and> is_coded e" for m
    by (simp add: gw_Reconciled_def newUnrecognizedObjectError_def wrap_def)
qed (rule gw_Reconciled_status)

text \<open>
  The fabric's parts fit together: the objects the domain emits name each other consistently
  (the stable Service has the name DNS is rewritten to, its backend is the implementation's
  Service, the Gateway and the Service live in the namespace the platform unit creates, the
  chart pair refer to one another, the certificate reference is the leaf Secret), and the two
  judged objects are exactly those its judgment recognizes, which accepts an object just when it
  is recognized and ready now.
\<close>

theorem gateway_fabric_consistent:
  "ServiceFQDN = as_string (nested [''metadata'', ''name''] stableService) @ ''.'' @
       as_string (nested [''metadata'', ''namespace''] stableService) @ ''.'' @ clusterSuffix @ ''.'' \<and>
   as_string (nested [''spec'', ''externalName''] stableService) =
       as_string (nested [''spec'', ''releaseName''] gw_helmRelease) @ ''.'' @
       as_string (nested [''spec'', ''targetNamespace''] gw_helmRelease) @ ''.'' @ clusterSuffix \<and>
   as_string (map_of chartValues ''fullnameOverride'') = as_string (nested [''spec'', ''releaseName''] gw_helmRelease) \<and>
   list_all (\<lambda>m. u_namespace std_unstr m = u_name std_unstr gatewayNamespace) [stableService, GatewayObject domain] \<and>
   nested [''spec'', ''chartRef'', ''kind''] gw_helmRelease = nested [''kind''] gw_chartSource \<and>
   nested [''spec'', ''chartRef'', ''name''] gw_helmRelease = nested [''metadata'', ''name''] gw_chartSource \<and>
   filter (gw_recognized std_unstr) (PlatformObjects @ HelmPairObjects @ [GatewayObject domain]) = HelmPairObjects \<and>
   ((\<exists>why. gw_Reconciled U S m = Inr (True, why)) \<longleftrightarrow> gw_recognized U m \<and> ready_now U S m)"
proof -
  have "(\<exists>why. gw_Reconciled U S m = Inr (True, why)) \<longleftrightarrow> gw_recognized U m \<and> ready_now U S m"
    by (rule gw.judge_iff)
  moreover have "filter (gw_recognized std_unstr) (PlatformObjects @ HelmPairObjects @ [GatewayObject domain]) = HelmPairObjects"
    by (simp add: PlatformObjects_def gatewayNamespace_def stableService_def HelmPairObjects_def gw_chartSource_def
        gw_helmRelease_def GatewayObject_def gw_recognized_def std_unstr_def gw_consts GatewayAPIVersion_def)
  ultimately show ?thesis
    by (simp add: ServiceFQDN_def stableService_def implementationFQDN_def gw_helmRelease_def chartValues_def
        GatewayObject_def gatewayNamespace_def gw_chartSource_def std_unstr_def gateway_Name_def)
qed

end
