(* ===== verification/CaSecrets.thy ===== *)
theory CaSecrets
  imports CaMint
begin

section \<open>The CA and leaf Secrets (\<open>internal/ca/secrets.go\<close>)\<close>

subsection \<open>Base64\<close>

text \<open>
  \<open>base64.StdEncoding\<close>: padded, line ends ignored when decoding, trailing bits of a padded
  group ignored.
\<close>

definition b64_alphabet :: string where
  "b64_alphabet = ''ABCDEFGHIJKLMNOPQRSTUVWXYZabcdefghijklmnopqrstuvwxyz0123456789+/''"

definition b64_char :: "nat \<Rightarrow> char" where
  "b64_char n = b64_alphabet ! n"

definition b64_val :: "char \<Rightarrow> nat option" where
  "b64_val c = index_where (\<lambda>d. d = c) b64_alphabet"

fun b64_encode :: "nat list \<Rightarrow> string" where
  "b64_encode [] = []"
| "b64_encode [a] = [b64_char (a div 4), b64_char (a mod 4 * 16), CHR ''='', CHR ''='']"
| "b64_encode [a, b] =
     [b64_char (a div 4), b64_char (a mod 4 * 16 + b div 16), b64_char (b mod 16 * 4), CHR ''='']"
| "b64_encode (a # b # c # bs) =
     b64_char (a div 4) # b64_char (a mod 4 * 16 + b div 16) # b64_char (b mod 16 * 4 + c div 64) #
     b64_char (c mod 64) # b64_encode bs"

fun b64_group :: "char \<Rightarrow> char \<Rightarrow> char \<Rightarrow> char \<Rightarrow> bool \<Rightarrow> nat list option" where
  "b64_group w x y z final =
     (case (b64_val w, b64_val x) of
        (Some i, Some j) \<Rightarrow>
          if final \<and> y = CHR ''='' \<and> z = CHR ''='' then Some [i * 4 + j div 16]
          else (case b64_val y of
                  None \<Rightarrow> None
                | Some k \<Rightarrow>
                    if final \<and> z = CHR ''='' then Some [i * 4 + j div 16, j mod 16 * 16 + k div 4]
                    else (case b64_val z of
                            None \<Rightarrow> None
                          | Some l \<Rightarrow> Some [i * 4 + j div 16, j mod 16 * 16 + k div 4, k mod 4 * 64 + l]))
      | _ \<Rightarrow> None)"

fun b64_decode :: "string \<Rightarrow> nat list option" where
  "b64_decode [] = Some []"
| "b64_decode (w # x # y # z # cs) =
     (case b64_group w x y z (cs = []) of
        None \<Rightarrow> None
      | Some bs \<Rightarrow> map_option (\<lambda>r. bs @ r) (b64_decode cs))"
| "b64_decode _ = None"

definition EncodeToString :: "string \<Rightarrow> string" where
  "EncodeToString bytes = b64_encode (map of_char bytes)"

definition DecodeString :: "string \<Rightarrow> string res" where
  "DecodeString s =
     (case b64_decode (filter (\<lambda>c. c \<noteq> CHR 0x0A \<and> c \<noteq> CHR 0x0D) s) of
        None \<Rightarrow> Inl (Plain ''illegal base64 data'')
      | Some bs \<Rightarrow> Inr (map char_of bs))"

lemma b64_table:
  "\<forall>n \<in> set [0..<64]. b64_val (b64_char n) = Some n \<and> b64_char n \<noteq> CHR ''='' \<and>
     b64_char n \<noteq> CHR 0x0A \<and> b64_char n \<noteq> CHR 0x0D"
  by code_simp

lemma b64_char [simp]:
  assumes "n < 64"
  shows "b64_val (b64_char n) = Some n" "b64_char n \<noteq> CHR ''=''" "b64_char n \<noteq> CHR 0x0A" "b64_char n \<noteq> CHR 0x0D"
  using b64_table assms by (auto simp del: upt.simps)

lemma pieces:
  "(a :: nat) < 256 \<Longrightarrow> a div 4 < 64"
  "(a :: nat) mod 4 * 16 < 64"
  "(b :: nat) < 256 \<Longrightarrow> (a :: nat) mod 4 * 16 + b div 16 < 64"
  "(b :: nat) mod 16 * 4 < 64"
  "(c :: nat) < 256 \<Longrightarrow> (b :: nat) mod 16 * 4 + c div 64 < 64"
  "(c :: nat) mod 64 < 64"
proof -
  show "(a :: nat) < 256 \<Longrightarrow> a div 4 < 64" by linarith
  show "(a :: nat) mod 4 * 16 < 64" by linarith
  show "(b :: nat) < 256 \<Longrightarrow> (a :: nat) mod 4 * 16 + b div 16 < 64" by linarith
  show "(b :: nat) mod 16 * 4 < 64" by linarith
  show "(c :: nat) < 256 \<Longrightarrow> (b :: nat) mod 16 * 4 + c div 64 < 64" by linarith
  show "(c :: nat) mod 64 < 64" by linarith
qed

lemma joins:
  "(b :: nat) < 256 \<Longrightarrow> b div 16 div 16 = 0"
  "(b :: nat) < 256 \<Longrightarrow> b div 16 mod 16 = b div 16"
  "(c :: nat) < 256 \<Longrightarrow> c div 64 div 4 = 0"
  "(c :: nat) < 256 \<Longrightarrow> c div 64 mod 4 = c div 64"
  by (simp_all add: less_mult_imp_div_less)

lemma b64_decode_encode:
  "\<forall>b \<in> set bs. b < 256 \<Longrightarrow> b64_decode (b64_encode bs) = Some bs"
  by (induction bs rule: b64_encode.induct) (simp_all add: pieces joins)

lemma b64_encode_clean:
  "\<forall>b \<in> set bs. b < 256 \<Longrightarrow> \<forall>c \<in> set (b64_encode bs). c \<noteq> CHR 0x0A \<and> c \<noteq> CHR 0x0D"
  by (induction bs rule: b64_encode.induct) (simp_all add: pieces)

lemma Decode_Encode: "DecodeString (EncodeToString s) = Inr s"
proof -
  have b: "\<forall>b \<in> set (map of_char s). (b :: nat) < 256"
    by (auto simp: of_char_def)
  have "filter (\<lambda>c. c \<noteq> CHR 0x0A \<and> c \<noteq> CHR 0x0D) (b64_encode (map of_char s)) = b64_encode (map of_char s)"
    using b64_encode_clean [OF b] by (simp add: filter_id_conv)
  then show ?thesis
    using b64_decode_encode [OF b] by (simp add: DecodeString_def EncodeToString_def comp_def)
qed

lemma EncodeToString_Nil: "EncodeToString s = '''' \<longleftrightarrow> s = ''''"
  unfolding EncodeToString_def by (cases "map of_char s :: nat list" rule: b64_encode.cases) auto

subsection \<open>The Secrets\<close>

definition secretType :: string where "secretType = ''kubernetes.io/tls''"
definition certDataKey :: string where "certDataKey = ''tls.crt''"
definition keyDataKey :: string where "keyDataKey = ''tls.key''"

record secret_placement =
  sp_Namespace :: string
  sp_CASecret :: string
  sp_LeafSecret :: string

definition secretObject :: "string \<Rightarrow> string \<Rightarrow> material \<Rightarrow> obj" where
  "secretObject namespace name m =
     [(''apiVersion'', VStr ''v1''), (''kind'', VStr ''Secret''),
      (''metadata'', VObj [(''namespace'', VStr namespace), (''name'', VStr name)]),
      (''type'', VStr secretType),
      (''data'', VObj [(certDataKey, VStr (EncodeToString (CertPEM m))), (keyDataKey, VStr (EncodeToString (KeyPEM m)))])]"

definition SecretObjects :: "secret_placement \<Rightarrow> ensure_result \<Rightarrow> obj list" where
  "SecretObjects p r =
     [secretObject (sp_Namespace p) (sp_CASecret p) (CA r), secretObject (sp_Namespace p) (sp_LeafSecret p) (Leaf r)]"

text \<open>
  \<open>unstructured.NestedStringMap\<close> is the library's: absent, present, or an error when the field
  is not an object of strings.
\<close>

type_synonym nested_string_map = "obj \<Rightarrow> string \<Rightarrow> (string, string) gomap option res"

definition nested_string_map_ok :: "nested_string_map \<Rightarrow> bool" where
  "nested_string_map_ok N \<longleftrightarrow>
     (\<forall>m k kvs. map_of m k = Some (VObj (map (\<lambda>(x, v). (x, VStr v)) kvs)) \<longrightarrow> N m k = Inr (Some kvs))"

definition decodeSecretValue :: "unstr \<Rightarrow> obj \<Rightarrow> (string, string) gomap \<Rightarrow> string \<Rightarrow> string res" where
  "decodeSecretValue U m data key =
     (case map_of data key of
        None \<Rightarrow> Inl (newUnusableSecretError (u_namespace U m) (u_name U m) (key @ '' is missing or empty'') None)
      | Some v \<Rightarrow>
          if v = '''' then Inl (newUnusableSecretError (u_namespace U m) (u_name U m) (key @ '' is missing or empty'') None)
          else case DecodeString v of
              Inl e \<Rightarrow> Inl (newUnusableSecretError (u_namespace U m) (u_name U m) (key @ '' is not valid base64'') (Some e))
            | Inr raw \<Rightarrow> Inr raw)"

definition MaterialFromSecret :: "unstr \<Rightarrow> nested_string_map \<Rightarrow> obj \<Rightarrow> material res" where
  "MaterialFromSecret U N m =
     (case N m ''data'' of
        Inl e \<Rightarrow> Inl (newUnusableSecretError (u_namespace U m) (u_name U m) ''data is not a map of strings'' (Some e))
      | Inr None \<Rightarrow> Inl (newUnusableSecretError (u_namespace U m) (u_name U m) ''secret carries no data'' None)
      | Inr (Some data) \<Rightarrow>
          (case decodeSecretValue U m data certDataKey of
             Inl e \<Rightarrow> Inl e
           | Inr certPEM \<Rightarrow>
               (case decodeSecretValue U m data keyDataKey of
                  Inl e \<Rightarrow> Inl e
                | Inr keyPEM \<Rightarrow> Inr \<lparr>CertPEM = certPEM, KeyPEM = keyPEM\<rparr>)))"

lemma decodeSecretValue_Inl: "decodeSecretValue U m d k = Inl e \<Longrightarrow> err_code e = Some ''CUBE-CA-002''"
  by (auto simp: decodeSecretValue_def newUnusableSecretError_def split: option.splits if_splits sum.splits)

lemma MaterialFromSecret_Inl: "MaterialFromSecret U N m = Inl e \<Longrightarrow> err_code e = Some ''CUBE-CA-002''"
  by (auto simp: MaterialFromSecret_def newUnusableSecretError_def split: sum.splits option.splits
      dest: decodeSecretValue_Inl)

lemma MaterialFromSecret_secretObject:
  assumes "nested_string_map_ok N" "CertPEM m \<noteq> ''''" "KeyPEM m \<noteq> ''''"
  shows "MaterialFromSecret U N (secretObject ns name m) = Inr m"
proof -
  let ?d = "[(certDataKey, EncodeToString (CertPEM m)), (keyDataKey, EncodeToString (KeyPEM m))]"
  have "map_of (secretObject ns name m) ''data'' = Some (VObj (map (\<lambda>(x, v). (x, VStr v)) ?d))"
    by (simp add: secretObject_def)
  with assms(1) have "N (secretObject ns name m) ''data'' = Inr (Some ?d)"
    unfolding nested_string_map_ok_def by blast
  moreover have "certDataKey \<noteq> keyDataKey"
    by (simp add: certDataKey_def keyDataKey_def)
  ultimately show ?thesis
    using assms(2,3) by (simp add: MaterialFromSecret_def decodeSecretValue_def Decode_Encode EncodeToString_Nil)
qed

text \<open>
  The two directions of the Secret codec fit: the material of a Secret this program wrote is
  read back byte for byte, whatever bytes it holds; and whatever else the cluster returns, what
  cannot be read is \<open>CUBE-CA-002\<close>, never absence, so bootstrap does not mint over it.
\<close>

theorem secret_roundtrip:
  assumes "nested_string_map_ok N" and "CertPEM m \<noteq> ''''" and "KeyPEM m \<noteq> ''''"
  shows "MaterialFromSecret U N (secretObject ns name m) = Inr m \<and>
     (\<forall>s. case MaterialFromSecret U N s of Inl e \<Rightarrow> err_code e = Some ''CUBE-CA-002'' | Inr m' \<Rightarrow> True)"
  using MaterialFromSecret_secretObject [OF assms] MaterialFromSecret_Inl by (auto split: sum.split)

definition std_string_map :: nested_string_map where
  "std_string_map m k =
     (case map_of m k of
        None \<Rightarrow> Inr None
      | Some (VObj kvs) \<Rightarrow>
          if list_all (\<lambda>(x, v). case v of VStr s \<Rightarrow> True | _ \<Rightarrow> False) kvs
          then Inr (Some (map (\<lambda>(x, v). (x, as_string (Some v))) kvs))
          else Inl (Plain ''accessor error'')
      | Some v \<Rightarrow> Inl (Plain ''accessor error''))"

lemma std_string_map_ok: "nested_string_map_ok std_string_map"
  by (auto simp: nested_string_map_ok_def std_string_map_def list_all_iff split_def comp_def)

theorem secret_roundtrip_witness:
  "MaterialFromSecret std_unstr std_string_map (secretObject ''gateway'' ''cube-idp-ca'' (CA sample_ensured)) =
     Inr (CA sample_ensured)"
proof -
  have "CertPEM (CA sample_ensured) \<noteq> ''''" "KeyPEM (CA sample_ensured) \<noteq> ''''"
    by (simp_all add: sample_ensured_def)
  from secret_roundtrip [OF std_string_map_ok this] show ?thesis by blast
qed

end
