(* ===== verification/Bootstrap.thy ===== *)
theory Bootstrap
  imports KubeStatus "HOL-Library.Sublist" "HOL-Library.List_Lexorder" "HOL-Library.Char_ord"
begin

section \<open>The bootstrap applier (\<open>internal/bootstrap\<close>)\<close>

text \<open>
  The injected client-go interfaces are the record \<open>api\<close>: functions of the state of the cluster
  and of the mapper's cache, \<open>'w\<close>. Every call that crosses the \<open>cluster\<close> seam is logged with its
  result, so what was applied, in which order, and what was seen before the run went on, is
  the log of the run. The context's deadline is the number of poll intervals it leaves, one
  budget for the whole run as in the code.
\<close>

subsection \<open>Coded errors (errors.go)\<close>

definition describe :: "unstr \<Rightarrow> obj \<Rightarrow> string" where
  "describe U m =
     (if u_namespace U m \<noteq> '''' then u_kind U m @ '' '' @ u_namespace U m @ ''/'' @ u_name U m
      else u_kind U m @ '' '' @ u_name U m)"

fun join_comma :: "string list \<Rightarrow> string" where
  "join_comma [] = ''''"
| "join_comma [p] = p"
| "join_comma (p # ps) = p @ '', '' @ join_comma ps"

definition describeAll :: "unstr \<Rightarrow> obj list \<Rightarrow> string" where
  "describeAll U objs = join_comma (map (describe U) objs)"

record pending_object =
  po_obj :: obj
  po_reason :: string

definition describePending :: "unstr \<Rightarrow> pending_object list \<Rightarrow> string" where
  "describePending U ps = join_comma (map (\<lambda>p. describe U (po_obj p) @ '' ('' @ po_reason p @ '')'') ps)"

abbreviation CodeRESTMapping :: code where "CodeRESTMapping \<equiv> ''CUBE-BST-003''"

definition newMappingError :: "unstr \<Rightarrow> obj \<Rightarrow> err \<Rightarrow> err" where
  "newMappingError U m cause = wrap CodeRESTMapping [describe U m] (Some cause)"

abbreviation CodeApplyFailed :: code where "CodeApplyFailed \<equiv> ''CUBE-BST-004''"

definition newApplyError :: "unstr \<Rightarrow> obj \<Rightarrow> err \<Rightarrow> err" where
  "newApplyError U m cause = wrap CodeApplyFailed [describe U m] (Some cause)"

abbreviation CodeWaitTimeout :: code where "CodeWaitTimeout \<equiv> ''CUBE-BST-005''"

definition newWaitError :: "unstr \<Rightarrow> string \<Rightarrow> string \<Rightarrow> obj list \<Rightarrow> err \<Rightarrow> err" where
  "newWaitError U subject namespace pending cause =
     (if is_coded cause then cause
      else wrap CodeWaitTimeout [subject, describeAll U pending, namespace] (Some cause))"

abbreviation CodeReconcileTimeout :: code where "CodeReconcileTimeout \<equiv> ''CUBE-BST-009''"

definition newReconcileWaitError :: "unstr \<Rightarrow> string \<Rightarrow> pending_object list \<Rightarrow> err \<Rightarrow> err" where
  "newReconcileWaitError U subject pending cause =
     (if is_coded cause then cause
      else wrap CodeReconcileTimeout [subject, describePending U pending] (Some cause))"

abbreviation CodePollFailed :: code where "CodePollFailed \<equiv> ''CUBE-BST-010''"

definition newPollError :: "unstr \<Rightarrow> obj \<Rightarrow> err \<Rightarrow> err" where
  "newPollError U m cause = wrap CodePollFailed [describe U m] (Some cause)"

definition newUnitJudgeError :: "string \<Rightarrow> err" where
  "newUnitJudgeError name = wrap CodePollFailed [name] (Some (Plain ''nil ReconciledFunc''))"

definition terminalPollError :: "unstr \<Rightarrow> obj \<Rightarrow> err \<Rightarrow> err" where
  "terminalPollError U m cause = (if is_coded cause then cause else newPollError U m cause)"

lemmas bst_errors =
  newMappingError_def newApplyError_def newWaitError_def newReconcileWaitError_def newPollError_def
  newUnitJudgeError_def terminalPollError_def

subsection \<open>The cluster seam (apply.go)\<close>

record mapping =
  mp_resource :: string
  mp_namespaced :: bool

record 'w api =
  ap_mapping :: "'w \<Rightarrow> string \<Rightarrow> string \<Rightarrow> mapping res \<times> 'w"
  ap_reset :: "('w \<Rightarrow> 'w) option"
  ap_apply :: "'w \<Rightarrow> mapping \<Rightarrow> string option \<Rightarrow> string \<Rightarrow> obj \<Rightarrow> err option \<times> 'w"
  ap_get :: "'w \<Rightarrow> mapping \<Rightarrow> string option \<Rightarrow> string \<Rightarrow> obj res \<times> 'w"
  ap_no_match :: "err \<Rightarrow> bool"
  ap_not_found :: "err \<Rightarrow> bool"
  ap_ctx_err :: err

datatype call =
    CApply obj "err option"
  | CGet obj "obj res"
  | CLive obj "obj res"

record 'w run =
  rn_world :: 'w
  rn_log :: "call list"
  rn_left :: nat

record 'w applier =
  A_api :: "'w api"
  A_unstr :: unstr
  A_status :: ustatus
  A_invNS :: string

definition rawResourceFor :: "'w applier \<Rightarrow> obj \<Rightarrow> 'w \<Rightarrow> (mapping \<times> string option) res \<times> 'w" where
  "rawResourceFor A m w =
     (let av = u_apiVersion (A_unstr A) m; kd = u_kind (A_unstr A) m;
          scoped = (\<lambda>mp. (mp, if mp_namespaced mp then Some (u_namespace (A_unstr A) m) else None))
      in case ap_mapping (A_api A) w av kd of
           (Inr mp, w1) \<Rightarrow> (Inr (scoped mp), w1)
         | (Inl e, w1) \<Rightarrow>
             (case ap_reset (A_api A) of
                None \<Rightarrow> (Inl e, w1)
              | Some reset \<Rightarrow>
                  (case ap_mapping (A_api A) (reset w1) av kd of
                     (Inl e', w2) \<Rightarrow> (Inl e', w2)
                   | (Inr mp, w2) \<Rightarrow> (Inr (scoped mp), w2))))"

definition resourceFor :: "'w applier \<Rightarrow> obj \<Rightarrow> 'w \<Rightarrow> (mapping \<times> string option) res \<times> 'w" where
  "resourceFor A m w =
     (case rawResourceFor A m w of
        (Inl e, w') \<Rightarrow> (Inl (newMappingError (A_unstr A) m e), w')
      | (Inr rc, w') \<Rightarrow> (Inr rc, w'))"

definition dyn_apply :: "'w applier \<Rightarrow> obj \<Rightarrow> 'w \<Rightarrow> err option \<times> 'w" where
  "dyn_apply A m w =
     (case resourceFor A m w of
        (Inl e, w') \<Rightarrow> (Some e, w')
      | (Inr (mp, ns), w') \<Rightarrow>
          (case ap_apply (A_api A) w' mp ns (u_name (A_unstr A) m) m of
             (Some e, w'') \<Rightarrow> (Some (newApplyError (A_unstr A) m e), w'')
           | (None, w'') \<Rightarrow> (None, w'')))"

definition dyn_get :: "'w applier \<Rightarrow> obj \<Rightarrow> 'w \<Rightarrow> obj res \<times> 'w" where
  "dyn_get A m w =
     (case resourceFor A m w of
        (Inl e, w') \<Rightarrow> (Inl e, w')
      | (Inr (mp, ns), w') \<Rightarrow> ap_get (A_api A) w' mp ns (u_name (A_unstr A) m))"

definition dyn_live :: "'w applier \<Rightarrow> obj \<Rightarrow> 'w \<Rightarrow> obj res \<times> 'w" where
  "dyn_live A m w =
     (case rawResourceFor A m w of
        (Inl e, w') \<Rightarrow> (Inl e, w')
      | (Inr (mp, ns), w') \<Rightarrow> ap_get (A_api A) w' mp ns (u_name (A_unstr A) m))"

definition seam_apply :: "'w applier \<Rightarrow> obj \<Rightarrow> 'w run \<Rightarrow> err option \<times> 'w run" where
  "seam_apply A m s =
     (case dyn_apply A m (rn_world s) of
        (r, w) \<Rightarrow> (r, s\<lparr>rn_world := w, rn_log := rn_log s @ [CApply m r]\<rparr>))"

definition seam_get :: "'w applier \<Rightarrow> obj \<Rightarrow> 'w run \<Rightarrow> obj res \<times> 'w run" where
  "seam_get A m s =
     (case dyn_get A m (rn_world s) of
        (r, w) \<Rightarrow> (r, s\<lparr>rn_world := w, rn_log := rn_log s @ [CGet m r]\<rparr>))"

definition seam_live :: "'w applier \<Rightarrow> obj \<Rightarrow> 'w run \<Rightarrow> obj res \<times> 'w run" where
  "seam_live A m s =
     (case dyn_live A m (rn_world s) of
        (r, w) \<Rightarrow> (r, s\<lparr>rn_world := w, rn_log := rn_log s @ [CLive m r]\<rparr>))"

fun Apply :: "'w applier \<Rightarrow> obj list \<Rightarrow> 'w run \<Rightarrow> err option \<times> 'w run" where
  "Apply A [] s = (None, s)"
| "Apply A (m # ms) s =
     (case seam_apply A m s of
        (Some e, s') \<Rightarrow> (Some e, s')
      | (None, s') \<Rightarrow> Apply A ms s')"

subsection \<open>The inventory (inventory.go)\<close>

definition InventoryName :: string where "InventoryName = ''cube-idp-bootstrap-inventory''"
definition inventoryKey :: string where "inventoryKey = ''objects''"

record object_ref =
  or_APIVersion :: string
  or_Kind :: string
  or_Namespace :: string
  or_Name :: string

definition refKey :: "object_ref \<Rightarrow> string" where
  "refKey r = or_Namespace r @ ''/'' @ or_Kind r @ ''/'' @ or_Name r"

definition object_ref_of :: "unstr \<Rightarrow> obj \<Rightarrow> object_ref" where
  "object_ref_of U m =
     \<lparr>or_APIVersion = u_apiVersion U m, or_Kind = u_kind U m, or_Namespace = u_namespace U m, or_Name = u_name U m\<rparr>"

text \<open>A JSON string as \<open>encoding/json\<close> writes it, with the escapes for HTML.\<close>

definition hex4 :: "nat \<Rightarrow> string" where
  "hex4 n = map (\<lambda>i. ''0123456789abcdef'' ! (n div 16 ^ i mod 16)) [3, 2, 1, 0]"

definition json_char :: "string \<Rightarrow> string" where
  "json_char ch =
     (case ch of
        [c] \<Rightarrow>
          if 128 \<le> (of_char c :: nat) then CHR 0x5C # ''ufffd''
          else if c = CHR 0x22 \<or> c = CHR 0x5C then [CHR 0x5C, c]
          else if c = CHR 0x08 then CHR 0x5C # ''b''
          else if c = CHR 0x0C then CHR 0x5C # ''f''
          else if c = CHR 0x0A then CHR 0x5C # ''n''
          else if c = CHR 0x0D then CHR 0x5C # ''r''
          else if c = CHR 0x09 then CHR 0x5C # ''t''
          else if (of_char c :: nat) < 32 \<or> c = CHR ''<'' \<or> c = CHR ''>'' \<or> c = CHR ''&''
          then CHR 0x5C # ''u'' @ hex4 (of_char c) else [c]
      | _ \<Rightarrow>
          if fst (decode_rune ch) = 0x2028 then CHR 0x5C # ''u2028''
          else if fst (decode_rune ch) = 0x2029 then CHR 0x5C # ''u2029'' else ch)"

definition json_string :: "string \<Rightarrow> string" where
  "json_string s = CHR 0x22 # concat (map json_char (rune_chunks s)) @ [CHR 0x22]"

definition json_field :: "string \<Rightarrow> string \<Rightarrow> string" where
  "json_field k v = ''    '' @ json_string k @ '': '' @ json_string v"

definition ref_json :: "object_ref \<Rightarrow> string" where
  "ref_json r =
     ''  {'' @ [CHR 0x0A] @
     join_with CHR 0x0A
       ([json_field ''apiVersion'' (or_APIVersion r) @ '','', json_field ''kind'' (or_Kind r) @ '',''] @
        (if or_Namespace r \<noteq> '''' then [json_field ''namespace'' (or_Namespace r) @ '',''] else []) @
        [json_field ''name'' (or_Name r)]) @
     [CHR 0x0A] @ ''  }''"

fun refs_body :: "object_ref list \<Rightarrow> string" where
  "refs_body [] = ''''"
| "refs_body [r] = ref_json r"
| "refs_body (r # rs) = ref_json r @ '','' @ [CHR 0x0A] @ refs_body rs"

definition refs_json :: "object_ref list \<Rightarrow> string" where
  "refs_json rs = (if rs = [] then ''[]'' else ''['' @ [CHR 0x0A] @ refs_body rs @ [CHR 0x0A] @ '']'')"

text \<open>
  \<open>sort.Slice\<close> is not stable; references with one key keep the order of the list here. Neither
  encoding can fail on these values.
\<close>

definition inventoryConfigMap :: "unstr \<Rightarrow> string \<Rightarrow> obj list \<Rightarrow> obj res" where
  "inventoryConfigMap U namespace objs =
     Inr [(''apiVersion'', VStr ''v1''), (''kind'', VStr ''ConfigMap''),
          (''metadata'', VObj
            [(''name'', VStr InventoryName), (''namespace'', VStr namespace),
             (''labels'', VObj [(''app.kubernetes.io/managed-by'', VStr ''cube-idp'')])]),
          (''data'', VObj [(inventoryKey, VStr (refs_json (sort_key refKey (map (object_ref_of U) objs))))])]"

definition RecordInventory :: "'w applier \<Rightarrow> obj list \<Rightarrow> 'w run \<Rightarrow> err option \<times> 'w run" where
  "RecordInventory A objs s =
     (case inventoryConfigMap (A_unstr A) (A_invNS A) objs of
        Inl e \<Rightarrow> (Some e, s)
      | Inr cm \<Rightarrow> seam_apply A cm s)"

subsection \<open>Polling\<close>

text \<open>
  \<open>wait.PollUntilContextCancel\<close> with an immediate first check: check, and while something is
  pending let an interval pass, until the budget is spent. An error of the check ends the poll
  with what was pending before it.
\<close>

fun poll_until ::
  "err \<Rightarrow> nat \<Rightarrow> ('p list \<Rightarrow> 'w run \<Rightarrow> 'p list res \<times> 'w run) \<Rightarrow> 'p list \<Rightarrow> 'w run \<Rightarrow> (err \<times> 'p list) option \<times> 'w run" where
  "poll_until ctx 0 check pending s =
     (case check pending s of
        (Inl e, s') \<Rightarrow> (Some (e, pending), s')
      | (Inr rem, s') \<Rightarrow> if length rem = 0 then (None, s') else (Some (ctx, rem), s'))"
| "poll_until ctx (Suc n) check pending s =
     (case check pending s of
        (Inl e, s') \<Rightarrow> (Some (e, pending), s')
      | (Inr rem, s') \<Rightarrow>
          if length rem = 0 then (None, s') else poll_until ctx n check rem (s'\<lparr>rn_left := n\<rparr>))"

subsection \<open>Kind-set readiness (wait.go)\<close>

definition conditionTrue :: "unstr \<Rightarrow> ustatus \<Rightarrow> obj \<Rightarrow> string \<Rightarrow> bool" where
  "conditionTrue U S m ty =
     (case find_condition U ty (conditions_of S m) of
        None \<Rightarrow> False
      | Some cm \<Rightarrow> u_nested_string U [''status''] cm = ''True'')"

definition workloadReady :: "ustatus \<Rightarrow> obj \<Rightarrow> bool" where
  "workloadReady S m =
     (case us_nested_int64 S [''status'', ''observedGeneration''] m of
        Some observed \<Rightarrow>
          if observed < us_generation S m then False
          else (let desired = (case us_nested_int64 S [''spec'', ''replicas''] m of None \<Rightarrow> 1 | Some d \<Rightarrow> d)
                in if desired = 0 then True
                   else desired \<le> (case us_nested_int64 S [''status'', ''readyReplicas''] m of None \<Rightarrow> 0 | Some n \<Rightarrow> n))
      | None \<Rightarrow>
          (let desired = (case us_nested_int64 S [''spec'', ''replicas''] m of None \<Rightarrow> 1 | Some d \<Rightarrow> d)
           in if desired = 0 then True
              else desired \<le> (case us_nested_int64 S [''status'', ''readyReplicas''] m of None \<Rightarrow> 0 | Some n \<Rightarrow> n)))"

definition inKindSet :: "string \<Rightarrow> bool" where
  "inKindSet k \<longleftrightarrow> k \<in> {''CustomResourceDefinition'', ''Deployment'', ''StatefulSet'', ''Job'', ''Namespace''}"

definition filterKindSet :: "unstr \<Rightarrow> obj list \<Rightarrow> obj list" where
  "filterKindSet U objs = filter (\<lambda>m. inKindSet (u_kind U m)) objs"

text \<open>The predicate of a kind, on the live object.\<close>

definition kind_ready :: "unstr \<Rightarrow> ustatus \<Rightarrow> string \<Rightarrow> obj \<Rightarrow> bool" where
  "kind_ready U S k live =
     (if k = ''CustomResourceDefinition'' then conditionTrue U S live ''Established''
      else if k = ''Deployment'' \<or> k = ''StatefulSet'' then workloadReady S live
      else if k = ''Job'' then conditionTrue U S live ''Complete''
      else if k = ''Namespace'' then u_nested_string U [''status'', ''phase''] live = ''Active''
      else True)"

definition ready :: "'w applier \<Rightarrow> obj \<Rightarrow> 'w run \<Rightarrow> bool res \<times> 'w run" where
  "ready A m s =
     (case seam_get A m s of
        (Inl e, s') \<Rightarrow> if ap_not_found (A_api A) e then (Inr False, s') else (Inl e, s')
      | (Inr live, s') \<Rightarrow> (Inr (kind_ready (A_unstr A) (A_status A) (u_kind (A_unstr A) m) live), s'))"

fun checkReady :: "'w applier \<Rightarrow> obj list \<Rightarrow> 'w run \<Rightarrow> obj list res \<times> 'w run" where
  "checkReady A [] s = (Inr [], s)"
| "checkReady A (m # ms) s =
     (case ready A m s of
        (Inl e, s') \<Rightarrow> (Inl (terminalPollError (A_unstr A) m e), s')
      | (Inr ok, s') \<Rightarrow>
          (case checkReady A ms s' of
             (Inl e, s'') \<Rightarrow> (Inl e, s'')
           | (Inr rem, s'') \<Rightarrow> (Inr (if ok then rem else m # rem), s'')))"

definition waitReady :: "'w applier \<Rightarrow> obj list \<Rightarrow> string \<Rightarrow> 'w run \<Rightarrow> err option \<times> 'w run" where
  "waitReady A objs subject s =
     (case poll_until (ap_ctx_err (A_api A)) (rn_left s) (checkReady A) (filterKindSet (A_unstr A) objs) s of
        (None, s') \<Rightarrow> (None, s')
      | (Some (e, pending), s') \<Rightarrow> (Some (newWaitError (A_unstr A) subject (A_invNS A) pending e), s'))"

definition WaitReady :: "'w applier \<Rightarrow> obj list \<Rightarrow> 'w run \<Rightarrow> err option \<times> 'w run" where
  "WaitReady A objs s = waitReady A objs ''bootstrap resources'' s"

subsection \<open>Reconciliation (reconcile.go)\<close>

definition transientPollReason :: "'w applier \<Rightarrow> err \<Rightarrow> string option" where
  "transientPollReason A e =
     (if ap_no_match (A_api A) e then Some ''kind not served by the cluster yet''
      else if ap_not_found (A_api A) e then Some ''object not created yet''
      else None)"

fun checkReconciled ::
  "'w applier \<Rightarrow> judge_fun \<Rightarrow> pending_object list \<Rightarrow> 'w run \<Rightarrow> pending_object list res \<times> 'w run" where
  "checkReconciled A judge [] s = (Inr [], s)"
| "checkReconciled A judge (p # ps) s =
     (case seam_live A (po_obj p) s of
        (Inl e, s') \<Rightarrow>
          (case transientPollReason A e of
             None \<Rightarrow> (Inl (terminalPollError (A_unstr A) (po_obj p) e), s')
           | Some reason \<Rightarrow>
               (case checkReconciled A judge ps s' of
                  (Inl e', s'') \<Rightarrow> (Inl e', s'')
                | (Inr rem, s'') \<Rightarrow> (Inr (\<lparr>po_obj = po_obj p, po_reason = reason\<rparr> # rem), s'')))
      | (Inr live, s') \<Rightarrow>
          (case judge live of
             Inl e \<Rightarrow> (Inl (terminalPollError (A_unstr A) (po_obj p) e), s')
           | Inr (ok, reason) \<Rightarrow>
               (case checkReconciled A judge ps s' of
                  (Inl e', s'') \<Rightarrow> (Inl e', s'')
                | (Inr rem, s'') \<Rightarrow>
                    (Inr (if ok then rem else \<lparr>po_obj = po_obj p, po_reason = reason\<rparr> # rem), s''))))"

definition waitReconciled ::
  "'w applier \<Rightarrow> obj list \<Rightarrow> judge_fun option \<Rightarrow> string \<Rightarrow> 'w run \<Rightarrow> err option \<times> 'w run" where
  "waitReconciled A objs judge subject s =
     (case judge of
        None \<Rightarrow> (None, s)
      | Some j \<Rightarrow>
          if length objs = 0 then (None, s)
          else case poll_until (ap_ctx_err (A_api A)) (rn_left s) (checkReconciled A j)
                      (map (\<lambda>m. \<lparr>po_obj = m, po_reason = ''not polled yet''\<rparr>) objs) s of
              (None, s') \<Rightarrow> (None, s')
            | (Some (e, pending), s') \<Rightarrow> (Some (newReconcileWaitError (A_unstr A) subject pending e), s'))"

definition WaitReconciled :: "'w applier \<Rightarrow> obj list \<Rightarrow> judge_fun option \<Rightarrow> 'w run \<Rightarrow> err option \<times> 'w run" where
  "WaitReconciled A objs judge s = waitReconciled A objs judge ''declared resources'' s"

subsection \<open>Prerequisite units (unit.go)\<close>

datatype unit_kind = unitRaw | unitCR | unitInert

record bunit =
  un_name :: string
  un_objects :: "obj list"
  un_kind :: unit_kind
  un_reconciled :: "judge_fun option"

definition NewRawUnit :: "string \<Rightarrow> obj list \<Rightarrow> bunit" where
  "NewRawUnit name objs = \<lparr>un_name = name, un_objects = objs, un_kind = unitRaw, un_reconciled = None\<rparr>"

definition NewCRUnit :: "string \<Rightarrow> obj list \<Rightarrow> judge_fun option \<Rightarrow> bunit" where
  "NewCRUnit name objs reconciled = \<lparr>un_name = name, un_objects = objs, un_kind = unitCR, un_reconciled = reconciled\<rparr>"

definition NewInertUnit :: "string \<Rightarrow> obj list \<Rightarrow> bunit" where
  "NewInertUnit name objs = \<lparr>un_name = name, un_objects = objs, un_kind = unitInert, un_reconciled = None\<rparr>"

fun checkUnits :: "bunit list \<Rightarrow> err option" where
  "checkUnits [] = None"
| "checkUnits (u # us) =
     (if un_kind u = unitCR \<and> un_reconciled u = None then Some (newUnitJudgeError (un_name u)) else checkUnits us)"

definition waitUnit :: "'w applier \<Rightarrow> bunit \<Rightarrow> 'w run \<Rightarrow> err option \<times> 'w run" where
  "waitUnit A u s =
     (let subject = ''prerequisite unit '' @ un_name u
      in case un_kind u of
           unitCR \<Rightarrow> waitReconciled A (un_objects u) (un_reconciled u) subject s
         | unitInert \<Rightarrow> (None, s)
         | unitRaw \<Rightarrow> waitReady A (un_objects u) subject s)"

fun installPrerequisites :: "'w applier \<Rightarrow> obj list \<Rightarrow> bunit list \<Rightarrow> 'w run \<Rightarrow> (obj list \<times> err option) \<times> 'w run" where
  "installPrerequisites A applied [] s = ((applied, None), s)"
| "installPrerequisites A applied (u # us) s =
     (let applied' = applied @ un_objects u
      in case RecordInventory A applied' s of
           (Some e, s1) \<Rightarrow> ((applied', Some e), s1)
         | (None, s1) \<Rightarrow>
             (case Apply A (un_objects u) s1 of
                (Some e, s2) \<Rightarrow> ((applied', Some e), s2)
              | (None, s2) \<Rightarrow>
                  (case waitUnit A u s2 of
                     (Some e, s3) \<Rightarrow> ((applied', Some e), s3)
                   | (None, s3) \<Rightarrow> installPrerequisites A applied' us s3)))"

subsection \<open>The installation (install.go)\<close>

record engine_install =
  ei_substrate :: "obj list"
  ei_prerequisites :: "bunit list"
  ei_wiring :: "obj list"
  ei_reconciled :: "judge_fun option"
  ei_engineObjects :: "obj list"

definition Install_phase :: "'w applier \<Rightarrow> obj list \<Rightarrow> 'w run \<Rightarrow> err option \<times> 'w run" where
  "Install_phase A objs s =
     (case Apply A objs s of
        (Some e, s1) \<Rightarrow> (Some e, s1)
      | (None, s1) \<Rightarrow>
          (case RecordInventory A objs s1 of
             (Some e, s2) \<Rightarrow> (Some e, s2)
           | (None, s2) \<Rightarrow> WaitReady A objs s2))"

definition InstallEngine :: "'w applier \<Rightarrow> engine_install \<Rightarrow> 'w run \<Rightarrow> err option \<times> 'w run" where
  "InstallEngine A i s =
     (case checkUnits (ei_prerequisites i) of
        Some e \<Rightarrow> (Some e, s)
      | None \<Rightarrow>
     (case Install_phase A (ei_substrate i) s of
        (Some e, s1) \<Rightarrow> (Some e, s1)
      | (None, s1) \<Rightarrow>
     (case installPrerequisites A (ei_substrate i) (ei_prerequisites i) s1 of
        ((applied, Some e), s2) \<Rightarrow> (Some e, s2)
      | ((applied, None), s2) \<Rightarrow>
          if length (ei_wiring i) > 0
          then (case RecordInventory A (applied @ ei_wiring i) s2 of
                  (Some e, s3) \<Rightarrow> (Some e, s3)
                | (None, s3) \<Rightarrow>
                    (case Apply A (ei_wiring i) s3 of
                       (Some e, s4) \<Rightarrow> (Some e, s4)
                     | (None, s4) \<Rightarrow>
                         (case WaitReconciled A (ei_wiring i) (ei_reconciled i) s4 of
                            (Some e, s5) \<Rightarrow> (Some e, s5)
                          | (None, s5) \<Rightarrow> WaitReconciled A (ei_engineObjects i) (ei_reconciled i) s5)))
          else WaitReconciled A (ei_engineObjects i) (ei_reconciled i) s2)))"

end
