(* ===== verification/BootstrapPlan.thy ===== *)
theory BootstrapPlan
  imports Bootstrap
begin

section \<open>What the installation does to the cluster\<close>

text \<open>
  The specification of an installation is a plan: the list of objects it applies, inventory
  records included, in order. The model is shown to follow its plan, a failing run a prefix of
  it, and never to go on past something it has not seen ready.
\<close>

subsection \<open>Following a plan\<close>

fun applies :: "call list \<Rightarrow> (obj \<times> err option) list" where
  "applies [] = []"
| "applies (CApply m r # cs) = (m, r) # applies cs"
| "applies (CGet m r # cs) = applies cs"
| "applies (CLive m r # cs) = applies cs"

lemma applies_append [simp]: "applies (cs @ ds) = applies cs @ applies ds"
  by (induction cs rule: applies.induct) auto

definition follows :: "'w run \<Rightarrow> err option \<Rightarrow> 'w run \<Rightarrow> obj list \<Rightarrow> bool" where
  "follows s r s' plan \<longleftrightarrow>
     (\<exists>new. rn_log s' = rn_log s @ new \<and> prefix (map fst (applies new)) plan \<and>
        (\<forall>x \<in> set (butlast (applies new)). snd x = None) \<and>
        (r = None \<longrightarrow> map fst (applies new) = plan \<and> (\<forall>x \<in> set (applies new). snd x = None)))"

lemma follows_Nil: "follows s r s []"
  by (auto simp: follows_def)

lemma follows_quiet: "rn_log s' = rn_log s @ new \<Longrightarrow> applies new = [] \<Longrightarrow> follows s r s' []"
  by (auto simp: follows_def)

lemma follows_stop: "follows s (Some e) s' p \<Longrightarrow> follows s (Some e) s' (p @ q)"
  by (auto simp: follows_def intro: prefix_order.trans)

lemma follows_seq:
  assumes "follows s None s1 p" "follows s1 r s2 q"
  shows "follows s r s2 (p @ q)"
proof -
  from assms(1) obtain n1 where 1: "rn_log s1 = rn_log s @ n1" "map fst (applies n1) = p" "\<forall>x \<in> set (applies n1). snd x = None"
    by (auto simp: follows_def)
  from assms(2) obtain n2 where 2: "rn_log s2 = rn_log s1 @ n2" "prefix (map fst (applies n2)) q"
    "\<forall>x \<in> set (butlast (applies n2)). snd x = None"
    "r = None \<longrightarrow> map fst (applies n2) = q \<and> (\<forall>x \<in> set (applies n2). snd x = None)"
    by (auto simp: follows_def)
  show ?thesis
    unfolding follows_def using 1 2
    by (intro exI [of _ "n1 @ n2"]) (auto simp: butlast_append split: if_splits dest: in_set_butlastD)
qed

text \<open>One step, then the rest unless it failed.\<close>

lemma follows_bind:
  assumes "follows s r1 s1 p" and "r1 = None \<Longrightarrow> follows s1 r s' q"
    and "\<And>e. r1 = Some e \<Longrightarrow> r = Some e \<and> s' = s1"
  shows "follows s r s' (p @ q)"
proof (cases r1)
  case None
  then show ?thesis using assms(1,2) follows_seq by blast
next
  case (Some e)
  then show ?thesis using assms(1) assms(3) [OF Some] follows_stop by blast
qed

lemma follows_apply: "seam_apply A m s = (r, s') \<Longrightarrow> follows s r s' [m]"
  by (auto simp: seam_apply_def follows_def split: prod.splits)

lemma follows_Apply: "Apply A ms s = (r, s') \<Longrightarrow> follows s r s' ms"
proof (induction A ms s rule: Apply.induct)
  case (1 A s)
  then show ?case by (simp add: follows_Nil)
next
  case (2 A m ms s)
  obtain r1 s1 where a: "seam_apply A m s = (r1, s1)" by (cases "seam_apply A m s")
  show ?case
  proof (cases r1)
    case None
    with 2 a have "follows s1 r s' ms" by auto
    with follows_seq [OF follows_apply [OF a [unfolded None]]] show ?thesis by simp
  next
    case (Some e)
    with 2 a have "r = Some e" "s' = s1" by auto
    with follows_stop [OF follows_apply [OF a [unfolded Some]], of ms] show ?thesis by simp
  qed
qed

text \<open>The inventory record of a list, as the object that is applied.\<close>

definition inventory_of :: "'w applier \<Rightarrow> obj list \<Rightarrow> obj" where
  "inventory_of A objs = (case inventoryConfigMap (A_unstr A) (A_invNS A) objs of Inr cm \<Rightarrow> cm | Inl e \<Rightarrow> [])"

lemma follows_RecordInventory: "RecordInventory A objs s = (r, s') \<Longrightarrow> follows s r s' [inventory_of A objs]"
  by (auto simp: RecordInventory_def inventory_of_def inventoryConfigMap_def intro: follows_apply)

subsection \<open>The waits apply nothing\<close>

definition quiet :: "'w run \<Rightarrow> 'w run \<Rightarrow> bool" where
  "quiet s s' \<longleftrightarrow> (\<exists>new. rn_log s' = rn_log s @ new \<and> applies new = [])"

lemma quiet_refl [simp]: "quiet s s"
  by (simp add: quiet_def)

lemma quiet_trans [trans]: "quiet s s1 \<Longrightarrow> quiet s1 s2 \<Longrightarrow> quiet s s2"
  by (auto simp: quiet_def)

lemma quiet_left [simp]: "quiet s (s'\<lparr>rn_left := n\<rparr>) = quiet s s'" "quiet (s\<lparr>rn_left := n\<rparr>) s' = quiet s s'"
  by (simp_all add: quiet_def)

lemma quiet_seam: "seam_get A m s = (r, s') \<Longrightarrow> quiet s s'" "seam_live A m s = (r, s') \<Longrightarrow> quiet s s'"
  by (auto simp: seam_get_def seam_live_def quiet_def split: prod.splits)

lemma quiet_ready: "ready A m s = (r, s') \<Longrightarrow> quiet s s'"
  by (auto simp: ready_def split: prod.splits sum.splits if_splits dest: quiet_seam)

lemma quiet_checkReady: "checkReady A ms s = (r, s') \<Longrightarrow> quiet s s'"
proof (induction A ms s arbitrary: r s' rule: checkReady.induct)
  case (2 A m ms s)
  then show ?case
    by (auto split: prod.splits sum.splits dest!: quiet_ready intro: quiet_trans)
qed simp

lemma quiet_checkReconciled: "checkReconciled A j ps s = (r, s') \<Longrightarrow> quiet s s'"
proof (induction A j ps s arbitrary: r s' rule: checkReconciled.induct)
  case (2 A j p ps s)
  then show ?case
    by (auto split: prod.splits sum.splits option.splits dest!: quiet_seam(2) intro: quiet_trans)
qed simp

lemma quiet_poll_until:
  assumes "\<And>ps s r s'. check ps s = (r, s') \<Longrightarrow> quiet s s'"
  shows "poll_until ctx n check ps s = (r, s') \<Longrightarrow> quiet s s'"
proof (induction n arbitrary: ps s)
  case 0
  then show ?case using assms by (auto split: prod.splits sum.splits if_splits)
next
  case (Suc n)
  obtain c s1 where c: "check ps s = (c, s1)" by (cases "check ps s")
  have "quiet s s1" using assms [OF c] .
  then show ?case
    using Suc.prems c Suc.IH [of _ "s1\<lparr>rn_left := n\<rparr>"]
    by (auto split: sum.splits if_splits intro: quiet_trans)
qed

lemma quiet_waitReady: "waitReady A objs subj s = (r, s') \<Longrightarrow> quiet s s'"
  by (auto simp: waitReady_def split: prod.splits option.splits dest!: quiet_poll_until [rotated] intro: quiet_checkReady)

lemma quiet_waitReconciled: "waitReconciled A objs j subj s = (r, s') \<Longrightarrow> quiet s s'"
  by (auto simp: waitReconciled_def split: prod.splits option.splits if_splits
      dest!: quiet_poll_until [rotated] intro: quiet_checkReconciled)

lemma quiet_waitUnit: "waitUnit A u s = (r, s') \<Longrightarrow> quiet s s'"
  by (auto simp: waitUnit_def Let_def split: unit_kind.splits dest: quiet_waitReady quiet_waitReconciled)

lemma quiet_follows: "quiet s s' \<Longrightarrow> follows s r s' []"
  by (auto simp: quiet_def intro: follows_quiet)

subsection \<open>The plan\<close>

fun units_plan :: "'w applier \<Rightarrow> obj list \<Rightarrow> bunit list \<Rightarrow> obj list" where
  "units_plan A applied [] = []"
| "units_plan A applied (u # us) =
     inventory_of A (applied @ un_objects u) # un_objects u @ units_plan A (applied @ un_objects u) us"

fun owned :: "obj list \<Rightarrow> bunit list \<Rightarrow> obj list" where
  "owned applied [] = applied"
| "owned applied (u # us) = owned (applied @ un_objects u) us"

definition install_plan :: "'w applier \<Rightarrow> engine_install \<Rightarrow> obj list" where
  "install_plan A i =
     ei_substrate i @ [inventory_of A (ei_substrate i)] @ units_plan A (ei_substrate i) (ei_prerequisites i) @
     (if ei_wiring i = [] then []
      else inventory_of A (owned (ei_substrate i) (ei_prerequisites i) @ ei_wiring i) # ei_wiring i)"

lemma follows_Install_phase:
  assumes "Install_phase A objs s = (r, s')"
  shows "follows s r s' (objs @ [inventory_of A objs])"
proof -
  obtain r1 s1 where a: "Apply A objs s = (r1, s1)" by (cases "Apply A objs s")
  obtain r2 s2 where b: "RecordInventory A objs s1 = (r2, s2)" by (cases "RecordInventory A objs s1")
  have "follows s1 r s' ([inventory_of A objs] @ [])" if "r1 = None"
    using follows_RecordInventory [OF b]
  proof (rule follows_bind)
    assume "r2 = None"
    with that assms a b have "WaitReady A objs s2 = (r, s')" by (simp add: Install_phase_def)
    then show "follows s2 r s' []" by (intro quiet_follows quiet_waitReady) (simp add: WaitReady_def)
  next
    fix e assume "r2 = Some e"
    with that assms a b show "r = Some e \<and> s' = s2" by (simp add: Install_phase_def)
  qed
  then show ?thesis
    using assms a by (intro follows_bind [OF follows_Apply [OF a]]) (simp_all add: Install_phase_def)
qed

lemma follows_installPrerequisites:
  "installPrerequisites A applied us s = ((owns, r), s') \<Longrightarrow>
     follows s r s' (units_plan A applied us) \<and> (r = None \<longrightarrow> owns = owned applied us)"
proof (induction us arbitrary: applied s)
  case Nil
  then show ?case by (simp add: follows_Nil)
next
  case (Cons u us)
  let ?ap = "applied @ un_objects u"
  obtain r1 s1 where b: "RecordInventory A ?ap s = (r1, s1)" by (cases "RecordInventory A ?ap s")
  obtain r2 s2 where a: "Apply A (un_objects u) s1 = (r2, s2)" by (cases "Apply A (un_objects u) s1")
  obtain r3 s3 where w: "waitUnit A u s2 = (r3, s3)" by (cases "waitUnit A u s2")
  have rest: "installPrerequisites A ?ap us s3 = ((owns, r), s')" if "r1 = None" "r2 = None" "r3 = None"
    using Cons.prems b a w that by simp
  have "follows s2 r s' ([] @ units_plan A ?ap us)" if "r1 = None" "r2 = None"
    using quiet_follows [OF quiet_waitUnit [OF w]] Cons.prems b a w that Cons.IH [OF rest]
    by (intro follows_bind [of s2 r3 s3]) auto
  then have "follows s1 r s' (un_objects u @ units_plan A ?ap us)" if "r1 = None"
    using follows_Apply [OF a] Cons.prems b a that by (intro follows_bind [of s1 r2 s2]) auto
  then have "follows s r s' ([inventory_of A ?ap] @ un_objects u @ units_plan A ?ap us)"
    using follows_RecordInventory [OF b] Cons.prems b by (intro follows_bind [of s r1 s1]) auto
  moreover have "r = None \<Longrightarrow> r1 = None \<and> r2 = None \<and> r3 = None"
    using Cons.prems b a w by (cases r1; cases r2; cases r3) (simp_all add: Let_def)
  ultimately show ?case
    using Cons.IH [OF rest] by auto
qed

lemma follows_InstallEngine:
  assumes "checkUnits (ei_prerequisites i) = None" and "InstallEngine A i s = (r, s')"
  shows "follows s r s' (install_plan A i)"
proof -
  let ?sub = "ei_substrate i" and ?us = "ei_prerequisites i" and ?wr = "ei_wiring i" and ?j = "ei_reconciled i"
  obtain r1 s1 where p: "Install_phase A ?sub s = (r1, s1)" by (cases "Install_phase A ?sub s")
  obtain own r2 s2 where u: "installPrerequisites A ?sub ?us s1 = ((own, r2), s2)"
    by (cases "installPrerequisites A ?sub ?us s1") (metis prod.collapse)
  note fu = follows_installPrerequisites [OF u]
  have wrq: "WaitReconciled A objs ?j t = (x, t') \<Longrightarrow> quiet t t'" for objs t x t'
    unfolding WaitReconciled_def by (rule quiet_waitReconciled)
  have "follows s2 r s' (if ?wr = [] then [] else inventory_of A (owned ?sub ?us @ ?wr) # ?wr)" if n: "r1 = None" "r2 = None"
  proof (cases "?wr = []")
    case True
    with assms p u n have "WaitReconciled A (ei_engineObjects i) ?j s2 = (r, s')" by (simp add: InstallEngine_def)
    with True show ?thesis by (simp add: quiet_follows [OF wrq])
  next
    case False
    have own: "own = owned ?sub ?us" using fu n by simp
    obtain r3 s3 where b: "RecordInventory A (own @ ?wr) s2 = (r3, s3)" by (cases "RecordInventory A (own @ ?wr) s2")
    obtain r4 s4 where a: "Apply A ?wr s3 = (r4, s4)" by (cases "Apply A ?wr s3")
    have run: "InstallEngine A i s = (case r3 of Some e \<Rightarrow> (Some e, s3) | None \<Rightarrow> (case r4 of Some e \<Rightarrow> (Some e, s4) | None \<Rightarrow>
        (case WaitReconciled A ?wr ?j s4 of (Some e, s5) \<Rightarrow> (Some e, s5) | (None, s5) \<Rightarrow> WaitReconciled A (ei_engineObjects i) ?j s5)))"
      using assms(1) p u n False b a by (simp add: InstallEngine_def split: option.split)
    have "follows s4 r s' []" if "r3 = None" "r4 = None"
    proof (cases "WaitReconciled A ?wr ?j s4")
      case (Pair r5 s5)
      with run assms(2) that have "(r, s') = (case r5 of Some e \<Rightarrow> (Some e, s5) | None \<Rightarrow> WaitReconciled A (ei_engineObjects i) ?j s5)"
        by (simp split: option.splits)
      then have "quiet s5 s'"
        using wrq [of "ei_engineObjects i" s5 r s'] by (cases r5) auto
      with wrq [OF Pair] show ?thesis by (blast intro: quiet_follows quiet_trans)
    qed
    then have "follows s3 r s' (?wr @ [])" if "r3 = None"
      using follows_Apply [OF a] run assms(2) that by (intro follows_bind [of s3 r4 s4]) auto
    then have "follows s2 r s' ([inventory_of A (own @ ?wr)] @ ?wr @ [])"
      using follows_RecordInventory [OF b] run assms(2) by (intro follows_bind [of s2 r3 s3]) auto
    with False own show ?thesis by simp
  qed
  then have "follows s1 r s' (units_plan A ?sub ?us @
      (if ?wr = [] then [] else inventory_of A (owned ?sub ?us @ ?wr) # ?wr))" if "r1 = None"
    using fu assms p u that by (intro follows_bind [of s1 r2 s2]) (auto simp: InstallEngine_def)
  then have "follows s r s' ((?sub @ [inventory_of A ?sub]) @ units_plan A ?sub ?us @
      (if ?wr = [] then [] else inventory_of A (owned ?sub ?us @ ?wr) # ?wr))"
    using assms p by - (rule follows_bind [OF follows_Install_phase [OF p]], simp, auto simp: InstallEngine_def)
  then show ?thesis by (simp add: install_plan_def)
qed

subsection \<open>Nothing beyond the substrate is applied unrecorded\<close>

definition records :: "'w applier \<Rightarrow> obj \<Rightarrow> obj \<Rightarrow> bool" where
  "records A cm m \<longleftrightarrow> (\<exists>objs. m \<in> set objs \<and> cm = inventory_of A objs)"

lemma units_plan_recorded:
  "units_plan A ap us = pre @ m # post \<Longrightarrow>
     (\<exists>objs. m = inventory_of A objs) \<or> (\<exists>cm \<in> set pre. records A cm m)"
proof (induction us arbitrary: ap pre)
  case Nil
  then show ?case by simp
next
  case (Cons u us)
  let ?ap = "ap @ un_objects u"
  show ?case
  proof (cases pre)
    case Nil
    with Cons.prems show ?thesis by auto
  next
    case (Cons x pre')
    with Cons.prems have x: "x = inventory_of A ?ap" and eq: "un_objects u @ units_plan A ?ap us = pre' @ m # post"
      by auto
    from eq consider "m \<in> set (un_objects u)" | pre2 where "pre' = un_objects u @ pre2" "units_plan A ?ap us = pre2 @ m # post"
      by (auto simp: append_eq_append_conv2 append_eq_Cons_conv Cons_eq_append_conv)
    then show ?thesis
    proof cases
      case 1
      then have "records A x m" unfolding records_def x by (intro exI [of _ ?ap]) simp
      with Cons show ?thesis by auto
    next
      case 2
      from Cons.IH [OF 2(2)] 2(1) Cons show ?thesis by auto
    qed
  qed
qed

lemma install_plan_recorded:
  assumes "install_plan A i = pre @ m # post" "length (ei_substrate i) < length pre"
  shows "(\<exists>objs. m = inventory_of A objs) \<or> (\<exists>cm \<in> set pre. records A cm m)"
proof -
  let ?sub = "ei_substrate i" and ?us = "ei_prerequisites i" and ?wr = "ei_wiring i"
  define up where "up = units_plan A ?sub ?us"
  define wp where "wp = (if ?wr = [] then [] else inventory_of A (owned ?sub ?us @ ?wr) # ?wr)"
  have "(?sub @ [inventory_of A ?sub]) @ (up @ wp) = pre @ m # post"
    using assms(1) by (simp add: install_plan_def up_def wp_def)
  then have "prefix (?sub @ [inventory_of A ?sub]) (pre @ m # post)" "prefix pre (pre @ m # post)"
    by (metis prefixI) (rule prefixI, rule refl)
  from prefix_length_prefix [OF this] assms(2) obtain pre1 where "pre = (?sub @ [inventory_of A ?sub]) @ pre1"
    by (auto elim: prefixE)
  with \<open>(?sub @ [inventory_of A ?sub]) @ (up @ wp) = pre @ m # post\<close>
  have pre1: "pre = (?sub @ [inventory_of A ?sub]) @ pre1" "up @ wp = pre1 @ m # post"
    by simp_all
  from pre1(2) consider post1 where "up = pre1 @ m # post1" | pre2 where "pre1 = up @ pre2" "wp = pre2 @ m # post"
    by (auto simp: append_eq_append_conv2 append_eq_Cons_conv Cons_eq_append_conv)
  then show ?thesis
  proof cases
    case 1
    from units_plan_recorded [OF this(1) [unfolded up_def]] pre1(1) show ?thesis by auto
  next
    case 2
    then have "wp = inventory_of A (owned ?sub ?us @ ?wr) # ?wr" by (auto simp: wp_def split: if_splits)
    with 2(2) consider "pre2 = []" "m = inventory_of A (owned ?sub ?us @ ?wr)"
      | pre3 where "pre2 = inventory_of A (owned ?sub ?us @ ?wr) # pre3" "m \<in> set ?wr"
      by (cases pre2) auto
    then show ?thesis
    proof cases
      case 1
      then show ?thesis by blast
    next
      case (2 pre3)
      then have "records A (inventory_of A (owned ?sub ?us @ ?wr)) m"
        unfolding records_def by (intro exI [of _ "owned ?sub ?us @ ?wr"]) simp
      with 2(1) \<open>pre1 = up @ pre2\<close> pre1(1) show ?thesis by auto
    qed
  qed
qed

text \<open>
  C2. The installation follows its plan: a defective list of units reaches the cluster not at
  all; otherwise the objects applied are, in order, those of the plan (the substrate and its
  inventory record, each unit behind the record of everything owned so far, the wiring behind
  the record of all of it), a failing run stops inside it, only its last apply can have failed,
  and a run that succeeds applied all of it.
\<close>

theorem InstallEngine_follows_plan:
  "case checkUnits (ei_prerequisites i) of
     Some e \<Rightarrow> InstallEngine A i s = (Some e, s)
   | None \<Rightarrow> follows s (fst (InstallEngine A i s)) (snd (InstallEngine A i s)) (install_plan A i)"
  using follows_InstallEngine [of i A s] by (auto simp: InstallEngine_def split: option.split)

text \<open>
  Everything applied after the substrate is recorded before it is applied: whatever the run's
  outcome, an object beyond the substrate and its record was preceded by an inventory record
  that lists it, unless it is such a record itself. (The substrate is recorded after it.)
\<close>

theorem InstallEngine_records_first:
  assumes "InstallEngine A i s = (r, s')" and "rn_log s' = rn_log s @ new"
    and "map fst (applies new) = pre @ m # post" and "length (ei_substrate i) < length pre"
  shows "(\<exists>objs. m = inventory_of A objs) \<or> (\<exists>cm \<in> set pre. records A cm m)"
proof (cases "checkUnits (ei_prerequisites i)")
  case (Some e)
  with assms have "s' = s" by (simp add: InstallEngine_def)
  with assms(2,3) show ?thesis by simp
next
  case None
  from follows_InstallEngine [OF this assms(1)] assms(2) have "prefix (map fst (applies new)) (install_plan A i)"
    by (auto simp: follows_def)
  then obtain q where "install_plan A i = pre @ m # post @ q"
    using assms(3) by (auto simp: prefix_def)
  from install_plan_recorded [OF this assms(4)] show ?thesis .
qed

subsection \<open>Nothing goes on past what was not seen ready\<close>

definition seen_ready :: "'w applier \<Rightarrow> obj \<Rightarrow> call set \<Rightarrow> bool" where
  "seen_ready A m X \<longleftrightarrow>
     (\<exists>live. CGet m (Inr live) \<in> X \<and> kind_ready (A_unstr A) (A_status A) (u_kind (A_unstr A) m) live)"

definition seen_judged :: "judge_fun \<Rightarrow> obj \<Rightarrow> call set \<Rightarrow> bool" where
  "seen_judged j m X \<longleftrightarrow> (\<exists>live why. CLive m (Inr live) \<in> X \<and> j live = Inr (True, why))"

text \<open>A pass of a check, over what identifies the pending items.\<close>

definition checks :: "('p \<Rightarrow> 'k) \<Rightarrow> ('k \<Rightarrow> call set \<Rightarrow> bool) \<Rightarrow> ('p list \<Rightarrow> 'w run \<Rightarrow> 'p list res \<times> 'w run) \<Rightarrow> bool" where
  "checks key seen check \<longleftrightarrow>
     (\<forall>ps s rem s'. check ps s = (Inr rem, s') \<longrightarrow>
        (\<exists>new. rn_log s' = rn_log s @ new \<and> (\<forall>p \<in> set ps. key p \<in> key ` set rem \<or> seen (key p) (set new))))"

lemma poll_seen:
  assumes "checks key seen check" and mono: "\<And>k X Y. seen k X \<Longrightarrow> X \<subseteq> Y \<Longrightarrow> seen k Y"
  shows "poll_until ctx n check ps s = (None, s') \<Longrightarrow>
    \<exists>new. rn_log s' = rn_log s @ new \<and> (\<forall>k \<in> key ` set ps. seen k (set new))"
proof (induction n arbitrary: ps s)
  case 0
  then obtain rem where "check ps s = (Inr rem, s')" "rem = []"
    by (auto split: prod.splits sum.splits if_splits)
  with assms(1) show ?case by (fastforce simp: checks_def)
next
  case (Suc n)
  then obtain rem s1 where c: "check ps s = (Inr rem, s1)"
    by (auto split: prod.splits sum.splits)
  with assms(1) obtain n1 where n1: "rn_log s1 = rn_log s @ n1"
    "\<forall>p \<in> set ps. key p \<in> key ` set rem \<or> seen (key p) (set n1)"
    unfolding checks_def by blast
  show ?case
  proof (cases "rem = []")
    case True
    with Suc.prems c n1 show ?thesis by auto
  next
    case False
    with Suc.prems c have "poll_until ctx n check rem (s1\<lparr>rn_left := n\<rparr>) = (None, s')" by simp
    from Suc.IH [OF this] obtain n2 where n2: "rn_log s' = rn_log s1 @ n2" "\<forall>k \<in> key ` set rem. seen k (set n2)"
      by auto
    show ?thesis
    proof (intro exI [of _ "n1 @ n2"] conjI ballI)
      show "rn_log s' = rn_log s @ n1 @ n2" using n1 n2 by simp
      fix k assume "k \<in> key ` set ps"
      then have "k \<in> key ` set rem \<or> seen k (set n1)" using n1(2) by auto
      then show "seen k (set (n1 @ n2))"
        using n2(2) mono [of k _ "set (n1 @ n2)"] by auto
    qed
  qed
qed

lemma checkReady_seen:
  "checkReady A ms s = (Inr rem, s') \<Longrightarrow>
     \<exists>new. rn_log s' = rn_log s @ new \<and> (\<forall>m \<in> set ms. m \<in> set rem \<or> seen_ready A m (set new))"
proof (induction ms arbitrary: s rem)
  case Nil
  then show ?case by simp
next
  case (Cons m ms)
  then obtain ok s1 rem1 where r: "ready A m s = (Inr ok, s1)" and c: "checkReady A ms s1 = (Inr rem1, s')"
    and rem: "rem = (if ok then rem1 else m # rem1)"
    by (auto split: prod.splits sum.splits)
  from r obtain x where l: "rn_log s1 = rn_log s @ [CGet m x]"
    and ok: "ok \<longrightarrow> (\<exists>live. x = Inr live \<and> kind_ready (A_unstr A) (A_status A) (u_kind (A_unstr A) m) live)"
    by (auto simp: ready_def seam_get_def split: prod.splits sum.splits if_splits)
  from Cons.IH [OF c] obtain new where n: "rn_log s' = rn_log s1 @ new"
    "\<forall>m \<in> set ms. m \<in> set rem1 \<or> seen_ready A m (set new)" by blast
  show ?case
    using l ok n rem by (intro exI [of _ "CGet m x # new"]) (auto simp: seen_ready_def)
qed

lemma checkReconciled_seen:
  "checkReconciled A j ps s = (Inr rem, s') \<Longrightarrow>
     \<exists>new. rn_log s' = rn_log s @ new \<and> (\<forall>p \<in> set ps. po_obj p \<in> po_obj ` set rem \<or> seen_judged j (po_obj p) (set new))"
proof (induction ps arbitrary: s rem)
  case Nil
  then show ?case by simp
next
  case (Cons p ps)
  obtain x s1 where x: "seam_live A (po_obj p) s = (x, s1)" by (cases "seam_live A (po_obj p) s")
  then have l: "rn_log s1 = rn_log s @ [CLive (po_obj p) x]" by (auto simp: seam_live_def split: prod.splits)
  from Cons.prems x obtain rem1 where c: "checkReconciled A j ps s1 = (Inr rem1, s')"
    and rm: "(rem = rem1 \<and> (\<exists>live why. x = Inr live \<and> j live = Inr (True, why))) \<or>
      (\<exists>why. rem = \<lparr>po_obj = po_obj p, po_reason = why\<rparr> # rem1)"
    by (auto split: prod.splits sum.splits option.splits if_splits)
  then have rem: "set rem1 \<subseteq> set rem" "po_obj p \<in> po_obj ` set rem \<or> (\<exists>live why. x = Inr live \<and> j live = Inr (True, why))"
    by auto
  from Cons.IH [OF c] obtain new where n: "rn_log s' = rn_log s1 @ new"
    "\<forall>p \<in> set ps. po_obj p \<in> po_obj ` set rem1 \<or> seen_judged j (po_obj p) (set new)" by blast
  show ?case
  proof (intro exI [of _ "CLive (po_obj p) x # new"] conjI ballI)
    show "rn_log s' = rn_log s @ CLive (po_obj p) x # new" using l n by simp
    fix q assume "q \<in> set (p # ps)"
    then show "po_obj q \<in> po_obj ` set rem \<or> seen_judged j (po_obj q) (set (CLive (po_obj p) x # new))"
      using rem n(2) by (auto simp: seen_judged_def) blast+
  qed
qed

lemma waitReady_seen:
  assumes "waitReady A objs subj s = (None, s')"
  shows "\<exists>new. rn_log s' = rn_log s @ new \<and> (\<forall>m \<in> set (filterKindSet (A_unstr A) objs). seen_ready A m (set new))"
proof -
  have p: "poll_until (ap_ctx_err (A_api A)) (rn_left s) (checkReady A) (filterKindSet (A_unstr A) objs) s = (None, s')"
    using assms by (auto simp: waitReady_def split: prod.splits option.splits)
  have "checks (\<lambda>m. m) (seen_ready A) (checkReady A)"
    unfolding checks_def image_ident using checkReady_seen by blast
  from poll_seen [OF this _ p] show ?thesis by (auto simp: seen_ready_def)
qed

lemma waitReconciled_seen:
  assumes "waitReconciled A objs (Some j) subj s = (None, s')"
  shows "\<exists>new. rn_log s' = rn_log s @ new \<and> (\<forall>m \<in> set objs. seen_judged j m (set new))"
proof (cases "objs = []")
  case True
  with assms show ?thesis by (simp add: waitReconciled_def)
next
  case False
  let ?ps = "map (\<lambda>m. \<lparr>po_obj = m, po_reason = ''not polled yet''\<rparr>) objs"
  have p: "poll_until (ap_ctx_err (A_api A)) (rn_left s) (checkReconciled A j) ?ps s = (None, s')"
    using assms False by (auto simp: waitReconciled_def split: prod.splits option.splits)
  have "checks po_obj (seen_judged j) (checkReconciled A j)"
    unfolding checks_def using checkReconciled_seen by blast
  from poll_seen [OF this _ p] show ?thesis by (auto simp: seen_judged_def image_image)
qed

text \<open>Acknowledged applies, and what a wait has to have seen.\<close>

definition acks :: "obj list \<Rightarrow> call list" where
  "acks ms = map (\<lambda>m. CApply m None) ms"

lemma Apply_acks: "Apply A ms s = (None, s') \<Longrightarrow> rn_log s' = rn_log s @ acks ms"
proof (induction ms arbitrary: s)
  case Nil
  then show ?case by (simp add: acks_def)
next
  case (Cons m ms)
  then obtain s1 where "seam_apply A m s = (None, s1)" and r: "Apply A ms s1 = (None, s')"
    by (auto split: prod.splits option.splits)
  then have "rn_log s1 = rn_log s @ [CApply m None]" by (auto simp: seam_apply_def split: prod.splits)
  with Cons.IH [OF r] show ?case by (simp add: acks_def)
qed

lemma RecordInventory_acks: "RecordInventory A objs s = (None, s') \<Longrightarrow> rn_log s' = rn_log s @ acks [inventory_of A objs]"
  by (auto simp: RecordInventory_def inventory_of_def inventoryConfigMap_def seam_apply_def acks_def split: prod.splits)

definition unit_seen :: "'w applier \<Rightarrow> bunit \<Rightarrow> call set \<Rightarrow> bool" where
  "unit_seen A u X \<longleftrightarrow>
     (case un_kind u of
        unitRaw \<Rightarrow> \<forall>m \<in> set (filterKindSet (A_unstr A) (un_objects u)). seen_ready A m X
      | unitCR \<Rightarrow> \<exists>j. un_reconciled u = Some j \<and> (\<forall>m \<in> set (un_objects u). seen_judged j m X)
      | unitInert \<Rightarrow> True)"

lemma waitUnit_seen:
  assumes "waitUnit A u s = (None, s')" and "\<not> (un_kind u = unitCR \<and> un_reconciled u = None)"
  shows "\<exists>new. rn_log s' = rn_log s @ new \<and> unit_seen A u (set new)"
  using assms waitReady_seen [of A "un_objects u" _ s s'] waitReconciled_seen [of A "un_objects u" _ _ s s']
  by (auto simp: waitUnit_def Let_def unit_seen_def split: unit_kind.splits)

fun phases :: "'w applier \<Rightarrow> obj list \<Rightarrow> bunit list \<Rightarrow> call list list \<Rightarrow> bool" where
  "phases A applied [] [] = True"
| "phases A applied (u # us) (seg # segs) =
     ((\<exists>obs. seg = acks (inventory_of A (applied @ un_objects u) # un_objects u) @ obs \<and> unit_seen A u (set obs)) \<and>
      phases A (applied @ un_objects u) us segs)"
| "phases A applied us segs = False"

lemma installPrerequisites_phases:
  "installPrerequisites A applied us s = ((owns, None), s') \<Longrightarrow> checkUnits us = None \<Longrightarrow>
     \<exists>segs. rn_log s' = rn_log s @ concat segs \<and> phases A applied us segs"
proof (induction us arbitrary: applied s)
  case Nil
  then show ?case by (intro exI [of _ "[]"]) simp
next
  case (Cons u us)
  let ?ap = "applied @ un_objects u"
  from Cons.prems(1) obtain s1 s2 s3 where b: "RecordInventory A ?ap s = (None, s1)" and a: "Apply A (un_objects u) s1 = (None, s2)"
    and w: "waitUnit A u s2 = (None, s3)" and r: "installPrerequisites A ?ap us s3 = ((owns, None), s')"
    by (auto simp: Let_def split: prod.splits option.splits)
  from Cons.prems(2) have c: "\<not> (un_kind u = unitCR \<and> un_reconciled u = None)" "checkUnits us = None"
    by (auto split: if_splits)
  from waitUnit_seen [OF w c(1)] obtain obs where o: "rn_log s3 = rn_log s2 @ obs" "unit_seen A u (set obs)" by blast
  from Cons.IH [OF r c(2)] obtain segs where segs: "rn_log s' = rn_log s3 @ concat segs" "phases A ?ap us segs" by blast
  show ?case
  proof (intro exI conjI)
    show "rn_log s' = rn_log s @ concat ((acks (inventory_of A ?ap # un_objects u) @ obs) # segs)"
      using RecordInventory_acks [OF b] Apply_acks [OF a] o(1) segs(1) by (simp add: acks_def)
    show "phases A applied (u # us) ((acks (inventory_of A ?ap # un_objects u) @ obs) # segs)"
      using o(2) segs(2) by auto
  qed
qed

definition all_judged :: "judge_fun option \<Rightarrow> obj list \<Rightarrow> call set \<Rightarrow> bool" where
  "all_judged j ms X \<longleftrightarrow> (\<forall>f. j = Some f \<longrightarrow> (\<forall>m \<in> set ms. seen_judged f m X))"

lemma WaitReconciled_seen:
  "WaitReconciled A objs j s = (None, s') \<Longrightarrow> \<exists>new. rn_log s' = rn_log s @ new \<and> all_judged j objs (set new)"
  using waitReconciled_seen [of A objs _ _ s s'] by (cases j) (auto simp: WaitReconciled_def all_judged_def waitReconciled_def)

lemma InstallEngine_run:
  assumes "InstallEngine A i s = (None, s')"
  shows "\<exists>sub segs wir eng. rn_log s' = rn_log s @ acks (ei_substrate i @ [inventory_of A (ei_substrate i)]) @ sub @
       concat segs @
       (if ei_wiring i = [] then []
        else acks (inventory_of A (owned (ei_substrate i) (ei_prerequisites i) @ ei_wiring i) # ei_wiring i) @ wir) @ eng \<and>
    (\<forall>m \<in> set (filterKindSet (A_unstr A) (ei_substrate i)). seen_ready A m (set sub)) \<and>
    phases A (ei_substrate i) (ei_prerequisites i) segs \<and>
    (ei_wiring i \<noteq> [] \<longrightarrow> all_judged (ei_reconciled i) (ei_wiring i) (set wir)) \<and>
    all_judged (ei_reconciled i) (ei_engineObjects i) (set eng)"
proof -
  let ?sub = "ei_substrate i" and ?us = "ei_prerequisites i" and ?wr = "ei_wiring i" and ?j = "ei_reconciled i"
  have cu: "checkUnits ?us = None" using assms by (auto simp: InstallEngine_def split: option.splits)
  with assms obtain s1 own s2 where p: "Install_phase A ?sub s = (None, s1)"
    and u: "installPrerequisites A ?sub ?us s1 = ((own, None), s2)"
    by (auto simp: InstallEngine_def split: prod.splits option.splits)
  from p obtain t1 t2 where "Apply A ?sub s = (None, t1)" "RecordInventory A ?sub t1 = (None, t2)" and w: "WaitReady A ?sub t2 = (None, s1)"
    by (auto simp: Install_phase_def split: prod.splits option.splits)
  then have l0: "rn_log t2 = rn_log s @ acks (?sub @ [inventory_of A ?sub])"
    using Apply_acks RecordInventory_acks by (fastforce simp: acks_def)
  from waitReady_seen [OF w [unfolded WaitReady_def]] obtain sub where
    sub: "rn_log s1 = rn_log t2 @ sub" "\<forall>m \<in> set (filterKindSet (A_unstr A) ?sub). seen_ready A m (set sub)" by blast
  from installPrerequisites_phases [OF u cu] obtain segs where
    segs: "rn_log s2 = rn_log s1 @ concat segs" "phases A ?sub ?us segs" by blast
  have own: "own = owned ?sub ?us" using follows_installPrerequisites [OF u] by simp
  obtain wir s5 where wir: "rn_log s5 = rn_log s2 @ (if ?wr = [] then [] else acks (inventory_of A (owned ?sub ?us @ ?wr) # ?wr) @ wir)"
      "?wr \<noteq> [] \<longrightarrow> all_judged ?j ?wr (set wir)"
    and e: "WaitReconciled A (ei_engineObjects i) ?j s5 = (None, s')"
  proof (cases "?wr = []")
    case True
    with assms cu p u have "WaitReconciled A (ei_engineObjects i) ?j s2 = (None, s')" by (simp add: InstallEngine_def)
    with True show thesis by (intro that [of s2 "[]"]) simp_all
  next
    case False
    with assms cu p u own obtain s3 s4 s5 where b: "RecordInventory A (owned ?sub ?us @ ?wr) s2 = (None, s3)"
      and a: "Apply A ?wr s3 = (None, s4)" and v: "WaitReconciled A ?wr ?j s4 = (None, s5)"
      and e: "WaitReconciled A (ei_engineObjects i) ?j s5 = (None, s')"
      by (auto simp: InstallEngine_def split: prod.splits option.splits)
    from WaitReconciled_seen [OF v] obtain wir where "rn_log s5 = rn_log s4 @ wir" "all_judged ?j ?wr (set wir)" by blast
    with RecordInventory_acks [OF b] Apply_acks [OF a] False e show thesis
      by (intro that [of s5 wir]) (simp_all add: acks_def)
  qed
  from WaitReconciled_seen [OF e] obtain eng where
    eng: "rn_log s' = rn_log s5 @ eng" "all_judged ?j (ei_engineObjects i) (set eng)" by blast
  have "rn_log s' = rn_log s @ acks (?sub @ [inventory_of A ?sub]) @ sub @ concat segs @
      (if ?wr = [] then [] else acks (inventory_of A (owned ?sub ?us @ ?wr) # ?wr) @ wir) @ eng"
    using l0 sub(1) segs(1) wir(1) eng(1) by simp
  with sub(2) segs(2) wir(2) eng(2) show ?thesis
    by (intro exI [of _ sub] exI [of _ segs] exI [of _ wir] exI [of _ eng]) simp
qed

lemma phases_unit:
  "phases A ap us segs \<Longrightarrow> u \<in> set us \<Longrightarrow> \<exists>seg \<in> set segs. \<exists>X \<subseteq> set seg. unit_seen A u X"
proof (induction A ap us segs rule: phases.induct)
  case (2 A ap v us seg segs)
  show ?case
  proof (cases "u = v")
    case True
    from "2.prems"(1) obtain obs where
      o: "seg = acks (inventory_of A (ap @ un_objects v) # un_objects v) @ obs" "unit_seen A v (set obs)" by auto
    have "set obs \<subseteq> set seg" unfolding o(1) by simp
    with o(2) True show ?thesis by auto
  next
    case False
    with 2 show ?thesis by auto
  qed
qed simp_all

lemma InstallEngine_unit_seen:
  assumes "InstallEngine A i s = (None, s')" "u \<in> set (ei_prerequisites i)"
  shows "\<exists>X \<subseteq> set (rn_log s'). unit_seen A u X"
proof -
  from InstallEngine_run [OF assms(1)] obtain pre segs post where
    l: "rn_log s' = pre @ concat segs @ post" and ph: "phases A (ei_substrate i) (ei_prerequisites i) segs"
    by (metis append.assoc)
  from phases_unit [OF ph assms(2)] obtain seg X where "seg \<in> set segs" "X \<subseteq> set seg" "unit_seen A u X" by blast
  moreover from this(1) have "set seg \<subseteq> set (rn_log s')" unfolding l by auto
  ultimately show ?thesis by blast
qed

text \<open>
  C1. A run that reports success saw everything ready, phase by phase: the log of its calls is the
  substrate's applies, its record and reads in which every object of the kind-set was ready;
  then for each unit in order its record, its applies and reads in which every object its
  flavor waits for was seen ready, all before the next unit starts; then the same for the wiring
  and the declared engine objects under the engine's judgment.
\<close>

theorem InstallEngine_success:
  assumes "InstallEngine A i s = (None, s')"
  shows "\<exists>sub segs wir eng. rn_log s' = rn_log s @ acks (ei_substrate i @ [inventory_of A (ei_substrate i)]) @ sub @
       concat segs @
       (if ei_wiring i = [] then []
        else acks (inventory_of A (owned (ei_substrate i) (ei_prerequisites i) @ ei_wiring i) # ei_wiring i) @ wir) @ eng \<and>
    (\<forall>m \<in> set (filterKindSet (A_unstr A) (ei_substrate i)). seen_ready A m (set sub)) \<and>
    phases A (ei_substrate i) (ei_prerequisites i) segs \<and>
    (ei_wiring i \<noteq> [] \<longrightarrow> all_judged (ei_reconciled i) (ei_wiring i) (set wir)) \<and>
    all_judged (ei_reconciled i) (ei_engineObjects i) (set eng)"
  using InstallEngine_run [OF assms] .

subsection \<open>Instances\<close>

text \<open>A cluster on which everything applies and every read gives an active namespace.\<close>

definition active_namespace :: obj where
  "active_namespace =
     [(''kind'', VStr ''Namespace''), (''metadata'', VObj [(''name'', VStr ''n'')]),
      (''status'', VObj [(''phase'', VStr ''Active'')])]"

definition sample_applier :: "unit applier" where
  "sample_applier =
     \<lparr>A_api = \<lparr>ap_mapping = (\<lambda>w av k. (Inr \<lparr>mp_resource = k, mp_namespaced = False\<rparr>, w)), ap_reset = None,
        ap_apply = (\<lambda>w mp ns n m. (None, w)), ap_get = (\<lambda>w mp ns n. (Inr active_namespace, w)),
        ap_no_match = (\<lambda>e. False), ap_not_found = (\<lambda>e. False), ap_ctx_err = Plain ''context deadline exceeded''\<rparr>,
      A_unstr = std_unstr, A_status = std_status, A_invNS = ''n''\<rparr>"

definition sample_install :: engine_install where
  "sample_install =
     \<lparr>ei_substrate = [active_namespace],
      ei_prerequisites = [NewInertUnit ''secrets'' [[(''kind'', VStr ''Secret'')]]],
      ei_wiring = [], ei_reconciled = None, ei_engineObjects = []\<rparr>"

definition sample_run :: "unit run" where
  "sample_run = \<lparr>rn_world = (), rn_log = [], rn_left = 3\<rparr>"

lemma sample_seam:
  "seam_apply sample_applier m s = (None, s\<lparr>rn_log := rn_log s @ [CApply m None]\<rparr>)"
  "seam_get sample_applier m s = (Inr active_namespace, s\<lparr>rn_log := rn_log s @ [CGet m (Inr active_namespace)]\<rparr>)"
  by (simp_all add: seam_apply_def dyn_apply_def seam_get_def dyn_get_def resourceFor_def rawResourceFor_def sample_applier_def Let_def)

lemma sample_record: "RecordInventory sample_applier objs s =
    (None, s\<lparr>rn_log := rn_log s @ [CApply (inventory_of sample_applier objs) None]\<rparr>)"
  by (simp add: RecordInventory_def inventoryConfigMap_def inventory_of_def sample_seam)

lemma sample_kind: "u_kind (A_unstr sample_applier) active_namespace = ''Namespace''"
  by (simp add: sample_applier_def std_unstr_def active_namespace_def)

lemma sample_ready: "kind_ready (A_unstr sample_applier) (A_status sample_applier) ''Namespace'' active_namespace"
  by (simp add: kind_ready_def sample_applier_def std_unstr_def active_namespace_def)

lemma sample_InstallEngine:
  "InstallEngine sample_applier sample_install sample_run =
     (None, sample_run\<lparr>rn_log :=
        [CApply active_namespace None, CApply (inventory_of sample_applier [active_namespace]) None,
         CGet active_namespace (Inr active_namespace),
         CApply (inventory_of sample_applier [active_namespace, [(''kind'', VStr ''Secret'')]]) None,
         CApply [(''kind'', VStr ''Secret'')] None]\<rparr>)"
proof -
  have f: "filterKindSet (A_unstr sample_applier) [active_namespace] = [active_namespace]"
    by (simp add: filterKindSet_def inKindSet_def sample_kind)
  have "WaitReady sample_applier [active_namespace] s =
      (None, s\<lparr>rn_log := rn_log s @ [CGet active_namespace (Inr active_namespace)]\<rparr>)" for s
    by (cases "rn_left s") (simp_all add: WaitReady_def waitReady_def f ready_def sample_seam sample_kind sample_ready)
  then show ?thesis
    by (simp add: InstallEngine_def sample_install_def NewInertUnit_def Install_phase_def sample_seam sample_record
        waitUnit_def Let_def WaitReconciled_def waitReconciled_def sample_run_def)
qed

theorem InstallEngine_success_witness:
  "\<exists>sub. seen_ready sample_applier active_namespace (set sub) \<and>
     set sub \<subseteq> set (rn_log (snd (InstallEngine sample_applier sample_install sample_run)))"
proof -
  obtain s' where e: "InstallEngine sample_applier sample_install sample_run = (None, s')"
    using sample_InstallEngine by blast
  have m: "active_namespace \<in> set (filterKindSet (A_unstr sample_applier) (ei_substrate sample_install))"
    by (simp add: filterKindSet_def inKindSet_def sample_kind sample_install_def)
  from InstallEngine_success [OF e] obtain sub rest1 rest2 where l: "rn_log s' = rn_log sample_run @ rest1 @ sub @ rest2"
    and r: "\<forall>m \<in> set (filterKindSet (A_unstr sample_applier) (ei_substrate sample_install)). seen_ready sample_applier m (set sub)"
    by (elim exE conjE) (rule that)
  have "set sub \<subseteq> set (rn_log s')" unfolding l by auto
  with bspec [OF r m] e show ?thesis by auto
qed

theorem InstallEngine_records_first_witness:
  "\<exists>cm \<in> {active_namespace, inventory_of sample_applier [active_namespace],
       inventory_of sample_applier [active_namespace, [(''kind'', VStr ''Secret'')]]}.
     records sample_applier cm [(''kind'', VStr ''Secret'')]"
proof -
  have "[(''kind'', VStr ''Secret'')] \<noteq> inventory_of sample_applier objs" for objs
    by (simp add: inventory_of_def inventoryConfigMap_def)
  moreover have "length (ei_substrate sample_install) < 3" by (simp add: sample_install_def)
  ultimately show ?thesis
    using InstallEngine_records_first [OF sample_InstallEngine, of _ "[active_namespace, inventory_of sample_applier [active_namespace],
       inventory_of sample_applier [active_namespace, [(''kind'', VStr ''Secret'')]]]" "[(''kind'', VStr ''Secret'')]" "[]"]
    by (auto simp: sample_run_def)
qed

end
