(* ===== verification/CliPrereq.thy ===== *)
theory CliPrereq
  imports Ref PackRender GatewayObjects CaSecrets BootstrapPlan
begin

section \<open>Resolving the prerequisite list (\<open>internal/cli\<close>: prerequisites.go, prerequisites\_override.go)\<close>

text \<open>
  Each entry of \<open>spec.prerequisites\<close> becomes one unit of the installation: built-in content by
  name, the cube's embedded packs, or a pack of the author's own resolved, loaded and rendered.
  \<open>edge_env\<close> gathers what the resolution reads: the embedded CRDs payload and its libraries, the
  reference environment and the pack libraries.
\<close>

subsection \<open>Operations\<close>

record 'c edge_env =
  ee_unstr :: unstr
  ee_status :: ustatus
  ee_sha256hex :: "string \<Rightarrow> string"
  ee_crds :: "string res"
  ee_decode :: "string \<Rightarrow> obj res list"
  ee_ref :: ref_env
  ee_pack :: "'c pack_env"

record prereq_inputs =
  pi_units :: "prereq_spec list"
  pi_domain :: string
  pi_ensured :: ensure_result

record unit_spec =
  us_name :: string
  us_objs :: "obj list"
  us_judge :: "judge_fun option"
  us_inert :: bool

definition to_unit :: "unit_spec \<Rightarrow> bunit" where
  "to_unit s =
     (case us_judge s of
        Some j \<Rightarrow> NewCRUnit (us_name s) (us_objs s) (Some j)
      | None \<Rightarrow>
          if us_inert s then NewInertUnit (us_name s) (us_objs s) else NewRawUnit (us_name s) (us_objs s))"

definition checkBuiltInHasNoRef :: "prereq_spec \<Rightarrow> err option" where
  "checkBuiltInHasNoRef entry =
     (if pr_ref entry = '''' then None
      else Some (Plain (''prerequisite unit '' @ pr_name entry @ '' is built-in and takes no ref'')))"

definition crdsSpec :: "'c edge_env \<Rightarrow> string \<Rightarrow> unit_spec res" where
  "crdsSpec E name =
     bindR (CRDsPackObjects (ee_sha256hex E) (ee_crds E) (ee_decode E)) (\<lambda>objs.
       Inr \<lparr>us_name = name, us_objs = objs, us_judge = None, us_inert = False\<rparr>)"

definition caSecretsSpec :: "string \<Rightarrow> ensure_result \<Rightarrow> unit_spec" where
  "caSecretsSpec name ensured =
     (let placement = \<lparr>sp_Namespace = gateway_Namespace, sp_CASecret = CASecretName, sp_LeafSecret = LeafSecretName\<rparr>
      in \<lparr>us_name = name, us_objs = SecretObjects placement ensured, us_judge = None, us_inert = True\<rparr>)"

definition gatewayUnitJudge :: "unstr \<Rightarrow> ustatus \<Rightarrow> judge_fun" where
  "gatewayUnitJudge U S m =
     (if u_apiVersion U m = GatewayAPIVersion \<and> u_kind U m = ''Gateway'' \<and>
         u_name U m = gateway_Name \<and> u_namespace U m = gateway_Namespace
      then Inr (True, '''') else gw_Reconciled U S m)"

definition embeddedGatewaySpec :: "unstr \<Rightarrow> ustatus \<Rightarrow> string \<Rightarrow> string \<Rightarrow> unit_spec" where
  "embeddedGatewaySpec U S name domain =
     \<lparr>us_name = name,
      us_objs = map (u_set_namespace U gateway_Namespace) HelmPairObjects @ [GatewayObject domain],
      us_judge = Some (gatewayUnitJudge U S), us_inert = False\<rparr>"

definition checkNoPackPrerequisites :: "string \<Rightarrow> string \<Rightarrow> render_plan \<Rightarrow> err option" where
  "checkNoPackPrerequisites unitName packName plan =
     (if length (rp_prerequisites plan) = 0 then None
      else Some (Plain (''prerequisite unit '' @ unitName @ '': pack '' @ packName @ '' declares '' @
        itoa (int (length (rp_prerequisites plan))) @ '' lifecycle:pre manifest(s)'')))"

definition overrideFlavor ::
  "unstr \<Rightarrow> ustatus \<Rightarrow> string \<Rightarrow> metadata \<Rightarrow> obj list \<Rightarrow> unit_spec res" where
  "overrideFlavor U S name meta objs =
     (if md_type meta \<noteq> TypeHelm
      then Inr \<lparr>us_name = name, us_objs = objs, us_judge = None, us_inert = False\<rparr>
      else if md_namespace meta = ''''
      then Inl (Plain (''prerequisite unit '' @ name @ '': helm pack '' @ md_name meta @ '' declares no namespace''))
      else Inr \<lparr>us_name = name, us_objs = map (u_set_namespace U (md_namespace meta)) objs,
                us_judge = Some (gw_Reconciled U S), us_inert = False\<rparr>)"

definition attachGatewayObject :: "unstr \<Rightarrow> ustatus \<Rightarrow> unit_spec \<Rightarrow> string \<Rightarrow> string \<Rightarrow> unit_spec" where
  "attachGatewayObject U S spec name domain =
     (if name \<noteq> PrerequisiteTraefikGateway then spec
      else let spec' = spec\<lparr>us_objs := us_objs spec @ [GatewayObject domain]\<rparr>
           in if us_judge spec' \<noteq> None then spec'\<lparr>us_judge := Some (gatewayUnitJudge U S)\<rparr> else spec')"

definition overrideSpec :: "'c edge_env \<Rightarrow> prereq_spec \<Rightarrow> string \<Rightarrow> unit_spec res" where
  "overrideSpec E entry domain =
     bindR (ResolveTree (ee_ref E) (pr_ref entry)) (\<lambda>tree.
     bindR (Load (ee_pack E) (tree_FS tree) (pr_ref entry)) (\<lambda>p.
     bindR (Render (ee_pack E) p [] '''') (\<lambda>plan.
       case checkNoPackPrerequisites (pr_name entry) (md_name (p_meta p)) plan of
         Some e \<Rightarrow> Inl e
       | None \<Rightarrow>
           bindR (overrideFlavor (ee_unstr E) (ee_status E) (pr_name entry) (p_meta p) (rp_objects plan)) (\<lambda>spec.
             Inr (attachGatewayObject (ee_unstr E) (ee_status E) spec (pr_name entry) domain)))))"

definition prerequisiteSpec :: "'c edge_env \<Rightarrow> prereq_spec \<Rightarrow> prereq_inputs \<Rightarrow> unit_spec res" where
  "prerequisiteSpec E entry inp =
     (if pr_name entry = PrerequisiteGatewayPlatform then
        (case checkBuiltInHasNoRef entry of
           Some e \<Rightarrow> Inl e
         | None \<Rightarrow> Inr \<lparr>us_name = pr_name entry, us_objs = PlatformObjects, us_judge = None, us_inert = False\<rparr>)
      else if pr_name entry = PrerequisiteCASecrets then
        (case checkBuiltInHasNoRef entry of
           Some e \<Rightarrow> Inl e
         | None \<Rightarrow> Inr (caSecretsSpec (pr_name entry) (pi_ensured inp)))
      else if pr_name entry = PrerequisiteGatewayAPICRDs \<and> pr_ref entry = '''' then crdsSpec E (pr_name entry)
      else if pr_name entry = PrerequisiteTraefikGateway \<and> pr_ref entry = ''''
      then Inr (embeddedGatewaySpec (ee_unstr E) (ee_status E) (pr_name entry) (pi_domain inp))
      else overrideSpec E entry (pi_domain inp))"

definition prerequisiteSpecs :: "'c edge_env \<Rightarrow> prereq_inputs \<Rightarrow> unit_spec list res" where
  "prerequisiteSpecs E inp = mapR (\<lambda>entry. prerequisiteSpec E entry inp) (pi_units inp)"

definition prerequisiteUnits :: "'c edge_env \<Rightarrow> prereq_inputs \<Rightarrow> bunit list res" where
  "prerequisiteUnits E inp = bindR (prerequisiteSpecs E inp) (\<lambda>specs. Inr (map to_unit specs))"

definition hasPrerequisite :: "prereq_spec list \<Rightarrow> string \<Rightarrow> bool" where
  "hasPrerequisite units name \<longleftrightarrow> list_ex (\<lambda>u. pr_name u = name) units"

definition hasGatewayFabric :: "prereq_spec list \<Rightarrow> bool" where
  "hasGatewayFabric units \<longleftrightarrow>
     hasPrerequisite units PrerequisiteGatewayPlatform \<and> hasPrerequisite units PrerequisiteTraefikGateway"

subsection \<open>Units of the list\<close>

lemma to_unit_name [simp]: "un_name (to_unit s) = us_name s"
  and to_unit_objects [simp]: "un_objects (to_unit s) = us_objs s"
  by (simp_all add: to_unit_def NewCRUnit_def NewInertUnit_def NewRawUnit_def split: option.split)

lemma to_unit_kind: "un_kind (to_unit s) = unitCR \<longleftrightarrow> us_judge s \<noteq> None" "un_reconciled (to_unit s) = us_judge s"
  by (simp_all add: to_unit_def NewCRUnit_def NewInertUnit_def NewRawUnit_def split: option.split)

lemma checkUnits_to_unit: "checkUnits (map to_unit ss) = None"
proof (induction ss)
  case (Cons s ss)
  then show ?case by (cases "us_judge s") (simp_all add: to_unit_kind)
qed simp

lemma prerequisiteSpec_name: "prerequisiteSpec E entry inp = Inr s \<Longrightarrow> us_name s = pr_name entry"
  by (auto simp: prerequisiteSpec_def caSecretsSpec_def crdsSpec_def embeddedGatewaySpec_def overrideSpec_def overrideFlavor_def
      attachGatewayObject_def Let_def bindR_Inr_iff split: if_splits option.splits)

lemma list_all2_left: "list_all2 P xs ys \<Longrightarrow> x \<in> set xs \<Longrightarrow> \<exists>y \<in> set ys. P x y"
  by (induction rule: list_all2_induct) auto

lemma list_all2_right: "list_all2 P xs ys \<Longrightarrow> y \<in> set ys \<Longrightarrow> \<exists>x \<in> set xs. P x y"
  by (induction rule: list_all2_induct) auto

lemma prerequisiteUnits_Inr:
  assumes "prerequisiteUnits E inp = Inr us"
  shows "\<exists>ss. us = map to_unit ss \<and> list_all2 (\<lambda>entry s. prerequisiteSpec E entry inp = Inr s) (pi_units inp) ss"
  using assms by (auto simp: prerequisiteUnits_def prerequisiteSpecs_def bindR_Inr_iff mapR_Inr_iff)

text \<open>
  C40. The list author decides: the units come out one for each entry, in the list's order and
  under its names, and none of them can be refused by the installation as a unit without a
  judgment. A built-in or embedded entry resolves the same way whatever the reference and pack
  libraries would answer, and a built-in entry that carries a reference does not resolve.
\<close>

theorem prerequisiteUnits_list:
  "(case prerequisiteUnits E inp of
      Inl e \<Rightarrow> True
    | Inr us \<Rightarrow> map un_name us = map pr_name (pi_units inp) \<and> checkUnits us = None \<and>
        list_all (\<lambda>entry. \<not> (isBuiltInPrerequisite (pr_name entry) \<and> pr_ref entry \<noteq> '''')) (pi_units inp)) \<and>
   (if list_all (\<lambda>entry. isWellKnownPrerequisite (pr_name entry) \<and> pr_ref entry = '''') (pi_units inp)
    then prerequisiteUnits (E\<lparr>ee_ref := R, ee_pack := P\<rparr>) inp = prerequisiteUnits E inp else True)"
proof (intro conjI)
  show "case prerequisiteUnits E inp of
      Inl e \<Rightarrow> True
    | Inr us \<Rightarrow> map un_name us = map pr_name (pi_units inp) \<and> checkUnits us = None \<and>
        list_all (\<lambda>entry. \<not> (isBuiltInPrerequisite (pr_name entry) \<and> pr_ref entry \<noteq> '''')) (pi_units inp)"
  proof (cases "prerequisiteUnits E inp")
    case (Inr us)
    from prerequisiteUnits_Inr [OF Inr] obtain ss where
      ss: "us = map to_unit ss" "list_all2 (\<lambda>entry s. prerequisiteSpec E entry inp = Inr s) (pi_units inp) ss" by blast
    from ss(2) have "map us_name ss = map pr_name (pi_units inp)"
      by (induction rule: list_all2_induct) (simp_all add: prerequisiteSpec_name)
    moreover from ss(2) have "list_all (\<lambda>entry. \<not> (isBuiltInPrerequisite (pr_name entry) \<and> pr_ref entry \<noteq> '''')) (pi_units inp)"
    proof (induction rule: list_all2_induct)
      case (Cons entry entries s ss)
      then show ?case
        by (auto simp: prerequisiteSpec_def checkBuiltInHasNoRef_def isBuiltInPrerequisite_def split: if_splits)
    qed simp
    ultimately show ?thesis using Inr ss(1) checkUnits_to_unit by (simp add: comp_def)
  qed simp
next
  have one: "prerequisiteSpec (E\<lparr>ee_ref := R, ee_pack := P\<rparr>) entry inp = prerequisiteSpec E entry inp"
    if "isWellKnownPrerequisite (pr_name entry) \<and> pr_ref entry = ''''" for entry
    using that by (auto simp: prerequisiteSpec_def isWellKnownPrerequisite_def isBuiltInPrerequisite_def crdsSpec_def)
  have "mapR (\<lambda>entry. prerequisiteSpec (E\<lparr>ee_ref := R, ee_pack := P\<rparr>) entry inp) es = mapR (\<lambda>entry. prerequisiteSpec E entry inp) es"
    if "list_all (\<lambda>entry. isWellKnownPrerequisite (pr_name entry) \<and> pr_ref entry = '''') es" for es
    using that by (induction es) (simp_all add: one)
  then show "if list_all (\<lambda>entry. isWellKnownPrerequisite (pr_name entry) \<and> pr_ref entry = '''') (pi_units inp)
    then prerequisiteUnits (E\<lparr>ee_ref := R, ee_pack := P\<rparr>) inp = prerequisiteUnits E inp else True"
    by (simp add: prerequisiteUnits_def prerequisiteSpecs_def)
qed

subsection \<open>The embedded gateway pack\<close>

text \<open>\<open>packs/traefik-gateway/pack.cue\<close>, as its metadata decodes.\<close>

definition traefik_metadata :: metadata where
  "traefik_metadata =
     \<lparr>md_name = ''traefik-gateway'', md_version = ''41.3.0'', md_type = ''helm'', md_namespace = ''gateway-system'',
      md_category = ''gateway'',
      md_chart = Some \<lparr>ch_kind = ''oci'', ch_url = ''oci://ghcr.io/traefik/helm/traefik'', ch_name = '''', ch_version = ''41.3.0'',
        ch_digest = ''sha256:dcae2d586d7fbda6a08150eaeeca4132e9dd042d8a4d16ada287e8c40f6ff17a''\<rparr>\<rparr>"

lemma traefik_plan:
  assumes "p_meta p = traefik_metadata" "values \<noteq> []" "jsonValues P values = Inr chartValues"
  shows "planHelm P p (instanceID p '''') values = Inr \<lparr>rp_prerequisites = [], rp_objects = HelmPairObjects\<rparr>"
  using assms
  by (simp add: planHelm_def helmRelease_def release_spec_def chartSource_def ociRef_def instanceID_def Let_def traefik_metadata_def
      HelmPairObjects_def gw_chartSource_def gw_helmRelease_def gw_consts helmInterval_def ChartKindOCI_def ImplementationID_def
      PrerequisiteTraefikGateway_def gateway_Namespace_def)

text \<open>
  The embedded copy is the pack: pointing the \<open>traefik-gateway\<close> entry at a copy of the
  cube's own pack, whose defaults are the chart values the domain carries, gives exactly the unit
  the embedded content gives: the same objects in the same order and namespace, the same Gateway
  beside them and the same judgment.
\<close>

theorem embedded_gateway_is_pack:
  assumes "pr_name entry = PrerequisiteTraefikGateway"
    and "ResolveTree (ee_ref E) (pr_ref entry) = Inr tree"
    and "Load (ee_pack E) (tree_FS tree) (pr_ref entry) = Inr p" and "p_meta p = traefik_metadata"
    and "pe_cancelled (ee_pack E) = None"
    and "resolveValues (pe_cue (ee_pack E)) (p_values p) ''helm'' [] = Inr values" and "values \<noteq> []"
    and "jsonValues (ee_pack E) values = Inr chartValues"
  shows "overrideSpec E entry (pi_domain inp) = prerequisiteSpec E (entry\<lparr>pr_ref := ''''\<rparr>) inp"
proof -
  have "Render (ee_pack E) p [] '''' = Inr \<lparr>rp_prerequisites = [], rp_objects = HelmPairObjects\<rparr>"
    using assms(4,5,6) traefik_plan [OF assms(4,7,8)]
    by (simp add: Render_def traefik_metadata_def pack_types)
  then have "overrideSpec E entry (pi_domain inp) =
     Inr (embeddedGatewaySpec (ee_unstr E) (ee_status E) (pr_name entry) (pi_domain inp))"
    using assms(1-4)
    by (simp add: overrideSpec_def checkNoPackPrerequisites_def overrideFlavor_def traefik_metadata_def pack_types
        attachGatewayObject_def embeddedGatewaySpec_def gateway_Namespace_def)
  then show ?thesis
    using assms(1) by (simp add: prerequisiteSpec_def prereq_consts)
qed

subsection \<open>What the judgment of a unit covers\<close>

definition same_identity :: "obj \<Rightarrow> obj \<Rightarrow> bool" where
  "same_identity m live \<longleftrightarrow>
     u_apiVersion std_unstr live = u_apiVersion std_unstr m \<and> u_kind std_unstr live = u_kind std_unstr m \<and>
     u_name std_unstr live = u_name std_unstr m \<and> u_namespace std_unstr live = u_namespace std_unstr m"

definition judges_all :: "judge_fun \<Rightarrow> obj list \<Rightarrow> bool" where
  "judges_all f objs \<longleftrightarrow> (\<forall>m \<in> set objs. \<forall>live. same_identity m live \<longrightarrow> (\<exists>r. f live = Inr r))"

lemma gatewayUnitJudge_recognized:
  "gw_recognized U m \<Longrightarrow> \<exists>r. gatewayUnitJudge U S m = Inr r"
  using gw.judge_covered by (fastforce simp: gatewayUnitJudge_def)

lemma GatewayObject_identity:
  "u_apiVersion std_unstr (GatewayObject d) = GatewayAPIVersion" "u_kind std_unstr (GatewayObject d) = ''Gateway''"
  "u_name std_unstr (GatewayObject d) = gateway_Name" "u_namespace std_unstr (GatewayObject d) = gateway_Namespace"
  by (simp_all add: GatewayObject_def std_unstr_def)

lemma judges_GatewayObject:
  "same_identity (GatewayObject d) live \<Longrightarrow> gatewayUnitJudge std_unstr S live = Inr (True, '''')"
  by (simp add: same_identity_def GatewayObject_identity gatewayUnitJudge_def)

lemma chartSource_identity:
  "u_apiVersion std_unstr (chartSource i ch) = gw_sourceAPIVersion"
  "u_kind std_unstr (chartSource i ch) = (if ch_kind ch = ChartKindOCI then kindOCIRepository else ''HelmRepository'')"
  by (simp_all add: chartSource_def std_unstr_def gw_consts Let_def)

lemma helmRelease_identity:
  "helmRelease P p i ch values = Inr m \<Longrightarrow>
     u_apiVersion std_unstr m = helmReleaseAPIVersion \<and> u_kind std_unstr m = kindHelmRelease"
  by (auto simp: helmRelease_def std_unstr_def gw_consts bindR_Inr_iff)

lemma overrideSpec_judged:
  assumes "overrideSpec E entry d = Inr s" "us_judge s = Some f"
  shows "\<exists>tree p ch i release values ns.
     ResolveTree (ee_ref E) (pr_ref entry) = Inr tree \<and> Load (ee_pack E) (tree_FS tree) (pr_ref entry) = Inr p \<and>
     md_chart (p_meta p) = Some ch \<and> helmRelease (ee_pack E) p i ch values = Inr release \<and>
     us_objs s = map (u_set_namespace (ee_unstr E) ns) [chartSource i ch, release] @
       (if pr_name entry = PrerequisiteTraefikGateway then [GatewayObject d] else []) \<and>
     f = (if pr_name entry = PrerequisiteTraefikGateway then gatewayUnitJudge (ee_unstr E) (ee_status E)
          else gw_Reconciled (ee_unstr E) (ee_status E))"
proof -
  from assms(1) obtain tree p plan spec where t: "ResolveTree (ee_ref E) (pr_ref entry) = Inr tree"
    and l: "Load (ee_pack E) (tree_FS tree) (pr_ref entry) = Inr p" and r: "Render (ee_pack E) p [] '''' = Inr plan"
    and o: "overrideFlavor (ee_unstr E) (ee_status E) (pr_name entry) (p_meta p) (rp_objects plan) = Inr spec"
    and s: "s = attachGatewayObject (ee_unstr E) (ee_status E) spec (pr_name entry) d"
    by (auto simp: overrideSpec_def bindR_Inr_iff split: option.splits)
  have h: "md_type (p_meta p) = TypeHelm"
    using o s assms(2) by (auto simp: overrideFlavor_def attachGatewayObject_def Let_def split: if_splits)
  with r obtain vals where "planHelm (ee_pack E) p (instanceID p '''') vals = Inr plan"
    by (auto simp: Render_def pack_types bindR_Inr_iff split: option.splits)
  then obtain ch release where ch: "md_chart (p_meta p) = Some ch"
    and rel: "helmRelease (ee_pack E) p (instanceID p '''') ch vals = Inr release"
    and plan: "rp_objects plan = [chartSource (instanceID p '''') ch, release]"
    by (auto simp: planHelm_def bindR_Inr_iff split: option.splits)
  have sp: "us_objs spec = map (u_set_namespace (ee_unstr E) (md_namespace (p_meta p))) [chartSource (instanceID p '''') ch, release]"
    "us_judge spec = Some (gw_Reconciled (ee_unstr E) (ee_status E))"
    using o h plan by (auto simp: overrideFlavor_def split: if_splits)
  show ?thesis
    using t l ch rel sp s assms(2)
    by (intro exI [of _ tree] exI [of _ p] exI [of _ ch] exI [of _ "instanceID p ''''"] exI [of _ release] exI [of _ vals]
        exI [of _ "md_namespace (p_meta p)"]) (auto simp: attachGatewayObject_def Let_def)
qed

text \<open>
  Which helm packs a prerequisite entry can point at: the judgment the unit of an override pack
  waits with covers every object of that unit, whatever their status, exactly when the pack's
  chart is an OCI chart. A pack with a repository chart resolves and is applied, and the first
  poll of its HelmRepository is the uncovered-object error that ends the bootstrap.
\<close>

theorem override_judgeable_iff_oci:
  assumes "overrideSpec E entry d = Inr s" and "us_judge s = Some f" and "ee_unstr E = std_unstr"
    and "ResolveTree (ee_ref E) (pr_ref entry) = Inr tree" and "Load (ee_pack E) (tree_FS tree) (pr_ref entry) = Inr p"
  shows "judges_all f (us_objs s) \<longleftrightarrow> (\<exists>ch. md_chart (p_meta p) = Some ch \<and> ch_kind ch = ChartKindOCI)"
proof -
  from overrideSpec_judged [OF assms(1,2)] assms(3-5) obtain ch i release vals ns where
    ch: "md_chart (p_meta p) = Some ch" and rel: "helmRelease (ee_pack E) p i ch vals = Inr release"
    and objs: "us_objs s = map (u_set_namespace std_unstr ns) [chartSource i ch, release] @
       (if pr_name entry = PrerequisiteTraefikGateway then [GatewayObject d] else [])"
    and f: "f = (if pr_name entry = PrerequisiteTraefikGateway then gatewayUnitJudge std_unstr (ee_status E)
          else gw_Reconciled std_unstr (ee_status E))"
    by auto
  note id = chartSource_identity [of i ch] helmRelease_identity [OF rel]
  show ?thesis
  proof (cases "ch_kind ch = ChartKindOCI")
    case True
    have rec: "\<exists>r. f live = Inr r" if "gw_recognized std_unstr live" for live
      using that gatewayUnitJudge_recognized gw.judge_covered unfolding f by fastforce
    have "\<exists>r. f live = Inr r" if "m \<in> set (us_objs s)" "same_identity m live" for m live
    proof -
      from that(1) objs consider "m = u_set_namespace std_unstr ns (chartSource i ch)" | "m = u_set_namespace std_unstr ns release"
        | "m = GatewayObject d" "pr_name entry = PrerequisiteTraefikGateway" by (auto split: if_splits)
      then show ?thesis
      proof cases
        case 3
        with judges_GatewayObject that(2) f show ?thesis by auto
      next
        case 1
        with that(2) have "gw_recognized std_unstr live"
          by (simp add: same_identity_def gw_recognized_def std.kind_set std.apiVersion_set id True gw_consts)
        then show ?thesis by (rule rec)
      next
        case 2
        with that(2) have "gw_recognized std_unstr live"
          by (simp add: same_identity_def gw_recognized_def std.kind_set std.apiVersion_set id gw_consts)
        then show ?thesis by (rule rec)
      qed
    qed
    then show ?thesis using ch True by (auto simp: judges_all_def)
  next
    case False
    let ?m = "u_set_namespace std_unstr ns (chartSource i ch)"
    have "\<exists>e. f ?m = Inl e"
      using False by (auto simp: f gatewayUnitJudge_def gw_Reconciled_def gw_recognized_def std.kind_set std.apiVersion_set id
          gw_consts GatewayAPIVersion_def)
    moreover have "?m \<in> set (us_objs s)" "same_identity ?m ?m" using objs by (simp_all add: same_identity_def)
    ultimately have "\<not> judges_all f (us_objs s)" unfolding judges_all_def by (metis Inl_Inr_False)
    then show ?thesis using ch False by simp
  qed
qed

subsection \<open>From the list to a running gateway\<close>

lemma prerequisiteSpec_judge:
  assumes "prerequisiteSpec E entry inp = Inr s" "us_judge s = Some f"
  shows "f = gatewayUnitJudge (ee_unstr E) (ee_status E) \<or> f = gw_Reconciled (ee_unstr E) (ee_status E)"
proof (cases "overrideSpec E entry (pi_domain inp) = Inr s")
  case True
  from overrideSpec_judged [OF this assms(2)] show ?thesis by (auto split: if_splits)
next
  case False
  with assms show ?thesis
    by (auto simp: prerequisiteSpec_def caSecretsSpec_def crdsSpec_def embeddedGatewaySpec_def Let_def bindR_Inr_iff
        split: if_splits option.splits)
qed

lemma unit_judge_ready:
  assumes "f = gatewayUnitJudge std_unstr S \<or> f = gw_Reconciled std_unstr S" "f live = Inr (True, why)"
    and "gw_recognized std_unstr live"
  shows "ready_now std_unstr S live"
proof -
  have "u_apiVersion std_unstr live \<noteq> GatewayAPIVersion"
    using assms(3) by (auto simp: gw_recognized_def gw_consts GatewayAPIVersion_def split: if_splits)
  with assms(1,2) have "gw_Reconciled std_unstr S live = Inr (True, why)"
    by (auto simp: gatewayUnitJudge_def)
  then show ?thesis using gw.judge_true by blast
qed

lemma gateway_pair_identity:
  "u_apiVersion std_unstr gw_chartSource = gw_sourceAPIVersion" "u_kind std_unstr gw_chartSource = kindOCIRepository"
  "u_apiVersion std_unstr gw_helmRelease = helmReleaseAPIVersion" "u_kind std_unstr gw_helmRelease = kindHelmRelease"
  by (simp_all add: gw_chartSource_def gw_helmRelease_def std_unstr_def)

text \<open>The chart source and the release of the embedded gateway, as they are applied.\<close>

definition gateway_pair :: "obj list" where
  "gateway_pair = map (u_set_namespace std_unstr gateway_Namespace) HelmPairObjects"

lemma gateway_pair_recognized: "m \<in> set gateway_pair \<Longrightarrow> gw_recognized std_unstr m"
  by (auto simp: gateway_pair_def HelmPairObjects_def gw_recognized_def std.kind_set std.apiVersion_set gateway_pair_identity gw_consts)

lemma embedded_gateway_unit:
  assumes "prerequisiteUnits E inp = Inr us" "\<lparr>pr_name = PrerequisiteTraefikGateway, pr_ref = ''''\<rparr> \<in> set (pi_units inp)"
    and "ee_unstr E = std_unstr"
  shows "\<exists>u \<in> set us. un_kind u = unitCR \<and> set gateway_pair \<subseteq> set (un_objects u)"
proof -
  let ?s = "embeddedGatewaySpec (ee_unstr E) (ee_status E) PrerequisiteTraefikGateway (pi_domain inp)"
  from prerequisiteUnits_Inr [OF assms(1)] obtain ss where ss: "us = map to_unit ss"
    and all: "list_all2 (\<lambda>entry s. prerequisiteSpec E entry inp = Inr s) (pi_units inp) ss" by blast
  from list_all2_left [OF all assms(2)] have "?s \<in> set ss" by (auto simp: prerequisiteSpec_def prereq_consts)
  moreover have "un_kind (to_unit ?s) = unitCR" "set gateway_pair \<subseteq> set (un_objects (to_unit ?s))"
    using assms(3) by (auto simp: to_unit_kind embeddedGatewaySpec_def gateway_pair_def)
  ultimately show ?thesis using ss by auto
qed

text \<open>The run read the resource back, ready for the generation it had then.\<close>

definition read_ready :: "ustatus \<Rightarrow> call list \<Rightarrow> obj \<Rightarrow> bool" where
  "read_ready S log m \<longleftrightarrow> (\<exists>live. CLive m (Inr live) \<in> set log \<and> same_identity m live \<and> ready_now std_unstr S live)"

lemma judged_unit_ready:
  assumes "prerequisiteUnits E inp = Inr us" "ei_prerequisites i = us" "ee_unstr E = std_unstr"
    and "InstallEngine A i s = (None, s')"
    and "\<forall>m live. CLive m (Inr live) \<in> set (rn_log s') \<longrightarrow> same_identity m live"
    and "u \<in> set us" "un_kind u = unitCR" "m \<in> set (un_objects u)" "gw_recognized std_unstr m"
  shows "read_ready (ee_status E) (rn_log s') m"
proof -
  from prerequisiteUnits_Inr [OF assms(1)] obtain ss where ss: "us = map to_unit ss"
    and all: "list_all2 (\<lambda>entry s. prerequisiteSpec E entry inp = Inr s) (pi_units inp) ss" by blast
  from assms(6) ss obtain sp where sp: "u = to_unit sp" "sp \<in> set ss" by auto
  from list_all2_right [OF all sp(2)] obtain entry where pre: "prerequisiteSpec E entry inp = Inr sp" by blast
  from InstallEngine_unit_seen [OF assms(4)] assms(2,6) obtain X where X: "X \<subseteq> set (rn_log s')" "unit_seen A u X" by blast
  with assms(7) obtain f where f: "un_reconciled u = Some f" and "\<forall>m \<in> set (un_objects u). seen_judged f m X"
    by (auto simp: unit_seen_def)
  with assms(8) obtain live why where live: "CLive m (Inr live) \<in> set (rn_log s')" "f live = Inr (True, why)"
    using X(1) unfolding seen_judged_def by blast
  from f sp(1) have "us_judge sp = Some f" by (simp add: to_unit_kind)
  from prerequisiteSpec_judge [OF pre this] assms(3)
  have j: "f = gatewayUnitJudge std_unstr (ee_status E) \<or> f = gw_Reconciled std_unstr (ee_status E)" by simp
  have id: "same_identity m live" using assms(5) live(1) by blast
  with assms(9) have "gw_recognized std_unstr live" by (simp add: same_identity_def gw_recognized_def split: if_splits)
  from unit_judge_ready [OF j live(2) this] live(1) id show ?thesis unfolding read_ready_def by blast
qed

text \<open>
  C5. A bootstrap that reports success has a reconciled implementation: when the installed units
  are the resolved list and the cluster answers a read with the object asked for, every judged
  Flux resource of every unit was read back with a true Ready condition for the generation the
  object had then; and when the list asks for the embedded gateway, its chart source and its
  release are among the resources so read.
\<close>

theorem bootstrap_units_ready:
  assumes "prerequisiteUnits E inp = Inr us" and "ei_prerequisites i = us" and "ee_unstr E = std_unstr"
    and "InstallEngine A i s = (None, s')"
    and "\<forall>m live. CLive m (Inr live) \<in> set (rn_log s') \<longrightarrow> same_identity m live"
  shows "(\<forall>u \<in> set us. \<forall>m \<in> set (un_objects u). un_kind u = unitCR \<and> gw_recognized std_unstr m \<longrightarrow>
       read_ready (ee_status E) (rn_log s') m) \<and>
     (\<lparr>pr_name = PrerequisiteTraefikGateway, pr_ref = ''''\<rparr> \<in> set (pi_units inp) \<longrightarrow>
       (\<forall>m \<in> {u_set_namespace std_unstr gateway_Namespace gw_chartSource,
              u_set_namespace std_unstr gateway_Namespace gw_helmRelease}.
          read_ready (ee_status E) (rn_log s') m))"
proof -
  note ready = judged_unit_ready [OF assms]
  have "set gateway_pair = {u_set_namespace std_unstr gateway_Namespace gw_chartSource,
      u_set_namespace std_unstr gateway_Namespace gw_helmRelease}"
    by (simp add: gateway_pair_def HelmPairObjects_def)
  then show ?thesis
    using ready embedded_gateway_unit [OF assms(1) _ assms(3)] gateway_pair_recognized by blast
qed

subsection \<open>Instances\<close>

definition sample_edge :: "metadata \<Rightarrow> unit edge_env" where
  "sample_edge m =
     \<lparr>ee_unstr = std_unstr, ee_status = std_status, ee_sha256hex = (\<lambda>s. s), ee_crds = Inl (Plain ''none''),
      ee_decode = (\<lambda>s. []), ee_ref = sample_ref\<lparr>re_walk := (\<lambda>p. [(''pack.cue'', TRegular, None)])\<rparr>,
      ee_pack = (sample_env m)\<lparr>
        pe_cue := \<lparr>q_exists = (\<lambda>v. True), q_unify = (\<lambda>v m. v), q_validate = (\<lambda>v. None),
          q_decode = (\<lambda>v. Inr chartValues), q_details = (\<lambda>e. '''')\<rparr>,
        pe_vals := (pe_vals (sample_env m))\<lparr>v_json := (\<lambda>r. Inr (Some chartValues))\<rparr>\<rparr>\<rparr>"

definition copy_entry :: prereq_spec where
  "copy_entry = \<lparr>pr_name = ''traefik-gateway'', pr_ref = ''./pack''\<rparr>"

lemma sample_edge_values:
  "pe_cancelled (ee_pack (sample_edge m)) = None"
  "resolveValues (pe_cue (ee_pack (sample_edge m))) v t [] = Inr chartValues"
  "jsonValues (ee_pack (sample_edge m)) w = Inr chartValues"
  by (simp_all add: sample_edge_def sample_env_def resolveValues_def pack_defaults_def decodeValues_def jsonValues_def)

lemma sample_edge_tree:
  "\<exists>tree. ResolveTree (ee_ref (sample_edge m)) ''./pack'' = Inr tree \<and> rt_files tree = [(''pack.cue'', ''kind: A'')]"
proof -
  let ?E = "ee_ref (sample_edge m)"
  have "visit_all ?E r ''/w/pack'' (re_walk ?E ''/w/pack'') [] = Inr [(''pack.cue'', ''kind: A'')]" for r
    by (simp add: sample_edge_def visit_def sample_ref_def)
  moreover have "localStat ?E p = Inr (''/w/pack'', True)" "re_open_root ?E r = None" for p r
    by (simp_all add: localStat_def sample_edge_def sample_ref_def)
  ultimately show ?thesis
    by (simp add: ResolveTree_def parse_ref_def isLocalPath_def backendFor_def localTree_def walkLocalTree_def)
qed

lemma sample_edge_load:
  assumes "rt_files tree = [(''pack.cue'', ''kind: A'')]" "md_type m = ''helm''"
  shows "\<exists>p. Load (ee_pack (sample_edge m)) (tree_FS tree) r = Inr p \<and> p_meta p = m"
proof -
  have "fs_read (tree_FS tree) MetadataFile = Inr ''kind: A''"
    using assms(1) by (simp add: tree_FS_def tree_gofs_def treeFS_ReadFile_def MetadataFile_def ValidPath_def valid_utf8_def rune_error_def)
  moreover have "decodeMetadata (ee_pack (sample_edge m)) src = Inr (m, ())" for src
    by (simp add: decodeMetadata_def sample_edge_def sample_env_def checkChartVersion_def Let_def split: option.split)
  moreover have "anyChartContent (tree_FS tree) = None"
    using assms(1) by (simp add: anyChartContent_def tree_FS_def tree_gofs_def treeFS_Stat_def dirEntries_def dir_prefix_def)
  ultimately show ?thesis
    using assms(2) by (simp add: Load_def checkPayload_def pack_types sample_edge_values(1))
qed

theorem embedded_gateway_is_pack_witness:
  "overrideSpec (sample_edge traefik_metadata) copy_entry ''dev.cube.test'' =
     Inr (embeddedGatewaySpec std_unstr std_status ''traefik-gateway'' ''dev.cube.test'')"
proof -
  let ?E = "sample_edge traefik_metadata"
  let ?inp = "\<lparr>pi_units = [], pi_domain = ''dev.cube.test'', pi_ensured = sample_ensured\<rparr>"
  obtain tree where t: "ResolveTree (ee_ref ?E) (pr_ref copy_entry) = Inr tree" "rt_files tree = [(''pack.cue'', ''kind: A'')]"
    using sample_edge_tree by (auto simp: copy_entry_def)
  obtain p where p: "Load (ee_pack ?E) (tree_FS tree) (pr_ref copy_entry) = Inr p" "p_meta p = traefik_metadata"
    using sample_edge_load [OF t(2), of traefik_metadata] by (auto simp: traefik_metadata_def)
  have "pr_name copy_entry = PrerequisiteTraefikGateway" "chartValues \<noteq> []"
    by (simp_all add: copy_entry_def PrerequisiteTraefikGateway_def chartValues_def)
  from embedded_gateway_is_pack [OF this(1) t(1) p sample_edge_values(1,2) this(2) sample_edge_values(3), of ?inp]
  show ?thesis by (simp add: copy_entry_def prerequisiteSpec_def prereq_consts) (simp add: sample_edge_def)
qed

definition repo_metadata :: metadata where
  "repo_metadata = helm_meta\<lparr>md_namespace := ''apps''\<rparr>"

theorem override_judgeable_iff_oci_witness:
  "\<exists>s f. overrideSpec (sample_edge repo_metadata) copy_entry ''dev.cube.test'' = Inr s \<and> us_judge s = Some f \<and>
     \<not> judges_all f (us_objs s)"
proof -
  let ?E = "sample_edge repo_metadata"
  obtain tree where t: "ResolveTree (ee_ref ?E) (pr_ref copy_entry) = Inr tree" "rt_files tree = [(''pack.cue'', ''kind: A'')]"
    using sample_edge_tree by (auto simp: copy_entry_def)
  obtain p where p: "Load (ee_pack ?E) (tree_FS tree) (pr_ref copy_entry) = Inr p" "p_meta p = repo_metadata"
    using sample_edge_load [OF t(2), of repo_metadata] by (auto simp: repo_metadata_def helm_meta_def)
  have u: "ee_unstr ?E = std_unstr" by (simp add: sample_edge_def)
  have "\<exists>plan. planHelm (ee_pack ?E) p i chartValues = Inr plan \<and> rp_prerequisites plan = []" for i
    using p(2) sample_edge_values(3) [of repo_metadata]
    by (simp add: planHelm_def helmRelease_def repo_metadata_def helm_meta_def chartValues_def)
  then obtain plan where "Render (ee_pack ?E) p [] '''' = Inr plan" "rp_prerequisites plan = []"
    using p(2) sample_edge_values(1,2) [of repo_metadata]
    by (auto simp: Render_def repo_metadata_def helm_meta_def pack_types)
  then obtain s where s: "overrideSpec ?E copy_entry ''dev.cube.test'' = Inr s" "us_judge s \<noteq> None"
    using t(1) p by (simp add: overrideSpec_def checkNoPackPrerequisites_def overrideFlavor_def repo_metadata_def helm_meta_def
        pack_types attachGatewayObject_def Let_def)
  then obtain f where f: "us_judge s = Some f" by blast
  from override_judgeable_iff_oci [OF s(1) f u t(1) p(1)] s(1) f p(2) show ?thesis
    by (auto simp: repo_metadata_def helm_meta_def ChartKindOCI_def)
qed

text \<open>A cluster whose every read answers with the object asked for, ready in its first generation.\<close>

definition ready_object :: "string \<Rightarrow> string \<Rightarrow> string \<Rightarrow> string \<Rightarrow> obj" where
  "ready_object av k ns n =
     [(''apiVersion'', VStr av), (''kind'', VStr k),
      (''metadata'', VObj [(''name'', VStr n), (''namespace'', VStr ns), (''generation'', VInt 1)]),
      (''status'', VObj [(''observedGeneration'', VInt 1),
        (''conditions'', VArr [VObj [(''type'', VStr ''Ready''), (''status'', VStr ''True'')]])])]"

definition api_of_kind :: "string \<Rightarrow> string" where
  "api_of_kind k =
     (if k = kindOCIRepository then gw_sourceAPIVersion else if k = kindHelmRelease then helmReleaseAPIVersion
      else GatewayAPIVersion)"

definition gateway_applier :: "unit applier" where
  "gateway_applier =
     \<lparr>A_api = \<lparr>ap_mapping = (\<lambda>w av k. (Inr \<lparr>mp_resource = k, mp_namespaced = True\<rparr>, w)), ap_reset = None,
        ap_apply = (\<lambda>w mp ns n m. (None, w)),
        ap_get = (\<lambda>w mp ns n. (Inr (ready_object (api_of_kind (mp_resource mp)) (mp_resource mp)
          (case ns of None \<Rightarrow> '''' | Some x \<Rightarrow> x) n), w)),
        ap_no_match = (\<lambda>e. False), ap_not_found = (\<lambda>e. False), ap_ctx_err = Plain ''context deadline exceeded''\<rparr>,
      A_unstr = std_unstr, A_status = std_status, A_invNS = ''flux-system''\<rparr>"

definition live_of :: "obj \<Rightarrow> obj" where
  "live_of m = ready_object (api_of_kind (u_kind std_unstr m)) (u_kind std_unstr m) (u_namespace std_unstr m) (u_name std_unstr m)"

lemma gateway_seams:
  "seam_apply gateway_applier m s = (None, s\<lparr>rn_log := rn_log s @ [CApply m None]\<rparr>)"
  "seam_live gateway_applier m s = (Inr (live_of m), s\<lparr>rn_log := rn_log s @ [CLive m (Inr (live_of m))]\<rparr>)"
  by (simp_all add: seam_apply_def dyn_apply_def seam_live_def dyn_live_def resourceFor_def rawResourceFor_def Let_def
      gateway_applier_def live_of_def)

lemma gateway_Apply: "Apply gateway_applier ms s = (None, s\<lparr>rn_log := rn_log s @ acks ms\<rparr>)"
  by (induction ms arbitrary: s) (simp_all add: gateway_seams acks_def)

lemma gateway_record: "RecordInventory gateway_applier objs s =
    (None, s\<lparr>rn_log := rn_log s @ acks [inventory_of gateway_applier objs]\<rparr>)"
  by (simp add: RecordInventory_def inventoryConfigMap_def inventory_of_def gateway_seams acks_def)

lemma live_of_identity:
  "u_apiVersion std_unstr (live_of m) = api_of_kind (u_kind std_unstr m)" "u_kind std_unstr (live_of m) = u_kind std_unstr m"
  "u_name std_unstr (live_of m) = u_name std_unstr m" "u_namespace std_unstr (live_of m) = u_namespace std_unstr m"
  by (simp_all add: live_of_def ready_object_def std_unstr_def)

lemma live_of_ready: "ready_now std_unstr std_status (live_of m)"
  by (simp add: ready_now_def live_of_def ready_object_def std_unstr_def std_status_def conditions_of_def)

definition judged_calls :: "obj list \<Rightarrow> call list" where
  "judged_calls ms = map (\<lambda>m. CLive m (Inr (live_of m))) ms"

lemma gateway_checkReconciled:
  assumes "\<forall>m \<in> set ms. j (live_of m) = Inr (True, '''')"
  shows "checkReconciled gateway_applier j (map (\<lambda>m. \<lparr>po_obj = m, po_reason = r\<rparr>) ms) s =
     (Inr [], s\<lparr>rn_log := rn_log s @ judged_calls ms\<rparr>)"
  using assms by (induction ms arbitrary: s) (simp_all add: gateway_seams judged_calls_def)

definition gateway_unit :: bunit where
  "gateway_unit = to_unit (embeddedGatewaySpec std_unstr std_status ''traefik-gateway'' ''dev.cube.test'')"

definition gateway_install :: engine_install where
  "gateway_install =
     \<lparr>ei_substrate = [], ei_prerequisites = [gateway_unit], ei_wiring = [], ei_reconciled = None, ei_engineObjects = []\<rparr>"

lemma gateway_unit_objects:
  "un_objects gateway_unit =
     [u_set_namespace std_unstr gateway_Namespace gw_chartSource, u_set_namespace std_unstr gateway_Namespace gw_helmRelease,
      GatewayObject ''dev.cube.test'']"
  by (simp add: gateway_unit_def embeddedGatewaySpec_def HelmPairObjects_def)

lemma gateway_unit_identity: "m \<in> set (un_objects gateway_unit) \<Longrightarrow> same_identity m (live_of m)"
  by (auto simp: gateway_unit_objects same_identity_def live_of_identity std.kind_set std.apiVersion_set
      gateway_pair_identity GatewayObject_identity api_of_kind_def gw_consts)

lemma gateway_unit_judged:
  assumes "m \<in> set (un_objects gateway_unit)"
  shows "gatewayUnitJudge std_unstr std_status (live_of m) = Inr (True, '''')"
proof (cases "m = GatewayObject ''dev.cube.test''")
  case True
  then show ?thesis using gateway_unit_identity [OF assms] judges_GatewayObject by simp
next
  case False
  with assms have "gw_recognized std_unstr (live_of m)"
    by (auto simp: gateway_unit_objects gw_recognized_def live_of_identity std.kind_set gateway_pair_identity api_of_kind_def gw_consts)
  then have "gw_Reconciled std_unstr std_status (live_of m) = Inr (True, '''')"
    using live_of_ready gw.judge_complete by blast
  then show ?thesis by (simp add: gatewayUnitJudge_def)
qed

definition gateway_log :: "call list" where
  "gateway_log = acks [inventory_of gateway_applier [], inventory_of gateway_applier (un_objects gateway_unit)] @
     acks (un_objects gateway_unit) @ judged_calls (un_objects gateway_unit)"

lemma gateway_run:
  "InstallEngine gateway_applier gateway_install sample_run = (None, sample_run\<lparr>rn_log := gateway_log\<rparr>)"
proof -
  have k: "un_kind gateway_unit = unitCR" "un_reconciled gateway_unit = Some (gatewayUnitJudge std_unstr std_status)"
    by (simp_all add: gateway_unit_def to_unit_def embeddedGatewaySpec_def NewCRUnit_def)
  have "poll_until e n (checkReconciled gateway_applier (gatewayUnitJudge std_unstr std_status))
      (map (\<lambda>m. \<lparr>po_obj = m, po_reason = r\<rparr>) (un_objects gateway_unit)) s =
      (None, s\<lparr>rn_log := rn_log s @ judged_calls (un_objects gateway_unit)\<rparr>)" for e n r s
    using gateway_checkReconciled [of "un_objects gateway_unit" "gatewayUnitJudge std_unstr std_status"] gateway_unit_judged
    by (cases n) simp_all
  then have w: "waitUnit gateway_applier gateway_unit s = (None, s\<lparr>rn_log := rn_log s @ judged_calls (un_objects gateway_unit)\<rparr>)" for s
    by (simp add: waitUnit_def Let_def k waitReconciled_def gateway_unit_objects)
  have "WaitReady gateway_applier [] s = (None, s)" for s
    by (cases "rn_left s") (simp_all add: WaitReady_def waitReady_def filterKindSet_def)
  then show ?thesis
    by (simp add: InstallEngine_def gateway_install_def k Install_phase_def gateway_record gateway_Apply w Let_def
        WaitReconciled_def waitReconciled_def sample_run_def gateway_log_def acks_def)
qed

theorem bootstrap_units_ready_witness:
  "\<exists>live. CLive (u_set_namespace std_unstr gateway_Namespace gw_helmRelease) (Inr live) \<in> set gateway_log \<and>
     ready_now std_unstr std_status live"
proof -
  let ?inp = "\<lparr>pi_units = [\<lparr>pr_name = ''traefik-gateway'', pr_ref = ''''\<rparr>], pi_domain = ''dev.cube.test'', pi_ensured = sample_ensured\<rparr>"
  let ?m = "u_set_namespace std_unstr gateway_Namespace gw_helmRelease"
  have p: "prerequisiteUnits (sample_edge traefik_metadata) ?inp = Inr [gateway_unit]"
    by (simp add: prerequisiteUnits_def prerequisiteSpecs_def prerequisiteSpec_def prereq_consts gateway_unit_def)
      (simp add: sample_edge_def)
  have i: "ei_prerequisites gateway_install = [gateway_unit]" "ee_unstr (sample_edge traefik_metadata) = std_unstr"
    "ee_status (sample_edge traefik_metadata) = std_status"
    by (simp_all add: gateway_install_def sample_edge_def)
  have "CLive m (Inr live) \<in> set gateway_log \<Longrightarrow> m \<in> set (un_objects gateway_unit) \<and> live = live_of m" for m live
    by (auto simp: gateway_log_def acks_def judged_calls_def)
  then have same: "\<forall>m live. CLive m (Inr live) \<in> set (rn_log (sample_run\<lparr>rn_log := gateway_log\<rparr>)) \<longrightarrow> same_identity m live"
    using gateway_unit_identity by auto
  from bootstrap_units_ready [OF p i(1,2) gateway_run same] i(3) show ?thesis
    by (auto simp: read_ready_def prereq_consts)
qed

end
