(* ===== verification/CliCoreDNS.thy ===== *)
theory CliCoreDNS
  imports GatewayCorefile JsonVal
begin

section \<open>Splicing the live Corefile (\<open>internal/cli/coredns.go\<close>)\<close>

text \<open>
  The read-modify-write of the CoreDNS ConfigMap over a client with a state of its own, so other
  writers may act between any two of its calls. The client and the accessors of unstructured
  objects are parameters; \<open>optimistic\<close> states what the API server documents about
  \<open>resourceVersion\<close>. The theorems: no concurrent write is ever lost, and only five of them in a
  row make the splice give up.
\<close>

subsection \<open>The operations\<close>

definition corednsNamespace :: string where "corednsNamespace = ''kube-system''"
definition corednsName :: string where "corednsName = ''coredns''"
definition corefileKey :: string where "corefileKey = ''Corefile''"
definition spliceAttempts :: nat where "spliceAttempts = 5"

record 'w cm_client =
  cm_get :: "string \<Rightarrow> 'w \<Rightarrow> obj res \<times> 'w"
  cm_update :: "obj \<Rightarrow> 'w \<Rightarrow> obj res \<times> 'w"
  cm_conflict :: "err \<Rightarrow> bool"
  cm_nested :: "obj \<Rightarrow> string list \<Rightarrow> string res"
  cm_set_nested :: "obj \<Rightarrow> string \<Rightarrow> string list \<Rightarrow> obj res"

definition coredns_at :: string where
  "coredns_at = corednsNamespace @ ''/'' @ corednsName"

definition splicedConfigMap :: "'w cm_client \<Rightarrow> string \<Rightarrow> string \<Rightarrow> 'w \<Rightarrow> obj res \<times> 'w" where
  "splicedConfigMap C cubeName domain w =
     (case cm_get C corednsName w of
        (Inl e, w1) \<Rightarrow> (Inl (Wrapf (''read the '' @ coredns_at @ '' ConfigMap'') e), w1)
      | (Inr m, w1) \<Rightarrow>
          (case cm_nested C m [''data'', corefileKey] of
             Inl e \<Rightarrow> (Inl (Wrapf (''read the '' @ coredns_at @ '' '' @ corefileKey) e), w1)
           | Inr corefile \<Rightarrow>
               (case CorefileSplice corefile cubeName domain of
                  Inl e \<Rightarrow> (Inl e, w1)
                | Inr spliced \<Rightarrow>
                    (case cm_set_nested C m spliced [''data'', corefileKey] of
                       Inl e \<Rightarrow> (Inl (Wrapf (''set the '' @ coredns_at @ '' '' @ corefileKey) e), w1)
                     | Inr m' \<Rightarrow> (Inr m', w1)))))"

text \<open>The loop with its remaining attempts and the last conflict it saw.\<close>

fun splice_loop :: "'w cm_client \<Rightarrow> string \<Rightarrow> string \<Rightarrow> nat \<Rightarrow> err option \<Rightarrow> 'w \<Rightarrow> err option \<times> 'w" where
  "splice_loop C cubeName domain 0 conflict w =
     (let msg = ''update the '' @ coredns_at @ '' ConfigMap: every one of '' @ itoa (int spliceAttempts) @
        '' attempts lost a concurrent write''
      in (Some (case conflict of None \<Rightarrow> Plain msg | Some e \<Rightarrow> Wrapf msg e), w))"
| "splice_loop C cubeName domain (Suc n) conflict w =
     (case splicedConfigMap C cubeName domain w of
        (Inl e, w1) \<Rightarrow> (Some e, w1)
      | (Inr m, w1) \<Rightarrow>
          (case cm_update C m w1 of
             (Inr stored, w2) \<Rightarrow> (None, w2)
           | (Inl e, w2) \<Rightarrow>
               if \<not> cm_conflict C e
               then (Some (Wrapf (''update the '' @ coredns_at @ '' ConfigMap'') e), w2)
               else splice_loop C cubeName domain n (Some e) w2))"

definition spliceCoreDNS :: "'w cm_client \<Rightarrow> string \<Rightarrow> string \<Rightarrow> 'w \<Rightarrow> err option \<times> 'w" where
  "spliceCoreDNS C cubeName domain w = splice_loop C cubeName domain spliceAttempts None w"

subsection \<open>What the API server promises\<close>

text \<open>
  \<open>hist w\<close> is every version of the ConfigMap stored so far, the current one last; \<open>ver\<close> is an
  object's \<open>resourceVersion\<close> and \<open>content\<close> what its writers control. A read returns the current
  object; an update is stored when it carries the current object's version and is a conflict
  only when it does not; versions identify objects. Between the calls, and within one before it
  acts, other writers may store what they like.
\<close>

definition optimistic :: "'w cm_client \<Rightarrow> ('w \<Rightarrow> obj list) \<Rightarrow> (obj \<Rightarrow> string) \<Rightarrow> (obj \<Rightarrow> obj) \<Rightarrow> bool" where
  "optimistic C hist ver content \<longleftrightarrow>
     (\<forall>n w r w'. cm_get C n w = (r, w') \<longrightarrow> prefix (hist w) (hist w') \<and>
        (\<forall>m. r = Inr m \<longrightarrow> hist w' \<noteq> [] \<and> m = last (hist w'))) \<and>
     (\<forall>m w r w'. cm_update C m w = (r, w') \<longrightarrow>
        (\<forall>m'. r = Inr m' \<longrightarrow> (\<exists>cur s. prefix (hist w) cur \<and> cur \<noteq> [] \<and> hist w' = cur @ [s] \<and>
            ver (last cur) = ver m \<and> content s = content m)) \<and>
        (\<forall>e. r = Inl e \<and> cm_conflict C e \<longrightarrow> prefix (hist w) (hist w') \<and> ver (last (hist w')) \<noteq> ver m)) \<and>
     (\<forall>w x y. x \<in> set (hist w) \<and> y \<in> set (hist w) \<and> ver x = ver y \<longrightarrow> x = y) \<and>
     (\<forall>m v ks m'. cm_set_nested C m v ks = Inr m' \<longrightarrow> ver m' = ver m)"

lemma optimistic_get:
  assumes "optimistic C hist ver content" "cm_get C n w = (r, w')"
  shows "prefix (hist w) (hist w')" "r = Inr m \<Longrightarrow> hist w' \<noteq> [] \<and> m = last (hist w')"
  using assms unfolding optimistic_def by blast+

lemma optimistic_stored:
  assumes "optimistic C hist ver content" "cm_update C m w = (Inr m', w')"
  shows "\<exists>cur s. prefix (hist w) cur \<and> cur \<noteq> [] \<and> hist w' = cur @ [s] \<and> ver (last cur) = ver m \<and> content s = content m"
  using assms unfolding optimistic_def by blast

lemma optimistic_lost:
  assumes "optimistic C hist ver content" "cm_update C m w = (Inl e, w')" "cm_conflict C e"
  shows "prefix (hist w) (hist w')" "ver (last (hist w')) \<noteq> ver m"
  using assms unfolding optimistic_def by blast+

lemma optimistic_ver:
  assumes "optimistic C hist ver content"
  shows "x \<in> set (hist w) \<Longrightarrow> y \<in> set (hist w) \<Longrightarrow> ver x = ver y \<Longrightarrow> x = y"
    and "cm_set_nested C m v ks = Inr m' \<Longrightarrow> ver m' = ver m"
  using assms unfolding optimistic_def by blast+

text \<open>One object is the other with this cube's block spliced into its Corefile.\<close>

definition splice_of :: "'w cm_client \<Rightarrow> string \<Rightarrow> string \<Rightarrow> obj \<Rightarrow> obj \<Rightarrow> bool" where
  "splice_of C cubeName domain m m' \<longleftrightarrow>
     (\<exists>f g. cm_nested C m [''data'', corefileKey] = Inr f \<and> CorefileSplice f cubeName domain = Inr g \<and>
        cm_set_nested C m g [''data'', corefileKey] = Inr m')"

lemma splicedConfigMap_Inr:
  assumes "splicedConfigMap C c d w = (Inr m', w')"
  shows "\<exists>m. cm_get C corednsName w = (Inr m, w') \<and> splice_of C c d m m'"
  using assms by (auto simp: splicedConfigMap_def splice_of_def split: prod.splits sum.splits)

lemma splicedConfigMap_read:
  assumes "optimistic C hist ver content" "splicedConfigMap C c d w = (Inr m', w')"
  shows "prefix (hist w) (hist w')" "hist w' \<noteq> []" "splice_of C c d (last (hist w')) m'" "ver m' = ver (last (hist w'))"
proof -
  from splicedConfigMap_Inr [OF assms(2)] obtain m where g: "cm_get C corednsName w = (Inr m, w')"
    and s: "splice_of C c d m m'" by blast
  have m: "hist w' \<noteq> [] \<and> m = last (hist w')" using optimistic_get(2) [OF assms(1) g] by blast
  then show "prefix (hist w) (hist w')" "hist w' \<noteq> []" "splice_of C c d (last (hist w')) m'"
    using optimistic_get(1) [OF assms(1) g] s by simp_all
  show "ver m' = ver (last (hist w'))"
    using s m optimistic_ver(2) [OF assms(1)] by (auto simp: splice_of_def)
qed

subsection \<open>No write is lost\<close>

lemma splice_loop_stored:
  assumes "optimistic C hist ver content"
  shows "splice_loop C c d n conflict w = (None, w') \<Longrightarrow>
    \<exists>cur s m. prefix (hist w) cur \<and> cur \<noteq> [] \<and> hist w' = cur @ [s] \<and> splice_of C c d (last cur) m \<and> content s = content m"
proof (induction n arbitrary: conflict w)
  case 0
  then show ?case by (simp add: Let_def)
next
  case (Suc n)
  obtain x w1 where p: "splicedConfigMap C c d w = (x, w1)" by (cases "splicedConfigMap C c d w")
  then obtain m where x: "x = Inr m" using Suc.prems by (cases x) auto
  note rd = splicedConfigMap_read [OF assms p [unfolded x]]
  obtain u w2 where q: "cm_update C m w1 = (u, w2)" by (cases "cm_update C m w1")
  show ?case
  proof (cases u)
    case (Inr stored)
    from optimistic_stored [OF assms q [unfolded this]] obtain cur s where
      c: "prefix (hist w1) cur" "cur \<noteq> []" "hist w2 = cur @ [s]" "ver (last cur) = ver m" "content s = content m" by blast
    have "last (hist w1) \<in> set (hist w2)" "last cur \<in> set (hist w2)"
      using rd(2) c(1,2,3) by (auto simp: prefix_def)
    then have "last cur = last (hist w1)"
      using optimistic_ver(1) [OF assms, of "last cur" w2 "last (hist w1)"] c(4) rd(4) by simp
    moreover have "w' = w2" using Suc.prems p x q Inr by simp
    ultimately show ?thesis
      using rd(1,3) c by (intro exI [of _ cur] exI [of _ s] exI [of _ m]) (auto intro: prefix_order.trans)
  next
    case (Inl e)
    with Suc.prems p x q have cf: "cm_conflict C e" and r: "splice_loop C c d n (Some e) w2 = (None, w')"
      by (auto split: if_splits)
    have "prefix (hist w) (hist w2)"
      using optimistic_lost(1) [OF assms q [unfolded Inl] cf] rd(1) by (rule prefix_order.trans [rotated])
    with Suc.IH [OF r] show ?thesis by (meson prefix_order.trans)
  qed
qed

text \<open>
  C19. A concurrent write is never lost: when the splice succeeds, what it stored is exactly the
  object that was current at the moment of the write with this cube's block spliced into its
  Corefile, whatever other writers stored before, between and after its reads.
\<close>

theorem spliceCoreDNS_no_lost_write:
  assumes "optimistic C hist ver content" and "spliceCoreDNS C c d w = (None, w')"
  shows "\<exists>cur s m. prefix (hist w) cur \<and> cur \<noteq> [] \<and> hist w' = cur @ [s] \<and>
     splice_of C c d (last cur) m \<and> content s = content m"
  using splice_loop_stored [OF assms(1) assms(2) [unfolded spliceCoreDNS_def]] .

subsection \<open>When it gives up\<close>

text \<open>A server that answers: reads succeed, and an update fails only as a conflict.\<close>

definition answers :: "'w cm_client \<Rightarrow> bool" where
  "answers C \<longleftrightarrow>
     (\<forall>n w. \<exists>m w'. cm_get C n w = (Inr m, w')) \<and>
     (\<forall>m w e w'. cm_update C m w = (Inl e, w') \<longrightarrow> cm_conflict C e)"

lemma splice_loop_live:
  assumes "optimistic C hist ver content" "answers C"
    and "\<And>m. P m \<Longrightarrow> \<exists>m'. splice_of C c d m m'"
  shows "splice_loop C c d n conflict w = (r, w') \<Longrightarrow> \<forall>m \<in> set (hist w'). P m \<Longrightarrow>
    r \<noteq> None \<Longrightarrow> prefix (hist w) (hist w') \<and> length (hist w) + n \<le> length (hist w')"
proof (induction n arbitrary: conflict w)
  case 0
  then show ?case by (simp add: Let_def)
next
  case (Suc n)
  from assms(2) obtain m w1 where g: "cm_get C corednsName w = (Inr m, w1)" unfolding answers_def by blast
  note rd = optimistic_get [OF assms(1) g]
  have m: "hist w1 \<noteq> []" "m = last (hist w1)" using rd(2) by blast+
  show ?case
  proof (cases "\<exists>m'. splice_of C c d m m'")
    case True
    then obtain m' where sp: "splice_of C c d m m'" by blast
    then have p: "splicedConfigMap C c d w = (Inr m', w1)"
      using g by (auto simp: splicedConfigMap_def splice_of_def)
    obtain u w2 where q: "cm_update C m' w1 = (u, w2)" by (cases "cm_update C m' w1")
    with Suc.prems p obtain e where u: "u = Inl e" by (cases u) auto
    then have cf: "cm_conflict C e" using assms(2) q unfolding answers_def by blast
    note lost = optimistic_lost [OF assms(1) q [unfolded u] cf]
    have "ver m' = ver m" using sp optimistic_ver(2) [OF assms(1)] by (auto simp: splice_of_def)
    with lost m have "hist w2 \<noteq> hist w1" by auto
    with lost(1) have "length (hist w1) < length (hist w2)"
      by (metis prefix_length_le prefix_length_prefix prefix_order.dual_order.antisym prefix_order.order_refl le_neq_implies_less)
    moreover have "prefix (hist w2) (hist w') \<and> length (hist w2) + n \<le> length (hist w')"
      using Suc.IH [of "Some e" w2] Suc.prems p q u cf by simp
    ultimately show ?thesis
      using rd(1) lost(1) prefix_length_le [OF rd(1)] by (auto intro: prefix_order.trans)
  next
    case False
    then have "fst (splicedConfigMap C c d w) \<noteq> Inr x" for x
      using g splicedConfigMap_Inr [of C c d w x] by (cases "splicedConfigMap C c d w") auto
    moreover have "snd (splicedConfigMap C c d w) = w1"
      using g by (auto simp: splicedConfigMap_def split: sum.splits)
    ultimately have "w' = w1"
      using Suc.prems by (cases "splicedConfigMap C c d w") (auto split: sum.splits)
    with Suc.prems(2) m False assms(3) [of m] show ?thesis by auto
  qed
qed

text \<open>
  C20. The splice gives up only to five concurrent writers: against a server that answers, with
  Corefiles that can be spliced, it succeeds unless at least five other writes were stored
  while it ran.
\<close>

theorem spliceCoreDNS_live:
  assumes "optimistic C hist ver content" and "answers C"
    and "spliceCoreDNS C c d w = (r, w')"
    and "\<forall>m \<in> set (hist w'). \<exists>m'. splice_of C c d m m'"
    and "length (hist w') < length (hist w) + 5"
  shows "r = None"
  using splice_loop_live [OF assms(1,2), of "\<lambda>m. \<exists>m'. splice_of C c d m m'" c d spliceAttempts None w r w'] assms(3-5)
  by (cases r) (auto simp: spliceCoreDNS_def spliceAttempts_def)

subsection \<open>A server\<close>

text \<open>
  A server that numbers what it stores: its state is the list of bodies stored so far and the
  batches of foreign writes still to come, one batch before each update.
\<close>

definition versioned :: "nat \<Rightarrow> obj \<Rightarrow> obj" where
  "versioned i b = (''resourceVersion'', VStr (replicate i CHR ''1'')) # AList.delete ''resourceVersion'' b"

fun versions :: "nat \<Rightarrow> obj list \<Rightarrow> obj list" where
  "versions n [] = []"
| "versions n (b # bs) = versioned n b # versions (Suc n) bs"

type_synonym cm_server = "obj list \<times> obj list list"

definition sv_hist :: "cm_server \<Rightarrow> obj list" where "sv_hist w = versions 0 (fst w)"
definition sv_ver :: "obj \<Rightarrow> string" where "sv_ver m = as_string (map_of m ''resourceVersion'')"
definition sv_content :: "obj \<Rightarrow> obj" where "sv_content m = AList.delete ''resourceVersion'' m"
definition sv_some :: "obj list \<Rightarrow> obj list" where "sv_some bs = (if bs = [] then [[]] else bs)"

definition cm_sample :: "cm_server cm_client" where
  "cm_sample =
     \<lparr>cm_get = (\<lambda>n w. let bs = sv_some (fst w) in (Inr (last (versions 0 bs)), (bs, snd w))),
      cm_update = (\<lambda>m w. let bs = sv_some (fst w @ concat (take 1 (snd w))); p = drop 1 (snd w)
        in if sv_ver m = sv_ver (last (versions 0 bs)) then (Inr m, (bs @ [m], p)) else (Inl (Plain ''conflict''), (bs, p))),
      cm_conflict = (\<lambda>e. True),
      cm_nested = (\<lambda>m ks. Inr (as_string (nested ks m))),
      cm_set_nested = (\<lambda>m v ks. if ks = [''data'', corefileKey] then Inr (set_nested ks (VStr v) m)
        else Inl (Plain ''field''))\<rparr>"

lemma versions_append [simp]: "versions n (as @ bs) = versions n as @ versions (n + length as) bs"
  by (induction as arbitrary: n) simp_all

lemma versions_Nil [simp]: "versions n bs = [] \<longleftrightarrow> bs = []"
  by (cases bs) simp_all

lemma in_versions: "x \<in> set (versions n bs) \<Longrightarrow> \<exists>i < length bs. x = versioned (n + i) (bs ! i)"
proof (induction bs arbitrary: n)
  case (Cons b bs)
  then consider "x = versioned n b" | "x \<in> set (versions (Suc n) bs)" by auto
  then show ?case
  proof cases
    case 1
    then show ?thesis by (intro exI [of _ 0]) simp
  next
    case 2
    from Cons.IH [OF this] obtain i where "i < length bs" "x = versioned (Suc n + i) (bs ! i)" by blast
    then show ?thesis by (intro exI [of _ "Suc i"]) simp
  qed
qed simp

lemma sv_ver_versioned [simp]: "sv_ver (versioned i b) = replicate i CHR ''1''"
  by (simp add: sv_ver_def versioned_def)

lemma sv_some_prefix: "prefix (versions 0 bs) (versions 0 (sv_some (bs @ fs)))"
  by (simp add: sv_some_def)

lemma cm_sample_optimistic: "optimistic cm_sample sv_hist sv_ver sv_content"
  unfolding optimistic_def
proof (intro conjI allI impI)
  fix n w r w' m
  assume g: "cm_get cm_sample n w = (r, w')"
  then show "prefix (sv_hist w) (sv_hist w')"
    using sv_some_prefix [of "fst w" "[]"] by (auto simp: cm_sample_def sv_hist_def Let_def)
  assume "r = Inr m"
  with g show "sv_hist w' \<noteq> []" "m = last (sv_hist w')"
    by (auto simp: cm_sample_def sv_hist_def Let_def sv_some_def split: if_splits)
next
  fix m w r w' m'
  assume "cm_update cm_sample m w = (r, w')" "r = Inr m'"
  then have v: "sv_ver m = sv_ver (last (versions 0 (sv_some (fst w @ concat (take 1 (snd w))))))"
    and w': "fst w' = sv_some (fst w @ concat (take 1 (snd w))) @ [m]"
    by (auto simp: cm_sample_def Let_def split: if_splits)
  show "\<exists>cur s. prefix (sv_hist w) cur \<and> cur \<noteq> [] \<and> sv_hist w' = cur @ [s] \<and> sv_ver (last cur) = sv_ver m \<and> sv_content s = sv_content m"
    by (rule exI [of _ "versions 0 (sv_some (fst w @ concat (take 1 (snd w))))"],
        rule exI [of _ "versioned (length (sv_some (fst w @ concat (take 1 (snd w))))) m"])
      (simp add: sv_hist_def w' v sv_some_prefix, simp add: sv_some_def sv_content_def versioned_def delete_idem)
next
  fix m w r w' e
  assume u: "cm_update cm_sample m w = (r, w')" "r = Inl e \<and> cm_conflict cm_sample e"
  then show "prefix (sv_hist w) (sv_hist w')"
    using sv_some_prefix [of "fst w" "concat (take 1 (snd w))"]
    by (auto simp: cm_sample_def sv_hist_def Let_def split: if_splits)
  from u show "sv_ver (last (sv_hist w')) \<noteq> sv_ver m"
    by (auto simp: cm_sample_def sv_hist_def Let_def split: if_splits)
next
  fix w x y
  assume "x \<in> set (sv_hist w) \<and> y \<in> set (sv_hist w) \<and> sv_ver x = sv_ver y"
  then show "x = y"
    by (auto simp: sv_hist_def dest!: in_versions dest: arg_cong [of _ _ length])
next
  fix m v ks m'
  assume "cm_set_nested cm_sample m v ks = Inr m'"
  then show "sv_ver m' = sv_ver m"
    by (auto simp: cm_sample_def sv_ver_def corefileKey_def split: if_splits)
qed

lemma cm_sample_answers: "answers cm_sample"
  by (auto simp: answers_def cm_sample_def Let_def)

text \<open>One foreign write between the read and the update: the first attempt conflicts.\<close>

definition dns_map :: "string \<Rightarrow> obj" where
  "dns_map note = [(''note'', VStr note), (''data'', VObj [(corefileKey, VStr sample_corefile)])]"

definition dns_start :: cm_server where "dns_start = ([dns_map ''''], [[dns_map ''foreign'']])"

definition dns_spliced :: "string \<Rightarrow> obj" where
  "dns_spliced note =
     [(''resourceVersion'', VStr ''1''), (''note'', VStr note), (''data'', VObj [(corefileKey, VStr sample_spliced)])]"

lemma sample_again: "CorefileSplice sample_spliced ''dev'' ''dev.cube.test'' = Inr sample_spliced"
proof -
  have nl: "\<forall>l \<in> set ([''.:53 {''] @ [''}'']). newline \<notin> set l" by (simp add: newline_def)
  have "unmarked ''dev'' [''.:53 {'']" "unmarked ''dev'' [''}'']"
    using sample_unmarked [of "''dev''"] by (simp_all add: sample_lines)
  then show ?thesis
    using splice_again [OF nl sample_names(1,3), of "''dev.cube.test''"] by (simp add: sample_spliced_def sample_open)
qed

lemma dns_sample_splice:
  "splice_of cm_sample ''dev'' ''dev.cube.test'' (versioned i (dns_map note))
     ((''resourceVersion'', VStr (replicate i CHR ''1'')) # [(''note'', VStr note), (''data'', VObj [(corefileKey, VStr sample_spliced)])])"
  using sample_splice_dev by (simp add: splice_of_def cm_sample_def versioned_def dns_map_def)

lemma dns_sample_attempt:
  "splicedConfigMap cm_sample ''dev'' ''dev.cube.test'' (bs @ [dns_map note], p) =
     (Inr ((''resourceVersion'', VStr (replicate (length bs) CHR ''1'')) # [(''note'', VStr note), (''data'', VObj [(corefileKey, VStr sample_spliced)])]),
      (bs @ [dns_map note], p))"
  using sample_splice_dev
  by (simp add: splicedConfigMap_def cm_sample_def sv_some_def versioned_def dns_map_def)

lemma dns_sample_run:
  "spliceCoreDNS cm_sample ''dev'' ''dev.cube.test'' dns_start = (None, ([dns_map '''', dns_map ''foreign'', dns_spliced ''foreign''], []))"
proof -
  have "splicedConfigMap cm_sample ''dev'' ''dev.cube.test'' ([dns_map ''''], p) =
     (Inr [(''resourceVersion'', VStr ''''), (''note'', VStr ''''), (''data'', VObj [(corefileKey, VStr sample_spliced)])], ([dns_map ''''], p))" for p
    using dns_sample_attempt [of "[]" "''''" p] by simp
  moreover have "splicedConfigMap cm_sample ''dev'' ''dev.cube.test'' ([dns_map '''', dns_map ''foreign''], p) =
     (Inr (dns_spliced ''foreign''), ([dns_map '''', dns_map ''foreign''], p))" for p
    using dns_sample_attempt [of "[dns_map '''']" "''foreign''" p] by (simp add: dns_spliced_def)
  ultimately show ?thesis
    by (simp add: spliceCoreDNS_def spliceAttempts_def eval_nat_numeral dns_start_def)
      (simp add: cm_sample_def sv_some_def sv_ver_def versioned_def dns_spliced_def)
qed

theorem spliceCoreDNS_no_lost_write_witness:
  "\<exists>m. splice_of cm_sample ''dev'' ''dev.cube.test'' (versioned 1 (dns_map ''foreign'')) m \<and> sv_content m = sv_content (dns_spliced ''foreign'')"
proof -
  obtain w' where w: "w' = ([dns_map '''', dns_map ''foreign'', dns_spliced ''foreign''], [] :: obj list list)" by blast
  from spliceCoreDNS_no_lost_write [OF cm_sample_optimistic dns_sample_run]
  obtain cur s m where c: "sv_hist w' = cur @ [s]" "splice_of cm_sample ''dev'' ''dev.cube.test'' (last cur) m"
    "sv_content s = sv_content m" unfolding w by blast
  have "sv_hist w' = [versioned 0 (dns_map ''''), versioned 1 (dns_map ''foreign'')] @ [versioned 2 (dns_spliced ''foreign'')]"
    by (simp add: w sv_hist_def numeral_2_eq_2)
  with c(1) have "cur = [versioned 0 (dns_map ''''), versioned 1 (dns_map ''foreign'')]" "s = versioned 2 (dns_spliced ''foreign'')"
    by (simp_all only: append1_eq_conv)
  with c(2,3) have "splice_of cm_sample ''dev'' ''dev.cube.test'' (versioned 1 (dns_map ''foreign'')) m"
    "sv_content m = sv_content (versioned 2 (dns_spliced ''foreign''))" by simp_all
  then show ?thesis
    by (intro exI [of _ m]) (simp add: sv_content_def versioned_def delete_idem)
qed

theorem spliceCoreDNS_live_witness:
  "fst (spliceCoreDNS cm_sample ''dev'' ''dev.cube.test'' dns_start) = None"
proof -
  obtain r w' where e: "spliceCoreDNS cm_sample ''dev'' ''dev.cube.test'' dns_start = (r, w')" by (meson surj_pair)
  then have w: "w' = ([dns_map '''', dns_map ''foreign'', dns_spliced ''foreign''], [])"
    unfolding dns_sample_run by simp
  have "\<exists>m'. splice_of cm_sample ''dev'' ''dev.cube.test'' (versioned 2 (dns_spliced ''foreign'')) m'"
    using sample_again
    by (simp add: splice_of_def cm_sample_def versioned_def dns_spliced_def)
  moreover have "sv_hist w' = [versioned 0 (dns_map ''''), versioned 1 (dns_map ''foreign''), versioned 2 (dns_spliced ''foreign'')]"
    by (simp add: w sv_hist_def numeral_2_eq_2)
  ultimately have "\<forall>m \<in> set (sv_hist w'). \<exists>m'. splice_of cm_sample ''dev'' ''dev.cube.test'' m m'"
    using dns_sample_splice by auto
  moreover have "length (sv_hist w') < length (sv_hist dns_start) + 5"
    by (simp add: w sv_hist_def dns_start_def)
  ultimately have "r = None"
    by (rule spliceCoreDNS_live [OF cm_sample_optimistic cm_sample_answers e])
  then show ?thesis by (simp add: e)
qed

end
