(* ===== verification/CliBootstrap.thy ===== *)
theory CliBootstrap
  imports CliVerbs CliPrereq CliCoreDNS CliTrust EngineFlux
begin

section \<open>The bootstrap verb (\<open>internal/cli\<close>: bootstrap.go, ca\_wiring.go, bootstrap\_finish.go)\<close>

text \<open>
  The verb composes every component: the document, the substrate and the engine driver, the
  cluster report and the clients, the CA material, the prerequisite units, the installation, and
  the two steps after it. \<open>boot_env\<close> gathers what it reaches: the libraries of the components and
  what a constructed client (\<open>'q\<close>) does to the API server's state \<open>'a\<close>. The timeout is the number
  of polling intervals the installation may spend.
\<close>

subsection \<open>The CA material (\<open>ca_wiring.go\<close>)\<close>

type_synonym 'a secret_reader = "string \<Rightarrow> 'a \<Rightarrow> obj res \<times> 'a"

definition readCAMaterial ::
  "unstr \<Rightarrow> nested_string_map \<Rightarrow> (err \<Rightarrow> bool) \<Rightarrow> 'a secret_reader \<Rightarrow> 'a \<Rightarrow> material option res \<times> 'a" where
  "readCAMaterial U N notFound read w =
     (case read CASecretName w of
        (Inl e, w1) \<Rightarrow>
          if notFound e then (Inr None, w1)
          else (Inl (Wrapf (''read the CA secret '' @ gateway_Namespace @ ''/'' @ CASecretName) e), w1)
      | (Inr m, w1) \<Rightarrow>
          (case MaterialFromSecret U N m of
             Inl e \<Rightarrow> (Inl e, w1)
           | Inr material \<Rightarrow> (Inr (Some material), w1)))"

record 'r ca_inputs =
  ci_provider :: string
  ci_cubeName :: string
  ci_domain :: string
  ci_now :: gotime
  ci_rand :: 'r

definition ensureCA ::
  "unstr \<Rightarrow> nested_string_map \<Rightarrow> (err \<Rightarrow> bool) \<Rightarrow> ('r, 'k, 'p) crypto \<Rightarrow> 'a secret_reader \<Rightarrow> 'r ca_inputs \<Rightarrow> 'a \<Rightarrow>
   ensure_result res \<times> 'a" where
  "ensureCA U N notFound C read inp w =
     (if ci_provider inp \<noteq> ProviderCube then (Inl (NewUnsupportedProviderError (ci_provider inp)), w)
      else case readCAMaterial U N notFound read w of
          (Inl e, w1) \<Rightarrow> (Inl e, w1)
        | (Inr existing, w1) \<Rightarrow>
            (Ensure C \<lparr>m_cubeName = ci_cubeName inp, m_domain = ci_domain inp, m_now = ci_now inp, m_rand = ci_rand inp\<rparr>
               existing, w1))"

definition caProvider :: "config \<Rightarrow> string" where
  "caProvider cfg = (case cfg_ca cfg of None \<Rightarrow> ProviderCube | Some c \<Rightarrow> ca_provider c)"

definition zero_ensured :: ensure_result where
  "zero_ensured = \<lparr>CA = \<lparr>CertPEM = '''', KeyPEM = ''''\<rparr>, Leaf = \<lparr>CertPEM = '''', KeyPEM = ''''\<rparr>, Minted = False\<rparr>"

subsection \<open>What the verb reaches\<close>

record engine_driver =
  ep_SourceObjects :: "engine_spec \<Rightarrow> obj list res"
  ep_EngineObjects :: "engine_spec \<Rightarrow> obj list res"
  ep_Reconciled :: judge_fun

record ('c, 'rnd, 'k, 'p, 'q, 'a) boot_env =
  be_edge :: "'c edge_env"
  be_manifests :: "string res"
  be_crypto :: "('rnd, 'k, 'p) crypto"
  be_strings :: nested_string_map
  be_now :: gotime
  be_rand :: 'rnd
  be_home :: "string res"
  be_api :: "'q \<Rightarrow> 'a api"
  be_secret :: "'q \<Rightarrow> 'a secret_reader"
  be_notFound :: "err \<Rightarrow> bool"
  be_cms :: "'q \<Rightarrow> 'a cm_client"

record ('w, 'a) boot_state =
  bt_verbs :: "'w verb_state"
  bt_api :: 'a
  bt_log :: "call list"

record boot_outcome =
  bo_cfg :: config
  bo_domain :: string
  bo_ensured :: ensure_result

definition ensureCAMaterial ::
  "('c, 'rnd, 'k, 'p, 'q, 'a) boot_env \<Rightarrow> 'q \<Rightarrow> config \<Rightarrow> string \<Rightarrow> 'a \<Rightarrow> ensure_result res \<times> 'a" where
  "ensureCAMaterial B client cfg domain w =
     (if \<not> hasPrerequisite (cfg_prereqs cfg) PrerequisiteCASecrets then (Inr zero_ensured, w)
      else ensureCA (ee_unstr (be_edge B)) (be_strings B) (be_notFound B) (be_crypto B) (be_secret B client)
        \<lparr>ci_provider = caProvider cfg, ci_cubeName = cfg_name cfg, ci_domain = domain, ci_now = be_now B,
         ci_rand = be_rand B\<rparr> w)"

subsection \<open>Composition (\<open>bootstrap.go\<close>)\<close>

definition flux_driver :: "unstr \<Rightarrow> ustatus \<Rightarrow> engine_driver" where
  "flux_driver U S = \<lparr>ep_SourceObjects = SourceObjects, ep_EngineObjects = EngineObjects, ep_Reconciled = flux_Reconciled U S\<rparr>"

definition defaultEngine :: "unstr \<Rightarrow> ustatus \<Rightarrow> string \<Rightarrow> engine_driver res" where
  "defaultEngine U S p = (if p = EngineProviderFlux then Inr (flux_driver U S) else Inl (NewUnsupportedEngineError p))"

definition engineVersion :: "engine_spec option \<Rightarrow> string" where
  "engineVersion e = (case e of None \<Rightarrow> '''' | Some s \<Rightarrow> en_version s)"

definition gatewayDomain :: "config \<Rightarrow> string" where
  "gatewayDomain cfg =
     (case cfg_gateway cfg of
        Some g \<Rightarrow> if gw_domain g \<noteq> '''' then gw_domain g else cfg_name cfg @ ''.'' @ DefaultBaseDomain
      | None \<Rightarrow> cfg_name cfg @ ''.'' @ DefaultBaseDomain)"

definition engineInputs :: "(string \<Rightarrow> engine_driver res) \<Rightarrow> engine_spec option \<Rightarrow> (obj list \<times> judge_fun \<times> obj list) res" where
  "engineInputs newEngine engineSpec =
     (let spec = (case engineSpec of
          None \<Rightarrow> \<lparr>en_provider = EngineProviderFlux, en_version = '''', en_source = None\<rparr> | Some s \<Rightarrow> s)
      in bindR (newEngine (en_provider spec)) (\<lambda>drv.
         bindR (ep_SourceObjects drv spec) (\<lambda>wiring.
         bindR (ep_EngineObjects drv spec) (\<lambda>engineObjs. Inr (wiring, ep_Reconciled drv, engineObjs)))))"

definition engineInstall ::
  "('c, 'rnd, 'k, 'p, 'q, 'a) boot_env \<Rightarrow> boot_outcome \<Rightarrow> obj list \<times> judge_fun \<times> obj list \<Rightarrow> engine_install res" where
  "engineInstall B out inputs =
     (case inputs of (wiring, reconciled, engineObjs) \<Rightarrow>
        bindR (Objects (ee_sha256hex (be_edge B)) (be_manifests B) (ee_decode (be_edge B))) (\<lambda>substrateObjs.
        bindR (prerequisiteUnits (be_edge B)
                 \<lparr>pi_units = cfg_prereqs (bo_cfg out), pi_domain = bo_domain out, pi_ensured = bo_ensured out\<rparr>) (\<lambda>units.
          Inr \<lparr>ei_substrate = substrateObjs, ei_prerequisites = units, ei_wiring = wiring,
            ei_reconciled = Some reconciled, ei_engineObjects = engineObjs\<rparr>)))"

text \<open>\<open>runInstall\<close> under its budget; the installation's calls are appended to the state's log.\<close>

definition runInstall :: "'a applier \<Rightarrow> engine_install \<Rightarrow> nat \<Rightarrow> ('w, 'a) boot_state \<Rightarrow> err option \<times> ('w, 'a) boot_state" where
  "runInstall A install timeout st =
     (case InstallEngine A install \<lparr>rn_world = bt_api st, rn_log = bt_log st, rn_left = timeout\<rparr> of
        (r, run) \<Rightarrow> (r, st\<lparr>bt_api := rn_world run, bt_log := rn_log run\<rparr>))"

definition NewApplier :: "('c, 'rnd, 'k, 'p, 'q, 'a) boot_env \<Rightarrow> 'q \<Rightarrow> string \<Rightarrow> 'a applier" where
  "NewApplier B client invNS =
     \<lparr>A_api = be_api B client, A_unstr = ee_unstr (be_edge B), A_status = ee_status (be_edge B), A_invNS = invNS\<rparr>"

definition bootstrapApplier ::
  "('x, 'r, 'd, 'm, 'y) verb_env \<Rightarrow> ('c, 'rnd, 'k, 'p, ('r, 'd, 'm, 'y) kube_client, 'a) boot_env \<Rightarrow> 'w provisionerFactory \<Rightarrow>
   verb_flags \<Rightarrow> config \<Rightarrow> cluster_spec \<Rightarrow> 'w verb_state \<Rightarrow>
   ('a applier \<times> ('r, 'd, 'm, 'y) kube_client) res \<times> 'w verb_state" where
  "bootstrapApplier X B F fl cfg c st =
     (case F (cs_provider c) (vb_backend st) of
        Inl e \<Rightarrow> (Inl e, st)
      | Inr (d, w) \<Rightarrow>
     (case Status (ve_kubeconfig X) (ve_kube X) (ve_os X) (dr_provisioner d) (target_options cfg fl) (w, vb_fs st) of
        (Inl e, w1, fs) \<Rightarrow> (Inl e, st\<lparr>vb_backend := w1\<rparr>)
      | (Inr rep, w1, fs) \<Rightarrow>
     (case read_file (ve_os X) (sr_KubeconfigPath rep) fs of
        Inl e \<Rightarrow> (Inl (NewKubeconfigFailedError (Wrapf (''read kubeconfig '' @ sr_KubeconfigPath rep) e)), st\<lparr>vb_backend := w1\<rparr>)
      | Inr raw \<Rightarrow>
     (case kube_New (ve_client X) raw (sr_ContextName rep) of
        Inl e \<Rightarrow> (Inl e, st\<lparr>vb_backend := w1\<rparr>)
      | Inr client \<Rightarrow> (Inr (NewApplier B client substrate_Namespace, client), st\<lparr>vb_backend := w1\<rparr>)))))"

subsection \<open>After the installation (\<open>bootstrap_finish.go\<close>)\<close>

definition engine_line :: "engine_spec option \<Rightarrow> string" where
  "engine_line engineSpec =
     (case (case engineSpec of None \<Rightarrow> None | Some s \<Rightarrow> en_source s) of
        None \<Rightarrow> ''flux '' @ Version @ '' installed''
      | Some src \<Rightarrow>
          if es_url src \<noteq> '''' then ''flux '' @ Version @ '' installed '' @ em_dash @ '' syncing from '' @ es_url src @ '' ('' @ es_kind src @ '')''
          else ''flux '' @ Version @ '' installed'')"

definition renderBootstrapResult :: "engine_spec option \<Rightarrow> string \<Rightarrow> string \<Rightarrow> 'w verb_state \<Rightarrow> 'w verb_state" where
  "renderBootstrapResult engineSpec domain certPath st =
     (let st = println (engine_line engineSpec) st;
          st = (if domain \<noteq> '''' then println (''gateway installed '' @ em_dash @ '' *.'' @ domain @ '' routed to '' @ ServiceFQDN) st else st)
      in if certPath \<noteq> '''' then println (''cube CA written to '' @ certPath) st else st)"

definition finish_cert ::
  "('x, 'r, 'd, 'm, 'y) verb_env \<Rightarrow> ('c, 'rnd, 'k, 'p, 'q, 'a) boot_env \<Rightarrow> boot_outcome \<Rightarrow> fsys \<Rightarrow> string res \<times> fsys" where
  "finish_cert X B out fs =
     (if hasPrerequisite (cfg_prereqs (bo_cfg out)) PrerequisiteCASecrets
      then (case artifactRoot (be_home B) of
              Inl e \<Rightarrow> (Inl e, fs)
            | Inr root \<Rightarrow>
                let certPath = CertPath root (cfg_name (bo_cfg out))
                in (case syncCertFile (ve_os X) certPath (CertPEM (CA (bo_ensured out))) fs of
                      (Inl e, fs') \<Rightarrow> (Inl e, fs')
                    | (Inr _, fs') \<Rightarrow> (Inr certPath, fs')))
      else (Inr '''', fs))"

definition finishBootstrap ::
  "('x, 'r, 'd, 'm, 'y) verb_env \<Rightarrow> ('c, 'rnd, 'k, 'p, 'q, 'a) boot_env \<Rightarrow>
   (string \<Rightarrow> string \<Rightarrow> 'a \<Rightarrow> err option \<times> 'a) \<Rightarrow> boot_outcome \<Rightarrow> ('w, 'a) boot_state \<Rightarrow> err option \<times> ('w, 'a) boot_state" where
  "finishBootstrap X B splicer out st =
     (let cfg = bo_cfg out; fabric = hasGatewayFabric (cfg_prereqs cfg); vb = bt_verbs st
      in case (if fabric then splicer (cfg_name cfg) (bo_domain out) (bt_api st) else (None, bt_api st)) of
           (Some e, a) \<Rightarrow> (Some e, st\<lparr>bt_api := a\<rparr>)
         | (None, a) \<Rightarrow>
             (case finish_cert X B out (vb_fs vb) of
                (Inl e, fs) \<Rightarrow> (Some e, st\<lparr>bt_api := a, bt_verbs := vb\<lparr>vb_fs := fs\<rparr>\<rparr>)
              | (Inr certPath, fs) \<Rightarrow>
                  (None, st\<lparr>bt_api := a, bt_verbs := renderBootstrapResult (cfg_engine cfg) (if fabric then bo_domain out else '''')
                     certPath (vb\<lparr>vb_fs := fs\<rparr>)\<rparr>)))"

subsection \<open>The verb\<close>

definition composeBootstrap ::
  "('x, 'r, 'd, 'm, 'y) verb_env \<Rightarrow> (string \<Rightarrow> engine_driver res) \<Rightarrow> verb_flags \<Rightarrow> fsys \<Rightarrow>
   (config \<times> cluster_spec \<times> obj list \<times> judge_fun \<times> obj list) res" where
  "composeBootstrap X newEngine fl fs =
     bindR (LoadFile (ve_config X) (ve_os X) fs (fl_config fl)) (\<lambda>cfg.
       case cfg_cluster cfg of
         None \<Rightarrow> Inl NewNoClusterConfiguredError
       | Some c \<Rightarrow>
           (case CheckVersion (engineVersion (cfg_engine cfg)) of
              Some e \<Rightarrow> Inl e
            | None \<Rightarrow> bindR (engineInputs newEngine (cfg_engine cfg)) (\<lambda>inputs. Inr (cfg, c, inputs))))"

definition runBootstrap ::
  "('x, 'r, 'd, 'm, 'y) verb_env \<Rightarrow> ('c, 'rnd, 'k, 'p, ('r, 'd, 'm, 'y) kube_client, 'a) boot_env \<Rightarrow> 'w provisionerFactory \<Rightarrow>
   (string \<Rightarrow> engine_driver res) \<Rightarrow> verb_flags \<Rightarrow> nat \<Rightarrow> ('w, 'a) boot_state \<Rightarrow> err option \<times> ('w, 'a) boot_state" where
  "runBootstrap X B F newEngine fl timeout st =
     (case composeBootstrap X newEngine fl (vb_fs (bt_verbs st)) of
        Inl e \<Rightarrow> (Some e, st)
      | Inr (cfg, c, inputs) \<Rightarrow>
     (case bootstrapApplier X B F fl cfg c (bt_verbs st) of
        (Inl e, vb) \<Rightarrow> (Some e, st\<lparr>bt_verbs := vb\<rparr>)
      | (Inr (applier, client), vb) \<Rightarrow>
     (case ensureCAMaterial B client cfg (gatewayDomain cfg) (bt_api st) of
        (Inl e, a) \<Rightarrow> (Some e, st\<lparr>bt_verbs := vb, bt_api := a\<rparr>)
      | (Inr ensured, a) \<Rightarrow>
          let out = \<lparr>bo_cfg = cfg, bo_domain = gatewayDomain cfg, bo_ensured = ensured\<rparr>;
              st1 = st\<lparr>bt_verbs := vb, bt_api := a\<rparr>
          in case engineInstall B out inputs of
               Inl e \<Rightarrow> (Some e, st1)
             | Inr install \<Rightarrow>
                 (case runInstall applier install timeout st1 of
                    (Some e, st2) \<Rightarrow> (Some e, st2)
                  | (None, st2) \<Rightarrow> finishBootstrap X B (spliceCoreDNS (be_cms B client)) out st2))))"

subsection \<open>The CA is reused, never minted over\<close>

text \<open>What the Secret of an earlier run holds is usable.\<close>

definition usable_secret :: "unstr \<Rightarrow> nested_string_map \<Rightarrow> ('r, 'k, 'p) crypto \<Rightarrow> obj \<Rightarrow> bool" where
  "usable_secret U N C m = (case MaterialFromSecret U N m of Inl _ \<Rightarrow> False | Inr mat \<Rightarrow> \<not> isl (parseMaterial C mat))"

lemma Ensure_some:
  "case Ensure C req (Some m) of
     Inl e \<Rightarrow> err_code e = (if \<not> isl (parseMaterial C m) then Some ''CUBE-CA-001'' else Some ''CUBE-CA-002'')
   | Inr res \<Rightarrow> CA res = m \<and> \<not> Minted res \<and> \<not> isl (parseMaterial C m)"
proof (cases "parseMaterial C m")
  case (Inl e)
  then show ?thesis by (simp add: Ensure_def parseMaterial_Inl)
next
  case (Inr x)
  then show ?thesis using MintLeaf_cases [of C m req] by (auto simp: Ensure_def split: sum.split)
qed

text \<open>
  C25. Bootstrap mints a CA only into an empty place: a minted result means that the provider is the
  cube's and that the API server answered the read with NotFound. Every other result is the usable CA
  that the Secret read holds, unchanged, and the Secret an earlier run applied holds that run's. When
  the Secret cannot be decoded, or what it decodes to is not a usable CA, the error carries
  CUBE-CA-002; where its CA is usable an error can only come from minting the leaf and carries
  CUBE-CA-001; and any other failure of the read is passed on as it came, with no code added to it.
\<close>

theorem ensureCA_never_remints:
  assumes "nested_string_map_ok N" and e: "ensureCA U N nf C read inp w = (r, w1)"
  shows "(case r of
      Inr res \<Rightarrow> ci_provider inp = ProviderCube \<and>
        (if Minted res then \<exists>e. read CASecretName w = (Inl e, w1) \<and> nf e
         else \<exists>m. read CASecretName w = (Inr m, w1) \<and> MaterialFromSecret U N m = Inr (CA res) \<and> \<not> isl (parseMaterial C (CA res))) \<and>
        (\<forall>m ns. read CASecretName w = (Inr (secretObject ns CASecretName m), w1) \<and> CertPEM m \<noteq> '''' \<and> KeyPEM m \<noteq> '''' \<longrightarrow>
           CA res = m \<and> \<not> Minted res)
    | Inl e \<Rightarrow> (\<forall>m w2. read CASecretName w = (Inr m, w2) \<and> ci_provider inp = ProviderCube \<longrightarrow>
           err_code e = (if usable_secret U N C m then Some ''CUBE-CA-001'' else Some ''CUBE-CA-002'')) \<and>
        (\<forall>e' w2. read CASecretName w = (Inl e', w2) \<and> \<not> nf e' \<and> ci_provider inp = ProviderCube \<longrightarrow> err_code e = err_code e'))"
proof -
  let ?req = "\<lparr>m_cubeName = ci_cubeName inp, m_domain = ci_domain inp, m_now = ci_now inp, m_rand = ci_rand inp\<rparr>"
  show ?thesis
  proof (cases "ci_provider inp = ProviderCube")
    case False
    with e show ?thesis by (auto simp: ensureCA_def)
  next
    case True
    obtain x w2 where x: "read CASecretName w = (x, w2)" by fastforce
    show ?thesis
    proof (cases x)
      case (Inl e')
      with e x True show ?thesis
        by (auto simp: ensureCA_def readCAMaterial_def Ensure_def split: sum.splits if_splits prod.splits)
    next
      case (Inr m)
      show ?thesis
      proof (cases "MaterialFromSecret U N m")
        case Inl': (Inl e')
        with e x Inr True MaterialFromSecret_Inl [OF Inl'] MaterialFromSecret_secretObject [OF assms(1), of _ U]
        show ?thesis by (auto simp: ensureCA_def readCAMaterial_def usable_secret_def)
      next
        case Inr': (Inr mat)
        with e x Inr True have r: "r = Ensure C ?req (Some mat)" "w1 = w2" by (auto simp: ensureCA_def readCAMaterial_def)
        have mat: "mat = m'" if "m = secretObject ns CASecretName m'" "CertPEM m' \<noteq> ''''" "KeyPEM m' \<noteq> ''''" for ns m'
          using Inr' MaterialFromSecret_secretObject [OF assms(1) that(2,3), of U ns CASecretName] that(1) by simp
        from Ensure_some [of C mat ?req] r x Inr Inr' True mat show ?thesis
          by (auto simp: usable_secret_def split: sum.splits)
      qed
    qed
  qed
qed

subsection \<open>What a bootstrap may touch\<close>

lemma syncCertFile_files:
  assumes "fresh_temps E" "temp_apart E path" "syncCertFile E path pem fs = (r, fs')"
  shows "case r of Inl e \<Rightarrow> unharmed fs fs' | Inr _ \<Rightarrow> map_of (files fs') = (map_of (files fs))(path \<mapsto> pem)"
proof (cases "read_file E path fs = Inr pem \<or> (\<exists>e. read_file E path fs = Inl e \<and> e \<noteq> ErrNotExist)")
  case True
  with assms(3) show ?thesis
    by (auto simp: syncCertFile_def read_file_def fun_eq_iff unharmed_refl split: if_splits option.splits)
next
  case False
  obtain x fs1 where w: "writeArtifact E path pem fs = (x, fs1)" by fastforce
  with False assms(3) have "fs' = fs1 \<and> (case x of None \<Rightarrow> \<exists>b. r = Inr b | Some e \<Rightarrow> r = Inl e)"
    by (auto simp: syncCertFile_def Let_def split: sum.splits option.splits)
  with writeArtifact_replaced [OF assms(1,2), of pem fs] show ?thesis
    unfolding w by (auto simp: unharmed_def split: option.splits dest: replaced_None replaced_Some)
qed

lemma renderBootstrapResult_fs [simp]: "vb_fs (renderBootstrapResult e d c st) = vb_fs st"
  by (simp add: renderBootstrapResult_def println_def Let_def)

lemma Status_fs: "Status Y V E P opts (w, fs) = (r, w', fs') \<Longrightarrow> fs' = fs"
  by (auto simp: Status_def Let_def split: prod.splits sum.splits)

lemma bootstrapApplier_state:
  "bootstrapApplier X B F fl cfg c st = (r, st') \<Longrightarrow> vb_fs st' = vb_fs st \<and> vb_out st' = vb_out st \<and>
     (\<forall>A q. r = Inr (A, q) \<longrightarrow> A = NewApplier B q substrate_Namespace)"
  by (auto simp: bootstrapApplier_def split: sum.splits prod.splits dest: Status_fs)

lemma runInstall_verbs: "runInstall A i t st = (r, st') \<Longrightarrow> bt_verbs st' = bt_verbs st"
  by (auto simp: runInstall_def split: prod.splits)

text \<open>The steps of a run, up to where it stopped.\<close>

lemma runBootstrap_cases:
  assumes R: "runBootstrap X B F eng fl t st = (r, st')"
  obtains (stopped) e where "r = Some e" "vb_fs (bt_verbs st') = vb_fs (bt_verbs st)" "vb_out (bt_verbs st') = vb_out (bt_verbs st)"
  | (finishing) cfg c inputs q ens install run0 st2 run1 where
      "composeBootstrap X eng fl (vb_fs (bt_verbs st)) = Inr (cfg, c, inputs)"
      "fst (ensureCAMaterial B q cfg (gatewayDomain cfg) (bt_api st)) = Inr ens"
      "engineInstall B \<lparr>bo_cfg = cfg, bo_domain = gatewayDomain cfg, bo_ensured = ens\<rparr> inputs = Inr install"
      "InstallEngine (NewApplier B q substrate_Namespace) install run0 = (None, run1)"
      "rn_log run1 = bt_log st2" "rn_left run0 = t"
      "vb_fs (bt_verbs st2) = vb_fs (bt_verbs st)" "vb_out (bt_verbs st2) = vb_out (bt_verbs st)"
      "finishBootstrap X B (spliceCoreDNS (be_cms B q)) \<lparr>bo_cfg = cfg, bo_domain = gatewayDomain cfg, bo_ensured = ens\<rparr> st2 = (r, st')"
proof (cases "composeBootstrap X eng fl (vb_fs (bt_verbs st))")
  case (Inl e)
  with R stopped [of e] show thesis by (auto simp: runBootstrap_def)
next
  case (Inr x)
  then obtain cfg c inputs where 1: "composeBootstrap X eng fl (vb_fs (bt_verbs st)) = Inr (cfg, c, inputs)" by (cases x) auto
  obtain ar vb where 2: "bootstrapApplier X B F fl cfg c (bt_verbs st) = (ar, vb)" by fastforce
  note s = bootstrapApplier_state [OF 2]
  show thesis
  proof (cases ar)
    case (Inl e)
    with R 1 2 s stopped [of e] show thesis by (auto simp: runBootstrap_def)
  next
    case (Inr y)
    then obtain q where 3: "ar = Inr (NewApplier B q substrate_Namespace, q)" using s by (cases y) auto
    obtain er a where 4: "ensureCAMaterial B q cfg (gatewayDomain cfg) (bt_api st) = (er, a)" by fastforce
    show thesis
    proof (cases "\<exists>ens install. er = Inr ens \<and> engineInstall B \<lparr>bo_cfg = cfg, bo_domain = gatewayDomain cfg, bo_ensured = ens\<rparr> inputs = Inr install")
      case False
      then have "\<exists>e. r = Some e \<and> st' = st\<lparr>bt_verbs := vb, bt_api := a\<rparr>"
        using R unfolding runBootstrap_def 1 2 3 sum.case prod.case 4 Let_def
        by (cases er; cases "engineInstall B \<lparr>bo_cfg = cfg, bo_domain = gatewayDomain cfg, bo_ensured = projr er\<rparr> inputs") auto
      with s stopped show thesis by auto
    next
      case True
      then obtain ens install where 5: "er = Inr ens"
        "engineInstall B \<lparr>bo_cfg = cfg, bo_domain = gatewayDomain cfg, bo_ensured = ens\<rparr> inputs = Inr install" by blast
      let ?st1 = "st\<lparr>bt_verbs := vb, bt_api := a\<rparr>"
      obtain ir st2 where 6: "runInstall (NewApplier B q substrate_Namespace) install t ?st1 = (ir, st2)" by fastforce
      have v: "bt_verbs st2 = vb" using runInstall_verbs [OF 6] by simp
      have R': "(case ir of Some e \<Rightarrow> (Some e, st2) | None \<Rightarrow> finishBootstrap X B (spliceCoreDNS (be_cms B q))
          \<lparr>bo_cfg = cfg, bo_domain = gatewayDomain cfg, bo_ensured = ens\<rparr> st2) = (r, st')"
        using R 1 2 3 4 5 6 by (simp add: runBootstrap_def Let_def)
      show thesis
      proof (cases ir)
        case (Some e)
        with R' v s stopped [of e] show thesis by auto
      next
        case None
        from 6 None obtain run1 where i: "InstallEngine (NewApplier B q substrate_Namespace) install
            \<lparr>rn_world = a, rn_log = bt_log st, rn_left = t\<rparr> = (None, run1)" and l: "rn_log run1 = bt_log st2"
          by (auto simp: runInstall_def split: prod.splits)
        show thesis
          by (rule finishing [OF 1 _ 5(2) i l]) (use 4 5 v s R' None in auto)
      qed
    qed
  qed
qed

text \<open>The path of the certificate artifact for a cube.\<close>

definition artifact_at :: "string res \<Rightarrow> string \<Rightarrow> string \<Rightarrow> bool" where
  "artifact_at home cube p \<longleftrightarrow> (\<exists>root. artifactRoot home = Inr root \<and> p = CertPath root cube)"

definition artifacts_apart :: "string res \<Rightarrow> os_env \<Rightarrow> bool" where
  "artifacts_apart home E \<longleftrightarrow> (\<forall>cube p. artifact_at home cube p \<longrightarrow> temp_apart E p)"

lemma finish_cert_files:
  assumes "fresh_temps (ve_os X)" "artifacts_apart (be_home B) (ve_os X)"
    and "finish_cert X B out fs = (r, fs')"
  shows "case r of
      Inl e \<Rightarrow> unharmed fs fs'
    | Inr path \<Rightarrow>
        if hasPrerequisite (cfg_prereqs (bo_cfg out)) PrerequisiteCASecrets
        then artifact_at (be_home B) (cfg_name (bo_cfg out)) path \<and>
          map_of (files fs') = (map_of (files fs))(path \<mapsto> CertPEM (CA (bo_ensured out)))
        else fs' = fs"
proof (cases "\<exists>root. hasPrerequisite (cfg_prereqs (bo_cfg out)) PrerequisiteCASecrets \<and> artifactRoot (be_home B) = Inr root")
  case False
  with assms(3) show ?thesis by (auto simp: finish_cert_def unharmed_refl split: if_splits sum.splits)
next
  case True
  then obtain root where h: "hasPrerequisite (cfg_prereqs (bo_cfg out)) PrerequisiteCASecrets" "artifactRoot (be_home B) = Inr root" by blast
  let ?p = "CertPath root (cfg_name (bo_cfg out))"
  have at: "artifact_at (be_home B) (cfg_name (bo_cfg out)) ?p" using h by (auto simp: artifact_at_def)
  obtain s fs1 where s: "syncCertFile (ve_os X) ?p (CertPEM (CA (bo_ensured out))) fs = (s, fs1)" by fastforce
  have "fs' = fs1 \<and> (case s of Inl e \<Rightarrow> r = Inl e | Inr b \<Rightarrow> r = Inr ?p)"
    using assms(3) h s by (auto simp: finish_cert_def Let_def split: sum.splits)
  moreover have "temp_apart (ve_os X) ?p" using assms(2) at by (auto simp: artifacts_apart_def)
  ultimately show ?thesis using syncCertFile_files [OF assms(1) _ s] h at by (auto split: sum.splits)
qed

text \<open>
  Bootstrap writes one file at most. A run that fails leaves every file but an unused
  temporary name as it was and prints nothing; a run that succeeds changes the certificate
  artifact of the cube alone, and only when the list has the ca-secrets unit.
\<close>

theorem bootstrap_files:
  assumes t: "fresh_temps (ve_os X)" "artifacts_apart (be_home B) (ve_os X)"
    and R: "runBootstrap X B F eng fl n st = (r, st')"
  shows "case r of
      Some e \<Rightarrow> unharmed (vb_fs (bt_verbs st)) (vb_fs (bt_verbs st')) \<and> vb_out (bt_verbs st') = vb_out (bt_verbs st)
    | None \<Rightarrow> \<exists>cfg. LoadFile (ve_config X) (ve_os X) (vb_fs (bt_verbs st)) (fl_config fl) = Inr cfg \<and>
        (if hasPrerequisite (cfg_prereqs cfg) PrerequisiteCASecrets
         then \<exists>path pem. artifact_at (be_home B) (cfg_name cfg) path \<and>
           map_of (files (vb_fs (bt_verbs st'))) = (map_of (files (vb_fs (bt_verbs st))))(path \<mapsto> pem)
         else vb_fs (bt_verbs st') = vb_fs (bt_verbs st))"
  using R
proof (cases rule: runBootstrap_cases)
  case (stopped e)
  then show ?thesis by (simp add: unharmed_refl)
next
  case (finishing cfg c inputs q ens install run0 st2 run1)
  let ?out = "\<lparr>bo_cfg = cfg, bo_domain = gatewayDomain cfg, bo_ensured = ens\<rparr>"
  obtain fc fs1 where fc: "finish_cert X B ?out (vb_fs (bt_verbs st2)) = (fc, fs1)" by fastforce
  note c = finish_cert_files [OF t fc]
  have l: "LoadFile (ve_config X) (ve_os X) (vb_fs (bt_verbs st)) (fl_config fl) = Inr cfg"
    using finishing(1) by (auto simp: composeBootstrap_def bindR_Inr_iff split: option.splits)
  show ?thesis
  proof (cases r)
    case (Some e)
    then have "vb_out (bt_verbs st') = vb_out (bt_verbs st2) \<and>
        (vb_fs (bt_verbs st') = vb_fs (bt_verbs st2) \<or> (\<exists>e. fc = Inl e) \<and> vb_fs (bt_verbs st') = fs1)"
      using finishing(9) fc by (auto simp: finishBootstrap_def Let_def split: prod.splits option.splits sum.splits)
    with c finishing(7,8) Some show ?thesis by (auto simp: unharmed_refl)
  next
    case None
    then obtain path where "fc = Inr path" "vb_fs (bt_verbs st') = fs1"
      using finishing(9) fc by (auto simp: finishBootstrap_def Let_def split: prod.splits option.splits sum.splits)
    with c finishing(7) None l show ?thesis by (auto split: if_splits)
  qed
qed

subsection \<open>What a successful bootstrap established\<close>

lemma phases_applied:
  "phases A ap us segs \<Longrightarrow> u \<in> set us \<Longrightarrow> m \<in> set (un_objects u) \<Longrightarrow> CApply m None \<in> set (concat segs)"
  by (induction A ap us segs rule: phases.induct) (auto simp: acks_def)

lemma InstallEngine_applied:
  assumes "InstallEngine A i s = (None, s')" "u \<in> set (ei_prerequisites i)" "m \<in> set (un_objects u)"
  shows "CApply m None \<in> set (rn_log s')"
proof -
  from InstallEngine_run [OF assms(1)] obtain pre segs post where
    l: "rn_log s' = pre @ concat segs @ post" and ph: "phases A (ei_substrate i) (ei_prerequisites i) segs"
    by (metis append.assoc)
  show ?thesis using phases_applied [OF ph assms(2,3)] unfolding l by simp
qed

lemma ca_secrets_unit:
  assumes "prerequisiteUnits E inp = Inr us" "hasPrerequisite (pi_units inp) PrerequisiteCASecrets"
  shows "\<exists>u \<in> set us. un_objects u = [secretObject gateway_Namespace CASecretName (CA (pi_ensured inp)),
    secretObject gateway_Namespace LeafSecretName (Leaf (pi_ensured inp))]"
proof -
  from assms(2) obtain entry where e: "entry \<in> set (pi_units inp)" "pr_name entry = PrerequisiteCASecrets"
    by (auto simp: hasPrerequisite_def list_ex_iff)
  from prerequisiteUnits_Inr [OF assms(1)] obtain ss where
    ss: "us = map to_unit ss" "list_all2 (\<lambda>entry s. prerequisiteSpec E entry inp = Inr s) (pi_units inp) ss" by blast
  obtain s where s: "s \<in> set ss" "prerequisiteSpec E entry inp = Inr s"
    using ss(2) e(1) by (auto simp: list_all2_conv_all_nth in_set_conv_nth) (metis nth_mem)
  have "PrerequisiteCASecrets \<noteq> PrerequisiteGatewayPlatform" by (simp add: prereq_consts)
  with s(2) e(2) have "s = caSecretsSpec (pr_name entry) (pi_ensured inp)"
    by (auto simp: prerequisiteSpec_def split: option.splits)
  then have "un_objects (to_unit s) = SecretObjects \<lparr>sp_Namespace = gateway_Namespace, sp_CASecret = CASecretName, sp_LeafSecret = LeafSecretName\<rparr> (pi_ensured inp)"
    by (simp add: to_unit_def caSecretsSpec_def NewInertUnit_def)
  with s(1) ss(1) show ?thesis by (intro bexI [of _ "to_unit s"]) (auto simp: SecretObjects_def)
qed

text \<open>
  C4. A bootstrap that reports success stands on all of this: the document loaded and asks for the
  pinned engine version or none; the installation of exactly the listed prerequisites, in order,
  under the given budget and with its inventory in the substrate's namespace, succeeded; and when
  the list has the ca-secrets unit, the API server acknowledged the CA and leaf Secrets, and the
  file the operator trusts holds the certificate of that same CA.
\<close>

theorem bootstrap_success:
  assumes t: "fresh_temps (ve_os X)" "artifacts_apart (be_home B) (ve_os X)"
    and R: "runBootstrap X B F eng fl n st = (None, st')"
  shows "\<exists>cfg q (ens :: ensure_result) install run0 run1.
    LoadFile (ve_config X) (ve_os X) (vb_fs (bt_verbs st)) (fl_config fl) = Inr cfg \<and>
    engineVersion (cfg_engine cfg) \<in> {'''', Version} \<and>
    map un_name (ei_prerequisites install) = map pr_name (cfg_prereqs cfg) \<and>
    rn_left run0 = n \<and> InstallEngine (NewApplier B q substrate_Namespace) install run0 = (None, run1) \<and> rn_log run1 = bt_log st' \<and>
    (hasPrerequisite (cfg_prereqs cfg) PrerequisiteCASecrets \<longrightarrow>
       CApply (secretObject gateway_Namespace CASecretName (CA ens)) None \<in> set (bt_log st') \<and>
       CApply (secretObject gateway_Namespace LeafSecretName (Leaf ens)) None \<in> set (bt_log st') \<and>
       (\<exists>path. artifact_at (be_home B) (cfg_name cfg) path \<and>
          map_of (files (vb_fs (bt_verbs st'))) path = Some (CertPEM (CA ens))))"
  using R
proof (cases rule: runBootstrap_cases)
  case (finishing cfg c inputs q ens install run0 st2 run1)
  let ?out = "\<lparr>bo_cfg = cfg, bo_domain = gatewayDomain cfg, bo_ensured = ens\<rparr>"
  let ?in = "\<lparr>pi_units = cfg_prereqs cfg, pi_domain = gatewayDomain cfg, pi_ensured = ens\<rparr>"
  have l: "LoadFile (ve_config X) (ve_os X) (vb_fs (bt_verbs st)) (fl_config fl) = Inr cfg"
    "engineVersion (cfg_engine cfg) \<in> {'''', Version}"
    using finishing(1) by (auto simp: composeBootstrap_def bindR_Inr_iff CheckVersion_def split: option.splits if_splits)
  have u: "prerequisiteUnits (be_edge B) ?in = Inr (ei_prerequisites install)"
    using finishing(3) by (auto simp: engineInstall_def bindR_Inr_iff split: prod.splits)
  from prerequisiteUnits_Inr [OF u] have names: "map un_name (ei_prerequisites install) = map pr_name (cfg_prereqs cfg)"
    by (auto simp: list_all2_conv_all_nth to_unit_name prerequisiteSpec_name intro!: nth_equalityI)
  obtain fc fs1 where fc: "finish_cert X B ?out (vb_fs (bt_verbs st2)) = (fc, fs1)" by fastforce
  have e: "bt_log st' = bt_log st2" "vb_fs (bt_verbs st') = fs1" "\<exists>path. fc = Inr path"
    using finishing(9) fc by (auto simp: finishBootstrap_def Let_def split: prod.splits option.splits sum.splits)
  have ap: "CApply (secretObject gateway_Namespace CASecretName (CA ens)) None \<in> set (bt_log st') \<and>
      CApply (secretObject gateway_Namespace LeafSecretName (Leaf ens)) None \<in> set (bt_log st')"
    if "hasPrerequisite (cfg_prereqs cfg) PrerequisiteCASecrets"
    using ca_secrets_unit [OF u] that InstallEngine_applied [OF finishing(4)] e(1) finishing(5) by fastforce
  have ct: "\<exists>path. artifact_at (be_home B) (cfg_name cfg) path \<and> map_of (files fs1) path = Some (CertPEM (CA ens))"
    if "hasPrerequisite (cfg_prereqs cfg) PrerequisiteCASecrets"
    using finish_cert_files [OF t fc] that e(3) by auto
  show ?thesis
    by (rule exI [of _ cfg], rule exI [of _ q], rule exI [of _ ens], rule exI [of _ install], rule exI [of _ run0], rule exI [of _ run1])
      (use l names finishing(4-6) e ap ct in simp)
qed simp

subsection \<open>A concrete run\<close>

text \<open>
  A document that lists the ca-secrets unit only, a payload that decodes to one namespace, an API
  server on which everything applies and nothing is found, and a cluster created before.
\<close>

definition boot_config :: config where
  "boot_config = sample_loaded\<lparr>cfg_gateway := Some \<lparr>gw_domain = ''dev.test''\<rparr>,
     cfg_prereqs := [\<lparr>pr_name = PrerequisiteCASecrets, pr_ref = ''''\<rparr>]\<rparr>"

definition boot_yaml :: yaml_env where
  "boot_yaml = \<lparr>y_type_header = (\<lambda>raw. Inr (group_version, ''Config'')), y_strict = (\<lambda>raw. Inr boot_config),
     y_dns1123 = (\<lambda>d. []), y_type_meta = (\<lambda>raw. None)\<rparr>"

definition boot_verb_env :: "(unit, unit, unit, unit, unit) verb_env" where
  "boot_verb_env = sample_verb_env\<lparr>ve_config := boot_yaml\<rparr>"

definition sample_boot_env :: "(unit, unit, unit, unit, (unit, unit, unit, unit) kube_client, unit) boot_env" where
  "sample_boot_env =
     \<lparr>be_edge = (sample_edge helm_meta)\<lparr>ee_sha256hex := (\<lambda>s. manifestsSHA256), ee_decode := (\<lambda>s. [Inr active_namespace])\<rparr>,
      be_manifests = Inr ''payload'', be_crypto = sample_crypto, be_strings = std_string_map, be_now = sample_now, be_rand = (),
      be_home = Inr ''/h'', be_api = (\<lambda>q. A_api sample_applier), be_secret = (\<lambda>q n w. (Inl (Plain ''not found''), w)),
      be_notFound = (\<lambda>e. True),
      be_cms = (\<lambda>q. \<lparr>cm_get = (\<lambda>n w. (Inl (Plain ''absent''), w)), cm_update = (\<lambda>m w. (Inr m, w)), cm_conflict = (\<lambda>e. False),
        cm_nested = (\<lambda>m ks. Inr ''''), cm_set_nested = (\<lambda>m v ks. Inr m)\<rparr>)\<rparr>"

definition sample_boot :: "((unit, string list) kind_state, unit) boot_state" where
  "sample_boot = \<lparr>bt_verbs = sample_created, bt_api = (), bt_log = []\<rparr>"

lemma boot_load:
  "LoadFile boot_yaml kube_os sample_installed_fs ''cube.yaml'' = Inr boot_config"
proof -
  have d: "config_default boot_config = boot_config" by code_simp
  have n: "nameRE ''dev''" by code_simp
  have "complete_config (y_dns1123 boot_yaml) (y_type_meta boot_yaml) boot_config"
    by (simp add: complete_config_def boot_config_def sample_loaded_def boot_yaml_def n ClusterProviderKind_def
        prereq_ok_def isBuiltInPrerequisite_def isWellKnownPrerequisite_def prereq_consts trim_space_def space_chunk_def is_space_def)
  then show ?thesis
    by (simp add: LoadFile_def read_file_def kube_os_def sample_installed_fs_def decode_def boot_yaml_def d
        config_validate_complete [symmetric])
qed

lemma boot_compose:
  "composeBootstrap boot_verb_env (defaultEngine std_unstr std_status) sample_flags sample_installed_fs =
     Inr (boot_config, \<lparr>cs_provider = ''kind'', cs_forProvider = None\<rparr>, [], flux_Reconciled std_unstr std_status, [])"
  using boot_load
  by (simp add: composeBootstrap_def boot_verb_env_def sample_verb_env_def sample_flags_def)
    (simp add: boot_config_def sample_loaded_def CheckVersion_def engineVersion_def engineInputs_def defaultEngine_def
      flux_driver_def SourceObjects_def EngineObjects_def Let_def)

definition boot_client :: "(unit, unit, unit, unit) kube_client" where
  "boot_client = \<lparr>kcl_restConfig = (), kcl_discovery = (), kcl_mapper = (), kcl_dynamic = ()\<rparr>"

lemma boot_applier:
  "bootstrapApplier boot_verb_env sample_boot_env (defaultProvisioner sample_kind) sample_flags boot_config
     \<lparr>cs_provider = ''kind'', cs_forProvider = None\<rparr> sample_created =
     (Inr (NewApplier sample_boot_env boot_client substrate_Namespace, boot_client), sample_created)"
proof -
  have s: "Status sample_typed_yaml sample_kube_env kube_os (kind_provisioner sample_kind)
      \<lparr>do_Name = ''dev'', do_ContextName = ''cube/dev'', do_KubeconfigPath = ''k''\<rparr> ((None, [''dev'']), sample_installed_fs) =
      (Inr \<lparr>sr_ClusterExists = True, sr_ContextInstalled = True, sr_ContextName = ''cube/dev'', sr_KubeconfigPath = ''k''\<rparr>,
       (Some (Inr ()), [''dev'']), sample_installed_fs)" by code_simp
  have k: "kube_New sample_client ''cube'' ''cube/dev'' = Inr boot_client"
    by (simp add: kube_New_def sample_client_def boot_client_def Let_def)
  show ?thesis
    using s k
    by (simp add: bootstrapApplier_def defaultProvisioner_def ClusterProviderKind_def kind_New_def boot_verb_env_def
        sample_verb_env_def target_options_def sample_flags_def boot_config_def sample_loaded_def sample_created_def
        read_file_def kube_os_def sample_installed_fs_def)
qed

lemma boot_ensure:
  "ensureCAMaterial sample_boot_env boot_client boot_config (gatewayDomain boot_config) () = (Inr sample_ensured, ())"
  using sample_Ensure
  by (simp add: ensureCAMaterial_def hasPrerequisite_def boot_config_def sample_loaded_def ensureCA_def caProvider_def
      sample_boot_env_def readCAMaterial_def gatewayDomain_def sample_mint_def)

definition boot_install :: engine_install where
  "boot_install = \<lparr>ei_substrate = [active_namespace],
     ei_prerequisites = [to_unit (caSecretsSpec PrerequisiteCASecrets sample_ensured)],
     ei_wiring = [], ei_reconciled = Some (flux_Reconciled std_unstr std_status), ei_engineObjects = []\<rparr>"

lemma boot_engineInstall:
  "engineInstall sample_boot_env \<lparr>bo_cfg = boot_config, bo_domain = gatewayDomain boot_config, bo_ensured = sample_ensured\<rparr>
     ([], flux_Reconciled std_unstr std_status, []) = Inr boot_install"
proof -
  have "Objects (\<lambda>s. manifestsSHA256) (Inr ''payload'') (\<lambda>s. [Inr active_namespace]) = Inr [active_namespace]"
    by (simp add: Objects_def manifests_def parseManifests_def active_namespace_def)
  then show ?thesis
    by (simp add: engineInstall_def sample_boot_env_def boot_install_def prerequisiteUnits_def prerequisiteSpecs_def
        boot_config_def prerequisiteSpec_def prereq_consts checkBuiltInHasNoRef_def)
qed

definition boot_A :: "unit applier" where
  "boot_A = NewApplier sample_boot_env boot_client substrate_Namespace"

lemma boot_A_fields: "A_api boot_A = A_api sample_applier" "A_unstr boot_A = std_unstr" "A_status boot_A = std_status"
  by (simp_all add: boot_A_def NewApplier_def sample_boot_env_def sample_edge_def)

lemma boot_seam:
  "seam_apply boot_A m s = (None, s\<lparr>rn_log := rn_log s @ [CApply m None]\<rparr>)"
  "seam_get boot_A m s = (Inr active_namespace, s\<lparr>rn_log := rn_log s @ [CGet m (Inr active_namespace)]\<rparr>)"
  by (simp_all add: seam_apply_def dyn_apply_def seam_get_def dyn_get_def resourceFor_def rawResourceFor_def Let_def
      boot_A_def NewApplier_def sample_boot_env_def sample_applier_def)

definition boot_log :: "call list" where
  "boot_log = rn_log (snd (InstallEngine boot_A boot_install \<lparr>rn_world = (), rn_log = [], rn_left = 3\<rparr>))"

lemma boot_InstallEngine:
  "fst (InstallEngine boot_A boot_install \<lparr>rn_world = (), rn_log = [], rn_left = 3\<rparr>) = None"
proof -
  have k: "u_kind std_unstr active_namespace = ''Namespace''" by (simp add: std_unstr_def active_namespace_def)
  have f: "filterKindSet std_unstr [active_namespace] = [active_namespace]"
    by (simp add: filterKindSet_def inKindSet_def k)
  have r: "kind_ready std_unstr std_status ''Namespace'' active_namespace"
    by (simp add: kind_ready_def std_unstr_def active_namespace_def)
  have b: "RecordInventory boot_A objs s = (None, s\<lparr>rn_log := rn_log s @ [CApply (inventory_of boot_A objs) None]\<rparr>)" for objs s
    by (simp add: RecordInventory_def inventoryConfigMap_def inventory_of_def boot_seam)
  have w: "WaitReady boot_A [active_namespace] s = (None, s\<lparr>rn_log := rn_log s @ [CGet active_namespace (Inr active_namespace)]\<rparr>)" for s
    by (cases "rn_left s") (simp_all add: WaitReady_def waitReady_def f ready_def boot_seam k r boot_A_fields)
  show ?thesis
    by (simp add: InstallEngine_def boot_install_def to_unit_def caSecretsSpec_def NewInertUnit_def SecretObjects_def
        Install_phase_def boot_seam b w waitUnit_def Let_def WaitReconciled_def waitReconciled_def)
qed

definition boot_pem :: string where "boot_pem = CertPEM (CA sample_ensured)"

definition boot_path :: string where "boot_path = ''/h/.cube-idp/dev/ca.crt''"

definition boot_done :: "((unit, string list) kind_state, unit) boot_state" where
  "boot_done = snd (runBootstrap boot_verb_env sample_boot_env (defaultProvisioner sample_kind)
     (defaultEngine std_unstr std_status) sample_flags 3 sample_boot)"

lemma boot_run:
  "runBootstrap boot_verb_env sample_boot_env (defaultProvisioner sample_kind) (defaultEngine std_unstr std_status)
     sample_flags 3 sample_boot = (None, boot_done)"
proof -
  obtain run where i: "InstallEngine boot_A boot_install \<lparr>rn_world = (), rn_log = [], rn_left = 3\<rparr> = (None, run)"
    using boot_InstallEngine by (metis prod.collapse)
  have root: "artifactRoot (be_home sample_boot_env) = Inr ''/h/.cube-idp''"
    by (simp add: sample_boot_env_def artifactRoot_def trustRoot_def DirName_def path_join_def)
  have p: "CertPath ''/h/.cube-idp'' ''dev'' = boot_path"
    by (simp add: CertPath_def path_join_def CertFileName_def boot_path_def)
  have "fst (syncCertFile kube_os boot_path boot_pem sample_installed_fs) = Inr True"
    unfolding boot_path_def boot_pem_def sample_ensured_def by code_simp
  then have s: "\<exists>fs'. syncCertFile kube_os boot_path boot_pem sample_installed_fs = (Inr True, fs')" by (metis prod.collapse)
  have fc: "\<exists>fs'. finish_cert boot_verb_env sample_boot_env
      \<lparr>bo_cfg = boot_config, bo_domain = gatewayDomain boot_config, bo_ensured = sample_ensured\<rparr> sample_installed_fs = (Inr boot_path, fs')"
    using s by (auto simp: finish_cert_def root p boot_config_def sample_loaded_def hasPrerequisite_def boot_verb_env_def
        sample_verb_env_def boot_pem_def Let_def)
  have g: "\<not> hasGatewayFabric (cfg_prereqs boot_config)"
    by (simp add: hasGatewayFabric_def hasPrerequisite_def boot_config_def prereq_consts)
  have vs: "vb_fs sample_created = sample_installed_fs" by (simp add: sample_created_def)
  have "fst (runBootstrap boot_verb_env sample_boot_env (defaultProvisioner sample_kind) (defaultEngine std_unstr std_status)
     sample_flags 3 sample_boot) = None"
    using fc
    by (auto simp: runBootstrap_def sample_boot_def vs boot_compose boot_applier boot_ensure boot_engineInstall Let_def
        runInstall_def boot_A_def [symmetric] i finishBootstrap_def g)
  then show ?thesis unfolding boot_done_def by (metis prod.collapse)
qed

lemma boot_apart: "artifacts_apart (be_home sample_boot_env) (ve_os boot_verb_env)"
proof -
  have "artifactRoot (be_home sample_boot_env) = Inr ''/h/.cube-idp''"
    by (simp add: sample_boot_env_def artifactRoot_def trustRoot_def DirName_def path_join_def)
  then show ?thesis
    by (auto simp: artifacts_apart_def artifact_at_def boot_verb_env_def sample_verb_env_def CertPath_def path_join_def
        CertFileName_def intro!: kube_os_apart)
qed

lemma boot_fresh: "fresh_temps (ve_os boot_verb_env)"
  by (simp add: boot_verb_env_def sample_verb_env_def kube_os_fresh)

lemma bootstrap_success_witness:
  "\<exists>(ens :: ensure_result) path. CApply (secretObject gateway_Namespace CASecretName (CA ens)) None \<in> set (bt_log boot_done) \<and>
     map_of (files (vb_fs (bt_verbs boot_done))) path = Some (CertPEM (CA ens))"
proof -
  have l: "LoadFile (ve_config boot_verb_env) (ve_os boot_verb_env) (vb_fs (bt_verbs sample_boot)) (fl_config sample_flags) = Inr boot_config"
    using boot_load by (simp add: boot_verb_env_def sample_verb_env_def sample_boot_def sample_created_def sample_flags_def)
  have h: "hasPrerequisite (cfg_prereqs boot_config) PrerequisiteCASecrets"
    by (simp add: hasPrerequisite_def boot_config_def)
  from bootstrap_success [OF boot_fresh boot_apart boot_run] l h show ?thesis by auto
qed

lemma bootstrap_files_witness:
  "\<exists>path pem. map_of (files (vb_fs (bt_verbs boot_done))) = (map_of (files sample_installed_fs))(path \<mapsto> pem)"
proof -
  have l: "LoadFile (ve_config boot_verb_env) (ve_os boot_verb_env) (vb_fs (bt_verbs sample_boot)) (fl_config sample_flags) = Inr boot_config"
    and f: "vb_fs (bt_verbs sample_boot) = sample_installed_fs"
    using boot_load by (simp_all add: boot_verb_env_def sample_verb_env_def sample_boot_def sample_created_def sample_flags_def)
  have h: "hasPrerequisite (cfg_prereqs boot_config) PrerequisiteCASecrets"
    by (simp add: hasPrerequisite_def boot_config_def)
  from bootstrap_files [OF boot_fresh boot_apart boot_run] l h f show ?thesis by auto
qed

lemma ensureCA_never_remints_witness:
  "Minted sample_ensured \<and> (\<exists>e. (Inl (Plain ''not found''), ()) = (Inl e, ()))"
proof -
  have e: "ensureCA std_unstr std_string_map (\<lambda>e. True) sample_crypto (\<lambda>n w. (Inl (Plain ''not found''), w))
      \<lparr>ci_provider = ProviderCube, ci_cubeName = ''dev'', ci_domain = ''dev.test'', ci_now = sample_now, ci_rand = ()\<rparr> () =
      (Inr sample_ensured, ())"
    using sample_Ensure by (simp add: ensureCA_def readCAMaterial_def sample_mint_def)
  have "Minted sample_ensured" by (simp add: sample_ensured_def)
  with ensureCA_never_remints [OF std_string_map_ok e] show ?thesis by auto
qed

end
