(* ===== verification/CliRoot.thy ===== *)
theory CliRoot
  imports CliTree CliBootstrap
begin

section \<open>The program: from a command line to an exit code (\<open>internal/cli\<close>: root.go, exit.go; \<open>cmd/cube-idp\<close>)\<close>

text \<open>
  \<open>Execute\<close> hands the command line to cobra, runs the function of the command it matched, renders
  the error if there is one and returns the exit code. Cobra is a parameter with its documented
  behaviour as a law. The world is the state of every verb: the backend of the provisioner, the
  files, the lines on standard output, the API server with the log of calls to it, the machine the
  trust store commands run on, and the errors rendered on standard error.
\<close>

subsection \<open>Cobra\<close>

record invocation =
  iv_path :: "string list"
  iv_string :: "string \<Rightarrow> string"
  iv_duration :: "string \<Rightarrow> int"
  iv_changed :: "string \<Rightarrow> bool"
  iv_args :: "string list"

text \<open>
  Cobra refuses a line, answers it itself (help, usage of a group, shell completion), or matches it
  to a command.
\<close>

datatype cobra_result = Refused err | Answered string | Matched invocation

definition args_ok :: "args_rule \<Rightarrow> string list \<Rightarrow> bool" where
  "args_ok r args =
     (case r of DefaultArgs \<Rightarrow> True | NoArgs \<Rightarrow> args = [] | ExactArgs n \<Rightarrow> length args = n | MaximumNArgs n \<Rightarrow> length args \<le> n)"

definition flag_default_held :: "invocation \<Rightarrow> flag \<Rightarrow> bool" where
  "flag_default_held iv f \<longleftrightarrow> iv_changed iv (fg_name f) \<or>
     (case fg_default f of FString s \<Rightarrow> iv_string iv (fg_name f) = s | FDuration d \<Rightarrow> iv_duration iv (fg_name f) = d)"

text \<open>
  The documented behaviour: only a command that has a function is matched, with arguments its rule
  admits and every flag that was not given at its default; cobra's own errors are not coded.
\<close>

definition cobra_law :: "(command \<Rightarrow> string list \<Rightarrow> cobra_result) \<Rightarrow> command \<Rightarrow> bool" where
  "cobra_law cobra root \<longleftrightarrow> (\<forall>line.
     (\<forall>e. cobra root line = Refused e \<longrightarrow> \<not> is_coded e) \<and>
     (\<forall>iv. cobra root line = Matched iv \<longrightarrow> (\<exists>c fs. command_at [] root (iv_path iv) = Some (c, fs) \<and> cd_run c \<noteq> None \<and>
        args_ok (cd_args c) (iv_args iv) \<and> (\<forall>f \<in> set fs. flag_default_held iv f))))"

subsection \<open>The world and the environment\<close>

record ('w, 'a, 's) cli_world =
  cw_boot :: "('w, 'a) boot_state"
  cw_shell :: "'s shell"
  cw_errors :: "err list"

text \<open>\<open>ce_polls d\<close> is how many poll intervals a deadline of \<open>d\<close> seconds leaves room for.\<close>

record ('w, 'x, 'r, 'd, 'm, 'y, 'c, 'rnd, 'k, 'p, 'a, 's) cli_env =
  ce_verbs :: "('x, 'r, 'd, 'm, 'y) verb_env"
  ce_boot :: "('c, 'rnd, 'k, 'p, ('r, 'd, 'm, 'y) kube_client, 'a) boot_env"
  ce_pack :: "'c pack_cli"
  ce_provisioner :: "'w provisionerFactory"
  ce_engine :: "string \<Rightarrow> engine_driver res"
  ce_ledger :: ledger_yaml
  ce_goos :: string
  ce_runner :: "'s runner"
  ce_marshal :: "config \<Rightarrow> string res"
  ce_rand1 :: "nat \<Rightarrow> nat"
  ce_rand2 :: "nat \<Rightarrow> nat"
  ce_polls :: "int \<Rightarrow> nat"

text \<open>The trust group and the bootstrap verb read the same clock and the same home directory.\<close>

definition defaultTrustDeps ::
  "('w, 'x, 'r, 'd, 'm, 'y, 'c, 'rnd, 'k, 'p, 'a, 's) cli_env \<Rightarrow> 's trust_deps" where
  "defaultTrustDeps X = \<lparr>td_homeDir = be_home (ce_boot X), td_now = be_now (ce_boot X), td_goos = ce_goos X, td_run = ce_runner X\<rparr>"

text \<open>The pack verbs run on the same files, YAML library and pack library as the other verbs.\<close>

definition pack_cli_of ::
  "('w, 'x, 'r, 'd, 'm, 'y, 'c, 'rnd, 'k, 'p, 'a, 's) cli_env \<Rightarrow> 'c pack_cli" where
  "pack_cli_of X =
     (ce_pack X)\<lparr>pk_config := ve_config (ce_verbs X),
       pk_new := (pk_new (ce_pack X))\<lparr>ne_os := ve_os (ce_verbs X), ne_pack := ee_pack (be_edge (ce_boot X))\<rparr>\<rparr>"

definition verb_flags_of :: "invocation \<Rightarrow> verb_flags" where
  "verb_flags_of iv =
     \<lparr>fl_config = iv_string iv ''config'', fl_kubeconfig = iv_string iv ''kubeconfig'',
      fl_contextName = iv_string iv ''kubeconfig-context-name'', fl_name = iv_string iv ''name''\<rparr>"

definition pack_flags_of :: "invocation \<Rightarrow> pack_flags" where
  "pack_flags_of iv =
     \<lparr>pf_type = iv_string iv ''type'', pf_typeChanged = iv_changed iv ''type'', pf_name = iv_string iv ''name'',
      pf_from = iv_string iv ''from'', pf_fromChart = iv_string iv ''from-chart'', pf_id = iv_string iv ''id'',
      pf_config = iv_string iv ''config'', pf_configChanged = iv_changed iv ''config''\<rparr>"

subsection \<open>What each kind of verb works on\<close>

definition on_boot ::
  "(('w, 'a) boot_state \<Rightarrow> err option \<times> ('w, 'a) boot_state) \<Rightarrow> ('w, 'a, 's) cli_world \<Rightarrow> err option \<times> ('w, 'a, 's) cli_world" where
  "on_boot f w = (case f (cw_boot w) of (r, b) \<Rightarrow> (r, w\<lparr>cw_boot := b\<rparr>))"

definition on_verbs ::
  "('w verb_state \<Rightarrow> err option \<times> 'w verb_state) \<Rightarrow> ('w, 'a, 's) cli_world \<Rightarrow> err option \<times> ('w, 'a, 's) cli_world" where
  "on_verbs f = on_boot (\<lambda>b. case f (bt_verbs b) of (r, v) \<Rightarrow> (r, b\<lparr>bt_verbs := v\<rparr>))"

definition on_trust ::
  "('s trust_state \<Rightarrow> err option \<times> 's trust_state) \<Rightarrow> ('w, 'a, 's) cli_world \<Rightarrow> err option \<times> ('w, 'a, 's) cli_world" where
  "on_trust f w =
     (let v = bt_verbs (cw_boot w)
      in case f \<lparr>ts_fs = vb_fs v, ts_sh = cw_shell w, ts_out = vb_out v\<rparr> of
           (r, t) \<Rightarrow> (r, w\<lparr>cw_boot := (cw_boot w)\<lparr>bt_verbs := v\<lparr>vb_fs := ts_fs t, vb_out := ts_out t\<rparr>\<rparr>, cw_shell := ts_sh t\<rparr>))"

text \<open>A pack verb reads the files, may write them, and prints.\<close>

definition on_files ::
  "(fsys \<Rightarrow> (err option \<times> string list) \<times> fsys) \<Rightarrow> ('w, 'a, 's) cli_world \<Rightarrow> err option \<times> ('w, 'a, 's) cli_world" where
  "on_files f = on_verbs (\<lambda>v. case f (vb_fs v) of ((r, ls), fs) \<Rightarrow> (r, v\<lparr>vb_fs := fs, vb_out := vb_out v @ ls\<rparr>))"

definition printed :: "string list res \<Rightarrow> err option \<times> string list" where
  "printed r = (case r of Inl e \<Rightarrow> (Some e, []) | Inr ls \<Rightarrow> (None, ls))"

subsection \<open>Running a command\<close>

text \<open>\<open>None\<close> is the panic of indexing an argument that is not there.\<close>

definition perform ::
  "('w, 'x, 'r, 'd, 'm, 'y, 'c, 'rnd, 'k, 'p, 'a, 's) cli_env \<Rightarrow> action \<Rightarrow> invocation \<Rightarrow> ('w, 'a, 's) cli_world \<Rightarrow>
   (err option \<times> ('w, 'a, 's) cli_world) option" where
  "perform X a iv w =
     (let V = ce_verbs X; Y = ve_config V; E = ve_os V; F = ce_provisioner X; fl = verb_flags_of iv;
          K = pack_cli_of X; pf = pack_flags_of iv; C = be_crypto (ce_boot X); L = ce_ledger X; deps = defaultTrustDeps X;
          first = (\<lambda>f. case iv_args iv of [] \<Rightarrow> None | x # xs \<Rightarrow> Some (f x))
      in case a of
        InitAction \<Rightarrow> Some (on_verbs (runInit Y E (ce_rand1 X) (ce_rand2 X) fl) w)
      | CreateAction \<Rightarrow> Some (on_verbs (runCreate V F fl) w)
      | DeleteAction \<Rightarrow> Some (on_verbs (runDelete V F fl) w)
      | StatusAction \<Rightarrow> Some (on_verbs (runStatus V F fl) w)
      | BootstrapAction \<Rightarrow>
          Some (on_boot (runBootstrap V (ce_boot X) F (ce_engine X) fl (ce_polls X (iv_duration iv ''timeout''))) w)
      | ConfigValidateAction \<Rightarrow> Some (on_verbs (runConfigValidate Y E F fl) w)
      | ConfigShowAction \<Rightarrow> Some (on_verbs (runConfigShow (ce_marshal X) Y E fl) w)
      | PackRenderAction \<Rightarrow>
          Some (on_files (\<lambda>fs. (runPackRender K pf (case iv_args iv of [] \<Rightarrow> None | x # xs \<Rightarrow> Some x) fs, fs)) w)
      | PackValidateAction \<Rightarrow>
          first (\<lambda>ref. on_files (\<lambda>fs. (printed (bindR (runPackValidate K ref fs) (\<lambda>l. Inr [l])), fs)) w)
      | PackNewAction \<Rightarrow> first (\<lambda>dir. on_files (\<lambda>fs. case runPackNew K pf dir fs of (r, fs') \<Rightarrow> (printed r, fs')) w)
      | TrustListAction \<Rightarrow> Some (on_trust (runTrustList L E deps) w)
      | TrustInstallAction \<Rightarrow> first (\<lambda>cube. on_trust (runTrustInstall C L E deps cube) w)
      | TrustRemoveAction \<Rightarrow> first (\<lambda>cube. on_trust (runTrustRemove C L E deps cube) w))"

text \<open>\<open>root.ExecuteContext\<close>: what cobra does with the line, then the function of the command.\<close>

definition ExecuteContext ::
  "('w, 'x, 'r, 'd, 'm, 'y, 'c, 'rnd, 'k, 'p, 'a, 's) cli_env \<Rightarrow> (command \<Rightarrow> string list \<Rightarrow> cobra_result) \<Rightarrow> command \<Rightarrow>
   string list \<Rightarrow> ('w, 'a, 's) cli_world \<Rightarrow> (err option \<times> ('w, 'a, 's) cli_world) option" where
  "ExecuteContext X cobra root args w =
     (case cobra root args of
        Refused e \<Rightarrow> Some (Some e, w)
      | Answered out \<Rightarrow> Some (on_verbs (\<lambda>v. (None, println out v)) w)
      | Matched iv \<Rightarrow>
          (case command_at [] root (iv_path iv) of
             None \<Rightarrow> None
           | Some (c, fs) \<Rightarrow> (case cd_run c of None \<Rightarrow> None | Some a \<Rightarrow> perform X a iv w)))"

definition execute_root ::
  "('w, 'x, 'r, 'd, 'm, 'y, 'c, 'rnd, 'k, 'p, 'a, 's) cli_env \<Rightarrow> (command \<Rightarrow> string list \<Rightarrow> cobra_result) \<Rightarrow> command \<Rightarrow>
   string list \<Rightarrow> ('w, 'a, 's) cli_world \<Rightarrow> (int \<times> ('w, 'a, 's) cli_world) option" where
  "execute_root X cobra root args w =
     (case ExecuteContext X cobra root args w of
        None \<Rightarrow> None
      | Some (Some e, w') \<Rightarrow> Some (exit_code (Some e), w'\<lparr>cw_errors := cw_errors w' @ [e]\<rparr>)
      | Some (None, w') \<Rightarrow> Some (ExitSuccess, w'))"

text \<open>The production composition: the kind driver, the Flux driver, the program's own tree.\<close>

definition production ::
  "('h, 'kd) kind_lib \<Rightarrow> (('h, 'kd) kind_state, 'x, 'r, 'd, 'm, 'y, 'c, 'rnd, 'k, 'p, 'a, 's) cli_env \<Rightarrow>
   (('h, 'kd) kind_state, 'x, 'r, 'd, 'm, 'y, 'c, 'rnd, 'k, 'p, 'a, 's) cli_env" where
  "production D X =
     X\<lparr>ce_provisioner := defaultProvisioner D,
       ce_engine := defaultEngine (ee_unstr (be_edge (ce_boot X))) (ee_status (be_edge (ce_boot X)))\<rparr>"

definition Execute ::
  "('h, 'kd) kind_lib \<Rightarrow> (('h, 'kd) kind_state, 'x, 'r, 'd, 'm, 'y, 'c, 'rnd, 'k, 'p, 'a, 's) cli_env \<Rightarrow>
   (command \<Rightarrow> string list \<Rightarrow> cobra_result) \<Rightarrow> string list \<Rightarrow> (('h, 'kd) kind_state, 'a, 's) cli_world \<Rightarrow>
   (int \<times> (('h, 'kd) kind_state, 'a, 's) cli_world) option" where
  "Execute D X cobra args w = execute_root (production D X) cobra newRootCmd args w"

subsection \<open>How a run ends\<close>

definition reported :: "err option \<Rightarrow> ('w, 'a, 's) cli_world \<Rightarrow> ('w, 'a, 's) cli_world" where
  "reported r w = (case r of None \<Rightarrow> w | Some e \<Rightarrow> w\<lparr>cw_errors := cw_errors w @ [e]\<rparr>)"

lemma exit_code_None: "exit_code None = ExitSuccess"
  by (simp add: exit_code_def)

lemma execute_root_reported:
  "execute_root X cobra root args w =
     (case ExecuteContext X cobra root args w of None \<Rightarrow> None | Some (r, w') \<Rightarrow> Some (exit_code r, reported r w'))"
  by (auto simp: execute_root_def reported_def exit_code_None split: option.split)

lemma newRootCmd_args:
  assumes "command_at [] newRootCmd p = Some (c, fs)" "cd_run c = Some a"
    "a \<in> {PackValidateAction, PackNewAction, TrustInstallAction, TrustRemoveAction}"
  shows "cd_args c = ExactArgs 1"
proof -
  from assms(1,2) have "(p, Some a, cd_args c) \<in> set (map (\<lambda>(p, c). (p, cd_run c, cd_args c)) (command_table newRootCmd))"
    unfolding newRootCmd_at [symmetric] by blast
  with assms(3) show ?thesis unfolding newRootCmd_table by auto
qed

lemma perform_total:
  "a \<in> {PackValidateAction, PackNewAction, TrustInstallAction, TrustRemoveAction} \<Longrightarrow> args_ok (ExactArgs 1) (iv_args iv)
     \<Longrightarrow> \<exists>r w'. perform X a iv w = Some (r, w')"
  "a \<notin> {PackValidateAction, PackNewAction, TrustInstallAction, TrustRemoveAction} \<Longrightarrow> \<exists>r w'. perform X a iv w = Some (r, w')"
  by (cases a; auto simp: perform_def Let_def args_ok_def length_Suc_conv intro: prod.exhaust)+

lemma Execute_cases:
  assumes "cobra_law cobra newRootCmd"
  obtains (refused) e where "cobra newRootCmd args = Refused e" "\<not> is_coded e"
      "Execute D X cobra args w = Some (1, reported (Some e) w)"
  | (answered) out where "cobra newRootCmd args = Answered out"
      "Execute D X cobra args w = Some (0, snd (on_verbs (\<lambda>v. (None, println out v)) w))"
  | (ran) iv c fs a r w1 where "cobra newRootCmd args = Matched iv" "command_at [] newRootCmd (iv_path iv) = Some (c, fs)"
      "cd_run c = Some a" "perform (production D X) a iv w = Some (r, w1)"
      "Execute D X cobra args w = Some (exit_code r, reported r w1)"
proof (cases "cobra newRootCmd args")
  case (Refused e)
  with assms have "\<not> is_coded e" by (simp add: cobra_law_def)
  then have "as_coded e = None" by (cases "as_coded e") auto
  with Refused show thesis
    by (intro refused) (simp_all add: Execute_def execute_root_reported ExecuteContext_def exit_code_def ExitError_def)
next
  case (Answered out)
  have "on_verbs (\<lambda>v. (None, println out v)) w = (None, snd (on_verbs (\<lambda>v. (None, println out v)) w))"
    by (simp add: on_verbs_def on_boot_def)
  then have "ExecuteContext (production D X) cobra newRootCmd args w = Some (None, snd (on_verbs (\<lambda>v. (None, println out v)) w))"
    using Answered by (simp add: ExecuteContext_def)
  with Answered show thesis
    by (intro answered) (simp_all add: Execute_def execute_root_reported exit_code_None ExitSuccess_def reported_def)
next
  case (Matched iv)
  with assms obtain c fs a where c: "command_at [] newRootCmd (iv_path iv) = Some (c, fs)" "cd_run c = Some a"
    "args_ok (cd_args c) (iv_args iv)" unfolding cobra_law_def by blast
  obtain r w1 where p: "perform (production D X) a iv w = Some (r, w1)"
  proof (cases "a \<in> {PackValidateAction, PackNewAction, TrustInstallAction, TrustRemoveAction}")
    case True
    from perform_total(1) [OF True] newRootCmd_args [OF c(1,2) True] c(3) that show thesis by metis
  next
    case False
    from perform_total(2) [OF False] that show thesis by blast
  qed
  with Matched c show thesis
    by (intro ran) (simp_all add: Execute_def execute_root_reported ExecuteContext_def)
qed

lemma on_boot_errors [simp]: "cw_errors (snd (on_boot f w)) = cw_errors w"
  by (simp add: on_boot_def split: prod.split)

lemma on_verbs_errors [simp]: "cw_errors (snd (on_verbs f w)) = cw_errors w"
  by (simp add: on_verbs_def)

lemma on_trust_errors [simp]: "cw_errors (snd (on_trust f w)) = cw_errors w"
  by (simp add: on_trust_def Let_def split: prod.split)

lemma on_files_errors [simp]: "cw_errors (snd (on_files f w)) = cw_errors w"
  by (simp add: on_files_def)

lemma perform_errors: "perform X a iv w = Some (r, w1) \<Longrightarrow> cw_errors w1 = cw_errors w"
proof -
  assume p: "perform X a iv w = Some (r, w1)"
  have q: "cw_errors w1 = cw_errors w" if "f w = (r, w1)" "cw_errors (snd (f w)) = cw_errors w" for f
    using that by simp
  from p show ?thesis
    by (cases a) (auto simp: perform_def Let_def split: list.splits dest!: arg_cong [where f = snd])
qed

text \<open>
  C9. The program always returns: no command line makes it index an argument that is not there. It
  exits with 0, 1 or 2; with 0 exactly when it rendered no error, and otherwise it rendered one
  error, whose code decides between 2 (\<open>CUBE-CFG-\<dots>\<close>) and 1. A line cobra refuses exits with 1 and
  leaves the world as it was.
\<close>

theorem Execute_exit:
  assumes "cobra_law cobra newRootCmd"
  shows "\<exists>c w'. Execute D X cobra args w = Some (c, w') \<and> c \<in> {0, 1, 2} \<and>
    (c = 0 \<longleftrightarrow> cw_errors w' = cw_errors w) \<and>
    (c \<noteq> 0 \<longrightarrow> (\<exists>e. cw_errors w' = cw_errors w @ [e] \<and>
       (c = 2 \<longleftrightarrow> (\<exists>n. CHR ''-'' \<notin> set n \<and> err_code e = Some (''CUBE-CFG-'' @ n))))) \<and>
    (\<forall>e. cobra newRootCmd args = Refused e \<longrightarrow> c = 1 \<and> w' = w\<lparr>cw_errors := cw_errors w @ [e]\<rparr>)"
  using assms
proof (cases rule: Execute_cases [where args = args and D = D and X = X and w = w])
  case (refused e)
  then show ?thesis by (auto simp: reported_def err_code_def)
next
  case (answered out)
  then show ?thesis by (auto simp: on_verbs_errors)
next
  case (ran iv c fs a r w1)
  from perform_errors [OF ran(4)] have e: "cw_errors w1 = cw_errors w" .
  show ?thesis
  proof (cases r)
    case None
    with ran e show ?thesis by (simp add: reported_def exit_code_None ExitSuccess_def)
  next
    case (Some x)
    from exit_code_classifies [of x]
    have "exit_code (Some x) = (if \<exists>n. CHR ''-'' \<notin> set n \<and> err_code x = Some (''CUBE-CFG-'' @ n) then 2 else 1)" by blast
    with ran e Some show ?thesis by (auto simp: reported_def)
  qed
qed

subsection \<open>What a verb may touch\<close>

lemma runInit_backend: "vb_backend (snd (runInit Y E r1 r2 fl st)) = vb_backend st"
proof -
  obtain s st1 where s: "scaffoldIfAbsent Y E r1 r2 (fl_config fl) (fl_name fl) st = (s, st1)" by fastforce
  from scaffoldIfAbsent_backend [OF s] s show ?thesis
    by (auto simp: runInit_def println_def split: sum.splits)
qed

lemma runInit_probes: "vb_probes (snd (runInit Y E r1 r2 fl st)) = vb_probes st"
  by (auto simp: runInit_def scaffoldIfAbsent_def Let_def println_def split: if_splits prod.splits sum.splits option.splits)

lemma runCreate_probes: "vb_probes (snd (runCreate V (defaultProvisioner D) fl st)) = vb_probes st"
  by (auto simp: runCreate_def Let_def println_def split: sum.splits prod.splits option.splits dest!: open_cube_state)

lemma runDelete_probes: "vb_probes (snd (runDelete V (defaultProvisioner D) fl st)) = vb_probes st"
  by (auto simp: runDelete_def Let_def println_def split: sum.splits prod.splits option.splits dest!: open_cube_state)

lemma runConfig_probes:
  "vb_probes (snd (runConfigValidate Y E (defaultProvisioner D) fl st)) = vb_probes st"
  "vb_probes (snd (runConfigShow M Y E fl st)) = vb_probes st"
  by (auto simp: runConfigValidate_def validateProviderSpec_def defaultProvisioner_def kind_New_def runConfigShow_def println_def
      split: sum.splits option.splits prod.splits)

lemma bootstrapApplier_probes: "bootstrapApplier V B F fl cfg c st = (r, st') \<Longrightarrow> vb_probes st' = vb_probes st"
  by (auto simp: bootstrapApplier_def split: sum.splits prod.splits)

lemma finishBootstrap_probes:
  "vb_probes (bt_verbs (snd (finishBootstrap V B s out st))) = vb_probes (bt_verbs st)"
  by (auto simp: finishBootstrap_def renderBootstrapResult_def println_def Let_def split: prod.splits option.splits sum.splits)

lemma runBootstrap_probes: "vb_probes (bt_verbs (snd (runBootstrap V B F eng fl t st))) = vb_probes (bt_verbs st)"
  by (auto simp: runBootstrap_def Let_def finishBootstrap_probes split: sum.splits prod.splits option.splits
      dest!: bootstrapApplier_probes runInstall_verbs)

lemmas verb_probes = runInit_probes runCreate_probes runDelete_probes runConfig_probes runBootstrap_probes

lemma runStatus_state:
  "vb_fs (snd (runStatus V (defaultProvisioner D) fl st)) = vb_fs st \<and>
   snd (vb_backend (snd (runStatus V (defaultProvisioner D) fl st))) = snd (vb_backend st)"
proof (cases "open_cube V (defaultProvisioner D) fl st")
  case (Inl e)
  then show ?thesis by (simp add: runStatus_def)
next
  case (Inr x)
  then obtain cfg c d st1 where o: "open_cube V (defaultProvisioner D) fl st = Inr (cfg, c, d, st1)" by (cases x) auto
  from open_cube_state [OF o] o show ?thesis
    by (auto simp: runStatus_def Let_def println_def split: prod.splits sum.splits dest: Status_reads)
qed

lemma runConfigValidate_state:
  "vb_fs (snd (runConfigValidate Y E (defaultProvisioner D) fl st)) = vb_fs st \<and>
   snd (vb_backend (snd (runConfigValidate Y E (defaultProvisioner D) fl st))) = snd (vb_backend st)"
  by (auto simp: runConfigValidate_def validateProviderSpec_def defaultProvisioner_def kind_New_def println_def
      split: sum.splits option.splits prod.splits)

lemma runConfigShow_state:
  "vb_fs (snd (runConfigShow M Y E fl st)) = vb_fs st \<and> vb_backend (snd (runConfigShow M Y E fl st)) = vb_backend st"
  by (auto simp: runConfigShow_def println_def split: sum.splits)

lemma Status_clusters: "Status Y V E (kind_provisioner D) opts (w, fs) = (r, (a, b), fs') \<Longrightarrow> b = snd w"
  by (auto dest: Status_reads)

lemma bootstrapApplier_backend:
  "bootstrapApplier V B (defaultProvisioner D) fl cfg c st = (r, st') \<Longrightarrow> snd (vb_backend st') = snd (vb_backend st)"
  by (auto simp: bootstrapApplier_def defaultProvisioner_def kind_New_def split: sum.splits prod.splits if_splits
      dest!: Status_clusters)

lemma finishBootstrap_backend:
  "vb_backend (bt_verbs (snd (finishBootstrap V B s out st))) = vb_backend (bt_verbs st)"
  by (auto simp: finishBootstrap_def renderBootstrapResult_def println_def Let_def split: prod.splits option.splits sum.splits)

lemma runBootstrap_backend:
  "snd (vb_backend (bt_verbs (snd (runBootstrap V B (defaultProvisioner D) eng fl t st)))) = snd (vb_backend (bt_verbs st))"
  by (auto simp: runBootstrap_def Let_def finishBootstrap_backend split: sum.splits prod.splits option.splits
      dest!: bootstrapApplier_backend runInstall_verbs)

lemma runTrustList_state:
  "ts_fs (snd (runTrustList L E deps t)) = ts_fs t \<and> ts_sh (snd (runTrustList L E deps t)) = ts_sh t"
  by (auto simp: runTrustList_def say_def Let_def split: sum.splits)

text \<open>The parts of the world a verb may change; standard output and standard error aside.\<close>

datatype world_part = Files | Clusters | Api | Stores | Probes

definition may_change :: "action \<Rightarrow> world_part set" where
  "may_change a =
     (case a of
        InitAction \<Rightarrow> {Files}
      | CreateAction \<Rightarrow> {Files, Clusters}
      | DeleteAction \<Rightarrow> {Files, Clusters}
      | StatusAction \<Rightarrow> {Probes}
      | BootstrapAction \<Rightarrow> {Files, Api}
      | PackNewAction \<Rightarrow> {Files}
      | TrustInstallAction \<Rightarrow> {Files, Stores}
      | TrustRemoveAction \<Rightarrow> {Files, Stores}
      | _ \<Rightarrow> {})"

fun part_kept :: "world_part \<Rightarrow> (('h, 'kd) kind_state, 'a, 's) cli_world \<Rightarrow> (('h, 'kd) kind_state, 'a, 's) cli_world \<Rightarrow> bool" where
  "part_kept Files w w' \<longleftrightarrow> vb_fs (bt_verbs (cw_boot w')) = vb_fs (bt_verbs (cw_boot w))"
| "part_kept Clusters w w' \<longleftrightarrow> snd (vb_backend (bt_verbs (cw_boot w'))) = snd (vb_backend (bt_verbs (cw_boot w)))"
| "part_kept Api w w' \<longleftrightarrow> bt_api (cw_boot w') = bt_api (cw_boot w) \<and> bt_log (cw_boot w') = bt_log (cw_boot w)"
| "part_kept Stores w w' \<longleftrightarrow> cw_shell w' = cw_shell w"
| "part_kept Probes w w' \<longleftrightarrow> vb_probes (bt_verbs (cw_boot w')) = vb_probes (bt_verbs (cw_boot w))"

lemma kept_refl [simp]: "part_kept p w w"
  by (cases p) simp_all

lemma kept_reported [simp]: "part_kept p w (reported r w') = part_kept p w w'"
  by (cases p) (simp_all add: reported_def split: option.split)

lemma kept_on_boot:
  "part_kept Stores w (snd (on_boot f w))"
  "snd (vb_backend (bt_verbs (snd (f (cw_boot w))))) = snd (vb_backend (bt_verbs (cw_boot w))) \<Longrightarrow> part_kept Clusters w (snd (on_boot f w))"
  "vb_probes (bt_verbs (snd (f (cw_boot w)))) = vb_probes (bt_verbs (cw_boot w)) \<Longrightarrow> part_kept Probes w (snd (on_boot f w))"
  by (auto simp: on_boot_def split: prod.splits)

lemma kept_on_verbs:
  "part_kept Stores w (snd (on_verbs f w))" "part_kept Api w (snd (on_verbs f w))"
  "vb_fs (snd (f (bt_verbs (cw_boot w)))) = vb_fs (bt_verbs (cw_boot w)) \<Longrightarrow> part_kept Files w (snd (on_verbs f w))"
  "snd (vb_backend (snd (f (bt_verbs (cw_boot w))))) = snd (vb_backend (bt_verbs (cw_boot w))) \<Longrightarrow>
     part_kept Clusters w (snd (on_verbs f w))"
  "vb_probes (snd (f (bt_verbs (cw_boot w)))) = vb_probes (bt_verbs (cw_boot w)) \<Longrightarrow> part_kept Probes w (snd (on_verbs f w))"
  by (auto simp: on_verbs_def on_boot_def split: prod.splits)

lemma kept_on_files:
  "p \<noteq> Files \<Longrightarrow> part_kept p w (snd (on_files f w))"
  "snd (f (vb_fs (bt_verbs (cw_boot w)))) = vb_fs (bt_verbs (cw_boot w)) \<Longrightarrow> part_kept Files w (snd (on_files f w))"
  by (cases p; auto simp: on_files_def on_verbs_def on_boot_def split: prod.splits)+

lemma kept_on_trust:
  "part_kept Clusters w (snd (on_trust f w))" "part_kept Api w (snd (on_trust f w))" "part_kept Probes w (snd (on_trust f w))"
  "(\<And>t. ts_fs (snd (f t)) = ts_fs t \<and> ts_sh (snd (f t)) = ts_sh t) \<Longrightarrow> part_kept Files w (snd (on_trust f w)) \<and> part_kept Stores w (snd (on_trust f w))"
proof -
  show "part_kept Clusters w (snd (on_trust f w))" "part_kept Api w (snd (on_trust f w))" "part_kept Probes w (snd (on_trust f w))"
    by (auto simp: on_trust_def Let_def split: prod.splits)
  let ?t = "\<lparr>ts_fs = vb_fs (bt_verbs (cw_boot w)), ts_sh = cw_shell w, ts_out = vb_out (bt_verbs (cw_boot w))\<rparr>"
  assume "\<And>t. ts_fs (snd (f t)) = ts_fs t \<and> ts_sh (snd (f t)) = ts_sh t"
  from this [of ?t] show "part_kept Files w (snd (on_trust f w)) \<and> part_kept Stores w (snd (on_trust f w))"
    by (auto simp: on_trust_def Let_def split: prod.splits)
qed

declare part_kept.simps [simp del]

lemmas kept = kept_on_boot kept_on_verbs kept_on_files kept_on_trust

lemma perform_kept:
  assumes "perform (production D X) a iv w = Some out" and "p \<notin> may_change a"
  shows "part_kept p w (snd out)"
proof (cases p)
  case Files
  with assms show ?thesis
    by (cases a) (auto simp: perform_def Let_def production_def may_change_def runStatus_state runConfigValidate_state
        runConfigShow_state runTrustList_state kept split: list.splits)
next
  case Clusters
  with assms show ?thesis
    by (cases a) (auto simp: perform_def Let_def production_def may_change_def runStatus_state runConfigValidate_state
        runConfigShow_state runInit_backend runBootstrap_backend kept split: list.splits)
next
  case Api
  with assms show ?thesis
    by (cases a) (auto simp: perform_def Let_def may_change_def kept split: list.splits)
next
  case Stores
  with assms show ?thesis
    by (cases a) (auto simp: perform_def Let_def may_change_def runTrustList_state kept split: list.splits)
next
  case Probes
  with assms show ?thesis
    by (cases a) (auto simp: perform_def Let_def production_def may_change_def verb_probes kept split: list.splits)
qed

text \<open>
  C7. Whatever changed names the verb that ran. Nothing but a \<open>bootstrap\<close> makes a call to the API
  server that reads or writes an object, and the only other request the program sends there is the
  readiness probe of \<open>status\<close>, which nothing but a \<open>status\<close> sends; nothing but \<open>trust install\<close> and
  \<open>trust remove\<close> runs a trust store command, nothing but \<open>create\<close> and \<open>delete\<close> changes a cluster, and
  no file is written by the reporting verbs (\<open>status\<close>, \<open>config\<close>, \<open>pack render\<close>, \<open>pack validate\<close>,
  \<open>trust list\<close>), by a refused line or by a help page; on any outcome.
\<close>

theorem Execute_frame:
  assumes "cobra_law cobra newRootCmd" and "Execute D X cobra args w = Some (c, w')" and "\<not> part_kept p w w'"
  shows "\<exists>iv cmd fs a. cobra newRootCmd args = Matched iv \<and> command_at [] newRootCmd (iv_path iv) = Some (cmd, fs) \<and>
    cd_run cmd = Some a \<and> p \<in> may_change a"
  using assms(1)
proof (cases rule: Execute_cases [where args = args and D = D and X = X and w = w])
  case (refused e)
  with assms(2,3) show ?thesis by auto
next
  case (answered out)
  have "part_kept p w (snd (on_verbs (\<lambda>v. (None, println out v)) w))"
    by (cases p) (simp_all add: kept println_def)
  with answered assms(2,3) show ?thesis by auto
next
  case (ran iv cmd fs a r w1)
  with assms(2,3) have "\<not> part_kept p w w1" by auto
  with perform_kept [OF ran(4), of p] have "p \<in> may_change a" by auto
  with ran(1-3) show ?thesis by blast
qed

subsection \<open>A document that does not load\<close>

text \<open>The command lines whose verb starts from the Config document.\<close>

definition reads_document :: "invocation \<Rightarrow> action \<Rightarrow> bool" where
  "reads_document iv a \<longleftrightarrow>
     a \<in> {InitAction, CreateAction, DeleteAction, StatusAction, BootstrapAction, ConfigValidateAction, ConfigShowAction} \<or>
     a = PackRenderAction \<and> iv_args iv = [] \<and> iv_changed iv ''config'' \<and> iv_string iv ''id'' \<noteq> ''''"

lemma runInit_bad:
  assumes "LoadFile Y E (vb_fs st) (fl_config fl) = Inl e" and "exists_path (vb_fs st) (fl_config fl)"
  shows "runInit Y E r1 r2 fl st = (Some e, st)"
  using assms by (simp add: runInit_def scaffoldIfAbsent_def os_stat_def os_err_def ErrNotExist_def)

lemma on_verbs_stopped: "f (bt_verbs (cw_boot w)) = (r, bt_verbs (cw_boot w)) \<Longrightarrow> on_verbs f w = (r, w)"
  by (simp add: on_verbs_def on_boot_def)

lemma on_boot_stopped: "f (cw_boot w) = (r, cw_boot w) \<Longrightarrow> on_boot f w = (r, w)"
  by (simp add: on_boot_def)

lemma on_files_stopped:
  "f (vb_fs (bt_verbs (cw_boot w))) = ((Some e, []), vb_fs (bt_verbs (cw_boot w))) \<Longrightarrow> on_files f w = (Some e, w)"
  by (simp add: on_files_def on_verbs_def on_boot_def)

text \<open>
  The exit code of a document that does not load is 2, except where the file was read and its type
  header does not parse: the loader adds no code to the YAML library's error, which has none.
\<close>

lemma LoadFile_exit:
  assumes "LoadFile Y E fs path = Inl e" and "\<And>raw e'. y_type_header Y raw = Inl e' \<Longrightarrow> \<not> is_coded e'"
  shows "exit_code (Some e) = (if \<exists>raw e'. read_file E path fs = Inr raw \<and> y_type_header Y raw = Inl e' then 1 else 2)"
proof (cases "\<exists>raw e'. read_file E path fs = Inr raw \<and> y_type_header Y raw = Inl e'")
  case True
  then obtain raw e' where h: "read_file E path fs = Inr raw" "y_type_header Y raw = Inl e'" by blast
  with assms(1) have e: "e = Wrapf ''determine apiVersion/kind'' e'" by (simp add: LoadFile_def decode_def)
  from assms(2) [OF h(2)] have "as_coded e' = None" by (cases "as_coded e'") auto
  with True e show ?thesis by (simp add: exit_code_def ExitError_def)
next
  case False
  with assms(1) LoadFile_Inl [OF assms(1)] show ?thesis
    by (auto simp: ExitConfig_def LoadFile_def decode_def newUnreadableConfigError_def newMissingGVKError_def
        newUnknownFieldError_def newInvalidConfigError_def newUnsupportedAPIVersionError_def wrap_def exit_code_def tag_def Let_def
        split: sum.splits if_splits)
qed

text \<open>
  C8. A document that does not load stops every verb that starts from it before it does anything:
  the world is what it was but for the one error rendered, nothing printed, and the exit code is 2,
  except for a document that was read and whose type header does not parse, which exits with 1: the
  YAML library's errors carry no code, and the loader adds none there.
\<close>

theorem Execute_bad_document:
  assumes "cobra newRootCmd args = Matched iv" and "command_at [] newRootCmd (iv_path iv) = Some (cmd, fs)"
    and "cd_run cmd = Some a" and "reads_document iv a"
    and "LoadFile (ve_config (ce_verbs X)) (ve_os (ce_verbs X)) (vb_fs (bt_verbs (cw_boot w))) (iv_string iv ''config'') = Inl e"
    and "a = InitAction \<longrightarrow> exists_path (vb_fs (bt_verbs (cw_boot w))) (iv_string iv ''config'')"
    and Y: "\<And>raw e. y_type_header (ve_config (ce_verbs X)) raw = Inl e \<Longrightarrow> \<not> is_coded e"
  shows "Execute D X cobra args w = Some
    (if \<exists>raw e'. read_file (ve_os (ce_verbs X)) (iv_string iv ''config'') (vb_fs (bt_verbs (cw_boot w))) = Inr raw \<and>
         y_type_header (ve_config (ce_verbs X)) raw = Inl e' then 1 else 2,
     w\<lparr>cw_errors := cw_errors w @ [e]\<rparr>)"
proof -
  let ?X = "production D X"
  have env: "ce_verbs ?X = ce_verbs X" "ce_boot ?X = ce_boot X" "pk_config (pack_cli_of ?X) = ve_config (ce_verbs X)"
    "ne_os (pk_new (pack_cli_of ?X)) = ve_os (ce_verbs X)" "pf_config (pack_flags_of iv) = iv_string iv ''config''"
    "fl_config (verb_flags_of iv) = iv_string iv ''config''" "pf_id (pack_flags_of iv) = iv_string iv ''id''"
    "pf_configChanged (pack_flags_of iv) = iv_changed iv ''config''"
    by (simp_all add: production_def pack_cli_of_def pack_flags_of_def verb_flags_of_def)
  have "perform ?X a iv w = Some (Some e, w)"
    using assms(4-6)
    by (cases a) (auto simp: perform_def Let_def env reads_document_def open_cube_def runCreate_def runDelete_def
        runStatus_def runBootstrap_def composeBootstrap_def runConfigValidate_def runConfigShow_def runInit_bad
        runPackRender_def renderTarget_def renderConfigured_def
        intro!: on_verbs_stopped on_boot_stopped on_files_stopped)
  with assms(1-3) have "Execute D X cobra args w = Some (exit_code (Some e), w\<lparr>cw_errors := cw_errors w @ [e]\<rparr>)"
    by (simp add: Execute_def execute_root_reported ExecuteContext_def reported_def)
  then show ?thesis by (simp only: LoadFile_exit [OF assms(5) Y])
qed

subsection \<open>A parser of plain command lines\<close>

text \<open>
  The command line without flags: names as long as they lead somewhere, then the arguments. It obeys
  the law, for any tree that is well-formed.
\<close>

fun follow :: "command \<Rightarrow> string list \<Rightarrow> string list \<times> string list" where
  "follow c [] = ([], [])"
| "follow c (x # xs) =
     (case find (\<lambda>s. cd_name s = x) (cd_subs c) of
        None \<Rightarrow> ([], x # xs)
      | Some s \<Rightarrow> (case follow s xs of (p, rest) \<Rightarrow> (x # p, rest)))"

definition default_invocation :: "string list \<Rightarrow> flag list \<Rightarrow> string list \<Rightarrow> invocation" where
  "default_invocation p fs args =
     \<lparr>iv_path = p,
      iv_string = (\<lambda>n. case find (\<lambda>f. fg_name f = n) fs of
         Some f \<Rightarrow> (case fg_default f of FString s \<Rightarrow> s | FDuration d \<Rightarrow> '''') | None \<Rightarrow> ''''),
      iv_duration = (\<lambda>n. case find (\<lambda>f. fg_name f = n) fs of
         Some f \<Rightarrow> (case fg_default f of FString s \<Rightarrow> 0 | FDuration d \<Rightarrow> d) | None \<Rightarrow> 0),
      iv_changed = (\<lambda>n. False), iv_args = args\<rparr>"

definition plain_cobra :: "command \<Rightarrow> string list \<Rightarrow> cobra_result" where
  "plain_cobra root line =
     (case follow root line of (p, args) \<Rightarrow>
        (case command_at [] root p of
           None \<Rightarrow> Refused (Plain ''unknown command'')
         | Some (c, fs) \<Rightarrow>
             if cd_run c = None then (if args = [] then Answered (cd_help c) else Refused (Plain ''unknown command''))
             else if args_ok (cd_args c) args then Matched (default_invocation p fs args)
             else Refused (Plain ''wrong number of arguments'')))"

lemma find_flag: "distinct (map fg_name fs) \<Longrightarrow> f \<in> set fs \<Longrightarrow> find (\<lambda>g. fg_name g = fg_name f) fs = Some f"
  by (induction fs) auto

lemma plain_cobra_law:
  assumes "tree_ok [] root"
  shows "cobra_law plain_cobra root"
  unfolding cobra_law_def
proof (intro allI conjI impI)
  fix line e
  assume "plain_cobra root line = Refused e"
  then show "\<not> is_coded e" by (auto simp: plain_cobra_def split: prod.splits option.splits if_splits)
next
  fix line iv
  assume m: "plain_cobra root line = Matched iv"
  obtain p args where f: "follow root line = (p, args)" by fastforce
  from m f obtain c fs where c: "command_at [] root p = Some (c, fs)" "cd_run c \<noteq> None" "args_ok (cd_args c) args"
    and iv: "iv = default_invocation p fs args"
    by (auto simp: plain_cobra_def split: option.splits if_splits)
  from command_at_ok [OF assms c(1)] have "distinct (map fg_name fs)" by blast
  then have "\<forall>x \<in> set fs. flag_default_held iv x"
    by (auto simp: flag_default_held_def iv default_invocation_def find_flag split: flag_value.split)
  with c iv show "\<exists>c fs. command_at [] root (iv_path iv) = Some (c, fs) \<and> cd_run c \<noteq> None \<and>
      args_ok (cd_args c) (iv_args iv) \<and> (\<forall>f \<in> set fs. flag_default_held iv f)"
    by (auto simp: default_invocation_def)
qed

subsection \<open>A world the theorems apply to\<close>

definition sample_cli ::
  "((unit, string list) kind_state, unit, unit, unit, unit, unit, unit, unit, unit, unit, unit, unit) cli_env" where
  "sample_cli =
     \<lparr>ce_verbs = sample_verb_env, ce_boot = sample_boot_env, ce_pack = sample_pk, ce_provisioner = defaultProvisioner sample_kind,
      ce_engine = defaultEngine std_unstr std_status, ce_ledger = yaml_of \<lparr>l_entries = []\<rparr>, ce_goos = ''linux'',
      ce_runner = td_run sample_deps, ce_marshal = (\<lambda>c. Inr ''''), ce_rand1 = (\<lambda>n. 0), ce_rand2 = (\<lambda>n. 0),
      ce_polls = (\<lambda>d. nat (d div 2))\<rparr>"

definition sample_world :: "fsys \<Rightarrow> ((unit, string list) kind_state, unit, unit) cli_world" where
  "sample_world fs =
     \<lparr>cw_boot = \<lparr>bt_verbs = sample_verbs\<lparr>vb_fs := fs\<rparr>, bt_api = (), bt_log = []\<rparr>, cw_shell = ts_sh sample_state, cw_errors = []\<rparr>"

lemmas sample_law = plain_cobra_law [OF newRootCmd_ok]

lemma sample_line: "plain_cobra newRootCmd [''frobnicate''] = Refused (Plain ''unknown command'')"
proof -
  have "follow newRootCmd [''frobnicate''] = ([], [''frobnicate''])" "cd_run newRootCmd = None" by code_simp+
  then show ?thesis by (simp add: plain_cobra_def)
qed

theorem Execute_exit_witness:
  "\<exists>e w'. Execute sample_kind sample_cli plain_cobra [''frobnicate''] (sample_world \<lparr>files = [], dirs = []\<rparr>) = Some (1, w') \<and> cw_errors w' = [e]"
proof -
  from Execute_exit [OF sample_law, of sample_kind sample_cli "[''frobnicate'']" "sample_world \<lparr>files = [], dirs = []\<rparr>"] sample_line
  show ?thesis by (auto simp: sample_world_def)
qed

text \<open>A line with every flag given, as a cobra that matches it.\<close>

definition create_line :: invocation where
  "create_line =
     \<lparr>iv_path = [''create''],
      iv_string = (\<lambda>n. if n = ''config'' then ''cube.yaml'' else if n = ''kubeconfig'' then ''k''
        else if n = ''kubeconfig-context-name'' then ''cube/dev'' else ''''),
      iv_duration = (\<lambda>n. 0), iv_changed = (\<lambda>n. True), iv_args = []\<rparr>"

lemma sample_command:
  "(p, Some a, k) \<in> set (map (\<lambda>(p, c). (p, cd_run c, cd_args c)) (command_table newRootCmd)) \<Longrightarrow>
     \<exists>c fs. command_at [] newRootCmd p = Some (c, fs) \<and> cd_run c = Some a \<and> cd_args c = k"
  by (simp only: newRootCmd_at)

lemma create_command: "\<exists>c fs. command_at [] newRootCmd [''create''] = Some (c, fs) \<and> cd_run c = Some CreateAction \<and> cd_args c = DefaultArgs"
  by (rule sample_command) (simp add: newRootCmd_table)

lemma create_line_law: "cobra_law (\<lambda>root line. Matched create_line) newRootCmd"
  using create_command by (auto simp: cobra_law_def create_line_def args_ok_def flag_default_held_def)

theorem Execute_frame_witness:
  "\<exists>c fs a. command_at [] newRootCmd [''create''] = Some (c, fs) \<and> cd_run c = Some a \<and> Clusters \<in> may_change a"
proof -
  let ?w = "sample_world (vb_fs sample_verbs)"
  have w: "cw_boot ?w = \<lparr>bt_verbs = sample_verbs, bt_api = (), bt_log = []\<rparr>" by (simp add: sample_world_def)
  have fl: "verb_flags_of create_line = sample_flags"
    by (simp add: verb_flags_of_def create_line_def sample_flags_def)
  have "perform (production sample_kind sample_cli) CreateAction create_line ?w =
      Some (None, ?w\<lparr>cw_boot := \<lparr>bt_verbs = sample_created, bt_api = (), bt_log = []\<rparr>\<rparr>)"
    by (simp add: perform_def production_def sample_cli_def fl on_verbs_def on_boot_def w sample_create)
  then have r: "Execute sample_kind sample_cli (\<lambda>root line. Matched create_line) [] ?w =
      Some (0, ?w\<lparr>cw_boot := \<lparr>bt_verbs = sample_created, bt_api = (), bt_log = []\<rparr>\<rparr>)"
    using create_command
    by (auto simp: Execute_def execute_root_def ExecuteContext_def create_line_def ExitSuccess_def)
  have "\<not> part_kept Clusters ?w (?w\<lparr>cw_boot := \<lparr>bt_verbs = sample_created, bt_api = (), bt_log = []\<rparr>\<rparr>)"
    by (simp add: part_kept.simps sample_world_def sample_verbs_def sample_created_def)
  from Execute_frame [OF create_line_law r this] show ?thesis by (auto simp: create_line_def)
qed

theorem Execute_bad_document_witness:
  "\<exists>e. Execute sample_kind sample_cli plain_cobra [''status''] (sample_world \<lparr>files = [], dirs = []\<rparr>) =
     Some (2, (sample_world \<lparr>files = [], dirs = []\<rparr>)\<lparr>cw_errors := [e]\<rparr>)"
proof -
  let ?w = "sample_world \<lparr>files = [], dirs = []\<rparr>"
  have "([''status''], Some StatusAction, DefaultArgs) \<in>
      set (map (\<lambda>(p, c). (p, cd_run c, cd_args c)) (command_table newRootCmd))" by (simp add: newRootCmd_table)
  from sample_command [OF this] obtain c fs where
    c: "command_at [] newRootCmd [''status''] = Some (c, fs)" "cd_run c = Some StatusAction" "cd_args c = DefaultArgs" by blast
  have "follow newRootCmd [''status''] = ([''status''], [])" by code_simp
  with c have m: "plain_cobra newRootCmd [''status''] = Matched (default_invocation [''status''] fs [])"
    by (simp add: plain_cobra_def args_ok_def)
  have f: "vb_fs (bt_verbs (cw_boot ?w)) = \<lparr>files = [], dirs = []\<rparr>" "cw_errors ?w = []" by (simp_all add: sample_world_def)
  have os: "ve_os (ce_verbs sample_cli) = kube_os" by (simp add: sample_cli_def sample_verb_env_def)
  have l: "\<exists>e. LoadFile Y (ve_os (ce_verbs sample_cli)) (vb_fs (bt_verbs (cw_boot ?w))) p = Inl e" for Y p
    by (simp add: LoadFile_def read_file_def os kube_os_def f)
  then obtain e where e: "LoadFile (ve_config (ce_verbs sample_cli)) (ve_os (ce_verbs sample_cli)) (vb_fs (bt_verbs (cw_boot ?w)))
      (iv_string (default_invocation [''status''] fs []) ''config'') = Inl e" by blast
  have at: "command_at [] newRootCmd (iv_path (default_invocation [''status''] fs [])) = Some (c, fs)"
    using c by (simp add: default_invocation_def)
  have h: "\<not> is_coded x" if "y_type_header (ve_config (ce_verbs sample_cli)) raw = Inl x" for raw x
    using that by (simp add: sample_cli_def sample_verb_env_def ConfigLoad.sample_yaml_def)
  have "read_file (ve_os (ce_verbs sample_cli)) q \<lparr>files = [], dirs = []\<rparr> \<noteq> Inr raw" for q raw
    by (simp add: read_file_def os kube_os_def)
  with Execute_bad_document [where w = ?w and X = sample_cli and D = sample_kind and cobra = plain_cobra and args = "[''status'']",
      OF m at c(2) _ e _ h] f
  show ?thesis by (auto simp: reads_document_def)
qed

end
