(* ===== verification/CliFiles.thy ===== *)
theory CliFiles
  imports CliRoot
begin

section \<open>Which files the program writes\<close>

text \<open>
  Every verb that writes has one kind of file of its own: the kubeconfig it was told to maintain, the
  CA certificate of the cube, the trust ledger. A delete has one more, which it does not name: the
  provisioner hands kind an empty path, so kind removes its context from the kubeconfigs of
  \<open>KUBECONFIG\<close>, or from the one of the home directory. Whatever else exists survives every command line.
\<close>

subsection \<open>Files that are kept\<close>

definition keeps_files :: "(string \<Rightarrow> bool) \<Rightarrow> fsys \<Rightarrow> fsys \<Rightarrow> bool" where
  "keeps_files own fs fs' \<longleftrightarrow> (\<forall>p d. map_of (files fs) p = Some d \<longrightarrow> \<not> own p \<longrightarrow> map_of (files fs') p = Some d)"

lemma keeps_refl [simp]: "keeps_files own fs fs"
  by (simp add: keeps_files_def)

lemma keeps_same: "map_of (files fs') = map_of (files fs) \<Longrightarrow> keeps_files own fs fs'"
  by (simp add: keeps_files_def)

lemma keeps_unharmed: "unharmed fs fs' \<Longrightarrow> keeps_files own fs fs'"
  unfolding unharmed_def keeps_files_def by (metis option.distinct(1))

lemma keeps_replaced: "replaced path data fs (r, fs') \<Longrightarrow> own path \<Longrightarrow> keeps_files own fs fs'"
  unfolding replaced_def keeps_files_def by (cases r) (auto, metis option.distinct(1))

lemma keeps_update: "map_of (files fs') = (map_of (files fs))(path \<mapsto> data) \<Longrightarrow> own path \<Longrightarrow> keeps_files own fs fs'"
  by (auto simp: keeps_files_def)

lemma keeps_trans: "keeps_files own fs fs1 \<Longrightarrow> keeps_files own fs1 fs2 \<Longrightarrow> keeps_files own fs fs2"
  by (simp add: keeps_files_def)

subsection \<open>The operations that write\<close>

lemma Scaffold_keeps: "ScaffoldFile Y E path name fs = (r, fs') \<Longrightarrow> keeps_files own fs fs'"
  by (auto simp: ScaffoldFile_def Let_def open_excl_def write_open_def remove_file_def exists_path_def keeps_files_def
      update_conv' delete_conv split: sum.splits prod.splits option.splits if_splits)

lemma Init_keeps:
  assumes "fresh_temps E" and "\<And>p. kube_target V (io_KubeconfigPath opts) = Inr p \<Longrightarrow> temp_apart E p \<and> own p"
    and "Init Y V E P opts (w, fs) = (r, w', fs')"
  shows "keeps_files own fs fs'"
  using assms(3)
proof (cases rule: Init_cases)
  case (written target raw w1 branded data)
  from assms(2) [OF written(1)] have "temp_apart E target" "own target" by blast+
  with writeKubeconfig_replaced [OF assms(1), of target data fs] written(5) show ?thesis
    by (auto intro: keeps_replaced)
qed simp

lemma Delete_keeps:
  assumes "fresh_temps E" and "\<And>p. kube_target V (do_KubeconfigPath opts) = Inr p \<Longrightarrow> temp_apart E p \<and> own p"
    and K: "kind_deletes_own V D" "\<And>p. kind_kubeconfig V '''' p \<Longrightarrow> own p"
    and I: "Delete Y V E (kind_provisioner D) opts (w, fs) = ((ch, r), w', fs')"
  shows "keeps_files own fs fs'"
proof -
  obtain r1 w1 fs1 where 1: "kind_Delete D (do_Name opts) (w, fs) = (r1, w1, fs1)" by (metis prod.exhaust)
  then have P: "pv_Delete (kind_provisioner D) (do_Name opts) (w, fs) = (r1, w1, fs1)" by (simp add: kind_provisioner_def)
  have "keeps_files own fs fs1"
    unfolding keeps_files_def using kind_Delete_files [OF K(1) 1] K(2) by blast
  moreover have "keeps_files own fs1 fs'"
    using Delete_transaction [OF assms(1) _ I] assms(2) unfolding P
    by (auto split: if_splits option.splits intro: keeps_update keeps_unharmed)
  ultimately show ?thesis by (rule keeps_trans)
qed

lemma saveLedger_keeps:
  assumes "fresh_temps E" "temp_apart E path" "own path" "saveLedger Y E path l fs = (r, fs')"
  shows "keeps_files own fs fs'"
proof (cases "Marshal Y l")
  case (Inl e)
  with assms(4) show ?thesis by (simp add: saveLedger_def)
next
  case (Inr data)
  with assms(4) have "writeArtifact E path data fs = (r, fs')" by (simp add: saveLedger_def)
  with writeArtifact_replaced [OF assms(1,2), of data fs] assms(3) show ?thesis by (auto intro: keeps_replaced)
qed

lemma writeTree_keeps:
  assumes "\<forall>n \<in> fst ` set content. entry_path n" "nothing_below fs (path_clean dir)" "writeTree E dir content fs = (r, fs')"
  shows "keeps_files own fs fs'"
proof (cases "os_mkdir E dir fs")
  case (Inl e)
  with assms(3) show ?thesis by (simp add: writeTree_def)
next
  case (Inr fs1)
  let ?d = "path_clean dir"
  from Inr have dir: "dir \<noteq> ''''" "path_last ?d \<notin> {'''', ''.''}" and new: "\<not> exists_path fs ?d" and fs1: "files fs1 = files fs"
    by (auto simp: os_mkdir_def Let_def split: if_splits)
  from Inr assms(3) have w: "write_files E dir content (sort (map fst content)) fs1 = (r, fs')" by (simp add: writeTree_def)
  have names: "set (sort (map fst content)) = fst ` set content" by simp
  have out: "same_outside ?d fs1 fs'"
    using write_files_shape [OF dir w, unfolded names, OF assms(1)] remove_all_outside
    by (auto split: option.splits intro: same_outside_trans)
  have "map_of (files fs') p = Some x" if "map_of (files fs) p = Some x" for p x
  proof -
    from that have "exists_path fs p" by (simp add: exists_path_def)
    with new assms(2) have "\<not> under ?d p" by (auto simp: nothing_below_def)
    with out that fs1 show ?thesis by (simp add: same_outside_def)
  qed
  then show ?thesis by (simp add: keeps_files_def)
qed

lemma New_keeps:
  assumes "walks_tree (ne_ref N fs)" "nothing_below fs (path_clean (no_Dir opts))" "New_pack N opts fs = (r, fs')"
  shows "keeps_files own fs fs'"
proof (cases "\<exists>content. pe_cancelled (ne_pack N) = None \<and> newPackFiles N fs opts = Inr content")
  case True
  then obtain content where c: "newPackFiles N fs opts = Inr content" by blast
  with True assms(3) have "writeTree (ne_os N) (no_Dir opts) content fs = (r, fs')" by (simp add: New_pack_def)
  with writeTree_keeps [OF _ assms(2)] newPackFiles_ok(2) [OF assms(1) c] show ?thesis by blast
next
  case False
  with assms(3) show ?thesis by (auto simp: New_pack_def split: option.splits sum.splits)
qed

subsection \<open>The verbs that write\<close>

lemma runInit_keeps: "keeps_files own (vb_fs st) (vb_fs (snd (runInit Y E r1 r2 fl st)))"
proof -
  obtain s st1 where s: "scaffoldIfAbsent Y E r1 r2 (fl_config fl) (fl_name fl) st = (s, st1)" by fastforce
  then have "keeps_files own (vb_fs st) (vb_fs st1)"
    by (auto simp: scaffoldIfAbsent_def Let_def println_def split: if_splits prod.splits option.splits dest: Scaffold_keeps)
  with s show ?thesis by (auto simp: runInit_def println_def split: sum.splits)
qed

text \<open>The kubeconfig a verb maintains is the one its flag names, or the default one.\<close>

lemma runCreate_keeps:
  assumes "fresh_temps (ve_os V)" and "\<And>p. kube_target (ve_kube V) (fl_kubeconfig fl) = Inr p \<Longrightarrow> temp_apart (ve_os V) p \<and> own p"
  shows "keeps_files own (vb_fs st) (vb_fs (snd (runCreate V (defaultProvisioner D) fl st)))"
proof (cases "open_cube V (defaultProvisioner D) fl st")
  case (Inr x)
  then obtain cfg c d st1 where o: "open_cube V (defaultProvisioner D) fl st = Inr (cfg, c, d, st1)" by (cases x) auto
  let ?opts = "\<lparr>io_Spec = spec_of cfg c, io_ContextName = fl_contextName fl, io_Namespace = '''', io_KubeconfigPath = fl_kubeconfig fl\<rparr>"
  obtain r w fs where I: "Init (ve_kubeconfig V) (ve_kube V) (ve_os V) (dr_provisioner d) ?opts (vb_backend st1, vb_fs st1) = (r, w, fs)"
    by (metis prod.exhaust)
  have "keeps_files own (vb_fs st1) fs" by (rule Init_keeps [OF assms(1) _ I]) (simp add: assms(2))
  with o open_cube_state [OF o] I show ?thesis by (auto simp: runCreate_def println_def Let_def split: option.splits)
qed (simp add: runCreate_def)

lemma runDelete_keeps:
  assumes "fresh_temps (ve_os V)" and "\<And>p. kube_target (ve_kube V) (fl_kubeconfig fl) = Inr p \<Longrightarrow> temp_apart (ve_os V) p \<and> own p"
    and K: "kind_deletes_own (ve_kube V) D" "\<And>p. kind_kubeconfig (ve_kube V) '''' p \<Longrightarrow> own p"
  shows "keeps_files own (vb_fs st) (vb_fs (snd (runDelete V (defaultProvisioner D) fl st)))"
proof (cases "open_cube V (defaultProvisioner D) fl st")
  case (Inr x)
  then obtain cfg c d st1 where o: "open_cube V (defaultProvisioner D) fl st = Inr (cfg, c, d, st1)" by (cases x) auto
  obtain ch r w fs where I: "Delete (ve_kubeconfig V) (ve_kube V) (ve_os V) (dr_provisioner d) (target_options cfg fl)
      (vb_backend st1, vb_fs st1) = ((ch, r), w, fs)" by (metis prod.exhaust)
  have d: "dr_provisioner d = kind_provisioner D" using open_cube_state [OF o] by blast
  have "keeps_files own (vb_fs st1) fs"
    by (rule Delete_keeps [OF assms(1) _ K I [unfolded d]]) (simp add: assms(2) target_options_def)
  with o open_cube_state [OF o] I show ?thesis by (auto simp: runDelete_def println_def Let_def split: option.splits)
qed (simp add: runDelete_def)

lemma runBootstrap_keeps:
  assumes "fresh_temps (ve_os V)" "artifacts_apart (be_home B) (ve_os V)"
    and "\<And>cfg p. LoadFile (ve_config V) (ve_os V) (vb_fs (bt_verbs st)) (fl_config fl) = Inr cfg \<Longrightarrow>
      artifact_at (be_home B) (cfg_name cfg) p \<Longrightarrow> own p"
  shows "keeps_files own (vb_fs (bt_verbs st)) (vb_fs (bt_verbs (snd (runBootstrap V B F eng fl n st))))"
proof -
  obtain r st' where R: "runBootstrap V B F eng fl n st = (r, st')" by fastforce
  from bootstrap_files [OF assms(1,2) R] R assms(3) show ?thesis
    by (auto split: option.splits if_splits intro: keeps_unharmed keeps_update)
qed

lemma removeFromStore_fs: "removeFromStore E S entry p t = (r, t') \<Longrightarrow> ts_fs t' = ts_fs t"
  by (auto simp: removeFromStore_def split: sum.splits prod.splits)

lemma runTrust_keeps:
  assumes "fresh_temps E" and "\<And>root. artifactRoot (td_homeDir deps) = Inr root \<Longrightarrow> temp_apart E (LedgerPath root) \<and> own (LedgerPath root)"
  shows "keeps_files own (ts_fs t) (ts_fs (snd (runTrustInstall C Y E deps cube t)))"
    and "keeps_files own (ts_fs t) (ts_fs (snd (runTrustRemove C Y E deps cube t)))"
proof -
  have s: "keeps_files own fs fs'" if "artifactRoot (td_homeDir deps) = Inr root" "saveLedger Y E (LedgerPath root) l fs = (r, fs')"
    for root l fs r fs'
    using saveLedger_keeps [OF assms(1) _ _ that(2), of own] assms(2) [OF that(1)] by blast
  show "keeps_files own (ts_fs t) (ts_fs (snd (runTrustInstall C Y E deps cube t)))"
    by (auto simp: runTrustInstall_def Let_def say_def split: sum.splits prod.splits option.splits dest!: s)
  show "keeps_files own (ts_fs t) (ts_fs (snd (runTrustRemove C Y E deps cube t)))"
    by (auto simp: runTrustRemove_def Let_def say_def split: sum.splits prod.splits option.splits
        dest!: s removeFromStore_fs)
qed

lemma runPackNew_keeps:
  assumes "walks_tree (ne_ref (pk_new K) fs)" "\<And>d. nothing_below fs d"
  shows "keeps_files own fs (snd (runPackNew K fl dir fs))"
  using New_keeps [OF assms(1) assms(2)]
  by (auto simp: runPackNew_def split: sum.splits prod.splits option.splits)

subsection \<open>The program\<close>

abbreviation world_files :: "('w, 'a, 's) cli_world \<Rightarrow> fsys" where
  "world_files w \<equiv> vb_fs (bt_verbs (cw_boot w))"

text \<open>
  The existing files a verb replaces itself, and those it may change: for \<open>delete\<close> the kubeconfigs
  kind cleans up when it is given no path are among them.
\<close>

definition replaced_file ::
  "('w, 'x, 'r, 'd, 'm, 'y, 'c, 'rnd, 'k, 'p, 'a, 's) cli_env \<Rightarrow> invocation \<Rightarrow> action \<Rightarrow> fsys \<Rightarrow> string \<Rightarrow> bool" where
  "replaced_file X iv a fs p \<longleftrightarrow>
     (let V = ce_verbs X; home = be_home (ce_boot X)
      in case a of
        CreateAction \<Rightarrow> kube_target (ve_kube V) (iv_string iv ''kubeconfig'') = Inr p
      | DeleteAction \<Rightarrow> kube_target (ve_kube V) (iv_string iv ''kubeconfig'') = Inr p
      | BootstrapAction \<Rightarrow>
          (\<exists>cfg. LoadFile (ve_config V) (ve_os V) fs (iv_string iv ''config'') = Inr cfg \<and> artifact_at home (cfg_name cfg) p)
      | TrustInstallAction \<Rightarrow> (\<exists>root. artifactRoot home = Inr root \<and> p = LedgerPath root)
      | TrustRemoveAction \<Rightarrow> (\<exists>root. artifactRoot home = Inr root \<and> p = LedgerPath root)
      | _ \<Rightarrow> False)"

definition own_file ::
  "('w, 'x, 'r, 'd, 'm, 'y, 'c, 'rnd, 'k, 'p, 'a, 's) cli_env \<Rightarrow> invocation \<Rightarrow> action \<Rightarrow> fsys \<Rightarrow> string \<Rightarrow> bool" where
  "own_file X iv a fs p \<longleftrightarrow>
     replaced_file X iv a fs p \<or> a = DeleteAction \<and> kind_kubeconfig (ve_kube (ce_verbs X)) '''' p"

lemmas file_defs = own_file_def replaced_file_def

lemma on_verbs_files: "world_files (snd (on_verbs f w)) = vb_fs (snd (f (bt_verbs (cw_boot w))))"
  by (simp add: on_verbs_def on_boot_def split: prod.splits)

lemma on_boot_files: "world_files (snd (on_boot f w)) = vb_fs (bt_verbs (snd (f (cw_boot w))))"
  by (simp add: on_boot_def split: prod.splits)

lemma on_files_files: "world_files (snd (on_files f w)) = snd (f (world_files w))"
  by (simp add: on_files_def on_verbs_files split: prod.splits)

lemma on_trust_files:
  "world_files (snd (on_trust f w)) = ts_fs (snd (f \<lparr>ts_fs = world_files w, ts_sh = cw_shell w, ts_out = vb_out (bt_verbs (cw_boot w))\<rparr>))"
  by (simp add: on_trust_def Let_def split: prod.splits)

lemma printed_files: "snd (case q of (r, x) \<Rightarrow> (printed r, x)) = snd q"
  by (simp split: prod.split)

lemma perform_keeps:
  assumes P: "perform (production D X) a iv w = Some out" and "fresh_temps (ve_os (ce_verbs X))"
    and "artifacts_apart (be_home (ce_boot X)) (ve_os (ce_verbs X))"
    and "\<And>p. replaced_file X iv a (world_files w) p \<Longrightarrow> temp_apart (ve_os (ce_verbs X)) p"
    and "walks_tree (ne_ref (pk_new (ce_pack X)) (world_files w))" and "\<And>d. nothing_below (world_files w) d"
    and K: "kind_deletes_own (ve_kube (ce_verbs X)) D"
  shows "keeps_files (own_file X iv a (world_files w)) (world_files w) (world_files (snd out))"
proof (cases "Files \<in> may_change a")
  case False
  with perform_kept [OF P False] show ?thesis by (simp add: part_kept.simps)
next
  case True
  note env = production_def verb_flags_of_def pack_cli_of_def defaultTrustDeps_def
  show ?thesis
  proof (cases a)
    case InitAction
    with P show ?thesis by (auto simp: perform_def Let_def on_verbs_files runInit_keeps)
  next
    case CreateAction
    with P assms(2,4) show ?thesis
      by (auto simp: perform_def Let_def on_verbs_files env file_defs intro!: runCreate_keeps)
  next
    case DeleteAction
    with P assms(2,4) K show ?thesis
      by (auto simp: perform_def Let_def on_verbs_files env file_defs intro!: runDelete_keeps)
  next
    case BootstrapAction
    with P assms(2,3) show ?thesis
      by (auto simp: perform_def Let_def on_boot_files env file_defs intro!: runBootstrap_keeps)
  next
    case PackNewAction
    from P PackNewAction assms(5,6) show ?thesis
      by (auto simp: perform_def Let_def on_files_files printed_files env split: list.splits intro!: runPackNew_keeps)
  next
    case TrustInstallAction
    with P assms(2,4) show ?thesis
      by (auto simp: perform_def Let_def on_trust_files env file_defs split: list.splits
          intro!: runTrust_keeps [where t = "\<lparr>ts_fs = world_files w, ts_sh = cw_shell w, ts_out = vb_out (bt_verbs (cw_boot w))\<rparr>", simplified])
  next
    case TrustRemoveAction
    with P assms(2,4) show ?thesis
      by (auto simp: perform_def Let_def on_trust_files env file_defs split: list.splits
          intro!: runTrust_keeps [where t = "\<lparr>ts_fs = world_files w, ts_sh = cw_shell w, ts_out = vb_out (bt_verbs (cw_boot w))\<rparr>", simplified])
  qed (use True in \<open>simp_all add: may_change_def\<close>)
qed

text \<open>
  C6. No command line overwrites, truncates or removes an existing file that is not its verb's own:
  the kubeconfig \<open>create\<close> and \<open>delete\<close> were told to maintain, the CA certificate of the cube
  \<open>bootstrap\<close> installed, the ledger of \<open>trust install\<close> and \<open>trust remove\<close>, and for \<open>delete\<close> also the
  kubeconfigs kind edits when it is given no path, which are those of \<open>KUBECONFIG\<close> or the one of the
  home directory, whatever the flag says. \<open>init\<close> and \<open>pack new\<close> touch no existing file at all. This
  holds on every outcome, whichever system calls fail. What the trust tools change in their own
  stores belongs to the machine they run on and is not a file of this statement.
\<close>

theorem Execute_files:
  assumes "cobra_law cobra newRootCmd" and "Execute D X cobra args w = Some (c, w')"
    and "fresh_temps (ve_os (ce_verbs X))" and "artifacts_apart (be_home (ce_boot X)) (ve_os (ce_verbs X))"
    and "\<And>iv a p. cobra newRootCmd args = Matched iv \<Longrightarrow> replaced_file X iv a (world_files w) p \<Longrightarrow> temp_apart (ve_os (ce_verbs X)) p"
    and "walks_tree (ne_ref (pk_new (ce_pack X)) (world_files w))" and "\<And>d. nothing_below (world_files w) d"
    and "kind_deletes_own (ve_kube (ce_verbs X)) D"
    and "map_of (files (world_files w)) p = Some x" and "map_of (files (world_files w')) p \<noteq> Some x"
  shows "\<exists>iv cmd fs a. cobra newRootCmd args = Matched iv \<and> command_at [] newRootCmd (iv_path iv) = Some (cmd, fs) \<and>
    cd_run cmd = Some a \<and> own_file X iv a (world_files w) p"
  using assms(1)
proof (cases rule: Execute_cases [where args = args and D = D and X = X and w = w])
  case (refused e)
  with assms(2,9,10) show ?thesis by (auto simp: reported_def)
next
  case (answered out)
  with assms(2,9,10) show ?thesis by (auto simp: on_verbs_files println_def)
next
  case (ran iv cmd fs a r w1)
  with assms(2) have "world_files w' = world_files w1" by (auto simp: reported_def split: option.splits)
  moreover have "keeps_files (own_file X iv a (world_files w)) (world_files w) (world_files w1)"
    using perform_keeps [OF ran(4) assms(3,4) _ assms(6-8)] assms(5) [OF ran(1)] by simp
  ultimately have "own_file X iv a (world_files w) p" using assms(9,10) by (auto simp: keeps_files_def)
  with ran(1-3) show ?thesis by blast
qed

subsection \<open>A world the theorem applies to\<close>

definition stale_fs :: fsys where
  "stale_fs = \<lparr>files = [(''cube.yaml'', ''doc''), (''k'', ''old'')], dirs = [''.'']\<rparr>"

lemma prefix_slash: "has_prefix p (d @ ''/'') \<Longrightarrow> CHR ''/'' \<in> set p"
  unfolding has_prefix_def by (metis UnCI in_set_takeD list.set_intros(1) set_append)

lemma stale_below: "nothing_below stale_fs d"
  by (auto simp: nothing_below_def under_def exists_path_def stale_fs_def dest!: prefix_slash split: if_splits)

lemma stale_create:
  "\<exists>v. runCreate sample_verb_env (defaultProvisioner sample_kind) sample_flags (sample_verbs\<lparr>vb_fs := stale_fs\<rparr>) = (None, v) \<and>
     map_of (files (vb_fs v)) ''k'' \<noteq> Some ''old''"
proof -
  have i: "Init sample_typed_yaml sample_kube_env kube_os (kind_provisioner sample_kind)
      \<lparr>io_Spec = \<lparr>vs_Name = ''dev'', vs_ForProvider = None\<rparr>, io_ContextName = ''cube/dev'', io_Namespace = '''', io_KubeconfigPath = ''k''\<rparr>
      ((None, []), stale_fs) = (None, (Some (Inr ()), [''dev'']), \<lparr>files = [(''cube.yaml'', ''doc''), (''k'', ''cube'')], dirs = [''.'']\<rparr>)"
    by code_simp
  have d: "map_of (files (vb_fs (sample_verbs\<lparr>vb_fs := stale_fs\<rparr>))) ''cube.yaml'' = Some ''doc''" by (simp add: stale_fs_def)
  show ?thesis
    unfolding runCreate_def verb_sample_open [OF d]
    using i by (simp add: sample_verb_env_def sample_flags_def kind_New_def spec_of_def sample_loaded_def sample_verbs_def println_def)
qed

theorem Execute_files_witness:
  "\<exists>cmd fs a. command_at [] newRootCmd [''create''] = Some (cmd, fs) \<and> cd_run cmd = Some a \<and>
     own_file sample_cli create_line a stale_fs ''k''"
proof -
  let ?w = "sample_world stale_fs" and ?cobra = "\<lambda>root line. Matched create_line"
  have w: "cw_boot ?w = \<lparr>bt_verbs = sample_verbs\<lparr>vb_fs := stale_fs\<rparr>, bt_api = (), bt_log = []\<rparr>" "world_files ?w = stale_fs"
    by (simp_all add: sample_world_def)
  have fl: "verb_flags_of create_line = sample_flags"
    by (simp add: verb_flags_of_def create_line_def sample_flags_def)
  from stale_create obtain v where v: "runCreate sample_verb_env (defaultProvisioner sample_kind) sample_flags
      (sample_verbs\<lparr>vb_fs := stale_fs\<rparr>) = (None, v)" "map_of (files (vb_fs v)) ''k'' \<noteq> Some ''old''" by blast
  have "perform (production sample_kind sample_cli) CreateAction create_line ?w =
      Some (None, ?w\<lparr>cw_boot := \<lparr>bt_verbs = v, bt_api = (), bt_log = []\<rparr>\<rparr>)"
    by (simp add: perform_def production_def sample_cli_def fl on_verbs_def on_boot_def w v(1))
  then have r: "Execute sample_kind sample_cli ?cobra [] ?w = Some (0, ?w\<lparr>cw_boot := \<lparr>bt_verbs = v, bt_api = (), bt_log = []\<rparr>\<rparr>)"
    using create_command
    by (auto simp: Execute_def execute_root_def ExecuteContext_def create_line_def ExitSuccess_def)
  have os: "ve_os (ce_verbs sample_cli) = kube_os" "ce_boot sample_cli = sample_boot_env"
    by (simp_all add: sample_cli_def sample_verb_env_def)
  have root: "artifactRoot (be_home sample_boot_env) = Inr ''/h/.cube-idp''"
    by (simp add: sample_boot_env_def artifactRoot_def trustRoot_def DirName_def path_join_def)
  have art: "artifacts_apart (be_home sample_boot_env) kube_os"
    using boot_apart by (simp add: boot_verb_env_def sample_verb_env_def)
  have ledger: "temp_apart kube_os (LedgerPath ''/h/.cube-idp'')"
    by (rule kube_os_apart) (simp add: LedgerPath_def LedgerFileName_def path_join_def)
  have apart: "temp_apart kube_os p" if "replaced_file sample_cli create_line a stale_fs p" for a p
    using that root art ledger kube_os_apart [of "''k''"]
    by (cases a) (auto simp: replaced_file_def create_line_def kube_target_def os artifacts_apart_def)
  have walk: "walks_tree (ne_ref (pk_new (ce_pack sample_cli)) stale_fs)"
    by (simp add: sample_cli_def sample_pk_def sample_ref_def walks_tree_def file_names_def wf_tree_code entry_path_def)
  have old: "map_of (files stale_fs) ''k'' = Some ''old''" by (simp add: stale_fs_def)
  from Execute_files [OF create_line_law r, where p = "''k''" and x = "''old''", unfolded os w(2), OF kube_os_fresh art _ walk stale_below sample_kind_laws(2) old]
  show ?thesis using apart v(2) by (auto simp: create_line_def)
qed

end
