(* ===== verification/BootstrapCodes.thy ===== *)
theory BootstrapCodes
  imports BootstrapPlan
begin

section \<open>The errors of an installation\<close>

text \<open>
  Every error an installation returns carries a code: the lemmas go up the operations of
  \<open>Bootstrap\<close>, from one API call to the whole run.
\<close>

subsection \<open>Codes\<close>

definition bst_code :: "err \<Rightarrow> bool" where
  "bst_code e \<longleftrightarrow> err_code e \<in> {Some CodeRESTMapping, Some CodeApplyFailed, Some CodeWaitTimeout, Some CodeReconcileTimeout,
     Some CodePollFailed}"

text \<open>The client library raises no errors of this program's.\<close>

definition api_uncoded :: "'w applier \<Rightarrow> bool" where
  "api_uncoded A \<longleftrightarrow>
     (\<forall>w mp ns n e w'. ap_get (A_api A) w mp ns n = (Inl e, w') \<longrightarrow> \<not> is_coded e) \<and>
     (\<forall>w av k e w'. ap_mapping (A_api A) w av k = (Inl e, w') \<longrightarrow> \<not> is_coded e) \<and>
     \<not> is_coded (ap_ctx_err (A_api A))"

definition judge_error :: "judge_fun option \<Rightarrow> err \<Rightarrow> bool" where
  "judge_error j e \<longleftrightarrow> (\<exists>f m. j = Some f \<and> f m = Inl e \<and> is_coded e)"

lemma bst_codes [simp]:
  "bst_code (wrap ''CUBE-BST-003'' ps c)" "bst_code (wrap ''CUBE-BST-004'' ps c)" "bst_code (wrap ''CUBE-BST-005'' ps c)"
  "bst_code (wrap ''CUBE-BST-009'' ps c)" "bst_code (wrap ''CUBE-BST-010'' ps c)"
  by (simp_all add: bst_code_def)

lemma bst_coded: "bst_code e \<Longrightarrow> is_coded e"
  unfolding bst_code_def is_coded_iff by blast

lemma resourceFor_code: "resourceFor A m w = (Inl e, w') \<Longrightarrow> bst_code e"
  by (auto simp: resourceFor_def newMappingError_def split: prod.splits sum.splits)

lemma seam_apply_code: "seam_apply A m s = (Some e, s') \<Longrightarrow> bst_code e"
  by (auto simp: seam_apply_def dyn_apply_def newApplyError_def split: prod.splits sum.splits option.splits
      dest: resourceFor_code)

lemma Apply_code: "Apply A ms s = (Some e, s') \<Longrightarrow> bst_code e"
  by (induction A ms s rule: Apply.induct) (auto split: prod.splits option.splits dest: seam_apply_code)

lemma RecordInventory_code: "RecordInventory A ms s = (Some e, s') \<Longrightarrow> bst_code e"
  by (auto simp: RecordInventory_def inventoryConfigMap_def dest: seam_apply_code)

lemma seam_get_code:
  assumes "api_uncoded A" "seam_get A m s = (Inl e, s')"
  shows "bst_code e \<or> \<not> is_coded e"
proof (cases "resourceFor A m (rn_world s)")
  case (Pair x w)
  show ?thesis
  proof (cases x)
    case (Inl e0)
    with Pair assms(2) resourceFor_code [OF Pair [unfolded Inl]] show ?thesis
      by (simp add: seam_get_def dyn_get_def)
  next
    case (Inr mp)
    with Pair assms(2) have "\<exists>w m1 ns n w'. ap_get (A_api A) w m1 ns n = (Inl e, w')"
      by (auto simp: seam_get_def dyn_get_def split: prod.splits intro!: exI)
    with assms(1) show ?thesis unfolding api_uncoded_def by blast
  qed
qed

lemma seam_live_code:
  assumes "api_uncoded A" "seam_live A m s = (Inl e, s')"
  shows "\<not> is_coded e"
proof (cases "rawResourceFor A m (rn_world s)")
  case (Pair x w)
  show ?thesis
  proof (cases x)
    case (Inl e0)
    with Pair have "\<exists>w av k w'. ap_mapping (A_api A) w av k = (Inl e0, w')"
      by (auto simp: rawResourceFor_def Let_def split: prod.splits sum.splits option.splits if_splits)
    with assms(1) have "\<not> is_coded e0" unfolding api_uncoded_def by blast
    moreover from Pair Inl assms(2) have "e = e0"
      by (simp add: seam_live_def dyn_live_def)
    ultimately show ?thesis by simp
  next
    case (Inr mp)
    with Pair assms(2) have "\<exists>w m1 ns n w'. ap_get (A_api A) w m1 ns n = (Inl e, w')"
      by (auto simp: seam_live_def dyn_live_def split: prod.splits intro!: exI)
    with assms(1) show ?thesis unfolding api_uncoded_def by blast
  qed
qed

lemma terminalPollError_code:
  "bst_code e \<or> \<not> is_coded e \<Longrightarrow> bst_code (terminalPollError U m e)"
  by (auto simp: terminalPollError_def newPollError_def)

lemma checkReady_code: "api_uncoded A \<Longrightarrow> checkReady A ms s = (Inl e, s') \<Longrightarrow> bst_code e"
proof (induction ms arbitrary: s)
  case (Cons m ms)
  then show ?case
    by (auto simp: ready_def split: prod.splits sum.splits if_splits dest!: seam_get_code intro!: terminalPollError_code)
qed simp

lemma checkReconciled_code:
  "api_uncoded A \<Longrightarrow> checkReconciled A j ps s = (Inl e, s') \<Longrightarrow> bst_code e \<or> judge_error (Some j) e"
proof (induction ps arbitrary: s)
  case (Cons p ps)
  obtain x s1 where x: "seam_live A (po_obj p) s = (x, s1)" by (cases "seam_live A (po_obj p) s")
  show ?case
  proof (cases x)
    case (Inl e0)
    with x seam_live_code [OF Cons.prems(1)] have "\<not> is_coded e0" by blast
    with Cons x Inl show ?thesis
      by (auto split: option.splits prod.splits sum.splits intro: terminalPollError_code)
  next
    case (Inr live)
    with Cons x show ?thesis
      by (auto simp: terminalPollError_def newPollError_def judge_error_def split: prod.splits sum.splits if_splits)
  qed
qed simp

lemma poll_until_err:
  assumes "\<And>ps s e s'. check ps s = (Inl e, s') \<Longrightarrow> P e"
  shows "poll_until ctx n check ps s = (Some (e, ps'), s') \<Longrightarrow> P e \<or> e = ctx"
proof (induction n arbitrary: ps s)
  case 0
  then show ?case using assms by (auto split: prod.splits sum.splits if_splits)
next
  case (Suc n)
  then show ?case using assms by (auto split: prod.splits sum.splits if_splits)
qed

lemma waitReady_code: "api_uncoded A \<Longrightarrow> waitReady A ms subj s = (Some e, s') \<Longrightarrow> bst_code e"
  using poll_until_err [of "checkReady A" bst_code] checkReady_code [of A]
  by (auto simp: waitReady_def newWaitError_def split: prod.splits option.splits if_splits) (fastforce simp: api_uncoded_def)+

lemma waitReconciled_code:
  assumes "api_uncoded A" "waitReconciled A ms j subj s = (Some e, s')"
  shows "bst_code e \<or> judge_error j e"
proof -
  from assms(2) obtain f e0 pending where j: "j = Some f"
    and p: "poll_until (ap_ctx_err (A_api A)) (rn_left s) (checkReconciled A f)
        (map (\<lambda>m. \<lparr>po_obj = m, po_reason = ''not polled yet''\<rparr>) ms) s = (Some (e0, pending), s')"
    and e: "e = newReconcileWaitError (A_unstr A) subj pending e0"
    by (auto simp: waitReconciled_def split: option.splits if_splits prod.splits)
  have "(bst_code e0 \<or> judge_error (Some f) e0) \<or> e0 = ap_ctx_err (A_api A)"
    by (rule poll_until_err [OF _ p]) (rule checkReconciled_code [OF assms(1)])
  then show ?thesis
    using assms(1) e j by (auto simp: newReconcileWaitError_def api_uncoded_def)
qed

definition judges :: "engine_install \<Rightarrow> judge_fun option set" where
  "judges i = insert (ei_reconciled i) (un_reconciled ` set (ei_prerequisites i))"

lemma installPrerequisites_code:
  "api_uncoded A \<Longrightarrow> installPrerequisites A ap us s = ((own, Some e), s') \<Longrightarrow>
     bst_code e \<or> (\<exists>u \<in> set us. judge_error (un_reconciled u) e)"
proof (induction us arbitrary: ap s)
  case (Cons u us)
  have w: "waitUnit A u t = (Some e, t') \<Longrightarrow> bst_code e \<or> judge_error (un_reconciled u) e" for t t'
    using Cons.prems(1) by (auto simp: waitUnit_def Let_def split: unit_kind.splits dest: waitReady_code waitReconciled_code)
  show ?case
    using Cons w
    by (auto simp: Let_def split: prod.splits option.splits dest!: RecordInventory_code Apply_code)
qed simp

text \<open>
  C34. One failure, one code: every error of an installation carries a code, either one of the
  bootstrap domain's or the code a judgment of this run raised itself, kept as it is; with
  client errors that carry none, nothing else comes out.
\<close>

theorem InstallEngine_codes:
  assumes "api_uncoded A" and "InstallEngine A i s = (Some e, s')"
  shows "bst_code e \<or> (\<exists>j \<in> judges i. judge_error j e)"
proof -
  have cu: "checkUnits us = Some e \<Longrightarrow> bst_code e" for us
    by (induction us rule: checkUnits.induct) (auto simp: newUnitJudgeError_def split: if_splits)
  have pre: "Install_phase A ms t = (Some e, t') \<Longrightarrow> bst_code e" for ms t t'
    using waitReady_code [OF assms(1)]
    by (auto simp: Install_phase_def WaitReady_def split: prod.splits option.splits dest: Apply_code RecordInventory_code)
  have wr: "WaitReconciled A ms (ei_reconciled i) t = (Some e, t') \<Longrightarrow> bst_code e \<or> judge_error (ei_reconciled i) e" for ms t t'
    unfolding WaitReconciled_def by (rule waitReconciled_code [OF assms(1)])
  show ?thesis
    using assms(2)
    by (auto simp: InstallEngine_def judges_def split: option.splits prod.splits if_splits
        dest!: cu pre wr installPrerequisites_code [OF assms(1)] Apply_code RecordInventory_code)
qed

theorem InstallEngine_codes_witness:
  "bst_code (newUnitJudgeError ''gateway'')"
proof -
  have a: "api_uncoded sample_applier"
    by (simp add: api_uncoded_def sample_applier_def)
  have "InstallEngine sample_applier (sample_install\<lparr>ei_prerequisites := [NewCRUnit ''gateway'' [] None]\<rparr>) sample_run =
      (Some (newUnitJudgeError ''gateway''), sample_run)"
    by (simp add: InstallEngine_def NewCRUnit_def)
  from InstallEngine_codes [OF a this] show ?thesis
    by (simp add: judges_def judge_error_def sample_install_def NewCRUnit_def)
qed

end
