(* ===== verification/BootstrapBudget.thy ===== *)
theory BootstrapBudget
  imports BootstrapPlan
begin

section \<open>The budget of an installation\<close>

text \<open>
  Every wait of an installation polls under the one deadline of the run (\<open>rn_left\<close> intervals are
  left of it). However the cluster behaves, and whatever error or conclusion ends the run, the
  number of requests it sends is bounded by its plan and that deadline. \<open>within\<close> is the cost of
  a step: its requests are at most \<open>a\<close> applications, and \<open>M\<close> reads for each of its \<open>w\<close> waits and
  for each interval it lets pass.
\<close>

definition within :: "nat \<Rightarrow> nat \<Rightarrow> nat \<Rightarrow> 'w run \<Rightarrow> 'w run \<Rightarrow> bool" where
  "within M a w s s' \<longleftrightarrow>
     rn_left s' \<le> rn_left s \<and>
     length (rn_log s') \<le> length (rn_log s) + a + (rn_left s - rn_left s' + w) * M"

named_theorems costs \<open>the cost of each operation\<close>

lemma within_refl [simp]: "within M a w s s"
  by (simp add: within_def)

lemma within_trans:
  assumes "within M a w s s1" and "within M b v s1 s'"
  shows "within M (a + b) (w + v) s s'"
proof -
  from assms have "rn_left s - rn_left s' + (w + v) = (rn_left s - rn_left s1 + w) + (rn_left s1 - rn_left s' + v)"
    by (simp add: within_def)
  then have "(rn_left s - rn_left s' + (w + v)) * M =
      (rn_left s - rn_left s1 + w) * M + (rn_left s1 - rn_left s' + v) * M" by (simp only: add_mult_distrib)
  with assms show ?thesis unfolding within_def by linarith
qed

lemma within_mono: "within M a w s s' \<Longrightarrow> a \<le> b \<Longrightarrow> w \<le> v \<Longrightarrow> within M b v s s'"
proof -
  assume a: "within M a w s s'" "a \<le> b" "w \<le> v"
  then have "(rn_left s - rn_left s' + w) * M \<le> (rn_left s - rn_left s' + v) * M" by simp
  with a show "within M b v s s'" unfolding within_def by linarith
qed

lemma within_bind:
  assumes "within M a w s s1" and "within M b v s1 s'" and "a + b \<le> c" and "w + v \<le> u"
  shows "within M c u s s'"
  using within_mono [OF within_trans [OF assms(1,2)] assms(3,4)] .

text \<open>One request each.\<close>

lemma seam_costs:
  "seam_apply A m s = (r, s') \<Longrightarrow> rn_left s' = rn_left s \<and> length (rn_log s') = Suc (length (rn_log s))"
  "seam_get A m s = (q, s') \<Longrightarrow> rn_left s' = rn_left s \<and> length (rn_log s') = Suc (length (rn_log s))"
  "seam_live A m s = (q, s') \<Longrightarrow> rn_left s' = rn_left s \<and> length (rn_log s') = Suc (length (rn_log s))"
  by (auto simp: seam_apply_def seam_get_def seam_live_def split: prod.splits)

lemma Apply_costs [costs]: "Apply A objs s = (r, s') \<Longrightarrow> within M (length objs) 0 s s'"
proof (induction A objs s rule: Apply.induct)
  case (2 A m ms s)
  obtain r1 s1 where a: "seam_apply A m s = (r1, s1)" by (cases "seam_apply A m s")
  have "within M 1 0 s s1" using seam_costs(1) [OF a] by (simp add: within_def)
  moreover have "within M (length ms) 0 s1 s'"
    using "2.prems" "2.IH" [OF a [symmetric]] a by (cases r1) auto
  ultimately show ?case by (rule within_bind) simp_all
qed simp

lemma RecordInventory_costs [costs]: "RecordInventory A objs s = (r, s') \<Longrightarrow> within M 1 0 s s'"
  by (auto simp: RecordInventory_def within_def split: sum.splits dest: seam_costs(1))

subsection \<open>Polls\<close>

text \<open>A check reads each pending object at most once and leaves at most the objects it was given.\<close>

definition checks :: "('p list \<Rightarrow> 'w run \<Rightarrow> 'p list res \<times> 'w run) \<Rightarrow> bool" where
  "checks check \<longleftrightarrow> (\<forall>ps s r s'. check ps s = (r, s') \<longrightarrow>
     rn_left s' = rn_left s \<and> length (rn_log s') \<le> length (rn_log s) + length ps \<and>
     (\<forall>rem. r = Inr rem \<longrightarrow> length rem \<le> length ps))"

lemma ready_costs:
  "ready A m s = (r, s') \<Longrightarrow> rn_left s' = rn_left s \<and> length (rn_log s') = Suc (length (rn_log s))"
  by (auto simp: ready_def split: prod.splits sum.splits if_splits dest!: seam_costs(2))

lemma checkReady_step:
  "checkReady A ms s = (r, s') \<Longrightarrow>
     rn_left s' = rn_left s \<and> length (rn_log s') \<le> length (rn_log s) + length ms \<and>
     (\<forall>rem. r = Inr rem \<longrightarrow> length rem \<le> length ms)"
proof (induction A ms s arbitrary: r s' rule: checkReady.induct)
  case (2 A m ms s)
  obtain q s1 where a: "ready A m s = (q, s1)" by (cases "ready A m s")
  obtain q2 s2 where b: "checkReady A ms s1 = (q2, s2)" by (cases "checkReady A ms s1")
  have "rn_left s2 = rn_left s1 \<and> length (rn_log s2) \<le> length (rn_log s1) + length ms \<and>
     (\<forall>rem. q2 = Inr rem \<longrightarrow> length rem \<le> length ms)" if "q = Inr ok" for ok
    using "2.IH" [OF _ _ b, of q ok] a that by simp
  then show ?case
    using "2.prems" a b ready_costs [OF a] by (auto split: sum.splits if_splits)
qed simp

lemma checkReconciled_step:
  "checkReconciled A j ps s = (r, s') \<Longrightarrow>
     rn_left s' = rn_left s \<and> length (rn_log s') \<le> length (rn_log s) + length ps \<and>
     (\<forall>rem. r = Inr rem \<longrightarrow> length rem \<le> length ps)"
proof (induction ps arbitrary: r s s')
  case (Cons p ps)
  obtain q s1 where a: "seam_live A (po_obj p) s = (q, s1)" by (cases "seam_live A (po_obj p) s")
  obtain q2 s2 where b: "checkReconciled A j ps s1 = (q2, s2)" by (cases "checkReconciled A j ps s1")
  from Cons.prems a b Cons.IH [OF b] seam_costs(3) [OF a] show ?case
    by (auto split: sum.splits option.splits prod.splits if_splits)
qed simp

lemma checks_checkReady: "checks (checkReady A)"
  unfolding checks_def by (intro allI impI checkReady_step)

lemma checks_checkReconciled: "checks (checkReconciled A j)"
  unfolding checks_def by (intro allI impI checkReconciled_step)

lemma poll_until_costs:
  assumes "checks check"
  shows "poll_until ctx n check ps s = (r, s') \<Longrightarrow> rn_left s = n \<Longrightarrow> length ps \<le> M \<Longrightarrow> within M 0 1 s s'"
proof (induction n arbitrary: ps s)
  case 0
  obtain c s1 where c: "check ps s = (c, s1)" by (cases "check ps s")
  with assms have "rn_left s1 = rn_left s" "length (rn_log s1) \<le> length (rn_log s) + length ps"
    unfolding checks_def by blast+
  with 0 c show ?case by (auto simp: within_def split: sum.splits if_splits)
next
  case (Suc n)
  obtain c s1 where c: "check ps s = (c, s1)" by (cases "check ps s")
  with assms have s1: "rn_left s1 = rn_left s" "length (rn_log s1) \<le> length (rn_log s) + length ps"
    and rem: "c = Inr rem \<Longrightarrow> length rem \<le> length ps" for rem unfolding checks_def by blast+
  show ?case
  proof (cases "\<exists>rem. c = Inr rem \<and> rem \<noteq> []")
    case True
    then obtain rem where r: "c = Inr rem" "rem \<noteq> []" by blast
    with Suc.prems(1) c have "poll_until ctx n check rem (s1\<lparr>rn_left := n\<rparr>) = (r, s')" by simp
    from Suc.IH [OF this] rem [OF r(1)] Suc.prems(3) have "within M 0 1 (s1\<lparr>rn_left := n\<rparr>) s'" by simp
    moreover from this have "rn_left s - rn_left s' + 1 = (n - rn_left s' + 1) + 1"
      using Suc.prems(2) by (simp add: within_def Suc_diff_le)
    then have "(rn_left s - rn_left s' + 1) * M = (n - rn_left s' + 1) * M + M" by (simp only: add_mult_distrib nat_mult_1)
    ultimately show ?thesis using s1 Suc.prems(2,3) unfolding within_def by simp
  next
    case False
    with Suc.prems(1) c have "s' = s1" by (auto split: sum.splits)
    with s1 Suc.prems(3) show ?thesis by (simp add: within_def)
  qed
qed

lemma waitReady_costs [costs]:
  assumes "waitReady A objs subject s = (r, s')" and "length objs \<le> M"
  shows "within M 0 1 s s'"
proof -
  obtain p where p: "poll_until (ap_ctx_err (A_api A)) (rn_left s) (checkReady A) (filterKindSet (A_unstr A) objs) s = (p, s')"
    using assms(1) by (auto simp: waitReady_def split: prod.splits option.splits)
  have "length (filterKindSet (A_unstr A) objs) \<le> M"
    using assms(2) length_filter_le order_trans unfolding filterKindSet_def by blast
  from poll_until_costs [OF checks_checkReady p refl this] show ?thesis .
qed

lemma waitReconciled_costs [costs]:
  assumes "waitReconciled A objs j subject s = (r, s')" and "length objs \<le> M"
  shows "within M 0 1 s s'"
proof (cases "s' = s")
  case False
  with assms(1) obtain p jf where p: "poll_until (ap_ctx_err (A_api A)) (rn_left s) (checkReconciled A jf)
      (map (\<lambda>m. \<lparr>po_obj = m, po_reason = ''not polled yet''\<rparr>) objs) s = (p, s')"
    by (auto simp: waitReconciled_def split: prod.splits option.splits if_splits)
  from poll_until_costs [OF checks_checkReconciled p refl] assms(2) show ?thesis by simp
qed simp

lemma waitUnit_costs [costs]:
  "waitUnit A u s = (r, s') \<Longrightarrow> length (un_objects u) \<le> M \<Longrightarrow> within M 0 1 s s'"
  unfolding waitUnit_def Let_def
  by (cases "un_kind u") (simp_all del: One_nat_def add: waitReady_costs waitReconciled_costs)

subsection \<open>The whole run\<close>

text \<open>The most objects one wait of an installation looks at.\<close>

definition widest :: "engine_install \<Rightarrow> nat" where
  "widest i = Max (insert (length (ei_substrate i)) (insert (length (ei_wiring i)) (insert (length (ei_engineObjects i))
     (set (map (length \<circ> un_objects) (ei_prerequisites i))))))"

lemma widest_ge:
  "length (ei_substrate i) \<le> widest i" "length (ei_wiring i) \<le> widest i" "length (ei_engineObjects i) \<le> widest i"
  "u \<in> set (ei_prerequisites i) \<Longrightarrow> length (un_objects u) \<le> widest i"
  unfolding widest_def by (rule Max_ge; simp)+

lemma Install_phase_costs:
  assumes "Install_phase A objs s = (r, s')" and "length objs \<le> M"
  shows "within M (length objs + 1) 1 s s'"
proof -
  obtain r1 s1 where a: "Apply A objs s = (r1, s1)" by (cases "Apply A objs s")
  obtain r2 s2 where b: "RecordInventory A objs s1 = (r2, s2)" by (cases "RecordInventory A objs s1")
  have "within M 0 1 s2 s'" if "r1 = None" "r2 = None"
    using assms a b that waitReady_costs by (auto simp: Install_phase_def WaitReady_def)
  then have "within M 1 1 s1 s'" if "r1 = None"
    using assms(1) a b that by (cases r2) (auto simp: Install_phase_def intro: within_bind [OF RecordInventory_costs [OF b]])
  then show ?thesis
    using assms(1) a by (cases r1) (auto simp: Install_phase_def intro: within_bind [OF Apply_costs [OF a]])
qed

lemma installPrerequisites_costs:
  "installPrerequisites A applied us s = (r, s') \<Longrightarrow> \<forall>u \<in> set us. length (un_objects u) \<le> M \<Longrightarrow>
     within M (length (units_plan A applied us)) (length us) s s'"
proof (induction us arbitrary: applied s)
  case (Cons u us)
  let ?ap = "applied @ un_objects u"
  obtain r1 s1 where b: "RecordInventory A ?ap s = (r1, s1)" by (cases "RecordInventory A ?ap s")
  obtain r2 s2 where a: "Apply A (un_objects u) s1 = (r2, s2)" by (cases "Apply A (un_objects u) s1")
  obtain r3 s3 where w: "waitUnit A u s2 = (r3, s3)" by (cases "waitUnit A u s2")
  have "within M (length (units_plan A ?ap us)) (length us) s3 s'" if "r1 = None" "r2 = None" "r3 = None"
    using Cons.prems b a w that by (intro Cons.IH) (auto simp: Let_def)
  then have "within M (length (units_plan A ?ap us)) (Suc (length us)) s2 s'" if "r1 = None" "r2 = None"
    using Cons.prems b a w that
    by (cases r3) (auto simp: Let_def intro: within_bind [OF waitUnit_costs [OF w]])
  then have "within M (length (un_objects u) + length (units_plan A ?ap us)) (Suc (length us)) s1 s'" if "r1 = None"
    using Cons.prems b a that
    by (cases r2) (auto simp: Let_def intro: within_bind [OF Apply_costs [OF a]])
  then show ?case
    using Cons.prems b by (cases r1) (auto simp: Let_def intro: within_bind [OF RecordInventory_costs [OF b]])
qed simp

text \<open>The last part of a run: the sync wiring and the waits after it.\<close>

lemma wiring_costs:
  assumes "checkUnits (ei_prerequisites i) = None" and "Install_phase A (ei_substrate i) s = (None, s1)"
    and "installPrerequisites A (ei_substrate i) (ei_prerequisites i) s1 = ((own, None), s2)"
    and "InstallEngine A i s = (r, s')"
  shows "within (widest i) (if ei_wiring i = [] then 0 else length (ei_wiring i) + 1) 2 s2 s'"
proof -
  let ?M = "widest i" and ?wr = "ei_wiring i" and ?j = "ei_reconciled i"
  note W = waitReconciled_costs [where M = ?M]
  have last: "within ?M 0 1 t t'" if "WaitReconciled A (ei_engineObjects i) ?j t = (x, t')" for t x t'
    using W that widest_ge(3) unfolding WaitReconciled_def by blast
  show ?thesis
  proof (cases "?wr = []")
    case True
    with assms have "WaitReconciled A (ei_engineObjects i) ?j s2 = (r, s')" by (simp add: InstallEngine_def)
    from within_mono [OF last [OF this]] show ?thesis by simp
  next
    case False
    obtain r3 s3 where b: "RecordInventory A (own @ ?wr) s2 = (r3, s3)" by (cases "RecordInventory A (own @ ?wr) s2")
    obtain r4 s4 where a: "Apply A ?wr s3 = (r4, s4)" by (cases "Apply A ?wr s3")
    obtain r5 s5 where w: "WaitReconciled A ?wr ?j s4 = (r5, s5)" by (cases "WaitReconciled A ?wr ?j s4")
    have "InstallEngine A i s = (case r3 of Some e \<Rightarrow> (Some e, s3) | None \<Rightarrow> (case r4 of Some e \<Rightarrow> (Some e, s4) | None \<Rightarrow>
        (case r5 of Some e \<Rightarrow> (Some e, s5) | None \<Rightarrow> WaitReconciled A (ei_engineObjects i) ?j s5)))"
      using assms(1-3) False b a w by (cases r3; cases r4; cases r5) (simp_all add: InstallEngine_def)
    with assms(4) have run: "(r, s') = (case r3 of Some e \<Rightarrow> (Some e, s3) | None \<Rightarrow> (case r4 of Some e \<Rightarrow> (Some e, s4) | None \<Rightarrow>
        (case r5 of Some e \<Rightarrow> (Some e, s5) | None \<Rightarrow> WaitReconciled A (ei_engineObjects i) ?j s5)))" by simp
    have "within ?M 0 1 s4 s5" using W w widest_ge(2) unfolding WaitReconciled_def by blast
    then have "within ?M 0 2 s4 s'" if "r3 = None" "r4 = None"
    proof (cases r5)
      case None
      with run that have "WaitReconciled A (ei_engineObjects i) ?j s5 = (r, s')" by simp
      from within_bind [OF \<open>within ?M 0 1 s4 s5\<close> last [OF this]] show ?thesis by simp
    next
      case (Some e)
      with run that within_mono [OF \<open>within ?M 0 1 s4 s5\<close>] show ?thesis by simp
    qed
    then have "within ?M (length ?wr) 2 s3 s'" if "r3 = None"
      using run that within_bind [OF Apply_costs [OF a]] within_mono [OF Apply_costs [OF a]] by (cases r4) auto
    then have "within ?M (length ?wr + 1) 2 s2 s'"
      using run within_bind [OF RecordInventory_costs [OF b]] within_mono [OF RecordInventory_costs [OF b]]
      by (cases r3) auto
    with False show ?thesis by simp
  qed
qed

text \<open>
  C3. An installation always comes to an end, and its cost is bounded before it starts: whatever the
  cluster answers, the budget only shrinks, and the requests of the run are at most the
  applications of the plan, and one pass over the widest set of waited-for objects for every wait
  and for every interval that was spent.
\<close>

theorem InstallEngine_bounded:
  "let s' = snd (InstallEngine A i s)
   in rn_left s' \<le> rn_left s \<and>
      length (rn_log s') \<le> length (rn_log s) + length (install_plan A i) +
        (rn_left s - rn_left s' + (length (ei_prerequisites i) + 3)) * widest i"
proof -
  let ?M = "widest i" and ?sub = "ei_substrate i" and ?us = "ei_prerequisites i" and ?wr = "ei_wiring i"
  let ?wp = "if ?wr = [] then 0 else length ?wr + 1"
  obtain r s' where i: "InstallEngine A i s = (r, s')" by (cases "InstallEngine A i s")
  obtain r1 s1 where p: "Install_phase A ?sub s = (r1, s1)" by (cases "Install_phase A ?sub s")
  obtain own r2 s2 where u: "installPrerequisites A ?sub ?us s1 = ((own, r2), s2)"
    by (cases "installPrerequisites A ?sub ?us s1") (metis prod.collapse)
  have wiring: "within ?M ?wp 2 s2 s'" if "checkUnits ?us = None" "r1 = None" "r2 = None"
    using wiring_costs [of i A s s1 own s2 r s'] p u i that by simp
  have units: "within ?M (length (units_plan A ?sub ?us)) (length ?us) s1 s2"
    using installPrerequisites_costs [OF u] widest_ge(4) by blast
  have "within ?M (length (units_plan A ?sub ?us) + ?wp) (length ?us + 2) s1 s'" if "checkUnits ?us = None" "r1 = None"
    using i p u that within_mono [OF units] within_bind [OF units wiring]
    by (cases r2) (auto simp: InstallEngine_def simp del: Suc_eq_plus1)
  then have "within ?M (length ?sub + 1 + (length (units_plan A ?sub ?us) + ?wp)) (length ?us + 3) s s'" if "checkUnits ?us = None"
    using i p that within_mono [OF Install_phase_costs [OF p widest_ge(1)]] within_bind [OF Install_phase_costs [OF p widest_ge(1)]]
    by (cases r1) (auto simp: InstallEngine_def)
  moreover have "s' = s" if "checkUnits ?us = Some e" for e using i that by (simp add: InstallEngine_def)
  ultimately have "within ?M (length (install_plan A i)) (length ?us + 3) s s'"
    by (cases "checkUnits ?us") (auto simp: install_plan_def)
  then show ?thesis unfolding i Let_def snd_conv within_def .
qed

end
