(* ===== verification/EngineConformance.thy ===== *)
theory EngineConformance
  imports CliBootstrap "HOL-Library.Multiset"
begin

section \<open>The engine conformance suite (\<open>internal/engine\<close>: conformance.go, fixtures.go)\<close>

text \<open>
  The suite the domain ships for its drivers, as a function of a driver and its fixtures: the first
  assertion that fails ends it, so its result is \<open>None\<close> or the message of that assertion (without
  the values it prints). A fixture that is a nil pointer is \<open>None\<close>; a driver of the model returns no
  nil object, so the suite's test for one in a driver's answer has no counterpart. \<open>reflect.DeepEqual\<close>
  compares maps whatever their order: \<open>canon\<close> sorts their keys, at every depth.
\<close>

subsection \<open>Assertions\<close>

type_synonym verdict = "string option"

definition and_then :: "verdict \<Rightarrow> verdict \<Rightarrow> verdict" where
  "and_then a b = (case a of Some msg \<Rightarrow> Some msg | None \<Rightarrow> b)"

fun each :: "('a \<Rightarrow> verdict) \<Rightarrow> 'a list \<Rightarrow> verdict" where
  "each f [] = None"
| "each f (x # xs) = and_then (f x) (each f xs)"

lemma and_then_None [simp]: "and_then a b = None \<longleftrightarrow> a = None \<and> b = None"
  by (simp add: and_then_def split: option.split)

lemma each_None [simp]: "each f xs = None \<longleftrightarrow> (\<forall>x \<in> set xs. f x = None)"
  by (induction xs) auto

subsection \<open>Fixtures\<close>

record source_fixture =
  sf_Name :: string
  sf_Spec :: engine_spec
  sf_Want :: "obj option list"

record status_fixtures =
  st_Ready :: "obj option"
  st_NotReady :: "obj option"
  st_Stale :: "obj option"
  st_UnknownStatus :: "obj option"
  st_Unrecognized :: "obj option"

record invalid_spec_fixture =
  iv_Name :: string
  iv_Spec :: engine_spec
  iv_Code :: code

record fixtures =
  fx_NoSource :: engine_spec
  fx_Sources :: "source_fixture list"
  fx_Statuses :: status_fixtures
  fx_ValidSpecs :: "engine_spec list"
  fx_InvalidSpecs :: "invalid_spec_fixture list"

text \<open>The driver with the rest of its seam: its namespace and the optional \<open>SpecValidator\<close>.\<close>

record conf_driver = engine_driver +
  ep_EngineNamespace :: string
  ep_ValidateSpec :: "(engine_spec \<Rightarrow> err option) option"

subsection \<open>The suite\<close>

definition identityKey :: "unstr \<Rightarrow> obj \<Rightarrow> string" where
  "identityKey U m = u_apiVersion U m @ '' '' @ u_kind U m @ '' '' @ u_namespace U m @ ''/'' @ u_name U m"

fun canon :: "val \<Rightarrow> val" where
  "canon (VArr xs) = VArr (map canon xs)"
| "canon (VObj m) = VObj (sort_key fst (map (\<lambda>(k, v). (k, canon v)) m))"
| "canon v = v"

definition assertNoSource :: "conf_driver \<Rightarrow> engine_spec \<Rightarrow> verdict" where
  "assertNoSource P spec =
     (if en_source spec \<noteq> None then Some ''fixture NoSource must not configure spec.source''
      else case ep_SourceObjects P spec of
          Inl e \<Rightarrow> Some ''SourceObjects (no source)''
        | Inr objs \<Rightarrow> if length objs \<noteq> 0 then Some ''SourceObjects (no source): want none'' else None)"

definition assertDeclaredObjects :: "unstr \<Rightarrow> conf_driver \<Rightarrow> obj list \<Rightarrow> verdict" where
  "assertDeclaredObjects U P objs =
     each (\<lambda>m. if u_apiVersion U m = '''' \<or> u_kind U m = '''' \<or> u_name U m = '''' then Some ''lacks a declared identity''
               else case ep_Reconciled P m of Inl e \<Rightarrow> Some ''not recognized by Reconciled'' | Inr _ \<Rightarrow> None) objs"

fun match_loop :: "unstr \<Rightarrow> (string, obj) gomap \<Rightarrow> obj list \<Rightarrow> verdict" where
  "match_loop U byID [] = None"
| "match_loop U byID (g # gs) =
     (case map_of byID (identityKey U g) of
        None \<Rightarrow> Some ''declared unexpected object''
      | Some w \<Rightarrow>
          if canon (VObj g) \<noteq> canon (VObj w) then Some ''differs from the fixture's expected object''
          else match_loop U (AList.delete (identityKey U g) byID) gs)"

definition by_identity :: "unstr \<Rightarrow> obj list \<Rightarrow> (string, obj) gomap" where
  "by_identity U ws = fold (\<lambda>w m. AList.update (identityKey U w) w m) ws []"

definition assertObjectsMatch :: "unstr \<Rightarrow> obj list \<Rightarrow> obj option list \<Rightarrow> verdict" where
  "assertObjectsMatch U got want =
     (if None \<in> set want then Some ''expected object is nil''
      else let byID = by_identity U (map the want)
           in if length byID \<noteq> length want then Some ''fixture declares duplicate expected identities''
              else if length got \<noteq> length want then Some ''want another number of objects''
              else match_loop U byID got)"

definition assertSources :: "unstr \<Rightarrow> conf_driver \<Rightarrow> source_fixture list \<Rightarrow> verdict" where
  "assertSources U P sources =
     (if length sources = 0 then Some ''fixtures must supply at least one configured-source spec''
      else each (\<lambda>s.
        if en_source (sf_Spec s) = None then Some ''source fixture must configure spec.source''
        else if length (sf_Want s) = 0 then Some ''source fixture must declare its expected objects''
        else case ep_SourceObjects P (sf_Spec s) of
            Inl e \<Rightarrow> Some ''SourceObjects''
          | Inr objs \<Rightarrow> and_then (assertDeclaredObjects U P objs) (assertObjectsMatch U objs (sf_Want s))) sources)"

definition assertEngineBundle :: "unstr \<Rightarrow> conf_driver \<Rightarrow> engine_spec \<Rightarrow> verdict" where
  "assertEngineBundle U P spec =
     (case ep_EngineObjects P spec of
        Inl e \<Rightarrow> Some ''EngineObjects''
      | Inr objs \<Rightarrow>
          if length objs = 0 then None
          else and_then (assertDeclaredObjects U P objs)
            (if list_ex (\<lambda>m. u_kind U m = ''Namespace'' \<and> u_name U m = ep_EngineNamespace P) objs then None
             else Some ''non-empty bundle has no Namespace object''))"

definition assertUnrecognized :: "conf_driver \<Rightarrow> obj option \<Rightarrow> verdict" where
  "assertUnrecognized P x =
     (case x of
        None \<Rightarrow> Some ''status fixture Unrecognized is required''
      | Some m \<Rightarrow>
          (case ep_Reconciled P m of
             Inr _ \<Rightarrow> Some ''Reconciled(Unrecognized): want *cubeerr.Coded''
           | Inl e \<Rightarrow>
               (case err_code e of
                  None \<Rightarrow> Some ''Reconciled(Unrecognized): want *cubeerr.Coded''
                | Some c \<Rightarrow> if c \<noteq> EngineFlux.CodeUnrecognizedObject then Some ''code'' else None)))"

definition status_case :: "conf_driver \<Rightarrow> obj option \<times> bool \<Rightarrow> verdict" where
  "status_case P c =
     (case fst c of
        None \<Rightarrow> Some ''status fixture is required''
      | Some m \<Rightarrow>
          (case ep_Reconciled P m of
             Inl e \<Rightarrow> Some ''Reconciled''
           | Inr (got, reason) \<Rightarrow>
               if got \<noteq> snd c then Some ''Reconciled: wrong judgment''
               else if \<not> snd c \<and> reason = '''' then Some ''Reconciled gave no reason'' else None))"

definition assertStatusJudgments :: "conf_driver \<Rightarrow> status_fixtures \<Rightarrow> verdict" where
  "assertStatusJudgments P fx =
     and_then (each (status_case P) [(st_Ready fx, True), (st_NotReady fx, False), (st_Stale fx, False), (st_UnknownStatus fx, False)])
       (assertUnrecognized P (st_Unrecognized fx))"

definition assertSpecValidation :: "conf_driver \<Rightarrow> fixtures \<Rightarrow> verdict" where
  "assertSpecValidation P fx =
     (case ep_ValidateSpec P of
        None \<Rightarrow>
          if length (fx_ValidSpecs fx) + length (fx_InvalidSpecs fx) > 0
          then Some ''spec fixtures supplied but the driver does not implement SpecValidator'' else None
      | Some v \<Rightarrow>
          if length (fx_ValidSpecs fx) = 0 \<or> length (fx_InvalidSpecs fx) = 0
          then Some ''SpecValidator drivers must supply at least one valid and one invalid spec fixture''
          else and_then (each (\<lambda>s. if v s \<noteq> None then Some ''ValidateSpec(valid)'' else None) (fx_ValidSpecs fx))
            (each (\<lambda>s. case v (iv_Spec s) of
                None \<Rightarrow> Some ''ValidateSpec: want *cubeerr.Coded''
              | Some e \<Rightarrow>
                  (case err_code e of
                     None \<Rightarrow> Some ''ValidateSpec: want *cubeerr.Coded''
                   | Some c \<Rightarrow> if c \<noteq> iv_Code s then Some ''ValidateSpec: code'' else None)) (fx_InvalidSpecs fx)))"

definition RunEngineConformance :: "unstr \<Rightarrow> conf_driver \<Rightarrow> fixtures \<Rightarrow> verdict" where
  "RunEngineConformance U P fx =
     and_then (if ep_EngineNamespace P = '''' then Some ''EngineNamespace() is empty'' else None)
    (and_then (assertNoSource P (fx_NoSource fx))
    (and_then (assertSources U P (fx_Sources fx))
    (and_then (assertEngineBundle U P (fx_NoSource fx))
    (and_then (each (\<lambda>s. assertEngineBundle U P (sf_Spec s)) (fx_Sources fx))
    (and_then (assertStatusJudgments P (fx_Statuses fx))
      (assertSpecValidation P fx))))))"

subsection \<open>What the matching of objects decides\<close>

text \<open>An object as the suite sees it: its identity and its content, whatever the order of its keys.\<close>

definition seen_as :: "unstr \<Rightarrow> obj \<Rightarrow> string \<times> val" where
  "seen_as U m = (identityKey U m, canon (VObj m))"

lemma update_fresh: "k \<notin> fst ` set al \<Longrightarrow> AList.update k v al = al @ [(k, v)]"
  by (induction al) auto

lemma by_identity_fold:
  "distinct (map (identityKey U) ws) \<Longrightarrow> fst ` set m \<inter> identityKey U ` set ws = {} \<Longrightarrow>
     fold (\<lambda>w m. AList.update (identityKey U w) w m) ws m = m @ map (\<lambda>w. (identityKey U w, w)) ws"
proof (induction ws arbitrary: m)
  case (Cons w ws)
  from Cons.prems have "AList.update (identityKey U w) w m = m @ [(identityKey U w, w)]"
    by (intro update_fresh) auto
  moreover have "fst ` set (m @ [(identityKey U w, w)]) \<inter> identityKey U ` set ws = {}"
    using Cons.prems by auto
  ultimately show ?case using Cons.IH Cons.prems(1) by simp
qed simp

lemma by_identity_keys:
  "distinct (map fst m) \<Longrightarrow> distinct (map fst (fold (\<lambda>w m. AList.update (identityKey U w) w m) ws m)) \<and>
     fst ` set (fold (\<lambda>w m. AList.update (identityKey U w) w m) ws m) = fst ` set m \<union> identityKey U ` set ws"
proof (induction ws arbitrary: m)
  case (Cons w ws)
  have "distinct (map fst (AList.update (identityKey U w) w m))" using Cons.prems by (rule distinct_update)
  from Cons.IH [OF this] show ?case by (simp add: dom_update)
qed simp

lemma by_identity_length: "length (by_identity U ws) = length ws \<longleftrightarrow> distinct (map (identityKey U) ws)"
proof
  assume l: "length (by_identity U ws) = length ws"
  have k: "distinct (map fst (by_identity U ws))" "fst ` set (by_identity U ws) = identityKey U ` set ws"
    using by_identity_keys [of "[]" U ws] by (simp_all add: by_identity_def)
  then have "card (set (map (identityKey U) ws)) = length (map (identityKey U) ws)"
    using distinct_card [OF k(1)] l by simp
  then show "distinct (map (identityKey U) ws)" by (rule card_distinct)
qed (simp add: by_identity_def by_identity_fold)

lemma mset_delete:
  "distinct (map fst m) \<Longrightarrow> map_of m k = Some w \<Longrightarrow> mset m = add_mset (k, w) (mset (AList.delete k m))"
proof (induction m)
  case (Cons x m)
  show ?case
  proof (cases "fst x = k")
    case True
    with Cons.prems have "AList.delete k m = m" "x = (k, w)" by (cases x, force)+
    with True show ?thesis by simp
  next
    case False
    with Cons show ?thesis by (cases x) auto
  qed
qed simp

lemma match_loop_None:
  assumes "distinct (map fst m)" and "\<forall>(k, w) \<in> set m. k = identityKey U w"
  shows "match_loop U m gs = None \<longleftrightarrow> mset (map (seen_as U) gs) \<subseteq># mset (map (seen_as U \<circ> snd) m)"
  using assms
proof (induction gs arbitrary: m)
  case (Cons g gs)
  let ?F = "seen_as U \<circ> snd"
  show ?case
  proof (cases "map_of m (identityKey U g)")
    case None
    then have "identityKey U g \<notin> fst ` set m" by (simp add: map_of_eq_None_iff)
    with Cons.prems(2) have "seen_as U g \<notin> ?F ` set m" by (force simp: seen_as_def)
    then have "seen_as U g \<notin># mset (map ?F m)" by simp
    then show ?thesis using None mset_subset_eqD by fastforce
  next
    case (Some w)
    have mem: "(identityKey U g, w) \<in> set m" using Some by (rule map_of_SomeD)
    with Cons.prems(2) have w: "identityKey U w = identityKey U g" by auto
    note split = mset_delete [OF Cons.prems(1) Some]
    have rest: "match_loop U (AList.delete (identityKey U g) m) gs = None \<longleftrightarrow>
        mset (map (seen_as U) gs) \<subseteq># mset (map ?F (AList.delete (identityKey U g) m))"
      using Cons.prems by (intro Cons.IH distinct_delete) (auto simp: AList.delete_eq)
    have all: "mset (map ?F m) = add_mset (seen_as U w) (mset (map ?F (AList.delete (identityKey U g) m)))"
      using split by (simp only: mset_map image_mset_add_mset) simp
    show ?thesis
    proof (cases "canon (VObj g) = canon (VObj w)")
      case True
      then have e: "seen_as U g = seen_as U w" by (simp add: seen_as_def w)
      have "match_loop U m (g # gs) = match_loop U (AList.delete (identityKey U g) m) gs"
        using Some True by simp
      then show ?thesis
        unfolding all by (simp only: rest list.map mset.simps e mset_subset_eq_add_mset_cancel)
    next
      case False
      have "seen_as U g \<notin># mset (map ?F m)"
      proof
        assume "seen_as U g \<in># mset (map ?F m)"
        then obtain k w' where kw: "(k, w') \<in> set m" "seen_as U w' = seen_as U g" by (auto simp: image_iff)
        with Cons.prems(2) have "k = identityKey U g" by (auto simp: seen_as_def)
        with kw(1) Some Cons.prems(1) have "w' = w" by (simp add: map_of_is_SomeI)
        with kw(2) False show False by (simp add: seen_as_def)
      qed
      then show ?thesis using Some False mset_subset_eqD by fastforce
    qed
  qed
qed simp

lemma assertObjectsMatch_None:
  "assertObjectsMatch U got want = None \<longleftrightarrow>
     (\<exists>ws. want = map Some ws \<and> distinct (map (identityKey U) ws) \<and> mset (map (seen_as U) got) = mset (map (seen_as U) ws))"
proof (cases "None \<in> set want")
  case True
  then show ?thesis by (auto simp: assertObjectsMatch_def)
next
  case False
  define ws where "ws = map the want"
  from False have ws: "want = map Some ws" unfolding ws_def by (induction want) auto
  show ?thesis
  proof (cases "distinct (map (identityKey U) ws)")
    case True
    then have by_id: "by_identity U ws = map (\<lambda>w. (identityKey U w, w)) ws"
      by (simp add: by_identity_def by_identity_fold)
    have loop: "match_loop U (by_identity U ws) got = None \<longleftrightarrow> mset (map (seen_as U) got) \<subseteq># mset (map (seen_as U) ws)"
      using True by (subst match_loop_None) (auto simp: by_id comp_def)
    have "mset (map (seen_as U) got) \<subseteq># mset (map (seen_as U) ws) \<and> length got = length ws \<longleftrightarrow>
        mset (map (seen_as U) got) = mset (map (seen_as U) ws)"
    proof (intro iffI conjI)
      assume sub: "mset (map (seen_as U) got) \<subseteq># mset (map (seen_as U) ws) \<and> length got = length ws"
      then have "mset (map (seen_as U) ws) - mset (map (seen_as U) got) = {#}"
        using size_Diff_submset [of "mset (map (seen_as U) got)" "mset (map (seen_as U) ws)"] by (metis cancel_comm_monoid_add_class.diff_cancel length_map size_eq_0_iff_empty size_mset)
      with sub show "mset (map (seen_as U) got) = mset (map (seen_as U) ws)" by (metis Diff_eq_empty_iff_mset subset_mset.antisym)
    qed (auto dest: arg_cong [where f = size])
    moreover have "assertObjectsMatch U got want = None \<longleftrightarrow>
        mset (map (seen_as U) got) \<subseteq># mset (map (seen_as U) ws) \<and> length got = length ws"
      using loop by (auto simp: assertObjectsMatch_def ws Let_def comp_def by_id)
    moreover have inj: "want = map Some ws' \<longleftrightarrow> ws' = ws" for ws' by (auto simp: ws inj_map_eq_map)
    ultimately show ?thesis unfolding inj using True by simp
  next
    case dup: False
    then have "length (by_identity U ws) \<noteq> length ws" by (simp add: by_identity_length)
    then have "assertObjectsMatch U got want \<noteq> None" by (simp add: assertObjectsMatch_def ws comp_def)
    moreover have "ws' = ws" if "want = map Some ws'" for ws' using that by (simp add: ws_def comp_def)
    ultimately show ?thesis using dup by blast
  qed
qed

subsection \<open>The Flux driver conforms\<close>

definition flux_provider :: "ustatus \<Rightarrow> conf_driver" where
  "flux_provider S =
     \<lparr>ep_SourceObjects = SourceObjects, ep_EngineObjects = EngineObjects, ep_Reconciled = flux_Reconciled std_unstr S,
      ep_EngineNamespace = EngineNamespace, ep_ValidateSpec = None\<rparr>"

lemma flux_provider_simps [simp]:
  "ep_SourceObjects (flux_provider S) = SourceObjects" "ep_EngineObjects (flux_provider S) = EngineObjects"
  "ep_Reconciled (flux_provider S) = flux_Reconciled std_unstr S" "ep_EngineNamespace (flux_provider S) = EngineNamespace"
  "ep_ValidateSpec (flux_provider S) = None"
  by (simp_all add: flux_provider_def)

lemma sourceCR_object:
  assumes "sourceCR src = Inr source"
  obtains kind spec where "kind = ''GitRepository'' \<or> kind = ''OCIRepository''" "source = wiring_object sourceAPIVersion kind spec"
  using assms by (auto simp: sourceCR_def Let_def split: if_splits)

lemma wiring_identity:
  "identityKey std_unstr (wiring_object av kind spec) = av @ '' '' @ kind @ '' flux-system/flux-system''"
  "u_apiVersion std_unstr (wiring_object av kind spec) = av" "u_kind std_unstr (wiring_object av kind spec) = kind"
  "u_name std_unstr (wiring_object av kind spec) = wiringName"
  by (simp_all add: identityKey_def wiring_object_def std_unstr_def wiringName_def substrate_Namespace_def)

lemma flux_wiring:
  assumes "sourceCR src = Inr source"
  shows "flux_recognized std_unstr source" "flux_recognized std_unstr (kustomizationCR src)"
    and "assertDeclaredObjects std_unstr (flux_provider S) [source, kustomizationCR src] = None"
    and "distinct (map (identityKey std_unstr) [source, kustomizationCR src])"
proof -
  from assms obtain kind spec where k: "kind = ''GitRepository'' \<or> kind = ''OCIRepository''"
    and s: "source = wiring_object sourceAPIVersion kind spec" by (rule sourceCR_object)
  show r: "flux_recognized std_unstr source" "flux_recognized std_unstr (kustomizationCR src)"
    using k by (auto simp: s flux_recognized_def kustomizationCR_def wiring_identity sourceAPIVersion_def kustomizeAPIVersion_def)
  then show "assertDeclaredObjects std_unstr (flux_provider S) [source, kustomizationCR src] = None"
    using k flux.judge_covered [of std_unstr source S] flux.judge_covered [of std_unstr "kustomizationCR src" S]
    by (auto simp: s assertDeclaredObjects_def kustomizationCR_def wiring_identity sourceAPIVersion_def kustomizeAPIVersion_def wiringName_def)
  show "distinct (map (identityKey std_unstr) [source, kustomizationCR src])"
    using k by (auto simp: s kustomizationCR_def wiring_identity sourceAPIVersion_def kustomizeAPIVersion_def)
qed

lemma flux_source_case:
  assumes "en_source spec = Some src" and "want \<noteq> []"
  shows "(case SourceObjects spec of Inl e \<Rightarrow> Some ''SourceObjects''
      | Inr objs \<Rightarrow> and_then (assertDeclaredObjects std_unstr (flux_provider S) objs) (assertObjectsMatch std_unstr objs want)) = None \<longleftrightarrow>
    (\<exists>source ws. es_url src \<noteq> '''' \<and> sourceCR src = Inr source \<and> want = map Some ws \<and>
       mset (map (seen_as std_unstr) ws) = mset (map (seen_as std_unstr) [source, kustomizationCR src]))"
proof (cases "es_url src = '''' \<or> (\<exists>e. sourceCR src = Inl e)")
  case True
  with assms show ?thesis by (auto simp: SourceObjects_def assertObjectsMatch_None)
next
  case False
  then obtain source where s: "es_url src \<noteq> ''''" "sourceCR src = Inr source" by (cases "sourceCR src") auto
  have "distinct (map (identityKey std_unstr) ws)"
    if "mset (map (seen_as std_unstr) ws) = mset (map (seen_as std_unstr) [source, kustomizationCR src])" for ws
  proof -
    from that have "image_mset fst (mset (map (seen_as std_unstr) ws)) =
        image_mset fst (mset (map (seen_as std_unstr) [source, kustomizationCR src]))" by (rule arg_cong)
    then have "mset (map (identityKey std_unstr) ws) = mset (map (identityKey std_unstr) [source, kustomizationCR src])"
      by (simp add: multiset.map_comp comp_def seen_as_def)
    with flux_wiring(4) [OF s(2)] show ?thesis using mset_eq_imp_distinct_iff by blast
  qed
  moreover have "SourceObjects spec = Inr [source, kustomizationCR src]" using assms s by (simp add: SourceObjects_def)
  ultimately show ?thesis
    using s flux_wiring(3) [OF s(2), of S] by (auto simp: assertObjectsMatch_None simp del: mset_map list.map mset.simps)
qed

lemma flux_status_case:
  "status_case (flux_provider S) (x, want) = None \<longleftrightarrow>
     (\<exists>m. x = Some m \<and> flux_recognized std_unstr m \<and> ready_now std_unstr S m = want)"
proof (cases x)
  case (Some m)
  show ?thesis
  proof (cases "flux_recognized std_unstr m")
    case True
    then obtain ok why where j: "flux_Reconciled std_unstr S m = Inr (ok, why)" using flux.judge_covered by blast
    have "ok = ready_now std_unstr S m" using flux.judge_iff [of std_unstr S m] j True by auto
    moreover have "\<not> ok \<Longrightarrow> why \<noteq> ''''"
      using j True by (auto simp: flux_Reconciled_def judge_status_def readyCondition_def describeCondition_def Let_def
          split: option.splits if_splits)
    ultimately show ?thesis using Some True j by (auto simp: status_case_def)
  next
    case False
    with Some flux.judge_uncovered [OF False, of S] show ?thesis by (auto simp: status_case_def)
  qed
qed (simp add: status_case_def)

lemma flux_unrecognized:
  "assertUnrecognized (flux_provider S) x = None \<longleftrightarrow> (\<exists>m. x = Some m \<and> \<not> flux_recognized std_unstr m)"
proof (cases x)
  case (Some m)
  then show ?thesis
    using flux.judge_covered [of std_unstr m S]
    by (auto simp: assertUnrecognized_def flux_Reconciled_def NewUnrecognizedObjectError_def)
qed (simp add: assertUnrecognized_def)

text \<open>
  C23. The Flux driver meets the contract of its domain. The conformance suite passes on it exactly
  for the fixtures that describe Flux: a spec without a source; at least one with a source, each
  with a url and a kind Flux knows, whose expected objects are the source object and its
  Kustomization in some order; a current Ready object, three that Flux recognizes and that are not
  ready now, one that it does not recognize; and no specs to validate. So no set of fixtures that
  states the contract truthfully makes the driver fail, and none that misstates it passes.
\<close>

theorem flux_conforms:
  "RunEngineConformance std_unstr (flux_provider S) fx = None \<longleftrightarrow>
     en_source (fx_NoSource fx) = None \<and>
     fx_Sources fx \<noteq> [] \<and>
     (\<forall>s \<in> set (fx_Sources fx). \<exists>src source ws. en_source (sf_Spec s) = Some src \<and> es_url src \<noteq> '''' \<and>
        sourceCR src = Inr source \<and> sf_Want s = map Some ws \<and>
        mset (map (seen_as std_unstr) ws) = mset (map (seen_as std_unstr) [source, kustomizationCR src])) \<and>
     (\<exists>m. st_Ready (fx_Statuses fx) = Some m \<and> flux_recognized std_unstr m \<and> ready_now std_unstr S m) \<and>
     (\<forall>x \<in> {st_NotReady (fx_Statuses fx), st_Stale (fx_Statuses fx), st_UnknownStatus (fx_Statuses fx)}.
        \<exists>m. x = Some m \<and> flux_recognized std_unstr m \<and> \<not> ready_now std_unstr S m) \<and>
     (\<exists>m. st_Unrecognized (fx_Statuses fx) = Some m \<and> \<not> flux_recognized std_unstr m) \<and>
     fx_ValidSpecs fx = [] \<and> fx_InvalidSpecs fx = []"
proof -
  let ?P = "flux_provider S"
  have ns: "EngineNamespace \<noteq> ''''" by (simp add: EngineNamespace_def substrate_Namespace_def)
  have empty: "assertEngineBundle std_unstr ?P spec = None" for spec by (simp add: assertEngineBundle_def EngineObjects_def)
  have no: "assertNoSource ?P spec = None \<longleftrightarrow> en_source spec = None" for spec
    by (simp add: assertNoSource_def SourceObjects_def)
  have sources: "assertSources std_unstr ?P ss = None \<longleftrightarrow> ss \<noteq> [] \<and>
      (\<forall>s \<in> set ss. \<exists>src source ws. en_source (sf_Spec s) = Some src \<and> es_url src \<noteq> '''' \<and>
        sourceCR src = Inr source \<and> sf_Want s = map Some ws \<and>
        mset (map (seen_as std_unstr) ws) = mset (map (seen_as std_unstr) [source, kustomizationCR src]))" for ss
  proof -
    have "(if en_source (sf_Spec s) = None then Some ''source fixture must configure spec.source''
        else if length (sf_Want s) = 0 then Some ''source fixture must declare its expected objects''
        else case SourceObjects (sf_Spec s) of Inl e \<Rightarrow> Some ''SourceObjects''
          | Inr objs \<Rightarrow> and_then (assertDeclaredObjects std_unstr ?P objs) (assertObjectsMatch std_unstr objs (sf_Want s))) = None \<longleftrightarrow>
      (\<exists>src source ws. en_source (sf_Spec s) = Some src \<and> es_url src \<noteq> '''' \<and> sourceCR src = Inr source \<and> sf_Want s = map Some ws \<and>
        mset (map (seen_as std_unstr) ws) = mset (map (seen_as std_unstr) [source, kustomizationCR src]))" for s
      using flux_source_case [of "sf_Spec s" _ "sf_Want s" S] by (cases "en_source (sf_Spec s)"; cases "sf_Want s = []") auto
    note step = this [unfolded length_0_conv]
    show ?thesis
      by (cases "ss = []")
        (simp_all only: assertSources_def flux_provider_simps length_0_conv if_True if_False each_None step simp_thms option.distinct)
  qed
  show ?thesis
    by (simp add: RunEngineConformance_def ns empty no sources assertStatusJudgments_def flux_status_case flux_unrecognized
        assertSpecValidation_def conj_assoc)
qed

subsection \<open>Fixtures the suite passes on\<close>

definition git_source :: engine_source where
  "git_source = \<lparr>es_kind = EngineSourceGit, es_url = ''https://example.com/r.git'', es_ref = ''main'', es_path = ''./clusters'',
     es_interval = ''1m''\<rparr>"

definition git_repo_status :: "int \<Rightarrow> int \<Rightarrow> string \<Rightarrow> obj" where
  "git_repo_status gen observed status =
     [(''apiVersion'', VStr sourceAPIVersion), (''kind'', VStr ''GitRepository''),
      (''metadata'', VObj [(''name'', VStr wiringName), (''generation'', VInt gen)]),
      (''status'', VObj [(''observedGeneration'', VInt observed),
        (''conditions'', VArr [VObj [(''type'', VStr ''Ready''), (''status'', VStr status)]])])]"

definition flux_fixtures :: fixtures where
  "flux_fixtures =
     \<lparr>fx_NoSource = \<lparr>en_provider = ''flux'', en_version = '''', en_source = None\<rparr>,
      fx_Sources = [\<lparr>sf_Name = ''git'', sf_Spec = \<lparr>en_provider = ''flux'', en_version = '''', en_source = Some git_source\<rparr>,
        sf_Want = [Some (kustomizationCR git_source),
          Some (wiring_object sourceAPIVersion ''GitRepository''
            [(''url'', VStr ''https://example.com/r.git''), (''ref'', VObj [(''branch'', VStr ''main'')]), (''interval'', VStr ''1m'')])]\<rparr>],
      fx_Statuses = \<lparr>st_Ready = Some (git_repo_status 2 2 ''True''), st_NotReady = Some (git_repo_status 2 2 ''False''),
        st_Stale = Some (git_repo_status 2 1 ''True''), st_UnknownStatus = Some (kustomizationCR git_source),
        st_Unrecognized = Some [(''apiVersion'', VStr ''v1''), (''kind'', VStr ''ConfigMap'')]\<rparr>,
      fx_ValidSpecs = [], fx_InvalidSpecs = []\<rparr>"

lemma git_repo_judged:
  "flux_recognized std_unstr (git_repo_status gen observed status)"
  "ready_now std_unstr std_status (git_repo_status gen observed status) \<longleftrightarrow> status = ''True'' \<and> observed = gen"
  by (auto simp: git_repo_status_def flux_recognized_def ready_now_def std_unstr_def std_status_def conditions_of_def)

theorem flux_conforms_witness:
  "RunEngineConformance std_unstr (flux_provider std_status) flux_fixtures = None"
proof -
  let ?want = "wiring_object sourceAPIVersion ''GitRepository''
    [(''url'', VStr ''https://example.com/r.git''), (''ref'', VObj [(''branch'', VStr ''main'')]), (''interval'', VStr ''1m'')]"
  obtain source where s: "sourceCR git_source = Inr source" "source = wiring_object sourceAPIVersion ''GitRepository''
      [(''interval'', VStr ''1m''), (''url'', VStr ''https://example.com/r.git''), (''ref'', VObj [(''branch'', VStr ''main'')])]"
    by (simp add: sourceCR_def git_source_def)
  have "seen_as std_unstr ?want = seen_as std_unstr source"
    unfolding seen_as_def s(2) wiring_identity by (simp add: wiring_object_def)
  then have m: "mset (map (seen_as std_unstr) [kustomizationCR git_source, ?want]) =
      mset (map (seen_as std_unstr) [source, kustomizationCR git_source])" by simp
  have k: "flux_recognized std_unstr (kustomizationCR git_source)" "\<not> ready_now std_unstr std_status (kustomizationCR git_source)"
    using flux_wiring(2) [OF s(1)] by (auto simp: ready_now_def conditions_of_def std_status_def kustomizationCR_def wiring_object_def)
  have u: "\<not> flux_recognized std_unstr [(''apiVersion'', VStr ''v1''), (''kind'', VStr ''ConfigMap'')]"
    by (simp add: flux_recognized_def std_unstr_def sourceAPIVersion_def kustomizeAPIVersion_def)
  have "\<exists>src source' ws. en_source (sf_Spec f) = Some src \<and> es_url src \<noteq> '''' \<and> sourceCR src = Inr source' \<and>
      sf_Want f = map Some ws \<and> mset (map (seen_as std_unstr) ws) = mset (map (seen_as std_unstr) [source', kustomizationCR src])"
    if "f \<in> set (fx_Sources flux_fixtures)" for f
    using that s(1) m
    by (intro exI [of _ git_source] exI [of _ source] exI [of _ "[kustomizationCR git_source, ?want]"])
      (simp add: flux_fixtures_def, simp add: git_source_def)
  then show ?thesis
    unfolding flux_conforms using k u by (auto simp: flux_fixtures_def git_repo_judged)
qed

end
