(* ===== verification/ClusterConformance.thy ===== *)
theory ClusterConformance
  imports EngineConformance
begin

section \<open>The cluster conformance suite (\<open>internal/cluster/conformance.go\<close>)\<close>

text \<open>
  The suite the domain ships for its provisioners: a run of the four operations over the backend's
  state and the files, ended by the first assertion that fails, with a final \<open>Delete\<close> whatever happened. The YAML
  decoder that reads the contexts of a kubeconfig is a parameter.
\<close>

subsection \<open>The suite\<close>

type_synonym 's probe = "'s \<Rightarrow> verdict \<times> 's"

text \<open>The operations that act on the backend alone, over the backend and the files.\<close>

definition on_backend :: "('w \<Rightarrow> 'a \<times> 'w) \<Rightarrow> 'w \<times> fsys \<Rightarrow> 'a \<times> 'w \<times> fsys" where
  "on_backend f s = (case f (fst s) of (r, w) \<Rightarrow> (r, w, snd s))"

text \<open>Assertions in sequence, the first failure ends the run.\<close>

definition andP :: "'s probe \<Rightarrow> 's probe \<Rightarrow> 's probe" where
  "andP a b w = (case a w of (Some msg, w1) \<Rightarrow> (Some msg, w1) | (None, w1) \<Rightarrow> b w1)"

definition conformance_name :: string where "conformance_name = ''cube-conformance''"

definition cluster_spec_validation :: "'w driver \<Rightarrow> string \<Rightarrow> verdict" where
  "cluster_spec_validation d name =
     (case dr_validator d of
        None \<Rightarrow> None
      | Some v \<Rightarrow>
          if v \<lparr>vs_Name = name, vs_ForProvider = None\<rparr> \<noteq> None then Some ''ValidateSpec (no payload)''
          else (case v \<lparr>vs_Name = name, vs_ForProvider = Some ''[1]''\<rparr> of
                  None \<Rightarrow> Some ''ValidateSpec (invalid payload): want *cubeerr.Coded''
                | Some e \<Rightarrow>
                    (case err_code e of
                       None \<Rightarrow> Some ''ValidateSpec (invalid payload): want *cubeerr.Coded''
                     | Some c \<Rightarrow> if c \<noteq> CodeInvalidForProvider then Some ''code'' else None)))"

definition assertExists :: "'w provisioner \<Rightarrow> string \<Rightarrow> bool \<Rightarrow> ('w \<times> fsys) probe" where
  "assertExists p name want s =
     (case on_backend (pv_Exists p name) s of
        (Inl e, s1) \<Rightarrow> (Some ''Exists'', s1)
      | (Inr got, s1) \<Rightarrow> (if got \<noteq> want then Some ''Exists: unexpected answer'' else None, s1))"

definition succeeds :: "('s \<Rightarrow> err option \<times> 's) \<Rightarrow> string \<Rightarrow> 's probe" where
  "succeeds f what s = (case f s of (Some e, s1) \<Rightarrow> (Some what, s1) | (None, s1) \<Rightarrow> (None, s1))"

definition assertEnsureIdempotent :: "'w provisioner \<Rightarrow> string \<Rightarrow> string \<Rightarrow> ('w \<times> fsys) probe" where
  "assertEnsureIdempotent p name raw =
     andP (succeeds (on_backend (pv_Ensure p \<lparr>vs_Name = name, vs_ForProvider = None\<rparr>)) ''Ensure (second, must no-op)'')
    (andP (assertExists p name True)
      (\<lambda>s. case on_backend (pv_Kubeconfig p name) s of
         (Inl e, s1) \<Rightarrow> (Some ''Kubeconfig after second Ensure'', s1)
       | (Inr raw', s1) \<Rightarrow> (if raw \<noteq> raw' then Some ''Ensure on an existing cluster must no-op'' else None, s1)))"

definition assertKubeconfigHasContexts :: "(string \<Rightarrow> string list res) \<Rightarrow> string \<Rightarrow> verdict" where
  "assertKubeconfigHasContexts contexts raw =
     (case contexts raw of
        Inl e \<Rightarrow> Some ''Kubeconfig not parseable YAML''
      | Inr cs \<Rightarrow> if length cs = 0 then Some ''Kubeconfig has no contexts'' else None)"

definition conformance_body :: "(string \<Rightarrow> string list res) \<Rightarrow> 'w driver \<Rightarrow> ('w \<times> fsys) probe" where
  "conformance_body contexts d =
     (let p = dr_provisioner d; name = conformance_name
      in andP (\<lambda>s. (cluster_spec_validation d name, s))
        (andP (assertExists p name False)
        (andP (succeeds (on_backend (pv_Ensure p \<lparr>vs_Name = name, vs_ForProvider = None\<rparr>)) ''Ensure'')
        (andP (assertExists p name True)
          (\<lambda>s. case on_backend (pv_Kubeconfig p name) s of
             (Inl e, s1) \<Rightarrow> (Some ''Kubeconfig'', s1)
           | (Inr raw, s1) \<Rightarrow>
               andP (\<lambda>s. (assertKubeconfigHasContexts contexts raw, s))
              (andP (assertEnsureIdempotent p name raw)
              (andP (succeeds (pv_Delete p name) ''Delete'')
              (andP (assertExists p name False)
              (andP (succeeds (pv_Delete p name) ''Delete (second, must no-op)'')
                (\<lambda>s. case on_backend (pv_Kubeconfig p name) s of
                   (Inl e, s2) \<Rightarrow> (None, s2)
                 | (Inr _, s2) \<Rightarrow> (Some ''Kubeconfig after Delete: want error'', s2)))))) s1)))))"

definition RunClusterConformance :: "(string \<Rightarrow> string list res) \<Rightarrow> 'w driver \<Rightarrow> ('w \<times> fsys) probe" where
  "RunClusterConformance contexts d s =
     (case conformance_body contexts d s of
        (v, s1) \<Rightarrow>
          (case pv_Delete (dr_provisioner d) conformance_name s1 of
             (None, s2) \<Rightarrow> (v, s2)
           | (Some e, s2) \<Rightarrow> (Some (case v of None \<Rightarrow> ''cleanup: delete cluster'' | Some msg \<Rightarrow> msg), s2)))"

lemma assertKubeconfigHasContexts_None [simp]:
  "assertKubeconfigHasContexts contexts raw = None \<longleftrightarrow> (\<exists>cs. contexts raw = Inr cs \<and> cs \<noteq> [])"
  by (auto simp: assertKubeconfigHasContexts_def split: sum.splits)

subsection \<open>The kind driver on a working host\<close>

text \<open>
  What a host with a working container runtime answers to the calls the suite makes: clusters are
  listed, a temporary directory can be made beside them, a delete of the suite's cluster succeeds
  whether or not there is one, a listed cluster has a kubeconfig with a context, and a YAML array
  is not a \<open>Cluster\<close>. Nothing is said of a create, which fails where the host ports of the
  default configuration are taken.
\<close>

definition kind_healthy :: "('h, 'k) kind_lib \<Rightarrow> (string \<Rightarrow> string list res) \<Rightarrow> bool" where
  "kind_healthy L contexts \<longleftrightarrow>
     (\<forall>h k. \<exists>ns. kl_List L h k = Inr ns) \<and>
     (\<forall>k. \<exists>t k'. kl_MkdirTemp L ''cube-idp-kind-*'' k = Inr (t, k')) \<and>
     (\<forall>h s. fst (kl_Delete L h conformance_name '''' s) = None) \<and>
     (\<forall>h k ns. kl_List L h k = Inr ns \<longrightarrow> conformance_name \<in> set ns \<longrightarrow>
        (\<exists>raw cs. kl_KubeConfig L h conformance_name False k = Inr raw \<and> contexts raw = Inr cs \<and> cs \<noteq> [])) \<and>
     (\<exists>e. kl_UnmarshalStrict L ''[1]'' = Inl e)"

definition listed :: "('h, 'k) kind_lib \<Rightarrow> 'h \<Rightarrow> string \<Rightarrow> 'k \<Rightarrow> bool" where
  "listed L h n k \<longleftrightarrow> (\<exists>ns. kl_List L h k = Inr ns \<and> n \<in> set ns)"

text \<open>The one create of the suite: the default configuration under the suite's name.\<close>

definition suite_create :: "('h, 'k) kind_lib \<Rightarrow> 'h \<Rightarrow> 'k \<Rightarrow> err option \<times> 'k" where
  "suite_create L h k =
     (case kl_MkdirTemp L ''cube-idp-kind-*'' k of
        Inl e \<Rightarrow> (Some e, k)
      | Inr (t, k') \<Rightarrow>
          kl_Create L h conformance_name (defaultClusterConfig\<lparr>kk_Name := conformance_name\<rparr>) (path_join t ''kubeconfig'') k')"

lemma kind_healthyD:
  assumes "kind_healthy L contexts"
  shows "\<exists>ns. kl_List L h k = Inr ns"
    and "\<exists>t k'. kl_MkdirTemp L ''cube-idp-kind-*'' k = Inr (t, k')"
    and "fst (kl_Delete L h conformance_name '''' s) = None"
    and "kl_List L h k = Inr ns \<Longrightarrow> conformance_name \<in> set ns \<Longrightarrow>
      \<exists>raw cs. kl_KubeConfig L h conformance_name False k = Inr raw \<and> contexts raw = Inr cs \<and> cs \<noteq> []"
  using assms unfolding kind_healthy_def by blast+

lemma healthy_spec_validation:
  "kind_healthy L contexts \<Longrightarrow>
     cluster_spec_validation \<lparr>dr_provisioner = p, dr_validator = Some (ValidateSpec L)\<rparr> name = None"
  by (auto simp: kind_healthy_def cluster_spec_validation_def ValidateSpec_def decodeForProvider_def hasForProvider_def
      NewInvalidForProviderError_def)

lemma healthy_Exists:
  assumes "kind_healthy L contexts" and "fst w = Some (Inr h)"
  shows "kind_Exists L n w = (Inr (listed L h n (snd w)), w)"
proof -
  obtain ns where "kl_List L h (snd w) = Inr ns" using kind_healthyD(1) [OF assms(1)] by blast
  then show ?thesis by (simp add: kind_Exists_again [OF assms(2)] listed_def)
qed

lemma healthy_Ensure_present:
  assumes "kind_healthy L contexts" and "fst w = Some (Inr h)" and "listed L h n (snd w)"
  shows "kind_Ensure L \<lparr>vs_Name = n, vs_ForProvider = None\<rparr> w = (None, w)"
  using healthy_Exists [OF assms(1,2), of n] assms(3) by (simp add: kind_Ensure_def clusterConfig_def hasForProvider_def)

text \<open>Where no cluster has the suite's name, Ensure does what the create does.\<close>

lemma healthy_Ensure_absent:
  assumes "kind_laws L" and H: "kind_healthy L contexts" and w: "fst w = Some (Inr h)"
    and "\<not> listed L h conformance_name (snd w)"
  shows "\<exists>r k. kind_Ensure L \<lparr>vs_Name = conformance_name, vs_ForProvider = None\<rparr> w = (r, (Some (Inr h), k)) \<and>
    (r = None \<longleftrightarrow> fst (suite_create L h (snd w)) = None) \<and> (r = None \<longrightarrow> listed L h conformance_name k)"
proof -
  let ?n = conformance_name and ?cfg = "defaultClusterConfig\<lparr>kk_Name := conformance_name\<rparr>"
  obtain t k1 where t: "kl_MkdirTemp L ''cube-idp-kind-*'' (snd w) = Inr (t, k1)" using kind_healthyD(2) [OF H] by blast
  obtain r k where k: "kind_create L h ?n ?cfg (snd w) = (r, k)" by fastforce
  then have s: "r = None \<longleftrightarrow> fst (suite_create L h (snd w)) = None"
    by (auto simp: kind_create_def suite_create_def t split: prod.splits option.splits)
  obtain ms where "kl_List L h k = Inr ms" using kind_healthyD(1) [OF H] by blast
  with kind_create_listed [OF assms(1)] k have "r = None \<longrightarrow> listed L h ?n k" by (auto simp: listed_def)
  moreover have "kind_Ensure L \<lparr>vs_Name = ?n, vs_ForProvider = None\<rparr> w = (r, (Some (Inr h), k))"
    using healthy_Exists [OF H w, of ?n] assms(4) k kp_of_cache [OF w, of L] w
    by (simp add: kind_Ensure_def clusterConfig_def hasForProvider_def)
  ultimately show ?thesis using s by (intro exI [of _ r] exI [of _ k] conjI)
qed

lemma healthy_Delete:
  assumes "kind_laws L" and H: "kind_healthy L contexts"
  shows "\<exists>k fs'. kind_Delete L conformance_name ((Some (Inr h), k0), fs) = (None, (Some (Inr h), k), fs') \<and>
    \<not> listed L h conformance_name k \<and>
    (\<exists>e. kind_Kubeconfig L conformance_name (Some (Inr h), k) = (Inl e, (Some (Inr h), k)))"
proof -
  have "fst (kl_Delete L h conformance_name '''' (k0, fs)) = None" by (rule kind_healthyD(3) [OF H])
  then obtain k fs' where k: "kl_Delete L h conformance_name '''' (k0, fs) = (None, k, fs')" by (metis prod.collapse)
  then have "kind_Delete L conformance_name ((Some (Inr h), k0), fs) = (None, (Some (Inr h), k), fs')"
    by (simp add: kind_Delete_def kp_of_cache)
  moreover have "(\<forall>ns. kl_List L h k = Inr ns \<longrightarrow> conformance_name \<notin> set ns) \<and>
      (\<exists>e. kl_KubeConfig L h conformance_name False k = Inl e)"
    using assms(1) k unfolding kind_laws_def by blast
  ultimately show ?thesis
    by (auto simp: listed_def kind_Kubeconfig_def kp_of_cache)
qed

lemma healthy_Kubeconfig:
  assumes "kind_healthy L contexts" and w: "fst w = Some (Inr h)" and "listed L h conformance_name (snd w)"
  shows "\<exists>raw. kind_Kubeconfig L conformance_name w = (Inr raw, w) \<and> assertKubeconfigHasContexts contexts raw = None"
proof -
  from assms(3) obtain raw cs where "kl_KubeConfig L h conformance_name False (snd w) = Inr raw" "contexts raw = Inr cs" "cs \<noteq> []"
    using kind_healthyD(4) [OF assms(1)] unfolding listed_def by blast
  then show ?thesis using kp_of_cache [OF w, of L] by (simp add: kind_Kubeconfig_def)
qed

lemma kind_fields [simp]:
  "pv_Ensure (kind_provisioner L) = kind_Ensure L" "pv_Exists (kind_provisioner L) = kind_Exists L"
  "pv_Delete (kind_provisioner L) = kind_Delete L" "pv_Kubeconfig (kind_provisioner L) = kind_Kubeconfig L"
  by (simp_all add: kind_provisioner_def)

text \<open>The suite up to its verdict, over a driver that has detected its runtime.\<close>

lemma conformance_created:
  assumes laws: "kind_laws L" and H: "kind_healthy L contexts" and l1: "listed L h conformance_name k1"
    and d: "drv = \<lparr>dr_provisioner = kind_provisioner L, dr_validator = Some (ValidateSpec L)\<rparr>"
    and 1: "kind_Exists L conformance_name w = (Inr False, (Some (Inr h), k0))"
    and 2: "kind_Ensure L \<lparr>vs_Name = conformance_name, vs_ForProvider = None\<rparr> (Some (Inr h), k0) = (None, (Some (Inr h), k1))"
  shows "\<exists>k fs'. conformance_body contexts drv (w, fs) = (None, (Some (Inr h), k), fs')"
proof -
  let ?n = conformance_name and ?s = "\<lparr>vs_Name = conformance_name, vs_ForProvider = None\<rparr>" and ?c = "Some (Inr h) :: 'a res option"
  have 3: "kind_Exists L ?n (?c, k1) = (Inr True, (?c, k1))" using healthy_Exists [OF H, of "(?c, k1)" h ?n] l1 by simp
  obtain raw where 4: "kind_Kubeconfig L ?n (?c, k1) = (Inr raw, (?c, k1))" "assertKubeconfigHasContexts contexts raw = None"
    using healthy_Kubeconfig [OF H, of "(?c, k1)" h] l1 by auto
  have 5: "kind_Ensure L ?s (?c, k1) = (None, (?c, k1))" using healthy_Ensure_present [OF H, of "(?c, k1)" h ?n] l1 by simp
  obtain k2 fs2 where 6: "kind_Delete L ?n ((?c, k1), fs) = (None, (?c, k2), fs2)" "\<not> listed L h ?n k2"
    using healthy_Delete [OF laws H] by blast
  have 7: "kind_Exists L ?n (?c, k2) = (Inr False, (?c, k2))" using healthy_Exists [OF H, of "(?c, k2)" h ?n] 6 by simp
  obtain k3 fs3 e where 8: "kind_Delete L ?n ((?c, k2), fs2) = (None, (?c, k3), fs3)" "kind_Kubeconfig L ?n (?c, k3) = (Inl e, (?c, k3))"
    using healthy_Delete [OF laws H] by blast
  have idem: "assertEnsureIdempotent (kind_provisioner L) ?n raw ((?c, k1), fs) = (None, (?c, k1), fs)"
    by (simp add: assertEnsureIdempotent_def andP_def succeeds_def assertExists_def on_backend_def 3 4 5)
  show ?thesis
    by (simp add: conformance_body_def Let_def d healthy_spec_validation [OF H] andP_def succeeds_def assertExists_def
        on_backend_def 1 2 3 4 idem 6 7 8 del: assertKubeconfigHasContexts_None)
qed

text \<open>
  C29. The kind driver meets the contract of its domain: on a host whose container runtime is
  detected and answers, and where no cluster has the suite's name, a freshly constructed driver
  passes the whole conformance suite exactly when kind can create a cluster of the default
  configuration there; where it cannot, because the host ports are taken or for any other reason,
  the suite stops at its first Ensure and at nothing else. Either way no cluster of the suite's name
  is left.
\<close>

theorem kind_conforms:
  assumes laws: "kind_laws L" and H: "kind_healthy L contexts"
    and h: "kl_Detect L k = Inr h" and absent: "\<not> listed L h conformance_name k"
    and d: "kind_New L (c, k) = (drv, w)"
  shows "\<exists>w' fs'. RunClusterConformance contexts drv (w, fs) =
      (if fst (suite_create L h k) = None then None else Some ''Ensure'', w', fs') \<and>
    \<not> listed L h conformance_name (snd w')"
proof -
  let ?n = conformance_name and ?s = "\<lparr>vs_Name = conformance_name, vs_ForProvider = None\<rparr>"
  have drv: "drv = \<lparr>dr_provisioner = kind_provisioner L, dr_validator = Some (ValidateSpec L)\<rparr>" and w: "w = (None, k)"
    using d by (simp_all add: kind_New_def)
  let ?c = "Some (Inr h) :: 'a res option"
  have "kp L w = (Inr h, (?c, k))" by (simp add: kp_def w h Let_def)
  then have 1: "kind_Exists L ?n w = (Inr False, (?c, k))"
    using healthy_Exists [OF H, of "(?c, k)" h ?n] absent kp_of_cache [of "(?c, k)" "Inr h" L] by (simp add: kind_Exists_def)
  obtain r k1 where 2: "kind_Ensure L ?s (?c, k) = (r, (?c, k1))" "r = None \<longleftrightarrow> fst (suite_create L h k) = None"
      "r = None \<longrightarrow> listed L h ?n k1"
    using healthy_Ensure_absent [OF laws H, of "(?c, k)" h] absent by auto
  have "\<exists>k3 fs3. conformance_body contexts drv (w, fs) = (if r = None then None else Some ''Ensure'', (?c, k3), fs3)"
  proof (cases r)
    case None
    with conformance_created [OF laws H _ drv 1, of k1 fs] 2 show ?thesis by simp
  next
    case (Some e)
    then show ?thesis
      by (simp add: conformance_body_def Let_def drv healthy_spec_validation [OF H] andP_def succeeds_def assertExists_def
          on_backend_def 1 2(1))
  qed
  then obtain k3 fs3 where b: "conformance_body contexts drv (w, fs) = (if r = None then None else Some ''Ensure'', (?c, k3), fs3)" by blast
  obtain k4 fs4 where "kind_Delete L ?n ((?c, k3), fs3) = (None, (?c, k4), fs4)" "\<not> listed L h ?n k4"
    using healthy_Delete [OF laws H] by blast
  with b 2(2) show ?thesis by (simp add: RunClusterConformance_def drv)
qed

text \<open>A library that cannot create where a cluster already holds the host ports.\<close>

definition one_cluster_kind :: "(unit, string list) kind_lib" where
  "one_cluster_kind = sample_kind\<lparr>kl_Create := (\<lambda>h n c p k. if k = [] then (None, [n]) else (Some (Plain ''port is already allocated''), k))\<rparr>"

theorem kind_conforms_witness:
  "fst (RunClusterConformance (\<lambda>raw. Inr [''kind'']) (fst (kind_New one_cluster_kind (None, []))) ((None, []), \<lparr>files = [], dirs = []\<rparr>)) = None \<and>
   fst (RunClusterConformance (\<lambda>raw. Inr [''kind'']) (fst (kind_New one_cluster_kind (None, [''prod'']))) ((None, [''prod'']), \<lparr>files = [], dirs = []\<rparr>)) =
     Some ''Ensure''"
proof -
  have l: "kind_laws one_cluster_kind"
    by (auto simp: kind_laws_def one_cluster_kind_def sample_kind_def split: if_splits)
  have h: "kind_healthy one_cluster_kind (\<lambda>raw. Inr [''kind''])"
    by (simp add: kind_healthy_def one_cluster_kind_def sample_kind_def split_beta)
  have a: "\<not> listed one_cluster_kind () conformance_name []" "\<not> listed one_cluster_kind () conformance_name [''prod'']"
    by (simp_all add: listed_def one_cluster_kind_def sample_kind_def conformance_name_def)
  have n: "kind_New one_cluster_kind (None, k) = (fst (kind_New one_cluster_kind (None, k)), (None, k))" for k
    by (simp add: kind_New_def)
  have d: "kl_Detect one_cluster_kind k = Inr ()" for k by (simp add: one_cluster_kind_def sample_kind_def)
  have "fst (suite_create one_cluster_kind () []) = None" "fst (suite_create one_cluster_kind () [''prod'']) \<noteq> None"
    by (simp_all add: suite_create_def one_cluster_kind_def sample_kind_def)
  with kind_conforms [OF l h d a(1) n, of "\<lparr>files = [], dirs = []\<rparr>"] kind_conforms [OF l h d a(2) n, of "\<lparr>files = [], dirs = []\<rparr>"] show ?thesis by auto
qed

end
