(* ===== verification/Spec2Isabelle.thy ===== *)
theory Spec2Isabelle
  imports CliFiles BootstrapCodes BootstrapBudget ClusterConformance
begin

section \<open>cube-idp: the verified model\<close>

text \<open>
  \<^bold>\<open>The program.\<close> \<open>cube-idp\<close> (Go) builds an internal developer platform on a Kubernetes cluster
  from one document, \<open>cube.yaml\<close>. A verb of the command line loads and validates the document,
  \<open>create\<close> provisions a cluster through a driver (kind) and merges a context into the user's
  kubeconfig, and \<open>bootstrap\<close> installs the platform: the Flux manifests, then the ordered list of
  prerequisite units (gateway CRDs, the certificate authority's Secrets, the gateway, or packs that
  override them), then the sync wiring, each waited for; at the end it splices a rewrite rule into
  the live CoreDNS configuration and writes the operator's certificate. Packs are directories in a
  snapshot file system, resolved from a reference, checked, and rendered to objects. The trust
  verbs put the certificate into operating system stores and keep a ledger of it.

  \<^bold>\<open>Conventions.\<close> A Go function that returns an error is a function into \<open>err + 'a\<close>, or
  \<open>err option\<close> when there is nothing else to return; a function that changes the world takes and
  returns its state. A Go string is a list of 8-bit characters; \<open>range\<close> over one decodes UTF-8
  (\<open>GoStrings\<close>). A Go map is an association list with distinct keys (\<open>gomap\<close>, \<open>obj\<close>), compared
  where order is not observable as a map. An error is a chain of wrapped messages in which
  \<open>Coded\<close> carries the code and the values its summary interpolates; the fixed English texts of
  summaries and remediations are left out.

  \<^bold>\<open>Theories, their source under\<close> \<open>src/\<close>\<^bold>\<open>, and what their lemmas show.\<close>

  \<^item> \<open>Prelude\<close>, \<open>GoStrings\<close>, \<open>GoOS\<close>, \<open>GoFS\<close>, \<open>JsonVal\<close>, \<open>KubeStatus\<close>: the parts of Go's standard
    library and of client-go's accessors that several components use: strings and runes, a file
    system with its calls (\<open>fsys\<close>, \<open>os_env\<close>), read-only file systems (\<open>gofs\<close>), decoded documents
    (\<open>val\<close>), the accessors of unstructured objects (\<open>unstr\<close>, \<open>ustatus\<close>).
  \<^item> \<open>CubeErr\<close>: \<open>internal/cubeerr\<close>; codes, chains and the exit code of the process.
  \<^item> \<open>ConfigTypes\<close>, \<open>ConfigValidate\<close>, \<open>ConfigLoad\<close>, \<open>ConfigScaffold\<close>: \<open>api/config/v1alpha1\<close> and
    \<open>internal/config\<close>; the document, its defaults, every validation rule, the load pipeline and the
    scaffold. A document that loads is complete, defaulting is idempotent, a scaffold loads.
  \<^item> \<open>PackErrors\<close>, \<open>PackDeps\<close>, \<open>PackValues\<close>, \<open>PackSubst\<close>, \<open>PackNamespace\<close>, \<open>PackKustomize\<close>,
    \<open>PackRender\<close>: \<open>internal/pack\<close>; loading and rendering a pack. The order of instances is a
    topological sort equal to a reference definition and cycles are exactly what it refuses; the
    merge is RFC 7386; an accepted kustomization has no remote reference; namespaces are forced on
    namespaced objects and only there.
  \<^item> \<open>PackNew\<close>: \<open>internal/pack/new.go\<close>, \<open>new_chart.go\<close>, \<open>scaffolds.go\<close>; scaffolding, forking and
    chart scaffolds. A fork differs from its source in the name alone, and a new pack is either
    written in full or the file system is as it was.
  \<^item> \<open>RefTree\<close>, \<open>Ref\<close>: \<open>internal/ref\<close>; the grammar of references, the contained walk of a local
    directory, digests and the snapshot. What a resolved tree holds comes from inside its root,
    the snapshot shows exactly that, and the digest identifies it. A file whose name is not valid
    UTF-8 is pinned and listed, and the snapshot refuses to read it, as the code does.
  \<^item> \<open>CaLedger\<close>, \<open>CaMint\<close>, \<open>CaSecrets\<close>, \<open>CaTrust\<close>: \<open>internal/ca\<close>; the certificate authority, its
    Secrets, the trust ledger and the two stores.
  \<^item> \<open>EngineFlux\<close>: \<open>internal/engine\<close>; the substrate, the wiring and its judgment.
  \<^item> \<open>GatewayCorefile\<close>, \<open>GatewayObjects\<close>: \<open>internal/gateway\<close>; the Corefile splice and its contract,
    the gateway's objects and predicates.
  \<^item> \<open>Bootstrap\<close>, \<open>BootstrapPlan\<close>, \<open>BootstrapCodes\<close>, \<open>BootstrapBudget\<close>: \<open>internal/bootstrap\<close>; the applier. Whatever
    happens, the applied objects are a prefix of the plan, each recorded before; success means that
    everything was applied and seen ready; every failure carries a code; the requests of a run
    are bounded by its plan and the deadline.
  \<^item> \<open>ClusterKubeconfig\<close>, \<open>Cluster\<close>, \<open>ClusterKind\<close>: \<open>internal/cluster\<close>; the kubeconfig merge and its
    inverse, the transactions over any provisioner, the kind driver as an instance. A provisioner's
    delete acts on the files too: kind, given no path, edits the kubeconfigs of \<open>KUBECONFIG\<close> or the
    one of the home directory (\<open>kind_kubeconfig\<close>).
  \<^item> \<open>CliTrust\<close>, \<open>CliCoreDNS\<close>, \<open>CliPrereq\<close>, \<open>CliVerbs\<close>, \<open>CliBootstrap\<close>, \<open>CliPack\<close>:
    \<open>internal/cli\<close> and \<open>internal/kube\<close>; the verbs, which compose all of the above, with the lines
    they print as \<open>%q\<close> prints them.
  \<^item> \<open>CliTree\<close>, \<open>CliRoot\<close>, \<open>CliFiles\<close>: \<open>internal/cli/root.go\<close>, \<open>exit.go\<close> and the constructors of the
    commands; the command tree as data, \<open>perform\<close> (which function an action runs, with the flags it
    reads) and \<open>Execute\<close>, from a command line to an exit code over one world: the state of the
    provisioner, the files, the output, the API server with its call log, the readiness probes of
    \<open>status\<close> (\<open>vb_probes\<close>), the trust store commands and the errors rendered. The program always returns with 0, 1 or 2; what changed names the verb
    that ran; a document that does not load stops its verb with the world unchanged; no existing
    file but the verb's own, or for \<open>delete\<close> one of those kubeconfigs, is overwritten or removed.
  \<^item> \<open>EngineConformance\<close>, \<open>ClusterConformance\<close>: the suites the two domains ship for their drivers, as
    functions of a driver. The Flux driver passes exactly on fixtures that describe Flux; on a host
    that answers (\<open>kind_healthy\<close>) the kind driver passes exactly when the suite's own create succeeds
    (\<open>suite_create\<close>), which the occupied host ports of another cluster prevent.

  \<^bold>\<open>Interfaces.\<close> A contract that one component states and others rely on is a locale, interpreted on
  the model's definitions in the provider's theory: \<open>unstructured_access\<close> (accessors of an object),
  \<open>current_judge\<close> (a judgment reports ready only on a current status; the Flux driver and the
  gateway's predicate), \<open>installation_record\<close> (the ledger as a map), \<open>trust_store\<close> (both stores, each
  with what licenses its deletions: \<open>keychain_match\<close>, \<open>anchor_match\<close>) and
  \<open>provisioner_contract\<close> (the kind driver).

  \<^bold>\<open>Parameters.\<close> What is not in the repository is an argument, gathered in records: the YAML and
  JSON codecs (\<open>yaml_env\<close>, \<open>kube_yaml\<close>, \<open>ledger_yaml\<close>), CUE (\<open>cue_lib\<close>), kustomize
  (\<open>kustomize_lib\<close>), the embedded manifests, the kind library (\<open>kind_lib\<close>), client-go (\<open>kube_lib\<close>,
  \<open>api\<close>, \<open>cm_client\<close>), the readers and the formatter behind \<open>pack\<close> (\<open>new_env\<close>, \<open>pack_cli\<close>), the cryptography (\<open>crypto\<close>) and the operating system (\<open>os_env\<close>, \<open>ref_env\<close>).
  Where a theorem relies on more than their type, the law is a named predicate and a hypothesis:
  \<open>crypto_ok\<close> (what a certificate issued from a template parses to; without \<open>BasicConstraintsValid\<close>
  in the template it is no CA), \<open>optimistic\<close> (the API server's
  \<open>resourceVersion\<close>), \<open>kind_laws\<close> (a created cluster is listed),
  \<open>kind_deletes_own\<close> (which files a delete of kind leaves alone), \<open>typed_keeps\<close>, \<open>yaml_keeps\<close> and
  \<open>yaml_roundtrip\<close> (a rendered document decodes to itself), \<open>schema_law\<close> (what the pack schema
  admits), \<open>walks_tree\<close> (the walk of a directory gives each entry once, a file under any name the
  system lists, and nothing below a directory whose name is no \<open>fs.ValidPath\<close>), \<open>evals_clean\<close> (resolved
  links are clean absolute paths), \<open>fresh_temps\<close> (temporary names
  are new), \<open>encodes_lines\<close> (an encoded document is whole lines, none a separator), \<open>cobra_law\<close> (a
  matched command has a function and admissible arguments, and flags that were not given have their
  defaults; \<open>plain_cobra\<close> obeys it), and that the errors of the YAML library, the operating system and
  the API client carry no code of the program. Each has a witness with a concrete instance.

  \<^bold>\<open>Bounds and fuel.\<close> The deadline of a context is a number of polling intervals (\<open>rn_left\<close>, the
  \<open>timeout\<close> of \<open>runBootstrap\<close>): a wait that is not over when none is left ends with the timeout
  error, as in the code; nothing else consumes it. \<open>walk_dir\<close> has the depth of the deepest stored
  path as fuel, and \<open>treeFS_faithful\<close> shows that is enough. All other recursion is structural or
  has its termination proof. Serial numbers are
  integers below 2 to the power of 128, as \<open>newSerial\<close> draws them.

  \<^bold>\<open>Not modelled.\<close> The parsing of a command line (cobra) and the binding of signals to a context in
  \<open>main\<close>; of the rendering of an error, its texts: standard error is the list of the errors
  rendered; generated deep copies and the registration of the scheme; cancellation other than by
  deadline; the modes and times of files; the concurrency of two processes of the program, except
  that other writers may act between the calls of a splice and of an installation.
\<close>

end
